(* ===== verification/Prelude.thy ===== *)
theory Prelude
  imports Complex_Main "HOL-Library.AList"
begin

text \<open>
  Shared vocabulary of the development: JavaScript values, the exceptions the browser code
  can raise, the string operations of the language that the sources use, and a
  state-and-exception computation in which, as in JavaScript, what was written before a
  \<open>throw\<close> stays written.

  Strings are \<^typ>\<open>string\<close>, read as the UTF-8 bytes of the JavaScript string; every
  search or cut in the sources is at an ASCII character, where bytes and code units agree.
  Numbers are rational (the rounding of IEEE doubles and the infinities are not modelled);
  \<open>NaN\<close> is a value of its own.
\<close>

section \<open>Values and exceptions\<close>

datatype jsval =
    Undefined
  | Null
  | Bool bool
  | Num rat
  | NaN
  | Str string
  | Arr "jsval list"
  | Obj "(string \<times> jsval) list"

datatype js_error =
    TypeError
  | URIError
  | SyntaxError
  | InvalidCharacterError
  | Thrown string

named_theorems js_simps \<open>evaluation of the JavaScript operations\<close>
named_theorems world_simps \<open>what an operation leaves unchanged in the client's state\<close>

fun truthy :: "jsval \<Rightarrow> bool" where
  "truthy Undefined = False"
| "truthy Null = False"
| "truthy (Bool b) = b"
| "truthy (Num r) = (r \<noteq> 0)"
| "truthy NaN = False"
| "truthy (Str s) = (s \<noteq> [])"
| "truthy (Arr xs) = True"
| "truthy (Obj ps) = True"

text \<open>Property read \<open>v[k]\<close> of a parsed JSON value.\<close>

fun getp :: "jsval \<Rightarrow> string \<Rightarrow> js_error + jsval" where
  "getp Undefined k = Inl TypeError"
| "getp Null k = Inl TypeError"
| "getp (Obj ps) k = Inr (case map_of ps k of None \<Rightarrow> Undefined | Some v \<Rightarrow> v)"
| "getp v k = Inr Undefined"

text \<open>String conversion; \<open>ns\<close> is the conversion of numbers.\<close>

fun js_join :: "string \<Rightarrow> string list \<Rightarrow> string" where
  "js_join sep [] = []"
| "js_join sep [x] = x"
| "js_join sep (x # y # zs) = x @ sep @ js_join sep (y # zs)"

fun js_str :: "(rat \<Rightarrow> string) \<Rightarrow> jsval \<Rightarrow> string" where
  "js_str ns Undefined = ''undefined''"
| "js_str ns Null = ''null''"
| "js_str ns (Bool b) = (if b then ''true'' else ''false'')"
| "js_str ns (Num r) = ns r"
| "js_str ns NaN = ''NaN''"
| "js_str ns (Str s) = s"
| "js_str ns (Arr xs) =
     js_join '','' (map (\<lambda>v. if v = Undefined \<or> v = Null then [] else js_str ns v) xs)"
| "js_str ns (Obj ps) = ''[object Object]''"

text \<open>
  Conversion to a number, \<open>None\<close> for \<open>NaN\<close>; \<open>sn\<close> is the conversion of strings.
\<close>

fun js_tonum :: "(string \<Rightarrow> rat option) \<Rightarrow> (rat \<Rightarrow> string) \<Rightarrow> jsval \<Rightarrow> rat option" where
  "js_tonum sn ns Undefined = None"
| "js_tonum sn ns Null = Some 0"
| "js_tonum sn ns (Bool b) = Some (if b then 1 else 0)"
| "js_tonum sn ns (Num r) = Some r"
| "js_tonum sn ns NaN = None"
| "js_tonum sn ns (Str s) = sn s"
| "js_tonum sn ns (Arr xs) = sn (js_str ns (Arr xs))"
| "js_tonum sn ns (Obj ps) = None"

section \<open>Strings\<close>

fun js_indexOf :: "string \<Rightarrow> string \<Rightarrow> int" where
  "js_indexOf pat [] = (if pat = [] then 0 else -1)"
| "js_indexOf pat (c # cs) =
     (if take (length pat) (c # cs) = pat then 0
      else let i = js_indexOf pat cs in if i < 0 then -1 else i + 1)"

text \<open>\<open>s.split(c)\<close> for a separator of one character: never the empty list.\<close>

fun js_split :: "char \<Rightarrow> string \<Rightarrow> string list" where
  "js_split c [] = [[]]"
| "js_split c (x # xs) =
     (if x = c then [] # js_split c xs
      else (case js_split c xs of [] \<Rightarrow> [[x]] | w # ws \<Rightarrow> (x # w) # ws))"

text \<open>Array read: out of range is \<open>undefined\<close>, here \<open>None\<close>.\<close>

definition js_nth :: "'a list \<Rightarrow> nat \<Rightarrow> 'a option" where
  "js_nth xs i = (if i < length xs then Some (xs ! i) else None)"

text \<open>\<open>s.substr(start, n)\<close>: a negative start counts from the end.\<close>

definition js_substr :: "string \<Rightarrow> int \<Rightarrow> nat \<Rightarrow> string" where
  "js_substr s start n =
     take n (drop (nat (if start < 0 then max 0 (int (length s) + start) else start)) s)"

text \<open>\<open>s.substring(0, end)\<close>: a negative end is 0.\<close>

definition js_prefix :: "string \<Rightarrow> int \<Rightarrow> string" where
  "js_prefix s end = take (nat end) s"

text \<open>\<open>s.indexOf(pat, from)\<close>.\<close>

definition js_indexOf_from :: "string \<Rightarrow> nat \<Rightarrow> string \<Rightarrow> int" where
  "js_indexOf_from pat from s =
     (let i = js_indexOf pat (drop from s) in if i < 0 then -1 else i + int from)"

definition truthy_str :: "string option \<Rightarrow> bool" where
  "truthy_str s = (case s of None \<Rightarrow> False | Some t \<Rightarrow> t \<noteq> [])"

lemma js_nth_Nil [simp]: "js_nth [] i = None"
  by (simp add: js_nth_def)

lemma js_nth_Cons_0 [simp]: "js_nth (x # xs) 0 = Some x"
  by (simp add: js_nth_def)

lemma js_nth_Cons_Suc [simp]: "js_nth (x # xs) (Suc i) = js_nth xs i"
  by (simp add: js_nth_def)

lemma js_nth_Cons_1 [simp]: "js_nth (x # xs) 1 = js_nth xs 0"
  by (simp add: js_nth_def)

lemma truthy_str_simps [simp]: "\<not> truthy_str None" "truthy_str (Some t) = (t \<noteq> [])"
  by (simp_all add: truthy_str_def)

lemma js_split_not_Nil [simp]: "js_split c s \<noteq> []"
  by (cases s) (auto split: list.splits)

lemma js_split_no_sep: "c \<notin> set s \<Longrightarrow> js_split c s = [s]"
  by (induction s) auto

lemma js_split_append_sep: "js_split c (s @ c # t) = js_split c s @ js_split c t"
proof (induction s)
  case Nil
  show ?case by simp
next
  case (Cons x s)
  then show ?case by (cases "js_split c s") auto
qed

lemma js_split_sep_app: "c \<notin> set s \<Longrightarrow> js_split c (s @ c # t) = s # js_split c t"
  by (simp add: js_split_append_sep js_split_no_sep)

lemma js_split_pieces: "w \<in> set (js_split c s) \<Longrightarrow> c \<notin> set w \<and> set w \<subseteq> set s"
  by (induction s arbitrary: w) (fastforce split: if_splits list.splits)+

lemma js_join_split: "js_join [c] (js_split c s) = s"
proof (induction s)
  case Nil
  show ?case by simp
next
  case (Cons x s)
  then show ?case
    by (cases "js_split c s" rule: remdups_adj.cases) auto
qed

lemma js_indexOf_ge: "-1 \<le> js_indexOf pat s"
  by (induction s) (auto simp: Let_def)

lemma js_indexOf_char_iff: "js_indexOf [c] s = -1 \<longleftrightarrow> c \<notin> set s"
proof (induction s)
  case Nil
  show ?case by simp
next
  case (Cons x s)
  then show ?case using js_indexOf_ge [of "[c]" s] by (auto simp: Let_def)
qed

lemma js_indexOf_prefix: "js_indexOf pat s = 0 \<longleftrightarrow> take (length pat) s = pat"
  by (cases s) (auto simp: Let_def)

section \<open>Computations with state and exceptions\<close>

type_synonym ('s, 'a) js = "'s \<Rightarrow> 's \<times> (js_error + 'a)"

definition ret :: "'a \<Rightarrow> ('s, 'a) js" where
  "ret x s = (s, Inr x)"

definition raise :: "js_error \<Rightarrow> ('s, 'a) js" where
  "raise e s = (s, Inl e)"

definition bindJ :: "('s, 'a) js \<Rightarrow> ('a \<Rightarrow> ('s, 'b) js) \<Rightarrow> ('s, 'b) js" where
  "bindJ m f s = (case m s of (t, Inl e) \<Rightarrow> (t, Inl e) | (t, Inr x) \<Rightarrow> f x t)"

definition upd :: "('s \<Rightarrow> 's) \<Rightarrow> ('s, unit) js" where
  "upd f s = (f s, Inr ())"

definition asks :: "('s \<Rightarrow> 'a) \<Rightarrow> ('s, 'a) js" where
  "asks f s = (s, Inr (f s))"

definition liftE :: "js_error + 'a \<Rightarrow> ('s, 'a) js" where
  "liftE r s = (s, r)"

lemma ret_apply [simp]: "ret x s = (s, Inr x)" by (simp add: ret_def)
lemma raise_apply [simp]: "raise e s = (s, Inl e)" by (simp add: raise_def)
lemma upd_apply [simp]: "upd f s = (f s, Inr ())" by (simp add: upd_def)
lemma asks_apply [simp]: "asks f s = (s, Inr (f s))" by (simp add: asks_def)
lemma liftE_apply [simp]: "liftE r s = (s, r)" by (simp add: liftE_def)

lemma bindJ_ret [simp]: "bindJ (ret x) f s = f x s" by (simp add: bindJ_def)
lemma bindJ_raise [simp]: "bindJ (raise e) f s = (s, Inl e)" by (simp add: bindJ_def)
lemma bindJ_upd [simp]: "bindJ (upd g) f s = f () (g s)" by (simp add: bindJ_def)
lemma bindJ_asks [simp]: "bindJ (asks g) f s = f (g s) s" by (simp add: bindJ_def)

lemma bindJ_liftE [simp]:
  "bindJ (liftE r) f s = (case r of Inl e \<Rightarrow> (s, Inl e) | Inr x \<Rightarrow> f x s)"
  by (simp add: bindJ_def split: sum.splits)

text \<open>
  The weakest precondition of a computation for a postcondition on return and one on a throw;
  the equations let the simplifier run through a composed operation.
\<close>

definition wp :: "('s, 'a) js \<Rightarrow> ('a \<Rightarrow> 's \<Rightarrow> bool) \<Rightarrow> ('s \<Rightarrow> bool) \<Rightarrow> 's \<Rightarrow> bool" where
  "wp m Q E s = (case m s of (t, Inl e) \<Rightarrow> E t | (t, Inr x) \<Rightarrow> Q x t)"

lemma wp_ret [simp]: "wp (ret x) Q E s = Q x s" by (simp add: wp_def)
lemma wp_raise [simp]: "wp (raise e) Q E s = E s" by (simp add: wp_def)
lemma wp_upd [simp]: "wp (upd f) Q E s = Q () (f s)" by (simp add: wp_def)
lemma wp_asks [simp]: "wp (asks f) Q E s = Q (f s) s" by (simp add: wp_def)

lemma wp_liftE [simp]: "wp (liftE r) Q E s = (case r of Inl e \<Rightarrow> E s | Inr x \<Rightarrow> Q x s)"
  by (simp add: wp_def)

lemma wp_bindJ [simp]: "wp (bindJ m f) Q E s = wp m (\<lambda>x. wp (f x) Q E) E s"
  by (simp add: wp_def bindJ_def split: prod.splits sum.splits)

lemma wp_cong:
  "wp m Q E s \<Longrightarrow> (\<And>x t. m s = (t, Inr x) \<Longrightarrow> Q x t \<Longrightarrow> Q' x t) \<Longrightarrow> (\<And>t. E t \<Longrightarrow> E' t)
     \<Longrightarrow> wp m Q' E' s"
  by (auto simp: wp_def split: prod.splits sum.splits)

lemma wpD: "wp m Q E s \<Longrightarrow> m s = (t, r) \<Longrightarrow> (case r of Inl e \<Rightarrow> E t | Inr x \<Rightarrow> Q x t)"
  by (simp add: wp_def split: sum.splits)

lemma wpI: "(\<And>t x. m s = (t, Inr x) \<Longrightarrow> Q x t) \<Longrightarrow> (\<And>t e. m s = (t, Inl e) \<Longrightarrow> E t) \<Longrightarrow> wp m Q E s"
  by (auto simp: wp_def split: prod.splits sum.splits)

end
