(* ===== verification/Kc_Promise.thy ===== *)
theory Kc_Promise
  imports Prelude
begin

text \<open>
  The promise object of \<open>keycloak.js\<close> (\<open>createPromise\<close>).  An operation returns the promise
  and the callbacks it calls, in order, each with its argument; the client's state machine
  then runs them.  The locale \<open>promise_contract\<close> is what the rest of the client relies on;
  its lemmas say which callbacks a settled promise has called, however registrations and the
  settlement are ordered.
\<close>

section \<open>The object\<close>

record 'cb promise =
  p_success :: bool
  p_error :: bool
  p_result :: jsval
  p_successCallback :: "'cb option"
  p_errorCallback :: "'cb option"

type_synonym 'cb calls = "('cb \<times> jsval) list"

definition createPromise :: "'cb promise" where
  "createPromise = \<lparr>p_success = False, p_error = False, p_result = Undefined,
     p_successCallback = None, p_errorCallback = None\<rparr>"

definition setSuccess :: "jsval \<Rightarrow> 'cb promise \<Rightarrow> 'cb promise \<times> 'cb calls" where
  "setSuccess result p =
     (let p' = p\<lparr>p_success := True, p_result := result\<rparr>
      in (p', case p_successCallback p' of None \<Rightarrow> [] | Some c \<Rightarrow> [(c, result)]))"

definition setError :: "jsval \<Rightarrow> 'cb promise \<Rightarrow> 'cb promise \<times> 'cb calls" where
  "setError result p =
     (let p' = p\<lparr>p_error := True, p_result := result\<rparr>
      in (p', case p_errorCallback p' of None \<Rightarrow> [] | Some c \<Rightarrow> [(c, result)]))"

definition on_success :: "'cb \<Rightarrow> 'cb promise \<Rightarrow> 'cb promise \<times> 'cb calls" where
  "on_success callback p =
     (if p_success p then (p, [(callback, p_result p)])
      else if \<not> p_error p then (p\<lparr>p_successCallback := Some callback\<rparr>, [])
      else (p, []))"

definition on_error :: "'cb \<Rightarrow> 'cb promise \<Rightarrow> 'cb promise \<times> 'cb calls" where
  "on_error callback p =
     (if p_error p then (p, [(callback, p_result p)])
      else if \<not> p_success p then (p\<lparr>p_errorCallback := Some callback\<rparr>, [])
      else (p, []))"

text \<open>Both settlements and both registrations, chosen by the outcome they are about.\<close>

definition settle :: "bool \<Rightarrow> jsval \<Rightarrow> 'cb promise \<Rightarrow> 'cb promise \<times> 'cb calls" where
  "settle ok v p = (if ok then setSuccess v p else setError v p)"

definition register :: "bool \<Rightarrow> 'cb \<Rightarrow> 'cb promise \<Rightarrow> 'cb promise \<times> 'cb calls" where
  "register ok c p = (if ok then on_success c p else on_error c p)"

definition outcome :: "'cb promise \<Rightarrow> (bool \<times> jsval) option" where
  "outcome p = (if p_success p then Some (True, p_result p)
                else if p_error p then Some (False, p_result p) else None)"

definition waiting :: "'cb promise \<Rightarrow> bool \<Rightarrow> 'cb option" where
  "waiting p ok = (if ok then p_successCallback p else p_errorCallback p)"

definition settled_once :: "'cb promise \<Rightarrow> bool" where
  "settled_once p \<longleftrightarrow> \<not> (p_success p \<and> p_error p)"

lemmas promise_defs = createPromise_def setSuccess_def setError_def on_success_def on_error_def
  settle_def register_def outcome_def waiting_def settled_once_def Let_def

section \<open>Sequences of uses\<close>

datatype 'cb use = Settle bool jsval | Register bool 'cb

fun is_settle :: "'cb use \<Rightarrow> bool" where
  "is_settle (Settle ok v) = True"
| "is_settle (Register ok c) = False"

fun use1 :: "'cb use \<Rightarrow> 'cb promise \<Rightarrow> 'cb promise \<times> 'cb calls" where
  "use1 (Settle ok v) p = settle ok v p"
| "use1 (Register ok c) p = register ok c p"

fun uses :: "'cb use list \<Rightarrow> 'cb promise \<Rightarrow> 'cb promise \<times> 'cb calls" where
  "uses [] p = (p, [])"
| "uses (u # us) p =
     (let (p', cs) = use1 u p; (p'', ds) = uses us p' in (p'', cs @ ds))"

text \<open>The callbacks registered for one outcome, in order.\<close>

fun registered :: "bool \<Rightarrow> 'cb use list \<Rightarrow> 'cb list" where
  "registered ok [] = []"
| "registered ok (Settle b v # us) = registered ok us"
| "registered ok (Register b c # us) =
     (if b = ok then c # registered ok us else registered ok us)"

section \<open>The contract\<close>

locale promise_contract =
  fixes new :: 'p
    and settle_op :: "bool \<Rightarrow> jsval \<Rightarrow> 'p \<Rightarrow> 'p \<times> ('c \<times> jsval) list"
    and register_op :: "bool \<Rightarrow> 'c \<Rightarrow> 'p \<Rightarrow> 'p \<times> ('c \<times> jsval) list"
    and result_of :: "'p \<Rightarrow> (bool \<times> jsval) option"
    and slot :: "'p \<Rightarrow> bool \<Rightarrow> 'c option"
    and ok_state :: "'p \<Rightarrow> bool"
  assumes new_pending: "result_of new = None"
    and new_empty: "slot new b = None"
    and new_ok: "ok_state new"
    and settle_result: "ok_state p \<Longrightarrow> result_of p = None \<Longrightarrow>
      ok_state (fst (settle_op b v p)) \<and> result_of (fst (settle_op b v p)) = Some (b, v)"
    and settle_calls: "ok_state p \<Longrightarrow> result_of p = None \<Longrightarrow>
      snd (settle_op b v p) = (case slot p b of None \<Rightarrow> [] | Some c \<Rightarrow> [(c, v)])"
    and register_pending: "ok_state p \<Longrightarrow> result_of p = None \<Longrightarrow>
      ok_state (fst (register_op b c p)) \<and> result_of (fst (register_op b c p)) = None
      \<and> slot (fst (register_op b c p)) = (slot p)(b := Some c) \<and> snd (register_op b c p) = []"
    and register_settled: "ok_state p \<Longrightarrow> result_of p = Some (r, v) \<Longrightarrow>
      register_op b c p = (p, if b = r then [(c, v)] else [])"
begin

fun run_uses :: "'c use list \<Rightarrow> 'p \<Rightarrow> 'p \<times> ('c \<times> jsval) list" where
  "run_uses [] p = (p, [])"
| "run_uses (u # us) p =
     (let (p', cs) = (case u of Settle b v \<Rightarrow> settle_op b v p | Register b c \<Rightarrow> register_op b c p);
          (p'', ds) = run_uses us p' in (p'', cs @ ds))"

lemma run_uses_append:
  "run_uses (us @ vs) p =
     (let (p', cs) = run_uses us p; (p'', ds) = run_uses vs p' in (p'', cs @ ds))"
  by (induction us arbitrary: p) (auto simp: Let_def split: prod.splits)

lemma registrations_pending:
  assumes "list_all (\<lambda>u. \<not> is_settle u) us" and "ok_state p" and "result_of p = None"
  shows "ok_state (fst (run_uses us p)) \<and> result_of (fst (run_uses us p)) = None
    \<and> snd (run_uses us p) = []
    \<and> slot (fst (run_uses us p)) b =
        (if registered b us = [] then slot p b else Some (last (registered b us)))"
  using assms
proof (induction us arbitrary: p)
  case Nil
  then show ?case by simp
next
  case (Cons u us)
  then obtain k c where u: "u = Register k c" by (cases u) auto
  let ?p = "fst (register_op k c p)"
  have p: "ok_state ?p" "result_of ?p = None" "slot ?p = (slot p)(k := Some c)"
    "snd (register_op k c p) = []"
    using register_pending [of p k c] Cons.prems by auto
  then show ?case
    using Cons.IH [of ?p] Cons.prems u by (auto simp: Let_def split_beta)
qed

lemma registrations_settled:
  assumes "list_all (\<lambda>u. \<not> is_settle u) us" and "ok_state p" and "result_of p = Some (r, v)"
  shows "run_uses us p = (p, map (\<lambda>c. (c, v)) (registered r us))"
  using assms
proof (induction us)
  case Nil
  then show ?case by simp
next
  case (Cons u us)
  then obtain k c where "u = Register k c" by (cases u) auto
  with Cons show ?case by (simp add: register_settled)
qed

text \<open>
  A promise settled once calls, at the settlement, only the callback registered last for that
  outcome, and afterwards every callback as it is registered; those for the other outcome are
  never called.
\<close>

lemma delivery:
  assumes "list_all (\<lambda>u. \<not> is_settle u) us" and "list_all (\<lambda>u. \<not> is_settle u) vs"
  shows "snd (run_uses (us @ Settle r v # vs) new) =
    map (\<lambda>c. (c, v))
      ((if registered r us = [] then [] else [last (registered r us)]) @ registered r vs)"
proof -
  let ?p = "fst (run_uses us new)"
  have pend: "ok_state ?p" "result_of ?p = None" "snd (run_uses us new) = []"
    "slot ?p r = (if registered r us = [] then None else Some (last (registered r us)))"
    using registrations_pending [OF assms(1) new_ok new_pending, of r] by (auto simp: new_empty)
  let ?q = "fst (settle_op r v ?p)"
  have q: "ok_state ?q" "result_of ?q = Some (r, v)"
    using settle_result [OF pend(1,2)] by auto
  have "run_uses vs ?q = (?q, map (\<lambda>c. (c, v)) (registered r vs))"
    by (rule registrations_settled [OF assms(2) q])
  with pend show ?thesis
    by (simp add: run_uses_append settle_calls split_beta Let_def)
qed

end

interpretation kcp: promise_contract createPromise settle register outcome waiting settled_once
  by unfold_locales (auto simp: promise_defs fun_eq_iff split: if_splits option.splits)

lemma kcp_run_uses: "kcp.run_uses us p = uses us p"
  by (induction us arbitrary: p)
     (auto simp: Let_def split_beta split: use.splits)

section \<open>Property\<close>

text \<open>C9. Whatever the order in which callbacks are registered on a promise of the client and the
  promise is settled (once), the calls made are: the callback registered last for that outcome
  before the settlement, then each one registered for it afterwards, all with the result.\<close>

theorem promise_delivery:
  assumes "list_all (\<lambda>u. \<not> is_settle u) us" and "list_all (\<lambda>u. \<not> is_settle u) vs"
  shows "snd (uses (us @ Settle r v # vs) createPromise) =
    map (\<lambda>c. (c, v))
      ((if registered r us = [] then [] else [last (registered r us)]) @ registered r vs)"
  using kcp.delivery [OF assms] by (simp add: kcp_run_uses)

theorem promise_delivery_witness:
  "snd (uses [Register True (1::nat), Register True 2, Register False 3, Settle True (Str ''t''),
       Register True 4, Register False 5] createPromise) = [(2, Str ''t''), (4, Str ''t'')]"
  using promise_delivery [of "[Register True (1::nat), Register True 2, Register False 3]"
    "[Register True 4, Register False 5]" True "Str ''t''"] by simp

end
