(* ===== verification/Js_Uri.thy ===== *)
theory Js_Uri
  imports Prelude
begin

text \<open>
  The two URI functions of the language that \<open>keycloak.js\<close> uses to build and to read query
  strings, on UTF-8 bytes.  \<open>encodeURIComponent\<close> escapes every byte that is not unreserved;
  \<open>decodeURIComponent\<close> undoes the escapes and raises \<open>URIError\<close> on a bad escape or on bytes
  that are not UTF-8.  Decoding what was encoded gives the text back.
\<close>

section \<open>UTF-8\<close>

abbreviation byte :: "char \<Rightarrow> nat" where
  "byte c \<equiv> of_char c"

definition is_cont :: "char \<Rightarrow> bool" where
  "is_cont c \<longleftrightarrow> 128 \<le> byte c \<and> byte c \<le> 191"

text \<open>Bounds on the second byte that rule out overlong forms, surrogates and too large points.\<close>

definition second_ok :: "nat \<Rightarrow> char \<Rightarrow> bool" where
  "second_ok n c \<longleftrightarrow> is_cont c \<and> (n = 224 \<longrightarrow> 160 \<le> byte c) \<and> (n = 237 \<longrightarrow> byte c \<le> 159)
     \<and> (n = 240 \<longrightarrow> 144 \<le> byte c) \<and> (n = 244 \<longrightarrow> byte c \<le> 143)"

fun utf8 :: "string \<Rightarrow> bool" where
  "utf8 [] = True"
| "utf8 (b # r) = (let n = byte b in
     if n < 128 then utf8 r
     else (case r of [] \<Rightarrow> False | c # r1 \<Rightarrow>
       if 194 \<le> n \<and> n \<le> 223 then is_cont c \<and> utf8 r1
       else (case r1 of [] \<Rightarrow> False | d # r2 \<Rightarrow>
         if 224 \<le> n \<and> n \<le> 239 then second_ok n c \<and> is_cont d \<and> utf8 r2
         else (case r2 of [] \<Rightarrow> False | e # r3 \<Rightarrow>
           240 \<le> n \<and> n \<le> 244 \<and> second_ok n c \<and> is_cont d \<and> is_cont e \<and> utf8 r3))))"

text \<open>A string of code units below 256 (what \<open>atob\<close> returns), as UTF-8.\<close>

fun latin1_utf8 :: "string \<Rightarrow> string" where
  "latin1_utf8 [] = []"
| "latin1_utf8 (c # r) =
     (if byte c < 128 then c # latin1_utf8 r
      else char_of (192 + byte c div 64) # char_of (128 + byte c mod 64) # latin1_utf8 r)"

lemma byte_less_256: "byte c < 256"
  by (rule nat_of_char_less_256)

lemma byte_div_16: "byte c div 16 < 16"
  using byte_less_256 [of c] by linarith

lemma utf8_ascii: "(\<And>c. c \<in> set s \<Longrightarrow> byte c < 128) \<Longrightarrow> utf8 s"
  by (induction s) auto

lemma utf8_latin1: "utf8 (latin1_utf8 s)"
proof (induction s)
  case Nil
  show ?case by simp
next
  case (Cons c s)
  have hi: "byte c div 64 < 4" using byte_less_256 [of c] by linarith
  have lo: "2 \<le> byte c div 64" if "\<not> byte c < 128" using that by linarith
  have md: "byte c mod 64 < 64" by simp
  show ?case
    using Cons hi lo md by (auto simp: Let_def is_cont_def)
qed

section \<open>Percent encoding\<close>

definition hexd :: "nat \<Rightarrow> char" where
  "hexd n = ''0123456789ABCDEF'' ! n"

definition hexval :: "char \<Rightarrow> nat option" where
  "hexval c = (let n = byte c in
     if 48 \<le> n \<and> n \<le> 57 then Some (n - 48)
     else if 65 \<le> n \<and> n \<le> 70 then Some (n - 55)
     else if 97 \<le> n \<and> n \<le> 102 then Some (n - 87)
     else None)"

definition unreserved :: "char \<Rightarrow> bool" where
  "unreserved c \<longleftrightarrow> (let n = byte c in
     48 \<le> n \<and> n \<le> 57 \<or> 65 \<le> n \<and> n \<le> 90 \<or> 97 \<le> n \<and> n \<le> 122
     \<or> n \<in> {33, 39, 40, 41, 42, 45, 46, 95, 126})"

fun encodeURIComponent :: "string \<Rightarrow> string" where
  "encodeURIComponent [] = []"
| "encodeURIComponent (c # r) =
     (if unreserved c then c # encodeURIComponent r
      else CHR ''%'' # hexd (byte c div 16) # hexd (byte c mod 16) # encodeURIComponent r)"

fun pct_decode :: "string \<Rightarrow> string option" where
  "pct_decode [] = Some []"
| "pct_decode (c # r) =
     (if c \<noteq> CHR ''%'' then map_option (Cons c) (pct_decode r)
      else (case r of h # l # r' \<Rightarrow>
              (case (hexval h, hexval l) of
                 (Some x, Some y) \<Rightarrow> map_option (Cons (char_of (16 * x + y))) (pct_decode r')
               | _ \<Rightarrow> None)
            | _ \<Rightarrow> None))"

definition decodeURIComponent :: "string \<Rightarrow> js_error + string" where
  "decodeURIComponent s =
     (case pct_decode s of
        None \<Rightarrow> Inl URIError
      | Some t \<Rightarrow> if utf8 t then Inr t else Inl URIError)"

text \<open>The argument of \<open>decodeURIComponent\<close> is converted to a string, \<open>undefined\<close> too.\<close>

definition decode_arg :: "string option \<Rightarrow> js_error + string" where
  "decode_arg a = decodeURIComponent (case a of None \<Rightarrow> ''undefined'' | Some s \<Rightarrow> s)"

lemma hexval_hexd: "n < 16 \<Longrightarrow> hexval (hexd n) = Some n"
proof -
  assume "n < 16"
  then have "n \<in> set [0..<16]" by simp
  then show ?thesis by (auto simp: hexd_def hexval_def upt_rec)
qed

lemma pct_decode_encode: "pct_decode (encodeURIComponent s) = Some s"
proof (induction s)
  case Nil
  show ?case by simp
next
  case (Cons c s)
  have "byte c div 16 < 16" and "byte c mod 16 < 16" by (simp_all add: byte_div_16)
  moreover have "c \<noteq> CHR ''%''" if "unreserved c"
    using that by (auto simp: unreserved_def)
  ultimately show ?case using Cons by (simp add: hexval_hexd)
qed

lemma decode_encode: "utf8 s \<Longrightarrow> decodeURIComponent (encodeURIComponent s) = Inr s"
  by (simp add: decodeURIComponent_def pct_decode_encode)

lemma pct_decode_id: "CHR ''%'' \<notin> set s \<Longrightarrow> pct_decode s = Some s"
  by (induction s) auto

text \<open>An encoded component never holds a character that a query string gives a meaning.\<close>

lemma hexd_unreserved: "n < 16 \<Longrightarrow> unreserved (hexd n)"
proof -
  assume "n < 16"
  then have "n \<in> set [0..<16]" by simp
  then show ?thesis by (auto simp: hexd_def unreserved_def upt_rec)
qed

lemma set_encode:
  "set (encodeURIComponent s) \<subseteq> {c. unreserved c} \<union> {CHR ''%''}"
proof (induction s)
  case Nil
  show ?case by simp
next
  case (Cons c s)
  have "unreserved (hexd (byte c div 16))" and "unreserved (hexd (byte c mod 16))"
    by (simp_all add: hexd_unreserved byte_div_16)
  with Cons show ?case by auto
qed

lemma encode_no_delims:
  "CHR ''&'' \<notin> set (encodeURIComponent s)"
  "CHR ''='' \<notin> set (encodeURIComponent s)"
  "CHR ''?'' \<notin> set (encodeURIComponent s)"
  "CHR ''#'' \<notin> set (encodeURIComponent s)"
  "CHR ''/'' \<notin> set (encodeURIComponent s)"
  using set_encode [of s] by (auto simp: unreserved_def)

lemma encode_eq_Nil [simp]: "encodeURIComponent s = [] \<longleftrightarrow> s = []"
  by (cases s) auto

end
