(* ===== verification/Kc_Types.thy ===== *)
theory Kc_Types
  imports Kc_Promise Js_Uri
begin

text \<open>
  The state of one \<open>Keycloak\<close> object of \<open>integration/js/src/main/resources/keycloak.js\<close> and of
  the page around it, as far as the client reads or writes it.  The closures the code hands to
  promises, requests and windows are the constructors of \<open>cont\<close>, \<open>xhr_handler\<close> and
  \<open>refkind\<close>: one per function literal, with the variables it captures.  Promises live in a
  heap, named by numbers.  What the page does to the outside (requests, navigation, messages,
  calls of application functions) is logged in \<open>w_out\<close>.
\<close>

section \<open>Names\<close>

type_synonym pid = nat

datatype hook = OnReady | OnAuthSuccess | OnAuthError | OnAuthRefreshSuccess
  | OnAuthRefreshError | OnAuthLogout

datatype adapter = DefaultAdapter | CordovaAdapter

section \<open>Options and callbacks\<close>

record login_options =
  lo_prompt :: "string option"
  lo_redirectUri :: "string option"
  lo_loginHint :: "string option"

definition no_options :: login_options where
  "no_options = \<lparr>lo_prompt = None, lo_redirectUri = None, lo_loginHint = None\<rparr>"

record init_options =
  io_checkLoginIframe :: jsval
  io_checkLoginIframeInterval :: jsval
  io_onLoad :: jsval
  io_token :: jsval
  io_refreshToken :: jsval

text \<open>The object \<open>parseCallback\<close> builds; a field that was not in the query is \<open>None\<close>.\<close>

record oauth =
  oa_code :: "string option"
  oa_error :: "string option"
  oa_state :: "string option"
  oa_fragment :: "string option"
  oa_prompt :: "string option"

definition empty_oauth :: oauth where
  "empty_oauth = \<lparr>oa_code = None, oa_error = None, oa_state = None, oa_fragment = None,
     oa_prompt = None\<rparr>"

datatype cont =
    UserCb nat                                \<comment> \<open>a function of the application\<close>
  | SetOk pid                                 \<comment> \<open>\<open>p.setSuccess()\<close>\<close>
  | SetErr pid                                \<comment> \<open>\<open>p.setError()\<close>\<close>
  | InitReady pid                             \<comment> \<open>\<open>initPromise.promise.success\<close> in \<open>init\<close>\<close>
  | ProcessInit pid "init_options option"     \<comment> \<open>\<open>processInit\<close>\<close>
  | IframeReady pid                           \<comment> \<open>\<open>setupCheckLoginIframe().success\<close>\<close>
  | DoLogin pid                               \<comment> \<open>\<open>doLogin(false)\<close> after \<open>checkLoginIframe\<close>\<close>
  | ExecUpdate pid rat                        \<comment> \<open>\<open>exec\<close> in \<open>updateToken\<close>\<close>

datatype xhr_handler = XConfig pid | XCode pid | XRefresh | XProfile pid

datatype refkind = RefLogin pid | RefLogout pid | RefAccount

record refwin =
  rw_kind :: refkind
  rw_callback :: "oauth option"
  rw_error :: bool

section \<open>The object and the page\<close>

record kcs =
  kc_authenticated :: jsval
  kc_token :: jsval
  kc_tokenParsed :: jsval
  kc_sessionId :: "string option"
  kc_subject :: jsval
  kc_realmAccess :: jsval
  kc_resourceAccess :: jsval
  kc_idToken :: jsval
  kc_refreshToken :: jsval
  kc_refreshTokenParsed :: jsval
  kc_loginRequired :: bool
  kc_authServerUrl :: jsval
  kc_realm :: jsval
  kc_clientId :: jsval
  kc_clientSecret :: jsval
  kc_redirectUri :: "string option"
  kc_profile :: jsval
  kc_callback_id :: nat
  kc_hooks :: "hook \<Rightarrow> nat option"

record login_iframe =
  li_enable :: bool
  li_callbackMap :: "string \<rightharpoonup> pid"
  li_interval :: jsval
  li_iframe :: bool
  li_iframeOrigin :: "string option"

record location =
  loc_protocol :: string
  loc_host :: string
  loc_hostname :: string
  loc_port :: string
  loc_pathname :: string
  loc_hash :: string
  loc_search :: string
  loc_origin :: "string option"

datatype effect =
    Send nat string string "(string \<times> string) list" string bool
      \<comment> \<open>request number, method, url, headers, body, \<open>withCredentials\<close>\<close>
  | Navigate string
  | ReplaceState string
  | OpenWindow nat string string
  | CloseWindow nat
  | AppendIframe string
  | SetTimeout jsval
  | PostMessage string string
  | UserCall nat jsval
  | Uncaught js_error

record world =
  kc :: kcs
  lif :: login_iframe
  w_config :: jsval
  w_scripts :: "string list"
  w_cordova :: bool
  w_adapter :: "adapter option"
  w_refreshQueue :: "pid list"
  w_heap :: "pid \<Rightarrow> cont promise"
  w_next :: pid
  w_xhrs :: "(nat \<times> xhr_handler) list"
  w_nextx :: nat
  w_frames :: "pid list"
  w_timers :: nat
  w_windows :: "refwin list"
  w_oauthState :: "string option"
  w_loc :: location
  w_now :: rat
  w_rng :: nat
  w_out :: "effect list"

text \<open>
  What the language and the browser give the code: random numbers, the conversions between
  numbers and strings, the JSON parser and base64, and \<open>script\<close>, what the application's
  functions do when they are called: a list of calls of the object's methods, or a throw.
\<close>

datatype api =
    AInit "init_options option" "nat option" "nat option"
  | ALogin "login_options option" "nat option" "nat option"
  | ALogout "login_options option" "nat option" "nat option"
  | AAccount
  | AUpdateToken "rat option" "nat option" "nat option"
  | ALoadProfile "nat option" "nat option"
  | AThrow js_error

record env =
  random :: "nat \<Rightarrow> rat"
  num_str :: "rat \<Rightarrow> string"
  str_num :: "string \<Rightarrow> rat option"
  JSON_parse :: "string \<Rightarrow> jsval option"
  atob :: "string \<Rightarrow> string option"
  btoa :: "string \<Rightarrow> string option"
  script :: "nat \<Rightarrow> jsval \<Rightarrow> api list"

section \<open>Pieces of code still to run in the current turn\<close>

text \<open>
  A turn of the event loop is a list of instructions: an operation does its own writes and
  returns what it goes on to call, in order.
\<close>

datatype instr =
    Invoke cont jsval
  | Api api
  | Hook hook jsval
  | SettleI bool pid jsval
  | SettleAuth pid
  | UserReg pid "nat option" "nat option"
  | Drain bool
  | TokenResponse string
  | ClearToken
  | ReLogin
  | Raise js_error
  | Message string string "string option" bool
  | Response xhr_handler nat string
  | FrameLoad pid
  | Timer
  | RefStart nat string
  | RefFail nat string
  | RefExit nat

section \<open>Heap, log and random numbers\<close>

type_synonym 'a client = "(world, 'a) js"

definition set_kc :: "(kcs \<Rightarrow> kcs) \<Rightarrow> world \<Rightarrow> world" where
  "set_kc f w = w\<lparr>kc := f (kc w)\<rparr>"

definition set_lif :: "(login_iframe \<Rightarrow> login_iframe) \<Rightarrow> world \<Rightarrow> world" where
  "set_lif f w = w\<lparr>lif := f (lif w)\<rparr>"

definition emit :: "effect \<Rightarrow> world \<Rightarrow> world" where
  "emit x w = w\<lparr>w_out := w_out w @ [x]\<rparr>"

definition new_promise :: "pid client" where
  "new_promise w = (w\<lparr>w_heap := (w_heap w)(w_next w := createPromise), w_next := Suc (w_next w)\<rparr>,
     Inr (w_next w))"

text \<open>
  An operation of the promise object on the heap; the callbacks it calls become instructions.
\<close>

definition call_instrs :: "cont calls \<Rightarrow> instr list" where
  "call_instrs = map (\<lambda>(c, v). Invoke c v)"

definition settleP :: "bool \<Rightarrow> pid \<Rightarrow> jsval \<Rightarrow> instr list client" where
  "settleP ok p v w =
     (let (p', cs) = settle ok v (w_heap w p)
      in (w\<lparr>w_heap := (w_heap w)(p := p')\<rparr>, Inr (call_instrs cs)))"

definition registerP :: "bool \<Rightarrow> pid \<Rightarrow> cont \<Rightarrow> instr list client" where
  "registerP ok p c w =
     (let (p', cs) = register ok c (w_heap w p)
      in (w\<lparr>w_heap := (w_heap w)(p := p')\<rparr>, Inr (call_instrs cs)))"

text \<open>\<open>req.open\<close>, the headers and \<open>req.send\<close>; the handler waits for the response.\<close>

definition send_xhr :: "xhr_handler \<Rightarrow> string \<Rightarrow> string \<Rightarrow> (string \<times> string) list \<Rightarrow> string
    \<Rightarrow> bool \<Rightarrow> unit client" where
  "send_xhr h meth url headers body cred =
     upd (\<lambda>w. emit (Send (w_nextx w) meth url headers body cred)
       (w\<lparr>w_xhrs := w_xhrs w @ [(w_nextx w, h)], w_nextx := Suc (w_nextx w)\<rparr>))"

definition draws :: "env \<Rightarrow> nat \<Rightarrow> rat list client" where
  "draws env n w = (w\<lparr>w_rng := w_rng w + n\<rparr>, Inr (map (\<lambda>i. random env (w_rng w + i)) [0..<n]))"

abbreviation str_of :: "env \<Rightarrow> jsval \<Rightarrow> string" where
  "str_of env \<equiv> js_str (num_str env)"

lemma set_kc_simps [simp]:
  "kc (set_kc f w) = f (kc w)" "lif (set_kc f w) = lif w"
  "w_config (set_kc f w) = w_config w" "w_scripts (set_kc f w) = w_scripts w"
  "w_cordova (set_kc f w) = w_cordova w" "w_adapter (set_kc f w) = w_adapter w"
  "w_refreshQueue (set_kc f w) = w_refreshQueue w" "w_heap (set_kc f w) = w_heap w"
  "w_next (set_kc f w) = w_next w" "w_xhrs (set_kc f w) = w_xhrs w"
  "w_nextx (set_kc f w) = w_nextx w" "w_frames (set_kc f w) = w_frames w"
  "w_timers (set_kc f w) = w_timers w" "w_windows (set_kc f w) = w_windows w"
  "w_oauthState (set_kc f w) = w_oauthState w" "w_loc (set_kc f w) = w_loc w"
  "w_now (set_kc f w) = w_now w" "w_rng (set_kc f w) = w_rng w" "w_out (set_kc f w) = w_out w"
  by (simp_all add: set_kc_def)

lemma set_lif_simps [simp]:
  "kc (set_lif f w) = kc w" "lif (set_lif f w) = f (lif w)"
  "w_config (set_lif f w) = w_config w" "w_scripts (set_lif f w) = w_scripts w"
  "w_cordova (set_lif f w) = w_cordova w" "w_adapter (set_lif f w) = w_adapter w"
  "w_refreshQueue (set_lif f w) = w_refreshQueue w" "w_heap (set_lif f w) = w_heap w"
  "w_next (set_lif f w) = w_next w" "w_xhrs (set_lif f w) = w_xhrs w"
  "w_nextx (set_lif f w) = w_nextx w" "w_frames (set_lif f w) = w_frames w"
  "w_timers (set_lif f w) = w_timers w" "w_windows (set_lif f w) = w_windows w"
  "w_oauthState (set_lif f w) = w_oauthState w" "w_loc (set_lif f w) = w_loc w"
  "w_now (set_lif f w) = w_now w" "w_rng (set_lif f w) = w_rng w" "w_out (set_lif f w) = w_out w"
  by (simp_all add: set_lif_def)

lemma emit_simps [simp]:
  "kc (emit x w) = kc w" "lif (emit x w) = lif w"
  "w_config (emit x w) = w_config w" "w_scripts (emit x w) = w_scripts w"
  "w_cordova (emit x w) = w_cordova w" "w_adapter (emit x w) = w_adapter w"
  "w_refreshQueue (emit x w) = w_refreshQueue w" "w_heap (emit x w) = w_heap w"
  "w_next (emit x w) = w_next w" "w_xhrs (emit x w) = w_xhrs w"
  "w_nextx (emit x w) = w_nextx w" "w_frames (emit x w) = w_frames w"
  "w_timers (emit x w) = w_timers w" "w_windows (emit x w) = w_windows w"
  "w_oauthState (emit x w) = w_oauthState w" "w_loc (emit x w) = w_loc w"
  "w_now (emit x w) = w_now w" "w_rng (emit x w) = w_rng w" "w_out (emit x w) = w_out w @ [x]"
  by (simp_all add: emit_def)

end
