(* ===== verification/Kc_Url.thy ===== *)
theory Kc_Url
  imports Kc_Types
begin

text \<open>
  The addresses \<open>keycloak.js\<close> builds and the one it reads: realm, login, logout and account
  URLs, the redirect URI of each adapter, the random state of a login and the parameters of the
  callback.  The lemmas show that a login URL carries what was meant to be sent, that the state
  it stores is the one the callback must bring, and that a callback is accepted once.
\<close>

section \<open>Addresses\<close>

definition getRealmUrl :: "env \<Rightarrow> world \<Rightarrow> string" where
  "getRealmUrl env w = str_of env (kc_authServerUrl (kc w)) @ ''/realms/''
     @ encodeURIComponent (str_of env (kc_realm (kc w)))"

definition getOrigin :: "world \<Rightarrow> string" where
  "getOrigin w =
     (let l = w_loc w in
      if \<not> truthy_str (loc_origin l)
      then loc_protocol l @ ''//'' @ loc_hostname l
             @ (if loc_port l \<noteq> [] then '':'' @ loc_port l else [])
      else the (loc_origin l))"

text \<open>\<open>redirectUri\<close> of the default adapter; that of the Cordova adapter is a constant.\<close>

definition default_redirectUri :: "login_options option \<Rightarrow> world \<Rightarrow> string" where
  "default_redirectUri options w =
     (if options \<noteq> None \<and> truthy_str (lo_redirectUri (the options))
      then the (lo_redirectUri (the options))
      else if truthy_str (kc_redirectUri (kc w)) then the (kc_redirectUri (kc w))
      else (let l = w_loc w;
                url = loc_protocol l @ ''//'' @ loc_hostname l
                  @ (if loc_port l \<noteq> [] then '':'' @ loc_port l else []) @ loc_pathname l
            in if loc_hash l \<noteq> []
               then url @ ''?redirect_fragment='' @ encodeURIComponent (drop 1 (loc_hash l))
               else url))"

definition cordova_redirectUri :: "login_options option \<Rightarrow> string" where
  "cordova_redirectUri options = ''http://localhost''"

definition redirectUri :: "login_options option \<Rightarrow> world \<Rightarrow> js_error + string" where
  "redirectUri options w =
     (case w_adapter w of
        None \<Rightarrow> Inl TypeError
      | Some DefaultAdapter \<Rightarrow> Inr (default_redirectUri options w)
      | Some CordovaAdapter \<Rightarrow> Inr (cordova_redirectUri options))"

section \<open>Random identifiers\<close>

definition hexDigits :: string where
  "hexDigits = ''0123456789abcdef''"

text \<open>The bitwise operator reads a letter as \<open>NaN\<close>, that is as 0.\<close>

definition hex_int :: "string \<Rightarrow> nat" where
  "hex_int s = (case s of
       [c] \<Rightarrow> if 48 \<le> byte c \<and> byte c \<le> 57 then byte c - 48 else 0
     | _ \<Rightarrow> 0)"

definition uuid_of :: "rat list \<Rightarrow> string" where
  "uuid_of rs =
     (let s = map (\<lambda>r. js_substr hexDigits \<lfloor>r * 16\<rfloor> 1) rs;
          s = s[14 := ''4''];
          s = s[19 := js_substr hexDigits (int (hex_int (s ! 19) mod 4 + 8)) 1];
          s = s[8 := ''-'', 13 := ''-'', 18 := ''-'', 23 := ''-'']
      in concat s)"

definition createUUID :: "env \<Rightarrow> string client" where
  "createUUID env = bindJ (draws env 36) (\<lambda>rs. ret (uuid_of rs))"

definition createCallbackId :: "env \<Rightarrow> string client" where
  "createCallbackId env =
     bindJ (asks (\<lambda>w. kc_callback_id (kc w))) (\<lambda>n.
     bindJ (upd (set_kc (\<lambda>k. k\<lparr>kc_callback_id := Suc (kc_callback_id k)\<rparr>))) (\<lambda>_.
     bindJ (draws env 1) (\<lambda>rs.
     ret (''<id: '' @ num_str env (of_nat n) @ num_str env (hd rs) @ ''>''))))"

section \<open>Login, logout and account\<close>

definition add_prompt :: "login_options option \<Rightarrow> string \<Rightarrow> string" where
  "add_prompt options uri =
     (if options \<noteq> None \<and> truthy_str (lo_prompt (the options))
      then if js_indexOf ''?'' uri = -1
           then uri @ ''?prompt='' @ the (lo_prompt (the options))
           else uri @ ''&prompt='' @ the (lo_prompt (the options))
      else uri)"

definition login_url :: "env \<Rightarrow> world \<Rightarrow> string \<Rightarrow> string \<Rightarrow> login_options option \<Rightarrow> string" where
  "login_url env w uri state options =
     getRealmUrl env w @ ''/tokens/login''
     @ ''?client_id='' @ encodeURIComponent (str_of env (kc_clientId (kc w)))
     @ ''&redirect_uri='' @ encodeURIComponent uri
     @ ''&state='' @ encodeURIComponent state
     @ ''&response_type=code''
     @ (if options \<noteq> None \<and> truthy_str (lo_prompt (the options))
        then ''&prompt='' @ the (lo_prompt (the options)) else [])
     @ (if options \<noteq> None \<and> truthy_str (lo_loginHint (the options))
        then ''&login_hint='' @ the (lo_loginHint (the options)) else [])"

definition createLoginUrl :: "env \<Rightarrow> login_options option \<Rightarrow> string client" where
  "createLoginUrl env options =
     bindJ (createUUID env) (\<lambda>state.
     bindJ (asks (redirectUri options)) (\<lambda>r.
     bindJ (liftE r) (\<lambda>uri.
     bindJ (upd (\<lambda>w. w\<lparr>w_oauthState := Some state\<rparr>)) (\<lambda>_.
     asks (\<lambda>w. login_url env w (add_prompt options uri) state options)))))"

definition createLogoutUrl :: "env \<Rightarrow> login_options option \<Rightarrow> string client" where
  "createLogoutUrl env options =
     bindJ (asks (redirectUri options)) (\<lambda>r.
     bindJ (liftE r) (\<lambda>uri.
     asks (\<lambda>w. getRealmUrl env w @ ''/tokens/logout'' @ ''?redirect_uri='' @ encodeURIComponent uri)))"

definition createAccountUrl :: "env \<Rightarrow> login_options option \<Rightarrow> string client" where
  "createAccountUrl env options =
     bindJ (asks (redirectUri options)) (\<lambda>r.
     bindJ (liftE r) (\<lambda>uri.
     asks (\<lambda>w. getRealmUrl env w @ ''/account''
       @ ''?referrer='' @ encodeURIComponent (str_of env (kc_clientId (kc w)))
       @ ''&referrer_uri='' @ encodeURIComponent uri)))"

section \<open>The callback\<close>

text \<open>One turn of the loop over the query's parameters; \<open>p[1]\<close> may be \<open>undefined\<close>.\<close>

definition parse_param :: "string \<Rightarrow> oauth \<Rightarrow> js_error + oauth" where
  "parse_param param oa =
     (let p = js_split (CHR ''='') param; v = js_nth p 1 in
      case decodeURIComponent (hd p) of
        Inl e \<Rightarrow> Inl e
      | Inr name \<Rightarrow>
          if name = ''code'' then Inr (oa\<lparr>oa_code := v\<rparr>)
          else if name = ''error'' then Inr (oa\<lparr>oa_error := v\<rparr>)
          else if name = ''state'' then map_sum id (\<lambda>s. oa\<lparr>oa_state := Some s\<rparr>) (decode_arg v)
          else if name = ''redirect_fragment''
            then map_sum id (\<lambda>s. oa\<lparr>oa_fragment := Some s\<rparr>) (decode_arg v)
          else if name = ''prompt'' then Inr (oa\<lparr>oa_prompt := v\<rparr>)
          else Inr oa)"

fun parse_params :: "string list \<Rightarrow> oauth \<Rightarrow> js_error + oauth" where
  "parse_params [] oa = Inr oa"
| "parse_params (p # ps) oa =
     (case parse_param p oa of Inl e \<Rightarrow> Inl e | Inr oa' \<Rightarrow> parse_params ps oa')"

text \<open>\<open>url.split('?')[1].split('&')\<close>, when the URL has a \<open>?\<close>.\<close>

definition query_params :: "string \<Rightarrow> string list" where
  "query_params url = js_split (CHR ''&'') (js_split (CHR ''?'') url ! 1)"

definition parseCallback :: "string \<Rightarrow> oauth option client" where
  "parseCallback url =
     (if js_indexOf ''?'' url \<noteq> -1 then
        bindJ (liftE (parse_params (query_params url) empty_oauth)) (\<lambda>oa.
        bindJ (asks w_oauthState) (\<lambda>stored.
          if (truthy_str (oa_code oa) \<or> truthy_str (oa_error oa))
             \<and> truthy_str (oa_state oa) \<and> oa_state oa = stored
          then bindJ (upd (\<lambda>w. w\<lparr>w_oauthState := None\<rparr>)) (\<lambda>_. ret (Some oa))
          else ret None))
      else ret None)"

section \<open>Identifiers have the RFC 4122 shape\<close>

lemma concat_singletons: "list_all (\<lambda>p. length p = 1) ps \<Longrightarrow> concat ps = map hd ps"
proof (induction ps)
  case Nil
  show ?case by simp
next
  case (Cons p ps)
  then show ?case by (cases p) auto
qed

lemma hexDigits_at:
  assumes "0 \<le> i" and "i < 16"
  shows "length (js_substr hexDigits i 1) = 1"
    and "hd (js_substr hexDigits i 1) = hexDigits ! nat i"
proof -
  have "nat i < 16" using assms by linarith
  then have "drop (nat i) hexDigits = hexDigits ! nat i # drop (Suc (nat i)) hexDigits"
    by (subst Cons_nth_drop_Suc) (auto simp: hexDigits_def)
  then show "length (js_substr hexDigits i 1) = 1"
    and "hd (js_substr hexDigits i 1) = hexDigits ! nat i"
    using assms by (simp_all add: js_substr_def)
qed

lemma floor_hex:
  assumes "0 \<le> (r::rat)" and "r < 1"
  shows "0 \<le> \<lfloor>r * 16\<rfloor>" and "\<lfloor>r * 16\<rfloor> < 16"
  using assms by (auto simp: floor_less_iff)

definition uuid_shape :: "string \<Rightarrow> bool" where
  "uuid_shape s \<longleftrightarrow> length s = 36 \<and> s ! 14 = CHR ''4'' \<and> s ! 19 \<in> set ''89ab''
     \<and> (\<forall>i < 36. if i \<in> {8, 13, 18, 23} then s ! i = CHR ''-'' else s ! i \<in> set hexDigits)"

lemma hexDigits_nth_mem: "i < 16 \<Longrightarrow> hexDigits ! i \<in> set hexDigits"
  by (rule nth_mem) (simp add: hexDigits_def)

lemma hexDigits_variant: "n < 4 \<Longrightarrow> hexDigits ! (n + 8) \<in> set ''89ab''"
proof -
  assume "n < 4"
  then have "n \<in> set [0..<4]" by simp
  then show ?thesis by (auto simp: hexDigits_def upt_rec)
qed

lemma uuid_of_pieces:
  assumes "length rs = 36" and "\<forall>r \<in> set rs. 0 \<le> r \<and> r < 1"
  shows "\<exists>n < 4. uuid_of rs =
    (map (\<lambda>r. hexDigits ! nat \<lfloor>r * 16\<rfloor>) rs)
      [14 := CHR ''4'', 19 := hexDigits ! (n + 8),
       8 := CHR ''-'', 13 := CHR ''-'', 18 := CHR ''-'', 23 := CHR ''-'']"
proof -
  let ?s = "map (\<lambda>r. js_substr hexDigits \<lfloor>r * 16\<rfloor> 1) rs"
  define n where "n = hex_int (?s[14 := ''4''] ! 19) mod 4"
  have n: "n < 4" by (simp add: n_def)
  let ?v = "js_substr hexDigits (int (n + 8)) 1"
  have v: "length ?v = 1" "hd ?v = hexDigits ! (n + 8)"
    using hexDigits_at [of "int (n + 8)"] n by (simp_all only: nat_int)
  have one: "length (js_substr hexDigits \<lfloor>r * 16\<rfloor> 1) = 1"
    and dig: "hd (js_substr hexDigits \<lfloor>r * 16\<rfloor> 1) = hexDigits ! nat \<lfloor>r * 16\<rfloor>"
    if "r \<in> set rs" for r
    using hexDigits_at [of "\<lfloor>r * 16\<rfloor>"] floor_hex [of r] assms(2) that by auto
  let ?t = "?s[14 := ''4'', 19 := ?v, 8 := ''-'', 13 := ''-'', 18 := ''-'', 23 := ''-'']"
  have all: "list_all (\<lambda>p. length p = 1) ?t"
    unfolding list_all_length using one v(1) assms(1) by (auto simp: nth_list_update)
  have "uuid_of rs = concat ?t"
    by (simp add: uuid_of_def Let_def n_def algebra_simps)
  also have "\<dots> = map hd ?t" by (rule concat_singletons [OF all])
  also have "\<dots> = (map (\<lambda>r. hexDigits ! nat \<lfloor>r * 16\<rfloor>) rs)
      [14 := CHR ''4'', 19 := hexDigits ! (n + 8),
       8 := CHR ''-'', 13 := CHR ''-'', 18 := CHR ''-'', 23 := CHR ''-'']"
    by (simp add: map_update v(2) [simplified] dig [simplified] cong: map_cong)
  finally show ?thesis using n by blast
qed

lemma uuid_of_shape:
  assumes "length rs = 36" and "\<forall>r \<in> set rs. 0 \<le> r \<and> r < 1"
  shows "uuid_shape (uuid_of rs)"
proof -
  obtain n where n: "n < 4" and eq: "uuid_of rs =
    (map (\<lambda>r. hexDigits ! nat \<lfloor>r * 16\<rfloor>) rs)
      [14 := CHR ''4'', 19 := hexDigits ! (n + 8),
       8 := CHR ''-'', 13 := CHR ''-'', 18 := CHR ''-'', 23 := CHR ''-'']"
    using uuid_of_pieces [OF assms] by blast
  have "nat \<lfloor>rs ! i * 16\<rfloor> < 16" if "i < 36" for i
    using floor_hex [of "rs ! i"] assms that by (auto simp: nat_less_iff)
  moreover have "hexDigits ! (n + 8) \<in> set hexDigits"
    using n by (intro hexDigits_nth_mem) simp
  moreover have "CHR ''4'' \<in> set hexDigits" by (simp add: hexDigits_def)
  ultimately show ?thesis
    using assms(1) hexDigits_variant [OF n] hexDigits_nth_mem
    by (auto simp: uuid_shape_def eq nth_list_update)
qed


section \<open>What a login URL carries\<close>

text \<open>A query read back: names and decoded values of its parameters.\<close>

definition query_pairs :: "string \<Rightarrow> (string \<times> (js_error + string)) list" where
  "query_pairs url = map (\<lambda>p. (hd (js_split (CHR ''='') p), decode_arg (js_nth (js_split (CHR ''='') p) 1)))
     (query_params url)"

definition plain :: "string \<Rightarrow> bool" where
  "plain s \<longleftrightarrow> (\<forall>c \<in> set s. unreserved c)"

lemma plain_encode: "plain s \<Longrightarrow> encodeURIComponent s = s"
  by (induction s) (auto simp: plain_def)

lemma plain_utf8: "plain s \<Longrightarrow> utf8 s"
  by (rule utf8_ascii) (auto simp: plain_def unreserved_def Let_def)

text \<open>A query made of \<open>name=value\<close> parameters splits into them.\<close>

definition query_text :: "(string \<times> string) list \<Rightarrow> string" where
  "query_text ps = js_join ''&'' (map (\<lambda>(k, v). k @ ''='' @ encodeURIComponent v) ps)"

lemma js_split_join:
  "ws \<noteq> [] \<Longrightarrow> (\<And>w. w \<in> set ws \<Longrightarrow> c \<notin> set w) \<Longrightarrow> js_split c (js_join [c] ws) = ws"
proof (induction "[c]" ws rule: js_join.induct)
  case 1
  then show ?case by simp
next
  case (2 x)
  then show ?case by (simp add: js_split_no_sep)
next
  case (3 x y zs)
  then show ?case by (simp add: js_split_sep_app)
qed

lemma plain_delims:
  assumes "plain k"
  shows "CHR ''&'' \<notin> set k" "CHR ''='' \<notin> set k" "CHR ''?'' \<notin> set k"
  using assms by (auto simp: plain_def unreserved_def Let_def)

lemma query_param_no_delims:
  assumes "plain k"
  shows "CHR ''&'' \<notin> set (k @ ''='' @ encodeURIComponent v)"
    and "CHR ''?'' \<notin> set (k @ ''='' @ encodeURIComponent v)"
  using plain_delims [OF assms] encode_no_delims [of v] by auto

lemma query_text_no_mark:
  "\<forall>(k, v) \<in> set ps. plain k \<Longrightarrow> CHR ''?'' \<notin> set (query_text ps)"
  unfolding query_text_def
proof (induction ps rule: induct_list012)
  case (3 x y zs)
  then show ?case using query_param_no_delims by (auto split: prod.splits)
qed (use query_param_no_delims in \<open>auto split: prod.splits\<close>)

lemma query_pairs_text:
  assumes "ps \<noteq> []" and "\<forall>(k, v) \<in> set ps. plain k \<and> utf8 v" and "CHR ''?'' \<notin> set base"
  shows "query_pairs (base @ ''?'' @ query_text ps) = map (\<lambda>(k, v). (k, Inr v)) ps"
proof -
  have nq: "CHR ''?'' \<notin> set (query_text ps)"
    using assms(2) by (intro query_text_no_mark) auto
  have "js_split (CHR ''?'') (base @ ''?'' @ query_text ps) = [base, query_text ps]"
    using assms(3) nq by (simp add: js_split_sep_app js_split_no_sep)
  then have "query_params (base @ ''?'' @ query_text ps) = js_split (CHR ''&'') (query_text ps)"
    by (simp add: query_params_def)
  also have "\<dots> = map (\<lambda>(k, v). k @ ''='' @ encodeURIComponent v) ps"
    unfolding query_text_def
    by (rule js_split_join) (use assms(1,2) query_param_no_delims in auto)
  finally show ?thesis
    using assms(2) encode_no_delims plain_delims
    by (auto simp: query_pairs_def decode_arg_def decode_encode js_split_sep_app js_split_no_sep
        split: prod.splits)
qed

definition login_params :: "env \<Rightarrow> world \<Rightarrow> string \<Rightarrow> string \<Rightarrow> login_options option
    \<Rightarrow> (string \<times> string) list" where
  "login_params env w uri state options =
     [(''client_id'', str_of env (kc_clientId (kc w))), (''redirect_uri'', uri),
      (''state'', state), (''response_type'', ''code'')]
     @ (if options \<noteq> None \<and> truthy_str (lo_prompt (the options))
        then [(''prompt'', the (lo_prompt (the options)))] else [])
     @ (if options \<noteq> None \<and> truthy_str (lo_loginHint (the options))
        then [(''login_hint'', the (lo_loginHint (the options)))] else [])"

text \<open>The prompt and the login hint go into the URL as they are.\<close>

definition plain_options :: "login_options option \<Rightarrow> bool" where
  "plain_options options \<longleftrightarrow> (options \<noteq> None \<longrightarrow>
     plain (case lo_prompt (the options) of None \<Rightarrow> [] | Some s \<Rightarrow> s)
     \<and> plain (case lo_loginHint (the options) of None \<Rightarrow> [] | Some s \<Rightarrow> s))"

lemma plain_optionsD:
  assumes "plain_options options" and "options \<noteq> None"
  shows "truthy_str (lo_prompt (the options)) \<Longrightarrow> plain (the (lo_prompt (the options)))"
    and "truthy_str (lo_loginHint (the options)) \<Longrightarrow> plain (the (lo_loginHint (the options)))"
  using assms by (auto simp: plain_options_def truthy_str_def split: option.splits)

lemma login_url_text:
  assumes "plain_options options"
  shows "login_url env w uri state options =
    (getRealmUrl env w @ ''/tokens/login'') @ ''?'' @ query_text (login_params env w uri state options)"
proof (cases "options \<noteq> None \<and> truthy_str (lo_prompt (the options))")
  case True
  then show ?thesis using plain_optionsD [OF assms]
    by (cases "truthy_str (lo_loginHint (the options))")
       (simp_all add: login_url_def login_params_def query_text_def plain_encode unreserved_def)
next
  case False
  then show ?thesis using plain_optionsD [OF assms]
    by (cases "options \<noteq> None \<and> truthy_str (lo_loginHint (the options))")
       (auto simp: login_url_def login_params_def query_text_def plain_encode unreserved_def)
qed

lemma login_params_plain:
  assumes "plain_options options"
    and "utf8 (str_of env (kc_clientId (kc w)))" and "utf8 uri" and "utf8 state"
  shows "\<forall>(k, v) \<in> set (login_params env w uri state options). plain k \<and> utf8 v"
proof -
  have "plain ''client_id''" "plain ''redirect_uri''" "plain ''state''" "plain ''response_type''"
    "plain ''code''" "plain ''prompt''" "plain ''login_hint''"
    by (simp_all add: plain_def unreserved_def)
  then show ?thesis
    using assms plain_optionsD [OF assms(1)] plain_utf8
    unfolding login_params_def by auto
qed

lemma login_url_pairs:
  assumes "plain_options options" and "CHR ''?'' \<notin> set (str_of env (kc_authServerUrl (kc w)))"
    and "utf8 (str_of env (kc_clientId (kc w)))" and "utf8 uri" and "utf8 state"
  shows "query_pairs (login_url env w uri state options) =
    map (\<lambda>(k, v). (k, Inr v)) (login_params env w uri state options)"
  unfolding login_url_text [OF assms(1)]
proof (rule query_pairs_text)
  show "\<forall>(k, v) \<in> set (login_params env w uri state options). plain k \<and> utf8 v"
    by (rule login_params_plain) (use assms in auto)
  show "CHR ''?'' \<notin> set (getRealmUrl env w @ ''/tokens/login'')"
    using assms(2) encode_no_delims(3) by (auto simp: getRealmUrl_def)
qed (simp add: login_params_def)

section \<open>The callback is accepted once, for the stored state\<close>

lemma createLoginUrl_result:
  assumes "createLoginUrl env options w = (w', Inr url)"
  shows "\<exists>uri state. redirectUri options w = Inr uri
    \<and> state = uuid_of (map (\<lambda>i. random env (w_rng w + i)) [0..<36])
    \<and> w_oauthState w' = Some state \<and> kc w' = kc w
    \<and> url = login_url env w' (add_prompt options uri) state options"
  using assms
  by (auto simp: createLoginUrl_def createUUID_def draws_def bindJ_def redirectUri_def
      default_redirectUri_def Let_def
      split: option.splits adapter.splits sum.splits)

lemma parseCallback_cases:
  "parseCallback url w =
     (case (if js_indexOf ''?'' url \<noteq> -1 then parse_params (query_params url) empty_oauth
            else Inr empty_oauth) of
        Inl e \<Rightarrow> (w, Inl e)
      | Inr oa \<Rightarrow>
          if (truthy_str (oa_code oa) \<or> truthy_str (oa_error oa))
             \<and> truthy_str (oa_state oa) \<and> oa_state oa = w_oauthState w
          then (w\<lparr>w_oauthState := None\<rparr>, Inr (Some oa)) else (w, Inr None))"
  by (auto simp: parseCallback_def empty_oauth_def split: sum.splits)

lemma parseCallback_frame:
  "parseCallback url w = (w', r) \<Longrightarrow> w' = w \<or> w' = w\<lparr>w_oauthState := None\<rparr>"
  by (auto simp: parseCallback_cases split: sum.splits if_splits)

lemma uuid_shape_plain: "uuid_shape s \<Longrightarrow> plain s"
proof -
  assume s: "uuid_shape s"
  have "unreserved (s ! i)" if "i < 36" for i
  proof -
    have "s ! i = CHR ''-'' \<or> s ! i \<in> set hexDigits"
      using s that unfolding uuid_shape_def by metis
    then show ?thesis by (auto simp: hexDigits_def unreserved_def)
  qed
  with s show ?thesis by (auto simp: plain_def uuid_shape_def in_set_conv_nth)
qed

lemma drawn_uuid_shape:
  assumes "\<And>i. 0 \<le> random env i \<and> random env i < 1"
  shows "uuid_shape (uuid_of (map (\<lambda>i. random env (k + i)) [0..<36]))"
  by (rule uuid_of_shape) (use assms in auto)

text \<open>The parameters of a code callback.\<close>

lemma parse_code_state:
  assumes "CHR ''='' \<notin> set code" and "utf8 state"
  shows "parse_params [''code='' @ code, ''state='' @ encodeURIComponent state] empty_oauth =
    Inr (empty_oauth\<lparr>oa_code := Some code, oa_state := Some state\<rparr>)"
proof -
  have "js_split (CHR ''='') (''state='' @ encodeURIComponent state)
      = [''state'', encodeURIComponent state]"
    and "js_split (CHR ''='') (''code='' @ code) = [''code'', code]"
    using assms(1) encode_no_delims(2) [of state] by (simp_all add: js_split_no_sep)
  moreover have "decodeURIComponent ''code'' = Inr ''code''"
    and "decodeURIComponent ''state'' = Inr ''state''"
    by (simp_all add: decodeURIComponent_def)
  ultimately show ?thesis
    using decode_encode [OF assms(2)] by (simp add: parse_param_def decode_arg_def)
qed

lemma code_callback_params:
  assumes "CHR ''?'' \<notin> set base" and "set code \<inter> set ''&=?'' = {}"
  shows "query_params (base @ ''?code='' @ code @ ''&state='' @ encodeURIComponent state) =
    [''code='' @ code, ''state='' @ encodeURIComponent state]"
proof -
  let ?q = "(''code='' @ code) @ CHR ''&'' # (''state='' @ encodeURIComponent state)"
  have "js_split (CHR ''?'') (base @ CHR ''?'' # ?q) = base # js_split (CHR ''?'') ?q"
    by (rule js_split_sep_app [OF assms(1)])
  also have "js_split (CHR ''?'') ?q = [?q]"
    using assms(2) encode_no_delims(3) [of state] by (intro js_split_no_sep) auto
  finally have "query_params (base @ CHR ''?'' # ?q) = js_split (CHR ''&'') ?q"
    by (simp add: query_params_def)
  also have "\<dots> = [''code='' @ code, ''state='' @ encodeURIComponent state]"
    using assms(2) encode_no_delims(1) [of state]
    by (subst js_split_sep_app) (auto simp: js_split_no_sep)
  finally show ?thesis by simp
qed

section \<open>Properties\<close>

text \<open>C2. A callback is only accepted when it carries the state this object stored at its login and a
  code or an error; accepting it consumes the stored state, and a refused or malformed callback
  changes nothing.\<close>

theorem callback_state_checked:
  assumes "parseCallback url w = (w', r)"
  shows "case r of
      Inr (Some oa) \<Rightarrow> oa_state oa = w_oauthState w \<and> w_oauthState w \<noteq> None
        \<and> (truthy_str (oa_code oa) \<or> truthy_str (oa_error oa)) \<and> w' = w\<lparr>w_oauthState := None\<rparr>
    | _ \<Rightarrow> w' = w"
proof (cases "if js_indexOf ''?'' url \<noteq> -1 then parse_params (query_params url) empty_oauth
    else Inr empty_oauth")
  case (Inl e)
  then show ?thesis using assms unfolding parseCallback_cases by auto
next
  case (Inr oa)
  have "(w', r) = (if (truthy_str (oa_code oa) \<or> truthy_str (oa_error oa))
      \<and> truthy_str (oa_state oa) \<and> oa_state oa = w_oauthState w
    then (w\<lparr>w_oauthState := None\<rparr>, Inr (Some oa)) else (w, Inr None))"
    using assms unfolding parseCallback_cases Inr by simp
  then show ?thesis by (cases "w_oauthState w") (auto split: if_splits)
qed

text \<open>C8. Login round trip: when the login URL is read back, its parameters are the client, the
  redirect URI and the state that was stored, and the callback the server makes of that state is
  accepted with the server's code, and is refused when it is replayed.\<close>

theorem login_roundtrip:
  assumes "createLoginUrl env options w = (w', Inr url)"
    and "\<And>i. 0 \<le> random env i \<and> random env i < 1"
    and "plain_options options" and "CHR ''?'' \<notin> set (str_of env (kc_authServerUrl (kc w)))"
    and "utf8 (str_of env (kc_clientId (kc w)))"
    and "redirectUri options w = Inr uri" and "utf8 (add_prompt options uri)"
    and "CHR ''?'' \<notin> set base" and "code \<noteq> []" and "set code \<inter> set ''&=?'' = {}"
  shows "\<exists>state. uuid_shape state \<and> w_oauthState w' = Some state
    \<and> query_pairs url = map (\<lambda>(k, v). (k, Inr v)) (login_params env w (add_prompt options uri) state options)
    \<and> (let back = base @ ''?code='' @ code @ ''&state='' @ encodeURIComponent state;
           w'' = w'\<lparr>w_oauthState := None\<rparr>
       in parseCallback back w' =
            (w'', Inr (Some (empty_oauth\<lparr>oa_code := Some code, oa_state := Some state\<rparr>)))
          \<and> parseCallback back w'' = (w'', Inr None))"
proof -
  obtain state where st: "state = uuid_of (map (\<lambda>i. random env (w_rng w + i)) [0..<36])"
    and w': "w_oauthState w' = Some state" "kc w' = kc w"
    and url: "url = login_url env w' (add_prompt options uri) state options"
    using createLoginUrl_result [OF assms(1)] assms(6) by auto
  have shape: "uuid_shape state" unfolding st by (rule drawn_uuid_shape [OF assms(2)])
  then have state: "utf8 state" "state \<noteq> []"
    using plain_utf8 [OF uuid_shape_plain] by (auto simp: uuid_shape_def)
  have "query_pairs url = map (\<lambda>(k, v). (k, Inr v)) (login_params env w' (add_prompt options uri) state options)"
    unfolding url by (rule login_url_pairs) (use assms w' state in auto)
  moreover have "login_params env w' = login_params env w"
    by (intro ext) (simp add: login_params_def w')
  ultimately have pairs: "query_pairs url =
      map (\<lambda>(k, v). (k, Inr v)) (login_params env w (add_prompt options uri) state options)"
    by simp
  define cb where "cb = base @ ''?code='' @ code @ ''&state='' @ encodeURIComponent state"
  have "js_indexOf ''?'' cb \<noteq> -1" unfolding js_indexOf_char_iff cb_def by auto
  moreover have "parse_params (query_params cb) empty_oauth =
      Inr (empty_oauth\<lparr>oa_code := Some code, oa_state := Some state\<rparr>)"
    unfolding cb_def code_callback_params [OF assms(8,10)]
    by (rule parse_code_state) (use assms(10) state in auto)
  ultimately have accept:
    "parseCallback cb w' = (w'\<lparr>w_oauthState := None\<rparr>,
       Inr (Some (empty_oauth\<lparr>oa_code := Some code, oa_state := Some state\<rparr>)))"
    "parseCallback cb (w'\<lparr>w_oauthState := None\<rparr>) = (w'\<lparr>w_oauthState := None\<rparr>, Inr None)"
    using w'(1) state(2) assms(9) by (simp_all add: parseCallback_cases)
  from shape w'(1) pairs accept show ?thesis
    unfolding Let_def cb_def by blast
qed

text \<open>The random identifiers are version 4 UUIDs: 36 characters, dashes at 8, 13, 18 and 23, the
  version digit 4 at 14, a variant digit at 19, lower-case hexadecimal digits elsewhere.\<close>

theorem createUUID_shape:
  assumes "\<And>i. 0 \<le> random env i \<and> random env i < 1"
  shows "\<exists>s. createUUID env w = (w\<lparr>w_rng := w_rng w + 36\<rparr>, Inr s) \<and> uuid_shape s"
  using drawn_uuid_shape [OF assms]
  by (simp add: createUUID_def draws_def bindJ_def)

end
