(* ===== verification/Kc_Iframe.thy ===== *)
theory Kc_Iframe
  imports Kc_Url
begin

text \<open>
  The login status iframe of \<open>keycloak.js\<close>: \<open>setupCheckLoginIframe\<close> with its \<open>onload\<close> and
  timer, and \<open>checkLoginIframe\<close>, which posts a message and files a promise under a fresh
  callback id in \<open>loginIframe.callbackMap\<close>.  Every setup adds an iframe, a listener and a
  timer; the model keeps the iframes in \<open>w_frames\<close> (one listener each) and counts the timers.
\<close>

section \<open>Setting up\<close>

definition mul1000 :: "env \<Rightarrow> jsval \<Rightarrow> jsval" where
  "mul1000 env v = (case js_tonum (str_num env) (num_str env) v of None \<Rightarrow> NaN | Some r \<Rightarrow> Num (r * 1000))"

definition set_check_timeout :: "env \<Rightarrow> world \<Rightarrow> world" where
  "set_check_timeout env w =
     emit (SetTimeout (mul1000 env (li_interval (lif w)))) (w\<lparr>w_timers := Suc (w_timers w)\<rparr>)"

definition iframe_src :: "env \<Rightarrow> world \<Rightarrow> string" where
  "iframe_src env w = getRealmUrl env w @ ''/login-status-iframe.html?client_id=''
     @ encodeURIComponent (str_of env (kc_clientId (kc w))) @ ''&origin='' @ getOrigin w"

text \<open>\<open>None\<close> is the \<open>undefined\<close> of the two early returns.\<close>

definition setupCheckLoginIframe :: "env \<Rightarrow> pid option client" where
  "setupCheckLoginIframe env =
     bindJ new_promise (\<lambda>promise.
     bindJ (asks lif) (\<lambda>l.
       if \<not> li_enable l then ret None
       else if li_iframe l
         then bindJ (settleP True promise Undefined) (\<lambda>_. ret None)
       else
         bindJ (upd (\<lambda>w. emit (AppendIframe (iframe_src env w)) (w\<lparr>w_frames := w_frames w @ [promise]\<rparr>))) (\<lambda>_.
         bindJ (upd (set_check_timeout env)) (\<lambda>_.
         ret (Some promise)))))"

text \<open>The origin messages are posted to and accepted from.\<close>

definition frame_origin :: "env \<Rightarrow> world \<Rightarrow> string" where
  "frame_origin env w =
     (let realmUrl = getRealmUrl env w in
      if take 1 realmUrl = ''/'' then getOrigin w
      else js_prefix realmUrl (js_indexOf_from ''/'' 8 realmUrl))"

definition iframe_onload :: "env \<Rightarrow> pid \<Rightarrow> instr list client" where
  "iframe_onload env promise =
     bindJ (upd (\<lambda>w. set_lif (\<lambda>l. l\<lparr>li_iframeOrigin := Some (frame_origin env w), li_iframe := True\<rparr>) w)) (\<lambda>_.
     settleP True promise Undefined)"

section \<open>Checking\<close>

definition checkLoginIframe :: "env \<Rightarrow> pid client" where
  "checkLoginIframe env =
     bindJ new_promise (\<lambda>promise.
     bindJ (asks lif) (\<lambda>l.
       if li_iframe l \<and> truthy_str (li_iframeOrigin l) then
         bindJ (createCallbackId env) (\<lambda>cid.
         bindJ (upd (set_lif (\<lambda>l. l\<lparr>li_callbackMap := (li_callbackMap l)(cid \<mapsto> promise)\<rparr>))) (\<lambda>_.
         bindJ (upd (emit (PostMessage cid (the (li_iframeOrigin l))))) (\<lambda>_.
         ret promise)))
       else bindJ (settleP True promise Undefined) (\<lambda>_. ret promise)))"

text \<open>The function \<open>check\<close> that the timer calls.\<close>

definition check_timer :: "env \<Rightarrow> unit client" where
  "check_timer env =
     bindJ (checkLoginIframe env) (\<lambda>_.
     bindJ (asks (\<lambda>w. truthy (kc_token (kc w)))) (\<lambda>has_token.
       if has_token then upd (set_check_timeout env) else ret ()))"

text \<open>
  \<open>messageCallback\<close>: the reply names the promise to settle and says whether the session the
  tokens came from is still logged in.
\<close>

definition message_callback :: "string \<Rightarrow> string \<Rightarrow> string option \<Rightarrow> bool \<Rightarrow> instr list client" where
  "message_callback origin cid session loggedIn =
     bindJ (asks lif) (\<lambda>l.
       if Some origin \<noteq> li_iframeOrigin l then ret []
       else
         bindJ (upd (set_lif (\<lambda>l. l\<lparr>li_callbackMap := (li_callbackMap l)(cid := None)\<rparr>))) (\<lambda>_.
         bindJ (asks (\<lambda>w. kc_sessionId (kc w))) (\<lambda>sid.
         let promise = li_callbackMap l cid in
           if (\<not> truthy_str sid \<or> sid = session) \<and> loggedIn
           then ret (case promise of None \<Rightarrow> [Raise TypeError] | Some p \<Rightarrow> [SettleI True p Undefined])
           else ret (ClearToken #
             (case promise of None \<Rightarrow> [Raise TypeError] | Some p \<Rightarrow> [SettleI False p Undefined])))))"

section \<open>What the operations change\<close>

lemma settleP_result:
  "settleP ok p v w = (w\<lparr>w_heap := (w_heap w)(p := fst (settle ok v (w_heap w p)))\<rparr>,
     Inr (call_instrs (snd (settle ok v (w_heap w p)))))"
  by (simp add: settleP_def split_beta Let_def)

lemma registerP_result:
  "registerP ok p c w = (w\<lparr>w_heap := (w_heap w)(p := fst (register ok c (w_heap w p)))\<rparr>,
     Inr (call_instrs (snd (register ok c (w_heap w p)))))"
  by (simp add: registerP_def split_beta Let_def)

lemma new_promise_result:
  "new_promise w = (w\<lparr>w_heap := (w_heap w)(w_next w := createPromise), w_next := Suc (w_next w)\<rparr>,
     Inr (w_next w))"
  by (simp add: new_promise_def)

lemma draws_result:
  "draws env n w = (w\<lparr>w_rng := w_rng w + n\<rparr>, Inr (map (\<lambda>i. random env (w_rng w + i)) [0..<n]))"
  by (simp add: draws_def)

lemma createCallbackId_result:
  "createCallbackId env w = (set_kc (\<lambda>k. k\<lparr>kc_callback_id := Suc (kc_callback_id k)\<rparr>) w
      \<lparr>w_rng := w_rng w + 1\<rparr>,
     Inr (''<id: '' @ num_str env (of_nat (kc_callback_id (kc w))) @ num_str env (random env (w_rng w)) @ ''>''))"
  by (simp add: createCallbackId_def bindJ_def draws_def set_kc_def)

lemmas client_results = settleP_result registerP_result new_promise_result draws_result
  createCallbackId_result

text \<open>A fresh promise has no callbacks to call when it is settled.\<close>

lemma settle_fresh [simp]: "snd (settle ok v createPromise) = []"
  by (simp add: promise_defs)

lemma setup_cases:
  "setupCheckLoginIframe env w =
     (let w1 = fst (new_promise w); p = w_next w in
      if \<not> li_enable (lif w) then (w1, Inr None)
      else if li_iframe (lif w) then (fst (settleP True p Undefined w1), Inr None)
      else (set_check_timeout env (emit (AppendIframe (iframe_src env w1)) (w1\<lparr>w_frames := w_frames w @ [p]\<rparr>)),
        Inr (Some p)))"
  by (simp add: setupCheckLoginIframe_def bindJ_def client_results Let_def)

text \<open>Without an iframe a check answers yes at once; with one it files a promise and posts.\<close>

lemma check_cases:
  "checkLoginIframe env w =
     (let w1 = fst (new_promise w); p = w_next w;
          cid = ''<id: '' @ num_str env (of_nat (kc_callback_id (kc w))) @ num_str env (random env (w_rng w)) @ ''>'' in
      if li_iframe (lif w) \<and> truthy_str (li_iframeOrigin (lif w))
      then (emit (PostMessage cid (the (li_iframeOrigin (lif w))))
              (set_lif (\<lambda>l. l\<lparr>li_callbackMap := (li_callbackMap l)(cid \<mapsto> p)\<rparr>)
                 (fst (createCallbackId env w1))), Inr p)
      else (fst (settleP True p Undefined w1), Inr p))"
  by (simp add: checkLoginIframe_def bindJ_def client_results Let_def set_kc_def)

end
