(* ===== verification/Kc_Token.thy ===== *)
theory Kc_Token
  imports Kc_Iframe
begin

text \<open>
  The token state of \<open>keycloak.js\<close>: decoding and storing a token pair (\<open>setToken\<close>), the role
  tests and \<open>isTokenExpired\<close>.  A token that does not decode leaves the writes made before the
  exception behind, as in the source.  Signatures are not checked by this code.
\<close>

section \<open>Decoding\<close>

text \<open>\<open>token.split('.')[1]\<close> given to \<open>window.atob\<close>, which also converts \<open>undefined\<close>.\<close>

definition atob_payload :: "env \<Rightarrow> jsval \<Rightarrow> js_error + string" where
  "atob_payload env token =
     (case token of
        Str s \<Rightarrow>
          (case atob env (case js_nth (js_split (CHR ''.'') s) 1 of
                            None \<Rightarrow> ''undefined'' | Some part \<Rightarrow> part) of
             None \<Rightarrow> Inl InvalidCharacterError
           | Some bytes \<Rightarrow> Inr bytes)
      | _ \<Rightarrow> Inl TypeError)"

definition parse_json :: "env \<Rightarrow> string \<Rightarrow> js_error + jsval" where
  "parse_json env s = (case JSON_parse env s of None \<Rightarrow> Inl SyntaxError | Some v \<Rightarrow> Inr v)"

text \<open>
  \<open>JSON.parse(decodeURIComponent(escape(window.atob(...))))\<close>: the bytes are read as UTF-8.
\<close>

definition decode_token :: "env \<Rightarrow> jsval \<Rightarrow> js_error + jsval" where
  "decode_token env token =
     (case atob_payload env token of
        Inl e \<Rightarrow> Inl e
      | Inr bytes \<Rightarrow> if utf8 bytes then parse_json env bytes else Inl URIError)"

text \<open>\<open>JSON.parse(atob(...))\<close>: the bytes are read as code units.\<close>

definition decode_refreshToken :: "env \<Rightarrow> jsval \<Rightarrow> js_error + jsval" where
  "decode_refreshToken env token =
     (case atob_payload env token of
        Inl e \<Rightarrow> Inl e
      | Inr bytes \<Rightarrow> parse_json env (latin1_utf8 bytes))"

section \<open>Storing\<close>

definition idTokenProperties :: "string list" where
  "idTokenProperties =
     [''name'', ''given_name'', ''family_name'', ''middle_name'', ''nickname'',
      ''preferred_username'', ''profile'', ''picture'', ''website'', ''email'',
      ''email_verified'', ''gender'', ''birthdate'', ''zoneinfo'', ''locale'',
      ''phone_number'', ''phone_number_verified'', ''address'', ''updated_at'',
      ''formatted'', ''street_address'', ''locality'', ''region'', ''postal_code'',
      ''country'', ''claims_locales'']"

text \<open>Reads of a value that is neither \<open>undefined\<close> nor \<open>null\<close>, and a write to the \<open>idToken\<close> object.\<close>

definition field_of :: "jsval \<Rightarrow> string \<Rightarrow> jsval" where
  "field_of v k = (case getp v k of Inr x \<Rightarrow> x | Inl e \<Rightarrow> Undefined)"

definition putp :: "string \<Rightarrow> jsval \<Rightarrow> jsval \<Rightarrow> jsval" where
  "putp k x v = (case v of Obj ps \<Rightarrow> Obj (AList.update k x ps) | _ \<Rightarrow> v)"

definition id_token_step :: "jsval \<Rightarrow> jsval \<Rightarrow> string \<Rightarrow> jsval" where
  "id_token_step parsed idt n =
     (if truthy (field_of parsed n)
      then putp n (field_of parsed n) (if \<not> truthy idt then Obj [] else idt)
      else idt)"

definition id_token :: "jsval \<Rightarrow> jsval \<Rightarrow> jsval" where
  "id_token parsed idt = foldl (id_token_step parsed) idt idTokenProperties"

text \<open>The fields set from a decoded token; reading \<open>sub\<close> of \<open>null\<close> throws.\<close>

definition session_of :: "env \<Rightarrow> jsval \<Rightarrow> jsval \<Rightarrow> string" where
  "session_of env realm parsed =
     str_of env realm @ ''/'' @ str_of env (field_of parsed ''sub'')
     @ (if truthy (field_of parsed ''session_state'')
        then ''/'' @ str_of env (field_of parsed ''session_state'') else [])"

definition store_parsed :: "env \<Rightarrow> jsval \<Rightarrow> unit client" where
  "store_parsed env parsed =
     bindJ (upd (set_kc (\<lambda>k. k\<lparr>kc_tokenParsed := parsed\<rparr>))) (\<lambda>_.
     bindJ (liftE (getp parsed ''sub'')) (\<lambda>sub.
     upd (set_kc (\<lambda>k. k\<lparr>
       kc_sessionId := Some (session_of env (kc_realm k) parsed),
       kc_authenticated := Bool True,
       kc_subject := sub,
       kc_realmAccess := field_of parsed ''realm_access'',
       kc_resourceAccess := field_of parsed ''resource_access'',
       kc_idToken := id_token parsed (kc_idToken k)\<rparr>))))"

definition forget_token :: "kcs \<Rightarrow> kcs" where
  "forget_token k = k\<lparr>kc_token := Undefined, kc_tokenParsed := Undefined, kc_subject := Undefined,
     kc_realmAccess := Undefined, kc_resourceAccess := Undefined, kc_idToken := Undefined,
     kc_authenticated := Bool False\<rparr>"

definition set_access_token :: "env \<Rightarrow> jsval \<Rightarrow> unit client" where
  "set_access_token env token =
     (if truthy token then
        bindJ (upd (set_kc (\<lambda>k. k\<lparr>kc_token := token\<rparr>))) (\<lambda>_.
        bindJ (liftE (decode_token env token)) (store_parsed env))
      else upd (set_kc forget_token))"

definition set_refresh_token :: "env \<Rightarrow> jsval \<Rightarrow> unit client" where
  "set_refresh_token env refreshToken =
     (if truthy refreshToken then
        bindJ (upd (set_kc (\<lambda>k. k\<lparr>kc_refreshToken := refreshToken\<rparr>))) (\<lambda>_.
        bindJ (liftE (decode_refreshToken env refreshToken)) (\<lambda>v.
        upd (set_kc (\<lambda>k. k\<lparr>kc_refreshTokenParsed := v\<rparr>))))
      else upd (set_kc (\<lambda>k. k\<lparr>kc_refreshToken := Undefined, kc_refreshTokenParsed := Undefined\<rparr>)))"

definition setToken :: "env \<Rightarrow> jsval \<Rightarrow> jsval \<Rightarrow> unit client" where
  "setToken env token refreshToken =
     bindJ (if truthy token \<or> truthy refreshToken
            then bindJ (setupCheckLoginIframe env) (\<lambda>_. ret ()) else ret ()) (\<lambda>_.
     bindJ (set_access_token env token) (\<lambda>_.
     set_refresh_token env refreshToken))"

section \<open>Questions about the token\<close>

text \<open>\<open>access.roles.indexOf(role) >= 0\<close>: \<open>roles\<close> may also be a string.\<close>

definition roles_contain :: "jsval \<Rightarrow> string \<Rightarrow> js_error + bool" where
  "roles_contain access role =
     (case getp access ''roles'' of
        Inl e \<Rightarrow> Inl e
      | Inr (Arr rs) \<Rightarrow> Inr (Str role \<in> set rs)
      | Inr (Str s) \<Rightarrow> Inr (0 \<le> js_indexOf role s)
      | Inr _ \<Rightarrow> Inl TypeError)"

definition hasRealmRole :: "string \<Rightarrow> world \<Rightarrow> js_error + bool" where
  "hasRealmRole role w =
     (let access = kc_realmAccess (kc w) in
      if truthy access then roles_contain access role else Inr False)"

definition hasResourceRole :: "env \<Rightarrow> string \<Rightarrow> jsval \<Rightarrow> world \<Rightarrow> js_error + bool" where
  "hasResourceRole env role resource w =
     (if \<not> truthy (kc_resourceAccess (kc w)) then Inr False
      else
        (case getp (kc_resourceAccess (kc w))
                (str_of env (if truthy resource then resource else kc_clientId (kc w))) of
           Inl e \<Rightarrow> Inl e
         | Inr access \<Rightarrow> if truthy access then roles_contain access role else Inr False))"

text \<open>Subtraction from \<open>undefined\<close> is \<open>NaN\<close>, and no comparison with \<open>NaN\<close> holds.\<close>

definition isTokenExpired :: "env \<Rightarrow> rat option \<Rightarrow> world \<Rightarrow> js_error + bool" where
  "isTokenExpired env minValidity w =
     (if \<not> truthy (kc_tokenParsed (kc w)) \<or> \<not> truthy (kc_refreshToken (kc w))
      then Inl (Thrown ''Not authenticated'')
      else
        (case getp (kc_tokenParsed (kc w)) ''exp'' of
           Inl e \<Rightarrow> Inl e
         | Inr v \<Rightarrow>
             Inr (case js_tonum (str_num env) (num_str env) v of
                    None \<Rightarrow> False
                  | Some e \<Rightarrow> e - w_now w / 1000
                      - (case minValidity of None \<Rightarrow> 0 | Some m \<Rightarrow> m) < 0)))"

section \<open>Lemmas on storing\<close>

lemma setup_no_error: "\<exists>r. snd (setupCheckLoginIframe env w) = Inr r"
  by (simp add: setup_cases Let_def)

lemma setup_frame [simp]:
  "kc (fst (setupCheckLoginIframe env w)) = kc w"
  "lif (fst (setupCheckLoginIframe env w)) = lif w"
  "w_refreshQueue (fst (setupCheckLoginIframe env w)) = w_refreshQueue w"
  "w_xhrs (fst (setupCheckLoginIframe env w)) = w_xhrs w"
  "w_oauthState (fst (setupCheckLoginIframe env w)) = w_oauthState w"
  by (simp_all add: setup_cases Let_def client_results set_check_timeout_def)

lemma setToken_cases:
  "setToken env t r w =
     (let w1 = (if truthy t \<or> truthy r then fst (setupCheckLoginIframe env w) else w)
      in case set_access_token env t w1 of
           (w2, Inl e) \<Rightarrow> (w2, Inl e)
         | (w2, Inr x) \<Rightarrow> set_refresh_token env r w2)"
proof -
  have "bindJ (bindJ (setupCheckLoginIframe env) (\<lambda>_. ret ())) f w
      = f () (fst (setupCheckLoginIframe env w))" for f :: "unit \<Rightarrow> unit client"
    using setup_no_error [of env w] by (auto simp: bindJ_def split: prod.splits sum.splits)
  then show ?thesis
    by (simp add: setToken_def Let_def bindJ_def split: prod.splits sum.splits)
qed

lemma store_parsed_Obj:
  "store_parsed env (Obj ps) w = (set_kc (\<lambda>k. k\<lparr>kc_tokenParsed := Obj ps,
       kc_sessionId := Some (session_of env (kc_realm k) (Obj ps)),
       kc_authenticated := Bool True,
       kc_subject := field_of (Obj ps) ''sub'',
       kc_realmAccess := field_of (Obj ps) ''realm_access'',
       kc_resourceAccess := field_of (Obj ps) ''resource_access'',
       kc_idToken := id_token (Obj ps) (kc_idToken k)\<rparr>) w, Inr ())"
  by (simp add: store_parsed_def field_of_def set_kc_def)

section \<open>The id token\<close>

definition objish :: "jsval \<Rightarrow> bool" where
  "objish v \<longleftrightarrow> v = Undefined \<or> (\<exists>ps. v = Obj ps)"

lemma field_of_Obj: "field_of (Obj ps) k = (case map_of ps k of None \<Rightarrow> Undefined | Some v \<Rightarrow> v)"
  by (simp add: field_of_def)

lemma field_of_Undefined [simp]: "field_of Undefined k = Undefined"
  by (simp add: field_of_def)

lemma id_token_step_lookup:
  assumes "objish idt"
  shows "objish (id_token_step parsed idt k)"
    and "field_of (id_token_step parsed idt k) n =
      (if n = k \<and> truthy (field_of parsed n) then field_of parsed n else field_of idt n)"
proof -
  obtain ps where ps: "(if \<not> truthy idt then Obj [] else idt) = Obj ps"
      "field_of (Obj ps) m = field_of idt m" for m
  proof (cases "idt = Undefined")
    case True
    then show ?thesis using that [of "[]"] by (simp add: field_of_Obj)
  next
    case False
    with assms show ?thesis using that by (auto simp: objish_def)
  qed
  show "objish (id_token_step parsed idt k)"
    using assms by (simp add: id_token_step_def ps putp_def objish_def)
  show "field_of (id_token_step parsed idt k) n =
      (if n = k \<and> truthy (field_of parsed n) then field_of parsed n else field_of idt n)"
    using ps(2) [of n] by (auto simp: id_token_step_def ps(1) putp_def field_of_Obj AList.update_conv')
qed

lemma id_token_fold_lookup:
  "objish idt \<Longrightarrow> field_of (foldl (id_token_step parsed) idt ks) n =
     (if n \<in> set ks \<and> truthy (field_of parsed n) then field_of parsed n else field_of idt n)"
proof (induction ks arbitrary: idt)
  case Nil
  then show ?case by simp
next
  case (Cons k ks)
  then show ?case using id_token_step_lookup [OF Cons.prems, of parsed k] by auto
qed

section \<open>The two outcomes of \<open>setToken\<close> its callers rely on\<close>

definition stored_kc :: "env \<Rightarrow> jsval \<Rightarrow> (string \<times> jsval) list \<Rightarrow> jsval \<Rightarrow> jsval \<Rightarrow> kcs \<Rightarrow> kcs" where
  "stored_kc env t ps r v k = k\<lparr>kc_token := t, kc_tokenParsed := Obj ps,
     kc_sessionId := Some (session_of env (kc_realm k) (Obj ps)),
     kc_authenticated := Bool True,
     kc_subject := field_of (Obj ps) ''sub'',
     kc_realmAccess := field_of (Obj ps) ''realm_access'',
     kc_resourceAccess := field_of (Obj ps) ''resource_access'',
     kc_idToken := id_token (Obj ps) (kc_idToken k),
     kc_refreshToken := r, kc_refreshTokenParsed := v\<rparr>"

lemma setToken_pair:
  assumes "truthy t" and "decode_token env t = Inr (Obj ps)"
    and "truthy r" and "decode_refreshToken env r = Inr v"
  shows "snd (setToken env t r w) = Inr ()"
    and "kc (fst (setToken env t r w)) = stored_kc env t ps r v (kc w)"
  using assms
  by (simp_all add: setToken_cases set_access_token_def set_refresh_token_def store_parsed_Obj
      stored_kc_def)

definition cleared_kc :: "kcs \<Rightarrow> kcs" where
  "cleared_kc k = (forget_token k)\<lparr>kc_refreshToken := Undefined, kc_refreshTokenParsed := Undefined\<rparr>"

lemma setToken_null: "setToken env Null Null w = (set_kc cleared_kc w, Inr ())"
  by (simp add: setToken_cases set_access_token_def set_refresh_token_def cleared_kc_def set_kc_def)

section \<open>Properties\<close>

text \<open>C32. Storing a token whose payload is an object makes the object authenticated with the
  payload's subject, roles and session, replaces the refresh token, and touches no other part of
  the configuration of the object.\<close>

theorem setToken_stores:
  assumes "truthy t" and "decode_token env t = Inr (Obj ps)"
    and "truthy r" and "decode_refreshToken env r = Inr v"
  shows "snd (setToken env t r w) = Inr ()
    \<and> kc (fst (setToken env t r w)) = (kc w)\<lparr>kc_token := t, kc_tokenParsed := Obj ps,
       kc_sessionId := Some (session_of env (kc_realm (kc w)) (Obj ps)),
       kc_authenticated := Bool True,
       kc_subject := field_of (Obj ps) ''sub'',
       kc_realmAccess := field_of (Obj ps) ''realm_access'',
       kc_resourceAccess := field_of (Obj ps) ''resource_access'',
       kc_idToken := id_token (Obj ps) (kc_idToken (kc w)),
       kc_refreshToken := r, kc_refreshTokenParsed := v\<rparr>"
  using setToken_pair [OF assms] by (simp_all add: stored_kc_def)

text \<open>C34. After a token is stored, \<open>hasRealmRole\<close> answers exactly from the roles the token lists,
  and without a token it answers no.\<close>

theorem hasRealmRole_of_token:
  assumes "truthy t" and "decode_token env t = Inr (Obj ps)"
    and "truthy r" and "decode_refreshToken env r = Inr v"
    and "field_of (Obj ps) ''realm_access'' = Obj ra" and "field_of (Obj ra) ''roles'' = Arr rs"
  shows "hasRealmRole role (fst (setToken env t r w)) = Inr (Str role \<in> set rs)
    \<and> hasRealmRole role (fst (setToken env Null Null w)) = Inr False"
proof -
  have "getp (Obj ra) ''roles'' = Inr (Arr rs)"
    using assms(6) by (simp add: field_of_def)
  then show ?thesis
    using assms(5) by (simp add: hasRealmRole_def setToken_pair(2) [OF assms(1-4)] stored_kc_def
      roles_contain_def setToken_null cleared_kc_def forget_token_def)
qed

text \<open>Clearing the tokens never fails, ends the authenticated state and removes both tokens and
  everything read from the access token, except the session id, which stays.\<close>

theorem setToken_clears:
  "setToken env Null Null w = (set_kc (\<lambda>k. k\<lparr>kc_token := Undefined, kc_tokenParsed := Undefined,
      kc_subject := Undefined, kc_realmAccess := Undefined, kc_resourceAccess := Undefined,
      kc_idToken := Undefined, kc_authenticated := Bool False, kc_refreshToken := Undefined,
      kc_refreshTokenParsed := Undefined\<rparr>) w, Inr ())
   \<and> kc_sessionId (kc (fst (setToken env Null Null w))) = kc_sessionId (kc w)"
  by (simp add: setToken_null cleared_kc_def forget_token_def set_kc_def)

text \<open>The id token holds exactly: each claim of the list that the access token carries with a
  truthy value, and for every other name what was there before (so a claim that a refreshed token
  no longer carries is still in the id token).\<close>

theorem id_token_claims:
  assumes "objish idt"
  shows "field_of (id_token parsed idt) n =
    (if n \<in> set idTokenProperties \<and> truthy (field_of parsed n) then field_of parsed n
     else field_of idt n)"
  unfolding id_token_def by (rule id_token_fold_lookup [OF assms])

text \<open>C33. A token that does not decode still replaces \<open>kc.token\<close>: the object then pairs the new token
  with the parsed claims and the authenticated flag of the old one.\<close>

theorem setToken_undecodable:
  assumes "truthy t" and "decode_token env t = Inl e"
  shows "snd (setToken env t r w) = Inl e \<and> kc (fst (setToken env t r w)) = (kc w)\<lparr>kc_token := t\<rparr>"
  using assms by (simp add: setToken_cases set_access_token_def)

text \<open>A token without an expiry time, or with one that is not a number, is never reported
  expired, whatever the clock says and whatever validity is required.\<close>

theorem isTokenExpired_no_exp:
  assumes "truthy (kc_tokenParsed (kc w))" and "truthy (kc_refreshToken (kc w))"
    and "js_tonum (str_num env) (num_str env) (field_of (kc_tokenParsed (kc w)) ''exp'') = None"
  shows "isTokenExpired env m (w\<lparr>w_now := now\<rparr>) = Inr False"
proof (cases "getp (kc_tokenParsed (kc w)) ''exp''")
  case (Inl e)
  then show ?thesis using assms(1) by (cases "kc_tokenParsed (kc w)") auto
next
  case (Inr v)
  then show ?thesis using assms by (simp add: isTokenExpired_def field_of_def)
qed

end
