(* ===== verification/Kc_Adapter.thy ===== *)
theory Kc_Adapter
  imports Kc_Token
begin

text \<open>
  What \<open>loadAdapter\<close> returns: the default adapter, which navigates the page, and the Cordova
  adapter, which opens a window and listens to its \<open>loadstart\<close>, \<open>loaderror\<close> and \<open>exit\<close>
  events; and \<open>processCallback\<close>, which turns an accepted callback into a request for tokens.
\<close>

section \<open>Processing a callback\<close>

text \<open>
  The credentials of the client: Basic authentication when there is a secret, otherwise the
  client's id in the body.
\<close>

definition client_auth :: "env \<Rightarrow> world \<Rightarrow> string \<Rightarrow> js_error + ((string \<times> string) list \<times> string)" where
  "client_auth env w params =
     (let k = kc w; form = (''Content-type'', ''application/x-www-form-urlencoded'') in
      if truthy (kc_clientId k) \<and> truthy (kc_clientSecret k)
      then (case btoa env (str_of env (kc_clientId k) @ '':'' @ str_of env (kc_clientSecret k)) of
              None \<Rightarrow> Inl InvalidCharacterError
            | Some b \<Rightarrow> Inr ([form, (''Authorization'', ''Basic '' @ b)], params))
      else Inr ([form], params @ ''&client_id='' @ encodeURIComponent (str_of env (kc_clientId k))))"

definition processCallback :: "env \<Rightarrow> oauth \<Rightarrow> pid \<Rightarrow> instr list client" where
  "processCallback env oa promise =
     (if truthy_str (oa_code oa) then
        bindJ (asks (\<lambda>w. client_auth env w (''code='' @ the (oa_code oa)))) (\<lambda>r.
        bindJ (liftE r) (\<lambda>(headers, params).
        bindJ (asks (\<lambda>w. getRealmUrl env w @ ''/tokens/access/codes'')) (\<lambda>url.
        bindJ (send_xhr (XCode promise) ''POST'' url headers params True) (\<lambda>_.
        ret []))))
      else if truthy_str (oa_error oa) then
        (if oa_prompt oa \<noteq> Some ''none''
         then ret [Hook OnAuthError Undefined, SettleI False promise Undefined]
         else ret [SettleI True promise Undefined])
      else ret [])"

text \<open>The response to the request for tokens.\<close>

definition code_response :: "pid \<Rightarrow> nat \<Rightarrow> string \<Rightarrow> instr list" where
  "code_response promise status body =
     (if status = 200
      then [TokenResponse body, Hook OnAuthSuccess Undefined, SettleI True promise Undefined]
      else [Hook OnAuthError Undefined, SettleI False promise Undefined])"

section \<open>Choosing an adapter\<close>

definition loadAdapter :: "string option \<Rightarrow> unit client" where
  "loadAdapter type =
     (if \<not> truthy_str type \<or> type = Some ''default''
      then upd (\<lambda>w. w\<lparr>w_adapter := Some DefaultAdapter\<rparr>)
      else if type = Some ''cordova''
      then upd (\<lambda>w. set_lif (\<lambda>l. l\<lparr>li_enable := False\<rparr>) w\<lparr>w_adapter := Some CordovaAdapter\<rparr>)
      else raise (Thrown (''invalid adapter type: '' @ the type)))"

section \<open>The default adapter\<close>

definition navigate :: "string \<Rightarrow> pid client" where
  "navigate url = bindJ (upd (emit (Navigate url))) (\<lambda>_. new_promise)"

definition default_login :: "env \<Rightarrow> login_options option \<Rightarrow> pid client" where
  "default_login env options = bindJ (createLoginUrl env options) navigate"

definition default_logout :: "env \<Rightarrow> login_options option \<Rightarrow> pid client" where
  "default_logout env options = bindJ (createLogoutUrl env options) navigate"

definition default_accountManagement :: "env \<Rightarrow> pid client" where
  "default_accountManagement env = bindJ (createAccountUrl env None) navigate"

section \<open>The Cordova adapter\<close>

definition open_window :: "refkind \<Rightarrow> string \<Rightarrow> string \<Rightarrow> unit client" where
  "open_window kind url features =
     upd (\<lambda>w. emit (OpenWindow (length (w_windows w)) url features)
       (w\<lparr>w_windows := w_windows w @ [\<lparr>rw_kind = kind, rw_callback = None, rw_error = False\<rparr>]\<rparr>))"

definition cordova_login :: "env \<Rightarrow> login_options option \<Rightarrow> pid client" where
  "cordova_login env options =
     bindJ new_promise (\<lambda>promise.
     bindJ (createLoginUrl env options) (\<lambda>loginUrl.
     bindJ (open_window (RefLogin promise) loginUrl
       (if options \<noteq> None \<and> lo_prompt (the options) = Some ''none''
        then ''location=no,hidden=yes'' else ''location=no'')) (\<lambda>_.
     ret promise)))"

definition cordova_logout :: "env \<Rightarrow> login_options option \<Rightarrow> pid client" where
  "cordova_logout env options =
     bindJ new_promise (\<lambda>promise.
     bindJ (createLogoutUrl env options) (\<lambda>logoutUrl.
     bindJ (open_window (RefLogout promise) logoutUrl ''location=no,hidden=yes'') (\<lambda>_.
     ret promise)))"

definition cordova_accountManagement :: "env \<Rightarrow> unit client" where
  "cordova_accountManagement env =
     bindJ (createAccountUrl env None) (\<lambda>accountUrl.
     open_window RefAccount accountUrl ''location=no'')"

definition is_localhost :: "string \<Rightarrow> bool" where
  "is_localhost url \<longleftrightarrow> js_indexOf ''http://localhost'' url = 0"

definition update_window :: "nat \<Rightarrow> (refwin \<Rightarrow> refwin) \<Rightarrow> world \<Rightarrow> world" where
  "update_window i f w = w\<lparr>w_windows := (w_windows w)[i := f (w_windows w ! i)]\<rparr>"

text \<open>The three listeners of a window; \<open>i\<close> is the window's number.\<close>

definition ref_loadstart :: "nat \<Rightarrow> string \<Rightarrow> unit client" where
  "ref_loadstart i url =
     (if is_localhost url then
        bindJ (asks (\<lambda>w. rw_kind (w_windows w ! i))) (\<lambda>kind.
        bindJ (case kind of
                 RefLogin p \<Rightarrow>
                   bindJ (parseCallback url) (\<lambda>c.
                   upd (update_window i (\<lambda>r. r\<lparr>rw_callback := c\<rparr>)))
               | _ \<Rightarrow> ret ()) (\<lambda>_.
        upd (emit (CloseWindow i))))
      else ret ())"

definition ref_loaderror :: "nat \<Rightarrow> string \<Rightarrow> unit client" where
  "ref_loaderror i url =
     bindJ (asks (\<lambda>w. rw_kind (w_windows w ! i))) (\<lambda>kind.
       if kind = RefAccount \<or> is_localhost url then ret ()
       else bindJ (upd (update_window i (\<lambda>r. r\<lparr>rw_error := True\<rparr>))) (\<lambda>_. upd (emit (CloseWindow i))))"

definition ref_exit :: "env \<Rightarrow> nat \<Rightarrow> instr list client" where
  "ref_exit env i =
     bindJ (asks (\<lambda>w. w_windows w ! i)) (\<lambda>r.
       case rw_kind r of
         RefLogin promise \<Rightarrow>
           (if rw_error r \<or> rw_callback r = None
            then ret [SettleI False promise Undefined]
            else processCallback env (the (rw_callback r)) promise)
       | RefLogout promise \<Rightarrow>
           (if rw_error r then ret [SettleI False promise Undefined]
            else ret [ClearToken, SettleI True promise Undefined])
       | RefAccount \<Rightarrow> ret [])"

section \<open>The operations of the object\<close>

text \<open>Before \<open>init\<close> there is no adapter, and a call on \<open>undefined\<close> throws.\<close>

definition kc_login :: "env \<Rightarrow> login_options option \<Rightarrow> pid client" where
  "kc_login env options =
     bindJ (asks w_adapter) (\<lambda>a. case a of
         None \<Rightarrow> raise TypeError
       | Some DefaultAdapter \<Rightarrow> default_login env options
       | Some CordovaAdapter \<Rightarrow> cordova_login env options)"

definition kc_logout :: "env \<Rightarrow> login_options option \<Rightarrow> pid client" where
  "kc_logout env options =
     bindJ (asks w_adapter) (\<lambda>a. case a of
         None \<Rightarrow> raise TypeError
       | Some DefaultAdapter \<Rightarrow> default_logout env options
       | Some CordovaAdapter \<Rightarrow> cordova_logout env options)"

definition accountManagement :: "env \<Rightarrow> unit client" where
  "accountManagement env =
     bindJ (asks w_adapter) (\<lambda>a. case a of
         None \<Rightarrow> raise TypeError
       | Some DefaultAdapter \<Rightarrow> bindJ (default_accountManagement env) (\<lambda>_. ret ())
       | Some CordovaAdapter \<Rightarrow> cordova_accountManagement env)"

text \<open>\<open>clearToken\<close>: the writes, then the hook, then a new login when one is required.\<close>

definition clearToken :: "env \<Rightarrow> instr list client" where
  "clearToken env =
     bindJ (asks (\<lambda>w. truthy (kc_token (kc w)))) (\<lambda>has_token.
       if has_token
       then bindJ (setToken env Null Null) (\<lambda>_. ret [Hook OnAuthLogout Undefined, ReLogin])
       else ret [])"

definition relogin :: "env \<Rightarrow> unit client" where
  "relogin env =
     bindJ (asks (\<lambda>w. kc_loginRequired (kc w))) (\<lambda>required.
       if required then bindJ (kc_login env None) (\<lambda>_. ret ()) else ret ())"

definition loadUserProfile :: "env \<Rightarrow> pid client" where
  "loadUserProfile env =
     bindJ (asks (\<lambda>w. getRealmUrl env w @ ''/account'')) (\<lambda>url.
     bindJ new_promise (\<lambda>promise.
     bindJ (asks (\<lambda>w. [(''Accept'', ''application/json''),
        (''Authorization'', ''bearer '' @ str_of env (kc_token (kc w)))])) (\<lambda>headers.
     bindJ (send_xhr (XProfile promise) ''GET'' url headers [] False) (\<lambda>_.
     ret promise))))"

definition profile_response :: "env \<Rightarrow> pid \<Rightarrow> nat \<Rightarrow> string \<Rightarrow> instr list client" where
  "profile_response env promise status body =
     (if status = 200 then
        bindJ (liftE (parse_json env body)) (\<lambda>v.
        bindJ (upd (set_kc (\<lambda>k. k\<lparr>kc_profile := v\<rparr>))) (\<lambda>_.
        ret [SettleI True promise v]))
      else ret [SettleI False promise Undefined])"

end
