(* ===== verification/Kc_Refresh.thy ===== *)
theory Kc_Refresh
  imports Kc_Adapter
begin

text \<open>
  \<open>kc.updateToken\<close>: every caller gets a promise; while the token is too short-lived the promise
  waits in \<open>refreshQueue\<close>, and only the caller that finds the queue empty sends a request.  The
  response empties the queue, last promise first.
\<close>

section \<open>Asking for a fresh token\<close>

definition exec_update :: "env \<Rightarrow> pid \<Rightarrow> rat \<Rightarrow> instr list client" where
  "exec_update env promise minValidity =
     bindJ (asks (isTokenExpired env (Some minValidity))) (\<lambda>r.
     bindJ (liftE r) (\<lambda>expired.
       if \<not> expired then settleP True promise (Bool False)
       else
         bindJ (asks (\<lambda>w. ''grant_type=refresh_token&refresh_token='' @ str_of env (kc_refreshToken (kc w)))) (\<lambda>params.
         bindJ (asks (\<lambda>w. getRealmUrl env w @ ''/tokens/refresh'')) (\<lambda>url.
         bindJ (upd (\<lambda>w. w\<lparr>w_refreshQueue := w_refreshQueue w @ [promise]\<rparr>)) (\<lambda>_.
         bindJ (asks (\<lambda>w. length (w_refreshQueue w))) (\<lambda>n.
           if n = 1 then
             bindJ (asks (\<lambda>w. client_auth env w params)) (\<lambda>a.
             bindJ (liftE a) (\<lambda>(headers, body).
             bindJ (send_xhr XRefresh ''POST'' url headers body False) (\<lambda>_. ret [])))
           else ret []))))))"

text \<open>\<open>minValidity || 5\<close>.\<close>

definition min_validity :: "rat option \<Rightarrow> rat" where
  "min_validity m = (case m of None \<Rightarrow> 5 | Some r \<Rightarrow> if r = 0 then 5 else r)"

text \<open>The promise, and what runs before the call returns it.\<close>

definition updateToken :: "env \<Rightarrow> rat option \<Rightarrow> (pid \<times> instr list) client" where
  "updateToken env minValidity =
     bindJ new_promise (\<lambda>promise.
     bindJ (asks (\<lambda>w. truthy (kc_tokenParsed (kc w)) \<and> truthy (kc_refreshToken (kc w)))) (\<lambda>authenticated.
       if \<not> authenticated
       then bindJ (settleP False promise Undefined) (\<lambda>_. ret (promise, []))
       else
         bindJ (asks (\<lambda>w. li_enable (lif w))) (\<lambda>enable.
           if enable then
             bindJ (checkLoginIframe env) (\<lambda>iframePromise.
             bindJ (registerP True iframePromise (ExecUpdate promise (min_validity minValidity))) (\<lambda>js1.
             bindJ (registerP False iframePromise (SetErr promise)) (\<lambda>js2.
             ret (promise, js1 @ js2))))
           else ret (promise, [Invoke (ExecUpdate promise (min_validity minValidity)) Undefined]))))"

section \<open>The response\<close>

definition refresh_response :: "nat \<Rightarrow> string \<Rightarrow> instr list" where
  "refresh_response status body =
     (if status = 200
      then [TokenResponse body, Hook OnAuthRefreshSuccess Undefined, Drain True]
      else [Hook OnAuthRefreshError Undefined, Drain False])"

text \<open>\<open>JSON.parse(req.responseText)\<close> and \<open>setToken\<close>.\<close>

definition token_response :: "env \<Rightarrow> string \<Rightarrow> unit client" where
  "token_response env body =
     bindJ (liftE (parse_json env body)) (\<lambda>tokenResponse.
     bindJ (liftE (getp tokenResponse ''access_token'')) (\<lambda>acc.
     bindJ (liftE (getp tokenResponse ''refresh_token'')) (\<lambda>ref.
     setToken env acc ref)))"

text \<open>\<open>for (var p = refreshQueue.pop(); p != null; p = refreshQueue.pop())\<close>: one turn of it.\<close>

definition drain_queue :: "bool \<Rightarrow> instr list client" where
  "drain_queue ok =
     bindJ (asks w_refreshQueue) (\<lambda>q.
       if q = [] then ret []
       else
         bindJ (upd (\<lambda>w. w\<lparr>w_refreshQueue := butlast q\<rparr>)) (\<lambda>_.
         bindJ (settleP ok (last q) (Bool True)) (\<lambda>calls.
         ret (calls @ [Drain ok]))))"

end
