(* ===== verification/Kc_Init.thy ===== *)
theory Kc_Init
  imports Kc_Refresh
begin

text \<open>
  \<open>kc.init\<close>: the adapter, the options, the configuration (given or fetched), and then
  \<open>processInit\<close>, which either handles a callback, takes the tokens it is given, or starts the
  login that \<open>onLoad\<close> asks for.
\<close>

section \<open>Configuration\<close>

text \<open>The fields read from the fetched \<open>keycloak.json\<close>.\<close>

definition config_response :: "env \<Rightarrow> pid \<Rightarrow> nat \<Rightarrow> string \<Rightarrow> instr list client" where
  "config_response env promise status body =
     (if status = 200 then
        bindJ (liftE (parse_json env body)) (\<lambda>config.
        bindJ (liftE (getp config ''auth-server-url'')) (\<lambda>url.
        bindJ (upd (set_kc (\<lambda>k. k\<lparr>
          kc_authServerUrl := url,
          kc_realm := field_of config ''realm'',
          kc_clientId := field_of config ''resource'',
          kc_clientSecret :=
            (if truthy (field_of config ''credentials'')
             then field_of (field_of config ''credentials'') ''secret'' else Undefined)\<rparr>))) (\<lambda>_.
        ret [SettleI True promise Undefined])))
      else ret [SettleI False promise Undefined])"

text \<open>The server's address taken from the first script that is \<open>keycloak.js\<close>.\<close>

fun script_url :: "string list \<Rightarrow> string option" where
  "script_url [] = None"
| "script_url (src # srcs) =
     (if js_indexOf ''keycloak.js'' src \<noteq> -1
      then Some (js_prefix src (js_indexOf ''/js/keycloak.js'' src))
      else script_url srcs)"

definition fill_config_url :: "world \<Rightarrow> world" where
  "fill_config_url w =
     (if \<not> truthy (field_of (w_config w) ''url'')
      then (case script_url (w_scripts w) of
              None \<Rightarrow> w
            | Some u \<Rightarrow> w\<lparr>w_config := putp ''url'' (Str u) (w_config w)\<rparr>)
      else w)"

definition loadConfig :: "env \<Rightarrow> pid client" where
  "loadConfig env =
     bindJ new_promise (\<lambda>promise.
     bindJ (asks w_config) (\<lambda>config.
     let configUrl = (if \<not> truthy config then Some ''keycloak.json''
                      else case config of Str s \<Rightarrow> Some s | _ \<Rightarrow> None) in
     case configUrl of
       Some url \<Rightarrow>
         bindJ (send_xhr (XConfig promise) ''GET'' url [(''Accept'', ''application/json'')] [] False) (\<lambda>_.
         ret promise)
     | None \<Rightarrow>
         bindJ (upd fill_config_url) (\<lambda>_.
         bindJ (asks w_config) (\<lambda>config.
           if \<not> truthy (field_of config ''realm'') then raise (Thrown ''realm missing'')
           else if \<not> truthy (field_of config ''clientId'') then raise (Thrown ''clientId missing'')
           else
             bindJ (upd (set_kc (\<lambda>k. k\<lparr>
               kc_authServerUrl := field_of config ''url'',
               kc_realm := field_of config ''realm'',
               kc_clientId := field_of config ''clientId'',
               kc_clientSecret :=
                 (if truthy (field_of config ''credentials'')
                  then field_of (field_of config ''credentials'') ''secret'' else Undefined)\<rparr>))) (\<lambda>_.
             bindJ (settleP True promise Undefined) (\<lambda>_.
             ret promise))))))"

section \<open>Starting a session\<close>

text \<open>\<open>doLogin\<close> of \<open>processInit\<close>; \<open>ip\<close> is \<open>initPromise\<close>.\<close>

definition doLogin :: "env \<Rightarrow> bool \<Rightarrow> pid \<Rightarrow> instr list client" where
  "doLogin env prompt ip =
     bindJ (kc_login env (Some (if \<not> prompt then no_options\<lparr>lo_prompt := Some ''none''\<rparr> else no_options))) (\<lambda>p.
     bindJ (registerP True p (SetOk ip)) (\<lambda>js1.
     bindJ (registerP False p (SetErr ip)) (\<lambda>js2.
     ret (js1 @ js2))))"

text \<open>The iframe is there: ask it, then log in silently or go on without a session.\<close>

definition iframe_ready :: "env \<Rightarrow> pid \<Rightarrow> instr list client" where
  "iframe_ready env ip =
     bindJ (checkLoginIframe env) (\<lambda>p.
     bindJ (registerP True p (DoLogin ip)) (\<lambda>js1.
     bindJ (registerP False p (SetOk ip)) (\<lambda>js2.
     ret (js1 @ js2))))"

definition check_sso :: "env \<Rightarrow> pid \<Rightarrow> instr list client" where
  "check_sso env ip =
     bindJ (asks (\<lambda>w. li_enable (lif w))) (\<lambda>enable.
       if enable then
         bindJ (setupCheckLoginIframe env) (\<lambda>r. case r of
             None \<Rightarrow> raise TypeError
           | Some p \<Rightarrow> registerP True p (IframeReady ip))
       else doLogin env False ip)"

text \<open>\<open>history.replaceState\<close> takes the query away and puts the saved fragment back.\<close>

definition restore_url :: "oauth \<Rightarrow> world \<Rightarrow> world" where
  "restore_url oa w =
     (let l = w_loc w;
          fragment = (if truthy_str (oa_fragment oa) then ''#'' @ the (oa_fragment oa) else [])
      in emit (ReplaceState (loc_protocol l @ ''//'' @ loc_host l @ loc_pathname l @ fragment))
           (w\<lparr>w_loc := l\<lparr>loc_search := [], loc_hash := fragment\<rparr>\<rparr>))"

definition processInit :: "env \<Rightarrow> init_options option \<Rightarrow> pid \<Rightarrow> instr list client" where
  "processInit env initOptions ip =
     bindJ (asks (\<lambda>w. loc_search (w_loc w))) (\<lambda>search.
     bindJ (parseCallback search) (\<lambda>callback.
       case callback of
         Some oa \<Rightarrow> bindJ (upd (restore_url oa)) (\<lambda>_. processCallback env oa ip)
       | None \<Rightarrow>
           (case initOptions of
              None \<Rightarrow> ret [SettleI True ip Undefined]
            | Some opts \<Rightarrow>
                if truthy (io_token opts) \<or> truthy (io_refreshToken opts) then
                  bindJ (setToken env (io_token opts) (io_refreshToken opts)) (\<lambda>_.
                  ret [SettleI True ip Undefined])
                else if truthy (io_onLoad opts) then
                  (if io_onLoad opts = Str ''check-sso'' then check_sso env ip
                   else if io_onLoad opts = Str ''login-required'' then doLogin env True ip
                   else raise (Thrown ''Invalid value for onLoad''))
                else ret [])))"

text \<open>The options that \<open>init\<close> stores.\<close>

definition apply_init_options :: "init_options option \<Rightarrow> world \<Rightarrow> world" where
  "apply_init_options initOptions w =
     (case initOptions of
        None \<Rightarrow> w
      | Some opts \<Rightarrow>
          (let w = (if io_checkLoginIframe opts \<noteq> Undefined
                    then set_lif (\<lambda>l. l\<lparr>li_enable := truthy (io_checkLoginIframe opts)\<rparr>) w else w);
               w = (if truthy (io_checkLoginIframeInterval opts)
                    then set_lif (\<lambda>l. l\<lparr>li_interval := io_checkLoginIframeInterval opts\<rparr>) w else w)
           in if io_onLoad opts = Str ''login-required''
              then set_kc (\<lambda>k. k\<lparr>kc_loginRequired := True\<rparr>) w else w))"

definition kc_init :: "env \<Rightarrow> init_options option \<Rightarrow> (pid \<times> instr list) client" where
  "kc_init env initOptions =
     bindJ (upd (set_kc (\<lambda>k. k\<lparr>kc_authenticated := Bool False\<rparr>))) (\<lambda>_.
     bindJ (asks w_cordova) (\<lambda>cordova.
     bindJ (loadAdapter (if cordova then Some ''cordova'' else None)) (\<lambda>_.
     bindJ (upd (apply_init_options initOptions)) (\<lambda>_.
     bindJ new_promise (\<lambda>promise.
     bindJ new_promise (\<lambda>initPromise.
     bindJ (registerP True initPromise (InitReady promise)) (\<lambda>_.
     bindJ (registerP False initPromise (SetErr promise)) (\<lambda>_.
     bindJ (loadConfig env) (\<lambda>configPromise.
     bindJ (registerP True configPromise (ProcessInit initPromise initOptions)) (\<lambda>js1.
     bindJ (registerP False configPromise (SetErr promise)) (\<lambda>js2.
     ret (promise, js1 @ js2))))))))))))"

end
