(* ===== verification/Kc_Machine.thy ===== *)
theory Kc_Machine
  imports Kc_Init
begin

text \<open>
  The event loop around \<open>keycloak.js\<close>.  \<open>step\<close> runs one instruction and says what is called
  next; \<open>run\<close> runs a turn to its end or to an uncaught exception, depth first, as synchronous
  calls do; \<open>handle\<close> is one event of the page.  A turn need not end, since the application's
  functions can call back into the object, so \<open>run\<close> is a partial function: \<open>None\<close> is a turn that
  never ends.
\<close>

section \<open>Instructions\<close>

definition call_user :: "env \<Rightarrow> nat \<Rightarrow> jsval \<Rightarrow> instr list client" where
  "call_user env n v = bindJ (upd (emit (UserCall n v))) (\<lambda>_. ret (map Api (script env n v)))"

definition call_hook :: "env \<Rightarrow> hook \<Rightarrow> jsval \<Rightarrow> instr list client" where
  "call_hook env h v = bindJ (asks (\<lambda>w. kc_hooks (kc w) h)) (\<lambda>f. case f of
       None \<Rightarrow> ret []
     | Some n \<Rightarrow> call_user env n v)"

fun call_cont :: "env \<Rightarrow> cont \<Rightarrow> jsval \<Rightarrow> instr list client" where
  "call_cont env (UserCb n) v = call_user env n v"
| "call_cont env (SetOk p) v = settleP True p Undefined"
| "call_cont env (SetErr p) v = settleP False p Undefined"
| "call_cont env (InitReady p) v =
     bindJ (asks (\<lambda>w. kc_authenticated (kc w))) (\<lambda>a. ret [Hook OnReady a, SettleAuth p])"
| "call_cont env (ProcessInit ip opts) v = processInit env opts ip"
| "call_cont env (IframeReady ip) v = iframe_ready env ip"
| "call_cont env (DoLogin ip) v = doLogin env False ip"
| "call_cont env (ExecUpdate p m) v = exec_update env p m"

text \<open>\<open>promise.success(f).error(g)\<close> by the application; either may be left out.\<close>

definition user_register :: "bool \<Rightarrow> pid \<Rightarrow> nat option \<Rightarrow> instr list client" where
  "user_register ok p f = (case f of None \<Rightarrow> ret [] | Some n \<Rightarrow> registerP ok p (UserCb n))"

fun call_api :: "env \<Rightarrow> api \<Rightarrow> instr list client" where
  "call_api env (AInit opts f g) = bindJ (kc_init env opts) (\<lambda>(p, js). ret (js @ [UserReg p f g]))"
| "call_api env (ALogin opts f g) = bindJ (kc_login env opts) (\<lambda>p. ret [UserReg p f g])"
| "call_api env (ALogout opts f g) = bindJ (kc_logout env opts) (\<lambda>p. ret [UserReg p f g])"
| "call_api env AAccount = bindJ (accountManagement env) (\<lambda>_. ret [])"
| "call_api env (AUpdateToken m f g) =
     bindJ (updateToken env m) (\<lambda>(p, js). ret (js @ [UserReg p f g]))"
| "call_api env (ALoadProfile f g) = bindJ (loadUserProfile env) (\<lambda>p. ret [UserReg p f g])"
| "call_api env (AThrow e) = raise e"

fun on_response :: "env \<Rightarrow> xhr_handler \<Rightarrow> nat \<Rightarrow> string \<Rightarrow> instr list client" where
  "on_response env (XConfig p) status body = config_response env p status body"
| "on_response env (XCode p) status body = ret (code_response p status body)"
| "on_response env XRefresh status body = ret (refresh_response status body)"
| "on_response env (XProfile p) status body = profile_response env p status body"

fun step :: "env \<Rightarrow> instr \<Rightarrow> instr list client" where
  "step env (Invoke c v) = call_cont env c v"
| "step env (Api a) = call_api env a"
| "step env (Hook h v) = call_hook env h v"
| "step env (SettleI ok p v) = settleP ok p v"
| "step env (SettleAuth p) = bindJ (asks (\<lambda>w. kc_authenticated (kc w))) (\<lambda>a. settleP True p a)"
| "step env (UserReg p f g) =
     bindJ (user_register True p f) (\<lambda>js1. bindJ (user_register False p g) (\<lambda>js2. ret (js1 @ js2)))"
| "step env (Drain ok) = drain_queue ok"
| "step env (TokenResponse body) = bindJ (token_response env body) (\<lambda>_. ret [])"
| "step env ClearToken = clearToken env"
| "step env ReLogin = bindJ (relogin env) (\<lambda>_. ret [])"
| "step env (Raise e) = raise e"
| "step env (Message origin cid session loggedIn) = message_callback origin cid session loggedIn"
| "step env (Response h status body) = on_response env h status body"
| "step env (FrameLoad p) = iframe_onload env p"
| "step env Timer = bindJ (check_timer env) (\<lambda>_. ret [])"
| "step env (RefStart i url) = bindJ (ref_loadstart i url) (\<lambda>_. ret [])"
| "step env (RefFail i url) = bindJ (ref_loaderror i url) (\<lambda>_. ret [])"
| "step env (RefExit i) = ref_exit env i"

section \<open>Turns\<close>

partial_function (option) run :: "env \<Rightarrow> instr list \<Rightarrow> world \<Rightarrow> (world \<times> js_error option) option" where
  "run env js w =
     (case js of
        [] \<Rightarrow> Some (w, None)
      | i # is \<Rightarrow>
          (case step env i w of
             (w', Inl e) \<Rightarrow> Some (w', Some e)
           | (w', Inr js') \<Rightarrow> run env (js' @ is) w'))"

lemma run_Nil [simp]: "run env [] w = Some (w, None)"
  by (subst run.simps) simp

lemma run_Cons:
  "run env (i # is) w =
     (case step env i w of
        (w', Inl e) \<Rightarrow> Some (w', Some e)
      | (w', Inr js') \<Rightarrow> run env (js' @ is) w')"
  by (subst run.simps) simp

text \<open>An exception that leaves the turn goes to the page's error handler.\<close>

definition end_turn :: "world \<times> js_error option \<Rightarrow> world" where
  "end_turn r = (case r of (w, None) \<Rightarrow> w | (w, Some e) \<Rightarrow> emit (Uncaught e) w)"

fun run_turns :: "env \<Rightarrow> instr list list \<Rightarrow> world \<Rightarrow> world option" where
  "run_turns env [] w = Some w"
| "run_turns env (t # ts) w =
     (case run env t w of None \<Rightarrow> None | Some r \<Rightarrow> run_turns env ts (end_turn r))"

section \<open>Events\<close>

datatype event =
    ECall api                                     \<comment> \<open>the application calls a method\<close>
  | EResponse nat nat string                      \<comment> \<open>request, status, text\<close>
  | EFrameLoad nat
  | EMessage string string "string option" bool   \<comment> \<open>origin, callback id, session, logged in\<close>
  | ETimer
  | ELoadstart nat string
  | ELoaderror nat string
  | EExit nat
  | ETime rat

text \<open>
  The turns an event starts.  Every iframe that was set up added a listener, and each listener
  gets the message in a turn of its own.
\<close>

fun turns_of :: "event \<Rightarrow> world \<Rightarrow> world \<times> instr list list" where
  "turns_of (ECall a) w = (w, [[Api a]])"
| "turns_of (EResponse i status body) w =
     (case map_of (w_xhrs w) i of
        None \<Rightarrow> (w, [])
      | Some h \<Rightarrow> (w\<lparr>w_xhrs := filter (\<lambda>x. fst x \<noteq> i) (w_xhrs w)\<rparr>, [[Response h status body]]))"
| "turns_of (EFrameLoad i) w =
     (w, if i < length (w_frames w) then [[FrameLoad (w_frames w ! i)]] else [])"
| "turns_of (EMessage origin cid session loggedIn) w =
     (w, replicate (length (w_frames w)) [Message origin cid session loggedIn])"
| "turns_of ETimer w =
     (if w_timers w = 0 then (w, []) else (w\<lparr>w_timers := w_timers w - 1\<rparr>, [[Timer]]))"
| "turns_of (ELoadstart i url) w = (w, if i < length (w_windows w) then [[RefStart i url]] else [])"
| "turns_of (ELoaderror i url) w = (w, if i < length (w_windows w) then [[RefFail i url]] else [])"
| "turns_of (EExit i) w = (w, if i < length (w_windows w) then [[RefExit i]] else [])"
| "turns_of (ETime t) w = (w\<lparr>w_now := max t (w_now w)\<rparr>, [])"

definition handle :: "env \<Rightarrow> event \<Rightarrow> world \<Rightarrow> world option" where
  "handle env e w = (case turns_of e w of (w', ts) \<Rightarrow> run_turns env ts w')"

fun handle_all :: "env \<Rightarrow> event list \<Rightarrow> world \<Rightarrow> world option" where
  "handle_all env [] w = Some w"
| "handle_all env (e # es) w =
     (case handle env e w of None \<Rightarrow> None | Some w' \<Rightarrow> handle_all env es w')"

text \<open>The object as its constructor leaves it, on a page.\<close>

definition new_kc :: "(hook \<Rightarrow> nat option) \<Rightarrow> kcs" where
  "new_kc hooks = \<lparr>kc_authenticated = Undefined, kc_token = Undefined, kc_tokenParsed = Undefined,
     kc_sessionId = None, kc_subject = Undefined, kc_realmAccess = Undefined,
     kc_resourceAccess = Undefined, kc_idToken = Undefined, kc_refreshToken = Undefined,
     kc_refreshTokenParsed = Undefined, kc_loginRequired = False, kc_authServerUrl = Undefined,
     kc_realm = Undefined, kc_clientId = Undefined, kc_clientSecret = Undefined,
     kc_redirectUri = None, kc_profile = Undefined, kc_callback_id = 0, kc_hooks = hooks\<rparr>"

definition new_world :: "jsval \<Rightarrow> location \<Rightarrow> (hook \<Rightarrow> nat option) \<Rightarrow> bool \<Rightarrow> string list
    \<Rightarrow> string option \<Rightarrow> world" where
  "new_world config loc hooks cordova scripts stored =
     \<lparr>kc = new_kc hooks,
      lif = \<lparr>li_enable = True, li_callbackMap = Map.empty, li_interval = Num 5, li_iframe = False,
             li_iframeOrigin = None\<rparr>,
      w_config = config, w_scripts = scripts, w_cordova = cordova, w_adapter = None,
      w_refreshQueue = [], w_heap = (\<lambda>_. createPromise), w_next = 0, w_xhrs = [], w_nextx = 0,
      w_frames = [], w_timers = 0, w_windows = [], w_oauthState = stored, w_loc = loc,
      w_now = 0, w_rng = 0, w_out = []\<rparr>"

end
