(* ===== verification/Kc_Heap.thy ===== *)
theory Kc_Heap
  imports Kc_Machine
begin

text \<open>
  The shape of the promise heap of \<open>keycloak.js\<close>.  A callback refers only to promises created
  before the one it is registered on; \<open>exec\<close> is only ever registered on a promise nothing else
  refers to, and the promises \<open>updateToken\<close> returns carry application callbacks only.  The
  invariant \<open>wf\<close> says so, and every operation keeps it (\<open>step_wf\<close>).
\<close>

section \<open>References\<close>

fun ref :: "cont \<Rightarrow> pid option" where
  "ref (UserCb n) = None"
| "ref (SetOk p) = Some p"
| "ref (SetErr p) = Some p"
| "ref (InitReady p) = Some p"
| "ref (ProcessInit p opts) = Some p"
| "ref (IframeReady p) = Some p"
| "ref (DoLogin p) = Some p"
| "ref (ExecUpdate p m) = Some p"

fun is_exec :: "cont \<Rightarrow> bool" where
  "is_exec (ExecUpdate p m) = True"
| "is_exec _ = False"

fun handler_pid :: "xhr_handler \<Rightarrow> pid option" where
  "handler_pid (XConfig p) = Some p"
| "handler_pid (XCode p) = Some p"
| "handler_pid XRefresh = None"
| "handler_pid (XProfile p) = Some p"

fun window_pid :: "refkind \<Rightarrow> pid option" where
  "window_pid (RefLogin p) = Some p"
| "window_pid (RefLogout p) = Some p"
| "window_pid RefAccount = None"

definition callbacks :: "world \<Rightarrow> pid \<Rightarrow> cont set" where
  "callbacks w p =
     {c. p_successCallback (w_heap w p) = Some c \<or> p_errorCallback (w_heap w p) = Some c}"

definition xfree :: "world \<Rightarrow> pid \<Rightarrow> bool" where
  "xfree w p \<longleftrightarrow> (\<forall>c \<in> callbacks w p. \<not> is_exec c)"

definition leaf :: "world \<Rightarrow> pid \<Rightarrow> bool" where
  "leaf w p \<longleftrightarrow> callbacks w p \<subseteq> range UserCb"

text \<open>What a callback needs of the promise it refers to.\<close>

definition good_ref :: "world \<Rightarrow> cont \<Rightarrow> pid \<Rightarrow> bool" where
  "good_ref w c q \<longleftrightarrow> (if is_exec c then leaf w q else xfree w q)"

definition good_cont :: "world \<Rightarrow> pid \<Rightarrow> cont \<Rightarrow> bool" where
  "good_cont w n c \<longleftrightarrow> (\<forall>q. ref c = Some q \<longrightarrow> q < n \<and> good_ref w c q)"

definition root :: "world \<Rightarrow> pid \<Rightarrow> bool" where
  "root w p \<longleftrightarrow> (\<exists>x \<in> set (w_xhrs w). handler_pid (snd x) = Some p)
     \<or> (\<exists>r \<in> set (w_windows w). window_pid (rw_kind r) = Some p)"

definition wf :: "world \<Rightarrow> bool" where
  "wf w \<longleftrightarrow>
     (\<forall>p. \<forall>c \<in> callbacks w p. p < w_next w \<and> good_cont w p c)
   \<and> (\<forall>p \<in> set (w_refreshQueue w). p < w_next w \<and> leaf w p)
   \<and> (\<forall>p. root w p \<longrightarrow> p < w_next w \<and> xfree w p)
   \<and> (\<forall>p \<in> ran (li_callbackMap (lif w)). p < w_next w)
   \<and> (\<forall>p \<in> set (w_frames w). p < w_next w)"

text \<open>What may be added to the heap without disturbing what is already in use.\<close>

definition ext :: "world \<Rightarrow> world \<Rightarrow> bool" where
  "ext w w' \<longleftrightarrow> w_next w \<le> w_next w' \<and> length (w_windows w) \<le> length (w_windows w')
     \<and> (\<forall>p < w_next w. callbacks w' p \<subseteq> callbacks w p \<union> range UserCb)"

fun instr_ok :: "world \<Rightarrow> instr \<Rightarrow> bool" where
  "instr_ok w (Invoke c v) = good_cont w (w_next w) c"
| "instr_ok w (SettleI ok p v) = (p < w_next w)"
| "instr_ok w (SettleAuth p) = (p < w_next w)"
| "instr_ok w (UserReg p f g) = (p < w_next w)"
| "instr_ok w (Response h status body) =
     (\<forall>p. handler_pid h = Some p \<longrightarrow> p < w_next w \<and> xfree w p)"
| "instr_ok w (FrameLoad p) = (p < w_next w)"
| "instr_ok w (RefExit i) = (i < length (w_windows w))"
| "instr_ok w _ = True"

section \<open>Basic facts\<close>

lemma ext_refl [simp]: "ext w w"
  by (auto simp: ext_def)

lemma ext_trans:
  assumes "ext w w'" and "ext w' w''"
  shows "ext w w''"
  unfolding ext_def
proof (intro conjI allI impI)
  show "w_next w \<le> w_next w''" and "length (w_windows w) \<le> length (w_windows w'')"
    using assms by (auto simp: ext_def)
  fix p assume p: "p < w_next w"
  with assms(1) have "callbacks w' p \<subseteq> callbacks w p \<union> range UserCb" and "p < w_next w'"
    by (auto simp: ext_def)
  moreover from this(2) assms(2) have "callbacks w'' p \<subseteq> callbacks w' p \<union> range UserCb"
    by (auto simp: ext_def)
  ultimately show "callbacks w'' p \<subseteq> callbacks w p \<union> range UserCb" by blast
qed

lemma ext_leaf: "ext w w' \<Longrightarrow> p < w_next w \<Longrightarrow> leaf w p \<Longrightarrow> leaf w' p"
  by (fastforce simp: ext_def leaf_def)

lemma ext_xfree: "ext w w' \<Longrightarrow> p < w_next w \<Longrightarrow> xfree w p \<Longrightarrow> xfree w' p"
  by (fastforce simp: ext_def xfree_def)

lemma leaf_xfree: "leaf w p \<Longrightarrow> xfree w p"
  by (fastforce simp: leaf_def xfree_def)

lemma good_cont_mono:
  assumes "good_cont w n c" and "n \<le> n'" and "n \<le> w_next w" and "ext w w'"
  shows "good_cont w' n' c"
  unfolding good_cont_def
proof (intro allI impI)
  fix q assume "ref c = Some q"
  with assms have q: "q < n" "good_ref w c q" by (auto simp: good_cont_def)
  then have "q < w_next w" using assms(3) by simp
  with q assms(2,4) show "q < n' \<and> good_ref w' c q"
    by (auto simp: good_ref_def intro: ext_leaf ext_xfree split: if_splits)
qed

lemma instr_ok_mono:
  assumes "instr_ok w i" and "ext w w'"
  shows "instr_ok w' i"
  using assms
proof (cases i)
  case (Invoke c v)
  then show ?thesis using assms good_cont_mono by (auto simp: ext_def)
next
  case (Response h status body)
  then show ?thesis using assms ext_xfree by (fastforce simp: ext_def)
qed (auto simp: ext_def)

text \<open>The part of the state the invariant is about.\<close>

definition core :: "world \<Rightarrow> (pid \<Rightarrow> cont promise) \<times> pid \<times> pid list \<times> (nat \<times> xhr_handler) list
    \<times> refwin list \<times> (string \<rightharpoonup> pid) \<times> pid list" where
  "core w = (w_heap w, w_next w, w_refreshQueue w, w_xhrs w, w_windows w,
     li_callbackMap (lif w), w_frames w)"

lemma core_eqD:
  assumes "core w' = core w"
  shows "w_heap w' = w_heap w" "w_next w' = w_next w" "w_refreshQueue w' = w_refreshQueue w"
    "w_xhrs w' = w_xhrs w" "w_windows w' = w_windows w"
    "li_callbackMap (lif w') = li_callbackMap (lif w)" "w_frames w' = w_frames w"
  using assms by (simp_all add: core_def)

lemma callbacks_cong: "w_heap w' = w_heap w \<Longrightarrow> callbacks w' = callbacks w"
  by (simp add: callbacks_def fun_eq_iff)

lemma wf_core: "core w' = core w \<Longrightarrow> wf w' = wf w"
  using core_eqD [of w' w] callbacks_cong [of w' w]
  by (simp add: wf_def good_cont_def good_ref_def leaf_def xfree_def root_def)

lemma ext_core: "core w' = core w \<Longrightarrow> ext w w'"
  using core_eqD [of w' w] callbacks_cong [of w' w] by (auto simp: ext_def)

definition inert :: "'a client \<Rightarrow> bool" where
  "inert m \<longleftrightarrow> (\<forall>w. core (fst (m w)) = core w)"

lemma core_simps [simp]:
  "core (set_kc f w) = core w" "core (emit x w) = core w"
  "core (w\<lparr>w_oauthState := s\<rparr>) = core w" "core (w\<lparr>w_rng := n\<rparr>) = core w"
  "core (w\<lparr>w_timers := n\<rparr>) = core w" "core (w\<lparr>w_config := c\<rparr>) = core w"
  "core (w\<lparr>w_adapter := a\<rparr>) = core w" "core (w\<lparr>w_loc := l\<rparr>) = core w"
  "core (w\<lparr>w_now := t\<rparr>) = core w" "core (w\<lparr>w_nextx := n\<rparr>) = core w"
  by (simp_all add: core_def)

lemma core_set_lif: "(\<And>l. li_callbackMap (f l) = li_callbackMap l) \<Longrightarrow> core (set_lif f w) = core w"
  by (simp add: core_def)

lemma inert_ret [simp]: "inert (ret x)" by (simp add: inert_def)
lemma inert_raise [simp]: "inert (raise e)" by (simp add: inert_def)
lemma inert_asks [simp]: "inert (asks f)" by (simp add: inert_def)
lemma inert_liftE [simp]: "inert (liftE r)" by (simp add: inert_def)
lemma inert_upd: "(\<And>w. core (f w) = core w) \<Longrightarrow> inert (upd f)" by (simp add: inert_def)

lemma inert_bindJ:
  assumes "inert m" and "\<And>x. inert (f x)"
  shows "inert (bindJ m f)"
  unfolding inert_def
proof
  fix w
  obtain t r where m: "m w = (t, r)" by (cases "m w")
  then have "core t = core w" using assms(1) by (metis fst_conv inert_def)
  moreover have "core (fst (f x t)) = core t" for x using assms(2) by (simp add: inert_def)
  ultimately show "core (fst (bindJ m f w)) = core w" by (cases r) (simp_all add: bindJ_def m)
qed

lemma wp_inert:
  assumes "inert m" and "\<And>x w'. core w' = core w \<Longrightarrow> m w = (w', Inr x) \<Longrightarrow> Q x w'"
    and "\<And>w'. core w' = core w \<Longrightarrow> E w'"
  shows "wp m Q E w"
proof (rule wpI)
  fix t x assume "m w = (t, Inr x)"
  moreover from this have "core t = core w" using assms(1) by (metis fst_conv inert_def)
  ultimately show "Q x t" using assms(2) by blast
next
  fix t e assume "m w = (t, Inl e)"
  then have "core t = core w" using assms(1) by (metis fst_conv inert_def)
  then show "E t" by (rule assms(3))
qed

section \<open>Operations that leave the heap alone\<close>

lemma inert_draws: "inert (draws env n)"
  by (simp add: inert_def draws_def)

lemma inert_createUUID: "inert (createUUID env)"
  unfolding createUUID_def by (intro inert_bindJ inert_draws) simp

lemma inert_createCallbackId: "inert (createCallbackId env)"
  unfolding createCallbackId_def by (intro inert_bindJ inert_draws inert_upd inert_asks inert_ret) simp

lemma inert_createLoginUrl: "inert (createLoginUrl env options)"
  unfolding createLoginUrl_def
  by (intro inert_bindJ inert_createUUID inert_upd inert_asks inert_liftE) simp

lemma inert_createLogoutUrl: "inert (createLogoutUrl env options)"
  unfolding createLogoutUrl_def by (intro inert_bindJ inert_asks inert_liftE)

lemma inert_createAccountUrl: "inert (createAccountUrl env options)"
  unfolding createAccountUrl_def by (intro inert_bindJ inert_asks inert_liftE)

lemma inert_parseCallback: "inert (parseCallback url)"
  unfolding inert_def
proof
  fix w
  obtain w' r where "parseCallback url w = (w', r)" by (cases "parseCallback url w")
  then show "core (fst (parseCallback url w)) = core w"
    using parseCallback_frame [of url w w' r] by auto
qed

lemma inert_store_parsed: "inert (store_parsed env v)"
  unfolding store_parsed_def by (intro inert_bindJ inert_upd inert_liftE) simp_all

lemma inert_set_access_token: "inert (set_access_token env t)"
  unfolding set_access_token_def
  by (auto intro!: inert_bindJ inert_upd inert_store_parsed)

lemma inert_set_refresh_token: "inert (set_refresh_token env t)"
  unfolding set_refresh_token_def by (auto intro!: inert_bindJ inert_upd)

lemma inert_loadAdapter: "inert (loadAdapter type)"
  unfolding loadAdapter_def by (auto intro!: inert_upd simp: core_set_lif core_def)

lemma core_apply_init_options: "core (apply_init_options opts w) = core w"
  by (simp add: apply_init_options_def core_set_lif split: option.splits)

lemma core_fill_config_url: "core (fill_config_url w) = core w"
  by (simp add: fill_config_url_def split: option.splits)

lemma core_restore_url: "core (restore_url oa w) = core w"
  by (simp add: restore_url_def Let_def)

lemmas inert_intros = inert_bindJ inert_draws inert_createUUID inert_createCallbackId
  inert_createLoginUrl inert_createLogoutUrl inert_createAccountUrl inert_parseCallback
  inert_store_parsed inert_set_access_token inert_set_refresh_token inert_loadAdapter
  inert_ret inert_raise inert_asks inert_liftE inert_upd

section \<open>The heap operations\<close>

lemma wp_new_promise [simp]: "wp new_promise Q E w = Q (w_next w) (fst (new_promise w))"
  by (simp add: wp_def new_promise_result)

lemma wp_settleP [simp]:
  "wp (settleP ok p v) Q E w =
     Q (call_instrs (snd (settle ok v (w_heap w p)))) (fst (settleP ok p v w))"
  by (simp add: wp_def settleP_result)

lemma wp_registerP [simp]:
  "wp (registerP ok p c) Q E w =
     Q (call_instrs (snd (register ok c (w_heap w p)))) (fst (registerP ok p c w))"
  by (simp add: wp_def registerP_result)

lemma callbacks_new: "callbacks (fst (new_promise w)) q = (if q = w_next w then {} else callbacks w q)"
  by (auto simp: callbacks_def new_promise_result createPromise_def)

lemma callbacks_settle: "callbacks (fst (settleP ok p v w)) q = callbacks w q"
  by (auto simp: callbacks_def settleP_result promise_defs)

lemma callbacks_register:
  "callbacks (fst (registerP ok p c w)) q \<subseteq> (if q = p then insert c (callbacks w q) else callbacks w q)"
  by (auto simp: callbacks_def registerP_result promise_defs split: if_splits)

lemma settle_calls:
  "j \<in> set (call_instrs (snd (settle ok v (w_heap w p)))) \<Longrightarrow> \<exists>c \<in> callbacks w p. \<exists>u. j = Invoke c u"
  by (auto simp: call_instrs_def callbacks_def promise_defs split: if_splits option.splits)

lemma register_calls:
  "j \<in> set (call_instrs (snd (register ok c P))) \<Longrightarrow> \<exists>u. j = Invoke c u"
  by (auto simp: call_instrs_def promise_defs split: if_splits)

lemma heap_op_frame [simp]:
  "w_next (fst (new_promise w)) = Suc (w_next w)"
  "w_next (fst (settleP ok p v w)) = w_next w"
  "w_next (fst (registerP ok p c w)) = w_next w"
  "w_refreshQueue (fst (new_promise w)) = w_refreshQueue w"
  "w_refreshQueue (fst (settleP ok p v w)) = w_refreshQueue w"
  "w_refreshQueue (fst (registerP ok p c w)) = w_refreshQueue w"
  "w_xhrs (fst (new_promise w)) = w_xhrs w"
  "w_xhrs (fst (settleP ok p v w)) = w_xhrs w"
  "w_xhrs (fst (registerP ok p c w)) = w_xhrs w"
  "w_windows (fst (new_promise w)) = w_windows w"
  "w_windows (fst (settleP ok p v w)) = w_windows w"
  "w_windows (fst (registerP ok p c w)) = w_windows w"
  "lif (fst (new_promise w)) = lif w"
  "lif (fst (settleP ok p v w)) = lif w"
  "lif (fst (registerP ok p c w)) = lif w"
  "w_frames (fst (new_promise w)) = w_frames w"
  "w_frames (fst (settleP ok p v w)) = w_frames w"
  "w_frames (fst (registerP ok p c w)) = w_frames w"
  "kc (fst (new_promise w)) = kc w"
  "kc (fst (settleP ok p v w)) = kc w"
  "kc (fst (registerP ok p c w)) = kc w"
  by (simp_all add: client_results)

lemma root_heap_ops [simp]:
  "root (fst (new_promise w)) = root w"
  "root (fst (settleP ok p v w)) = root w"
  "root (fst (registerP ok p c w)) = root w"
  by (simp_all add: root_def fun_eq_iff)

text \<open>
  A state whose callbacks are among those of a good one, with no more roots, is good.
\<close>

lemma good_cont_sub:
  "good_cont w n c \<Longrightarrow> n \<le> n' \<Longrightarrow> (\<And>q. q < n \<Longrightarrow> callbacks w' q \<subseteq> callbacks w q \<union> range UserCb)
    \<Longrightarrow> good_cont w' n' c"
  unfolding good_cont_def good_ref_def leaf_def xfree_def by (fastforce split: if_splits)

lemma wf_callbacksD: "wf w \<Longrightarrow> c \<in> callbacks w p \<Longrightarrow> p < w_next w \<and> good_cont w p c"
  by (simp add: wf_def)

lemma wf_queueD: "wf w \<Longrightarrow> p \<in> set (w_refreshQueue w) \<Longrightarrow> p < w_next w \<and> leaf w p"
  by (simp add: wf_def)

lemma wf_rootD: "wf w \<Longrightarrow> root w p \<Longrightarrow> p < w_next w \<and> xfree w p"
  by (simp add: wf_def)

lemma wf_frameD: "wf w \<Longrightarrow> p \<in> set (w_frames w) \<Longrightarrow> p < w_next w"
  by (simp add: wf_def)

lemma wf_mapD: "wf w \<Longrightarrow> li_callbackMap (lif w) k = Some p \<Longrightarrow> p < w_next w"
  by (auto simp: wf_def ran_def)

lemma wf_ext:
  assumes wf: "wf w" and ext: "ext w w'"
    and new: "\<And>p c. c \<in> callbacks w' p \<Longrightarrow> c \<notin> callbacks w p \<Longrightarrow> p < w_next w' \<and> good_cont w' p c"
    and queue: "\<And>p. p \<in> set (w_refreshQueue w') \<Longrightarrow> p \<notin> set (w_refreshQueue w) \<Longrightarrow> p < w_next w' \<and> leaf w' p"
    and roots: "\<And>p. root w' p \<Longrightarrow> \<not> root w p \<Longrightarrow> p < w_next w' \<and> xfree w' p"
    and map: "\<And>p. p \<in> ran (li_callbackMap (lif w')) \<Longrightarrow> p \<notin> ran (li_callbackMap (lif w)) \<Longrightarrow> p < w_next w'"
    and frames: "\<And>p. p \<in> set (w_frames w') \<Longrightarrow> p \<notin> set (w_frames w) \<Longrightarrow> p < w_next w'"
  shows "wf w'"
proof -
  have le: "w_next w \<le> w_next w'" using ext by (simp add: ext_def)
  have old: "p < w_next w' \<and> good_cont w' p c" if "c \<in> callbacks w p" for p c
    using wf_callbacksD [OF wf that] good_cont_mono [OF _ _ _ ext, of p c p] le by auto
  have "leaf w' p \<and> p < w_next w'" if "p \<in> set (w_refreshQueue w)" for p
    using wf_queueD [OF wf that] ext_leaf [OF ext] le by auto
  moreover have "xfree w' p \<and> p < w_next w'" if "root w p" for p
    using wf_rootD [OF wf that] ext_xfree [OF ext] le by auto
  moreover have "p < w_next w'" if "p \<in> ran (li_callbackMap (lif w)) \<or> p \<in> set (w_frames w)" for p
    using wf that le by (fastforce simp: wf_def)
  ultimately show ?thesis
    unfolding wf_def using old new queue roots map frames by blast
qed

text \<open>Nothing that is being used relies on what is registered on these promises.\<close>

definition unused :: "world \<Rightarrow> pid \<Rightarrow> bool" where
  "unused w p \<longleftrightarrow> p \<notin> set (w_refreshQueue w) \<and> (\<forall>q. \<forall>c \<in> callbacks w q. is_exec c \<longrightarrow> ref c \<noteq> Some p)"

definition unnamed :: "world \<Rightarrow> pid \<Rightarrow> bool" where
  "unnamed w p \<longleftrightarrow> unused w p \<and> \<not> root w p \<and> (\<forall>q. \<forall>c \<in> callbacks w q. ref c \<noteq> Some p)"

lemma unnamed_new: "wf w \<Longrightarrow> unnamed (fst (new_promise w)) (w_next w)"
proof -
  assume wf: "wf w"
  have "ref c \<noteq> Some (w_next w)" if "c \<in> callbacks w q" for q c
    using wf_callbacksD [OF wf that] by (auto simp: good_cont_def)
  moreover have "w_next w \<notin> set (w_refreshQueue w)" using wf_queueD [OF wf] by blast
  moreover have "\<not> root w (w_next w)" using wf_rootD [OF wf] by blast
  ultimately show ?thesis
    by (auto simp: unnamed_def unused_def callbacks_new split: if_splits)
qed

lemma unnamed_unused: "unnamed w p \<Longrightarrow> unused w p"
  by (simp add: unnamed_def)

lemma ext_new [simp]: "ext w (fst (new_promise w))"
  by (auto simp: ext_def callbacks_new)

lemma wf_new: "wf w \<Longrightarrow> wf (fst (new_promise w))"
  by (rule wf_ext [where w = w]) (auto simp: callbacks_new split: if_splits)

lemma ext_settle [simp]: "ext w (fst (settleP ok p v w))"
  by (auto simp: ext_def callbacks_settle)

lemma wf_settle: "wf w \<Longrightarrow> wf (fst (settleP ok p v w))"
  by (rule wf_ext [where w = w]) (auto simp: callbacks_settle)

lemma ext_register_user [simp]: "ext w (fst (registerP ok p (UserCb n) w))"
  unfolding ext_def using callbacks_register [of ok p "UserCb n" w] by (fastforce split: if_splits)

lemma wf_register_user:
  assumes "wf w" and "p < w_next w"
  shows "wf (fst (registerP ok p (UserCb n) w))"
proof (rule wf_ext [OF assms(1) ext_register_user])
  fix q c assume "c \<in> callbacks (fst (registerP ok p (UserCb n) w)) q" "c \<notin> callbacks w q"
  then have "q = p \<and> c = UserCb n"
    using callbacks_register [of ok p "UserCb n" w q] by (auto split: if_splits)
  then show "q < w_next (fst (registerP ok p (UserCb n) w))
      \<and> good_cont (fst (registerP ok p (UserCb n) w)) q c"
    using assms(2) by (simp add: good_cont_def)
qed simp_all

text \<open>A callback of the client itself, registered on a promise nothing yet relies on.\<close>

lemma wf_register_int:
  assumes wf: "wf w" and p: "p < w_next w" and c: "good_cont w p c"
    and unused: "unused w p" and exec: "is_exec c \<Longrightarrow> unnamed w p"
  shows "wf (fst (registerP ok p c w))"
proof -
  let ?w = "fst (registerP ok p c w)"
  have sub: "callbacks ?w q \<subseteq> (if q = p then insert c (callbacks w q) else callbacks w q)" for q
    by (rule callbacks_register)
  have named: "good_ref ?w d q" if d: "d \<in> callbacks w r" and q: "ref d = Some q" "good_ref w d q" for d r q
  proof (cases "q = p")
    case True
    then have "\<not> is_exec d" and "\<not> is_exec c"
      using unused exec d q(1) by (auto simp: unused_def unnamed_def)
    then show ?thesis using True q(2) sub [of p] by (auto simp: good_ref_def xfree_def)
  next
    case False
    then show ?thesis using q(2) sub [of q]
      by (auto simp: good_ref_def xfree_def leaf_def split: if_splits)
  qed
  have mine: "good_cont ?w p c"
    using c sub by (fastforce simp: good_cont_def good_ref_def xfree_def leaf_def split: if_splits)
  have "r < w_next w \<and> good_cont ?w r d" if "d \<in> callbacks ?w r" for d r
  proof (cases "d \<in> callbacks w r")
    case True
    then show ?thesis using wf_callbacksD [OF wf True] named [OF True] by (auto simp: good_cont_def)
  next
    case False
    then have "r = p \<and> d = c" using that sub [of r] by (auto split: if_splits)
    then show ?thesis using p mine by simp
  qed
  moreover have "leaf ?w q" if "q \<in> set (w_refreshQueue w)" for q
    using wf_queueD [OF wf that] that unused sub [of q] by (auto simp: leaf_def unused_def split: if_splits)
  moreover have "xfree ?w q" if "root w q" for q
    using wf_rootD [OF wf that] that exec sub [of q] by (auto simp: xfree_def unnamed_def split: if_splits)
  ultimately show ?thesis
    using wf unfolding wf_def by simp
qed

lemma ext_register_fresh: "ext w0 w \<Longrightarrow> w_next w0 \<le> p \<Longrightarrow> ext w0 (fst (registerP ok p c w))"
proof -
  assume e: "ext w0 w" and p: "w_next w0 \<le> p"
  have "callbacks (fst (registerP ok p c w)) q \<subseteq> callbacks w0 q \<union> range UserCb" if "q < w_next w0" for q
  proof -
    have "callbacks (fst (registerP ok p c w)) q \<subseteq> callbacks w q"
      using callbacks_register [of ok p c w q] that p by (simp split: if_splits)
    moreover have "callbacks w q \<subseteq> callbacks w0 q \<union> range UserCb"
      using e that by (simp add: ext_def)
    ultimately show ?thesis by (rule subset_trans)
  qed
  then show ?thesis using e by (simp add: ext_def)
qed

lemma register_names:
  assumes ne: "ref c \<noteq> Some p"
  shows "unused w p \<Longrightarrow> unused (fst (registerP ok p c w)) p"
    and "unnamed w p \<Longrightarrow> unnamed (fst (registerP ok p c w)) p"
proof -
  have sub: "d \<in> callbacks w q \<or> d = c" if "d \<in> callbacks (fst (registerP ok p c w)) q" for d q
    using callbacks_register [of ok p c w q] that by (auto split: if_splits)
  show u: "unused (fst (registerP ok p c w)) p" if "unused w p"
    using that ne sub unfolding unused_def heap_op_frame by blast
  show "unnamed (fst (registerP ok p c w)) p" if "unnamed w p"
    unfolding unnamed_def
  proof (intro conjI allI ballI)
    show "unused (fst (registerP ok p c w)) p" using that u by (simp add: unnamed_def)
    show "\<not> root (fst (registerP ok p c w)) p" using that by (simp add: unnamed_def)
    fix q d assume "d \<in> callbacks (fst (registerP ok p c w)) q"
    then have "d \<in> callbacks w q \<or> d = c" by (rule sub)
    then show "ref d \<noteq> Some p" using that ne by (auto simp: unnamed_def)
  qed
qed

lemma good_cont_register:
  assumes "good_cont w n d" and "n \<le> p"
  shows "good_cont (fst (registerP ok p c w)) n d"
proof (rule good_cont_sub [OF assms(1) order_refl])
  fix q assume "q < n"
  then show "callbacks (fst (registerP ok p c w)) q \<subseteq> callbacks w q \<union> range UserCb"
    using assms(2) callbacks_register [of ok p c w q] by (auto split: if_splits)
qed

text \<open>
  The pattern of \<open>init\<close>, \<open>updateToken\<close> and \<open>doLogin\<close>: both outcomes of a fresh promise are given
  a callback; what is called at once is among the two.
\<close>

lemma register_both:
  assumes "wf w" and "ext w0 w" and "w_next w0 \<le> p" and "p < w_next w" and "unused w p"
    and "is_exec c \<Longrightarrow> unnamed w p" and "good_cont w (w_next w0) c" and "good_cont w (w_next w0) d"
    and "\<not> is_exec d"
  defines "w1 \<equiv> fst (registerP True p c w)"
  defines "w2 \<equiv> fst (registerP False p d w1)"
  shows "wf w1" and "ext w0 w1" and "wf w2" and "ext w0 w2"
    and "good_cont w2 (w_next w0) c" and "good_cont w2 (w_next w0) d"
proof -
  have cp: "good_cont w p c" and dp: "good_cont w1 p d"
    using assms(3,7,8) good_cont_sub [OF _ assms(3), of w _ w]
      good_cont_sub [OF good_cont_register [OF assms(8,3)] assms(3), of w1 True c]
    by (auto simp: w1_def)
  then have ne: "ref c \<noteq> Some p" by (auto simp: good_cont_def)
  show w1: "wf w1" unfolding w1_def by (rule wf_register_int) (use assms cp in auto)
  show e1: "ext w0 w1" unfolding w1_def by (rule ext_register_fresh) (use assms in auto)
  show "wf w2" unfolding w2_def
    by (rule wf_register_int [OF w1 _ dp])
       (use assms(4,5,9) register_names(1) [OF ne] in \<open>auto simp: w1_def\<close>)
  show "ext w0 w2" unfolding w2_def by (rule ext_register_fresh [OF e1 assms(3)])
  show "good_cont w2 (w_next w0) c" "good_cont w2 (w_next w0) d"
    unfolding w2_def w1_def by (intro good_cont_register assms)+
qed

end
