(* ===== verification/Kc_Wf.thy ===== *)
theory Kc_Wf
  imports Kc_Heap
begin

text \<open>
  Every operation of \<open>keycloak.js\<close> keeps the shape of the promise heap, and what it calls next
  refers to promises that exist: first the operations, then each instruction (\<open>step_wf\<close>), then
  whole turns and sequences of events (\<open>handle_all_wf\<close>).
\<close>

section \<open>Operations on the rest of the state\<close>

lemma wp_ret_fun [simp]: "wp (ret x) Q E = Q x" "wp (raise e) Q E = E"
  "wp (upd f) P E = (\<lambda>s. P () (f s))" "wp (asks g) R E = (\<lambda>s. R (g s) s)"
  "wp (bindJ m h) Q E = wp m (\<lambda>x. wp (h x) Q E) E"
  by (simp_all add: fun_eq_iff)

lemma callbacks_upd [simp]:
  "callbacks (w\<lparr>w_xhrs := xs\<rparr>) = callbacks w" "callbacks (w\<lparr>w_nextx := n\<rparr>) = callbacks w"
  "callbacks (w\<lparr>w_frames := fs\<rparr>) = callbacks w" "callbacks (w\<lparr>w_windows := rs\<rparr>) = callbacks w"
  "callbacks (w\<lparr>w_refreshQueue := q\<rparr>) = callbacks w" "callbacks (w\<lparr>w_timers := t\<rparr>) = callbacks w"
  "callbacks (w\<lparr>w_now := r\<rparr>) = callbacks w"
  "callbacks (emit x w) = callbacks w" "callbacks (set_kc f w) = callbacks w"
  "callbacks (set_lif g w) = callbacks w"
  by (simp_all add: callbacks_def fun_eq_iff)

lemma wf_same_heap:
  assumes "wf w" and "callbacks w' = callbacks w" and "w_next w' = w_next w"
    and "length (w_windows w) \<le> length (w_windows w')"
    and "\<And>p. p \<in> set (w_refreshQueue w') \<Longrightarrow> p \<in> set (w_refreshQueue w) \<or> p < w_next w \<and> leaf w p"
    and "\<And>p. root w' p \<Longrightarrow> root w p \<or> p < w_next w \<and> xfree w p"
    and "\<And>p. p \<in> ran (li_callbackMap (lif w')) \<Longrightarrow> p \<in> ran (li_callbackMap (lif w)) \<or> p < w_next w"
    and "\<And>p. p \<in> set (w_frames w') \<Longrightarrow> p \<in> set (w_frames w) \<or> p < w_next w"
  shows "wf w' \<and> ext w w'"
proof -
  have ext: "ext w w'" using assms(2-4) by (auto simp: ext_def)
  have "leaf w' = leaf w" "xfree w' = xfree w"
    using assms(2) by (simp_all add: leaf_def xfree_def fun_eq_iff)
  then have "wf w'"
    by (intro wf_ext [OF assms(1) ext]) (use assms(2,3,5-8) in auto)
  with ext show ?thesis by simp
qed

text \<open>The outcome of an operation: the invariant, and good instructions to go on with.\<close>

definition post :: "world \<Rightarrow> instr list \<Rightarrow> world \<Rightarrow> bool" where
  "post w js w' \<longleftrightarrow> wf w' \<and> ext w w' \<and> (\<forall>j \<in> set js. instr_ok w' j)"

definition safe :: "world \<Rightarrow> world \<Rightarrow> bool" where
  "safe w w' \<longleftrightarrow> wf w' \<and> ext w w'"

lemma safe_refl [simp]: "wf w \<Longrightarrow> safe w w"
  by (simp add: safe_def)

lemma safe_trans: "safe w w' \<Longrightarrow> safe w' w'' \<Longrightarrow> safe w w''"
  using ext_trans [of w w' w''] by (simp add: safe_def)

lemma safe_core: "wf w \<Longrightarrow> core w' = core w \<Longrightarrow> safe w w'"
  using wf_core [of w' w] ext_core [of w' w] by (simp add: safe_def)

lemma post_Nil [simp]: "post w [] w' = safe w w'"
  by (simp add: post_def safe_def)

lemma post_safe: "post w js w' \<Longrightarrow> safe w w'"
  by (simp add: post_def safe_def)

lemma post_trans: "safe w w' \<Longrightarrow> post w' js w'' \<Longrightarrow> post w js w''"
  using ext_trans [of w w' w''] by (simp add: safe_def post_def)

lemma post_append:
  assumes "post w js w'" and "post w' ks w''"
  shows "post w (js @ ks) w''"
  using assms instr_ok_mono [of w' _ w''] ext_trans [of w w' w''] by (auto simp: post_def)

lemma safe_next: "safe w w' \<Longrightarrow> p < w_next w \<Longrightarrow> p < w_next w'"
  by (auto simp: safe_def ext_def)

lemma wp_inert_safe:
  assumes "inert m" and "wf w" and "\<And>x w'. core w' = core w \<Longrightarrow> safe w w' \<Longrightarrow> Q x w'"
    and "\<And>w'. safe w w' \<Longrightarrow> E w'"
  shows "wp m Q E w"
  by (rule wp_inert [OF assms(1)]) (simp_all add: assms(3,4) safe_core [OF assms(2)])

lemma post_settle: "wf w \<Longrightarrow> post w (call_instrs (snd (settle ok v (w_heap w p)))) (fst (settleP ok p v w))"
  unfolding post_def
proof (intro conjI ballI)
  assume wf: "wf w"
  show "wf (fst (settleP ok p v w))" by (rule wf_settle [OF wf])
  show "ext w (fst (settleP ok p v w))" by simp
  fix j assume "j \<in> set (call_instrs (snd (settle ok v (w_heap w p))))"
  then obtain c u where c: "c \<in> callbacks w p" and j: "j = Invoke c u"
    using settle_calls by blast
  have "p < w_next w" "good_cont w p c" using wf_callbacksD [OF wf c] by auto
  then have "good_cont (fst (settleP ok p v w)) (w_next w) c"
    using good_cont_mono [of w p c "w_next w" "fst (settleP ok p v w)"] by simp
  then show "instr_ok (fst (settleP ok p v w)) j" by (simp add: j)
qed

lemma post_register_user:
  "wf w \<Longrightarrow> p < w_next w \<Longrightarrow>
    post w (call_instrs (snd (register ok (UserCb n) (w_heap w p)))) (fst (registerP ok p (UserCb n) w))"
  unfolding post_def
proof (intro conjI ballI)
  assume "wf w" and "p < w_next w"
  then show "wf (fst (registerP ok p (UserCb n) w))" by (rule wf_register_user)
  show "ext w (fst (registerP ok p (UserCb n) w))" by simp
  fix j assume "j \<in> set (call_instrs (snd (register ok (UserCb n) (w_heap w p))))"
  then obtain u where "j = Invoke (UserCb n) u" using register_calls by blast
  then show "instr_ok (fst (registerP ok p (UserCb n) w)) j" by (simp add: good_cont_def)
qed

lemma wp_send_xhr:
  assumes "wf w" and "\<And>p. handler_pid h = Some p \<Longrightarrow> p < w_next w \<and> xfree w p"
    and "\<And>w'. safe w w' \<Longrightarrow> callbacks w' = callbacks w \<Longrightarrow> w_next w' = w_next w
      \<Longrightarrow> w_refreshQueue w' = w_refreshQueue w \<Longrightarrow> Q () w'"
  shows "wp (send_xhr h meth url headers body cred) Q E w"
proof -
  let ?w = "w\<lparr>w_xhrs := w_xhrs w @ [(w_nextx w, h)], w_nextx := Suc (w_nextx w)\<rparr>"
  let ?v = "emit (Send (w_nextx w) meth url headers body cred) ?w"
  have "wf ?v \<and> ext w ?v"
    by (rule wf_same_heap [OF assms(1)]) (use assms(2) in \<open>auto simp: root_def\<close>)
  then have "Q () ?v" by (intro assms(3)) (simp_all add: safe_def)
  then show ?thesis by (simp add: send_xhr_def)
qed

section \<open>Operations that make a promise\<close>

lemma leaf_fresh: "callbacks w p = {} \<Longrightarrow> leaf w p \<and> xfree w p"
  by (simp add: leaf_def xfree_def)

lemma callbacks_fresh: "wf w \<Longrightarrow> w_next w \<le> p \<Longrightarrow> callbacks w p = {}"
  using wf_callbacksD [of w _ p] by fastforce

lemma safe_new: "wf w \<Longrightarrow> safe w (fst (new_promise w))"
  by (simp add: safe_def wf_new)

lemma safe_settle: "wf w \<Longrightarrow> safe w (fst (settleP ok p v w))"
  by (simp add: safe_def wf_settle)

lemma unnamed_upd [simp]:
  "unnamed (w\<lparr>w_frames := fs\<rparr>) p = unnamed w p" "unnamed (w\<lparr>w_timers := t\<rparr>) p = unnamed w p"
  "unnamed (emit x w) p = unnamed w p" "unnamed (set_kc f w) p = unnamed w p"
  "unnamed (set_lif g w) p = unnamed w p"
  by (simp_all add: unnamed_def unused_def root_def)

lemma unnamed_settle [simp]: "unnamed (fst (settleP ok p v w)) q = unnamed w q"
  by (simp add: unnamed_def unused_def callbacks_settle)

lemma unused_core: "core w' = core w \<Longrightarrow> unused w' = unused w"
  using core_eqD(1,3) [of w' w] callbacks_cong [of w' w] by (simp add: unused_def fun_eq_iff)

text \<open>A promise that was made by the operation and that nothing relies on yet.\<close>

definition made :: "world \<Rightarrow> pid \<Rightarrow> world \<Rightarrow> bool" where
  "made w p w' \<longleftrightarrow> safe w w' \<and> w_next w \<le> p \<and> p < w_next w' \<and> unused w' p"

definition fresh :: "world \<Rightarrow> pid \<Rightarrow> world \<Rightarrow> bool" where
  "fresh w p w' \<longleftrightarrow> made w p w' \<and> unnamed w' p \<and> callbacks w' p = {}"

lemma fresh_new: "wf w \<Longrightarrow> fresh w (w_next w) (fst (new_promise w))"
  using unnamed_new [of w] by (simp add: fresh_def made_def safe_new unnamed_unused callbacks_new)

lemma fresh_settle: "fresh w p w' \<Longrightarrow> fresh w p (fst (settleP ok p v w'))"
  using safe_trans [of w w' "fst (settleP ok p v w')"] safe_settle [of w' ok p v]
  by (simp add: fresh_def made_def unnamed_unused callbacks_settle) (simp add: safe_def)

lemma fresh_safe: "fresh w p w' \<Longrightarrow> safe w w'" "made w p w' \<Longrightarrow> safe w w'" "fresh w p w' \<Longrightarrow> made w p w'"
  by (simp_all add: fresh_def made_def)

text \<open>Changes outside the heap and the references into it.\<close>

lemma fresh_same:
  assumes "fresh w p w'" and "wf w'' \<and> ext w' w''" and "unnamed w'' p"
    and "callbacks w'' p = callbacks w' p"
  shows "fresh w p w''"
proof -
  have "safe w w''" using assms(1,2) safe_trans [of w w' w''] by (simp add: fresh_def made_def safe_def)
  moreover have "p < w_next w''" using assms(1,2) by (auto simp: fresh_def made_def ext_def)
  ultimately show ?thesis using assms(1,3,4) by (simp add: fresh_def made_def unnamed_unused)
qed

lemma wp_setup:
  assumes "wf w" and "\<And>w'. safe w w' \<Longrightarrow> Q None w'"
    and "\<And>p w'. fresh w p w' \<Longrightarrow> Q (Some p) w'"
  shows "wp (setupCheckLoginIframe env) Q E w"
proof -
  let ?n = "fst (new_promise w)"
  let ?f = "set_check_timeout env (emit (AppendIframe (iframe_src env ?n)) (?n\<lparr>w_frames := w_frames w @ [w_next w]\<rparr>))"
  have n: "fresh w (w_next w) ?n" by (rule fresh_new [OF assms(1)])
  have "wf ?f \<and> ext ?n ?f"
    by (rule wf_same_heap) (use n in \<open>auto simp: set_check_timeout_def root_def fresh_def made_def safe_def\<close>)
  then have "fresh w (w_next w) ?f"
    by (rule fresh_same [OF n]) (use n in \<open>simp_all add: fresh_def set_check_timeout_def\<close>)
  moreover have "safe w ?n" "safe w (fst (settleP True (w_next w) Undefined ?n))"
    using fresh_safe(1) [OF n] fresh_safe(1) [OF fresh_settle [OF n]] by simp_all
  ultimately show ?thesis
    using assms(2,3) by (simp add: wp_def setup_cases Let_def)
qed

lemma wp_check:
  assumes "wf w" and "\<And>p w'. fresh w p w' \<Longrightarrow> Q p w'"
  shows "wp (checkLoginIframe env) Q E w"
proof -
  let ?n = "fst (new_promise w)"
  have n: "fresh w (w_next w) ?n" by (rule fresh_new [OF assms(1)])
  have f: "fresh w (w_next w) (emit x (set_lif (\<lambda>l. l\<lparr>li_callbackMap := (li_callbackMap l)(cid \<mapsto> w_next w)\<rparr>)
      (fst (createCallbackId env ?n))))" (is "fresh _ _ ?f") for x cid
  proof (rule fresh_same [OF n])
    show "wf ?f \<and> ext ?n ?f"
      by (rule wf_same_heap)
        (use n in \<open>auto simp: createCallbackId_result root_def fresh_def made_def safe_def
           callbacks_def ran_def split: if_splits\<close>)
    show "callbacks ?f (w_next w) = callbacks ?n (w_next w)"
      by (simp add: createCallbackId_result callbacks_def)
    show "unnamed ?f (w_next w)"
      using n by (simp add: fresh_def createCallbackId_result unnamed_def unused_def root_def callbacks_def)
  qed
  show ?thesis using assms(2) n f fresh_settle [OF n] by (simp add: wp_def check_cases Let_def)
qed

lemma made_trans: "safe w w0 \<Longrightarrow> made w0 p w' \<Longrightarrow> made w p w'"
  using safe_trans [of w w0 w'] by (auto simp: made_def safe_def ext_def)

lemma fresh_trans: "safe w w0 \<Longrightarrow> fresh w0 p w' \<Longrightarrow> fresh w p w'"
  using made_trans [of w w0 p w'] by (simp add: fresh_def)

lemma unnamed_core: "core w' = core w \<Longrightarrow> unnamed w' = unnamed w"
  using core_eqD [of w' w] callbacks_cong [of w' w]
  by (simp add: unnamed_def unused_def root_def fun_eq_iff)

lemma fresh_core: "fresh w p w' \<Longrightarrow> core w'' = core w' \<Longrightarrow> fresh w p w''"
  using fresh_same [of w p w' w''] wf_core [of w'' w'] ext_core [of w'' w'] unnamed_core [of w'' w']
    callbacks_cong [OF core_eqD(1) [of w'' w']]
  by (simp add: fresh_def made_def safe_def)

lemma wp_navigate: "wf w \<Longrightarrow> (\<And>p w'. fresh w p w' \<Longrightarrow> Q p w') \<Longrightarrow> wp (navigate url) Q E w"
proof -
  assume wf: "wf w" and Q: "\<And>p w'. fresh w p w' \<Longrightarrow> Q p w'"
  have s: "safe w (emit (Navigate url) w)" by (rule safe_core [OF wf]) simp
  then have "fresh w (w_next w) (fst (new_promise (emit (Navigate url) w)))"
    using fresh_trans [OF s fresh_new] by (simp add: safe_def)
  then show ?thesis by (simp add: navigate_def Q)
qed

lemma wp_url_navigate:
  assumes "inert url" and "wf w" and "\<And>p w'. fresh w p w' \<Longrightarrow> Q p w'" and "\<And>w'. safe w w' \<Longrightarrow> E w'"
  shows "wp (bindJ url navigate) Q E w"
  unfolding wp_bindJ
proof (rule wp_inert_safe [OF assms(1,2) _ assms(4)])
  fix u w' assume "safe w w'"
  then show "wp (navigate u) Q E w'"
    using fresh_trans [OF \<open>safe w w'\<close>] assms(3) by (intro wp_navigate) (simp_all add: safe_def)
qed

lemma open_window_made:
  assumes "fresh w p w'" and "window_pid kind = Some p"
  shows "made w p (fst (open_window kind url features w'))"
proof -
  let ?w = "fst (open_window kind url features w')"
  have w': "safe w w'" "w_next w \<le> p" "p < w_next w'" "unused w' p" "xfree w' p"
    using assms(1) leaf_fresh by (simp_all add: fresh_def made_def)
  have "wf ?w \<and> ext w' ?w"
    by (rule wf_same_heap)
      (use w' assms(2) in \<open>auto simp: open_window_def root_def safe_def\<close>)
  then have "safe w ?w" using w'(1) safe_trans [of w w' ?w] by (simp add: safe_def)
  then show ?thesis using w' by (simp add: made_def open_window_def unused_def)
qed

lemma safe_open_window: "wf w \<Longrightarrow> window_pid kind = None \<Longrightarrow> safe w (fst (open_window kind url features w))"
  unfolding safe_def by (rule wf_same_heap) (auto simp: open_window_def root_def)

lemma wp_cordova:
  assumes "inert url" and "wf w" and "\<And>p. window_pid (kind p) = Some p"
    and "\<And>p w'. made w p w' \<Longrightarrow> Q p w'" and "\<And>w'. safe w w' \<Longrightarrow> E w'"
  shows "wp (bindJ new_promise (\<lambda>p. bindJ url (\<lambda>u. bindJ (open_window (kind p) u f) (\<lambda>_. ret p)))) Q E w"
  unfolding wp_bindJ wp_new_promise
proof (rule wp_inert_safe [OF assms(1)])
  have n: "fresh w (w_next w) (fst (new_promise w))" by (rule fresh_new [OF assms(2)])
  then have s: "safe w (fst (new_promise w))" by (rule fresh_safe)
  then show "wf (fst (new_promise w))" by (simp add: safe_def)
  show "E w'" if "safe (fst (new_promise w)) w'" for w'
    by (rule assms(5)) (rule safe_trans [OF s that])
  fix u w' assume "core w' = core (fst (new_promise w))"
  then have "fresh w (w_next w) w'" by (rule fresh_core [OF n])
  then have "made w (w_next w) (fst (open_window (kind (w_next w)) u f w'))"
    by (rule open_window_made) (rule assms(3))
  then have "Q (w_next w) (fst (open_window (kind (w_next w)) u f w'))" by (rule assms(4))
  then show "wp (open_window (kind (w_next w)) u f) (\<lambda>x. wp (ret (w_next w)) Q E) E w'"
    by (simp add: open_window_def)
qed

lemma wp_kc_login:
  assumes "wf w" and "\<And>p w'. made w p w' \<Longrightarrow> Q p w'" and "\<And>w'. safe w w' \<Longrightarrow> E w'"
  shows "wp (kc_login env options) Q E w"
proof -
  have "wp (default_login env options) Q E w"
    unfolding default_login_def
    by (rule wp_url_navigate [OF inert_createLoginUrl assms(1)]) (simp_all add: assms(2,3) fresh_safe(3))
  moreover have "wp (cordova_login env options) Q E w"
    unfolding cordova_login_def
    by (rule wp_cordova [OF inert_createLoginUrl assms(1)]) (simp_all add: assms(2,3))
  ultimately show ?thesis
    using assms(1,3) by (simp add: kc_login_def split: option.split adapter.split)
qed

lemma wp_kc_logout:
  assumes "wf w" and "\<And>p w'. made w p w' \<Longrightarrow> Q p w'" and "\<And>w'. safe w w' \<Longrightarrow> E w'"
  shows "wp (kc_logout env options) Q E w"
proof -
  have "wp (default_logout env options) Q E w"
    unfolding default_logout_def
    by (rule wp_url_navigate [OF inert_createLogoutUrl assms(1)]) (simp_all add: assms(2,3) fresh_safe(3))
  moreover have "wp (cordova_logout env options) Q E w"
    unfolding cordova_logout_def
    by (rule wp_cordova [OF inert_createLogoutUrl assms(1)]) (simp_all add: assms(2,3))
  ultimately show ?thesis
    using assms(1,3) by (simp add: kc_logout_def split: option.split adapter.split)
qed

lemma wp_accountManagement:
  assumes "wf w" and "\<And>w'. safe w w' \<Longrightarrow> Q () w'" and "\<And>w'. safe w w' \<Longrightarrow> E w'"
  shows "wp (accountManagement env) Q E w"
proof -
  have "wp (default_accountManagement env) (\<lambda>_. Q ()) E w"
    unfolding default_accountManagement_def
    by (rule wp_url_navigate [OF inert_createAccountUrl assms(1)]) (simp_all add: assms(2,3) fresh_safe(1))
  moreover have "wp (cordova_accountManagement env) Q E w"
    unfolding cordova_accountManagement_def wp_bindJ
  proof (rule wp_inert_safe [OF inert_createAccountUrl assms(1) _ assms(3)])
    fix u w' assume s: "safe w w'"
    then have "safe w' (fst (open_window RefAccount u ''location=no'' w'))"
      by (intro safe_open_window) (simp_all add: safe_def)
    then have "Q () (fst (open_window RefAccount u ''location=no'' w'))"
      by (intro assms(2) safe_trans [OF s])
    then show "wp (open_window RefAccount u ''location=no'') Q E w'" by (simp add: open_window_def)
  qed
  ultimately show ?thesis
    using assms(1,3) by (simp add: accountManagement_def split: option.split adapter.split)
qed

section \<open>Operations that register callbacks\<close>

lemma post_register_int:
  assumes "safe w w'" and "wf w''" and "ext w w''" and "good_cont w'' (w_next w) c"
    and "\<And>j. j \<in> set js \<Longrightarrow> \<exists>u. j = Invoke c u"
  shows "post w js w''"
proof -
  have "good_cont w'' (w_next w'') c"
    by (rule good_cont_mono [OF assms(4)]) (use assms(3) in \<open>auto simp: ext_def\<close>)
  then have "instr_ok w'' j" if "j \<in> set js" for j
    using assms(5) [OF that] by auto
  then show ?thesis using assms by (simp add: post_def)
qed

lemma good_cont_safe: "safe w w' \<Longrightarrow> good_cont w (w_next w) c \<Longrightarrow> good_cont w' (w_next w) c"
  by (rule good_cont_mono) (auto simp: safe_def)

lemma good_cont_internal:
  "safe w w' \<Longrightarrow> ref c = Some q \<Longrightarrow> \<not> is_exec c \<Longrightarrow> q < w_next w \<Longrightarrow> xfree w q
    \<Longrightarrow> good_cont w' (w_next w) c"
  by (rule good_cont_safe) (simp_all add: good_cont_def good_ref_def)

lemma wp_register_two:
  assumes "made w p w'" and "is_exec c \<Longrightarrow> unnamed w' p" and "\<not> is_exec d"
    and "good_cont w' (w_next w) c" and "good_cont w' (w_next w) d"
    and "\<And>js w''. post w js w'' \<Longrightarrow> Q js w''"
  shows "wp (registerP True p c) (\<lambda>js1. wp (registerP False p d) (\<lambda>js2. Q (js1 @ js2)) E) E w'"
proof -
  have w': "wf w'" "ext w w'" "w_next w \<le> p" "p < w_next w'" "unused w' p"
    using assms(1) by (simp_all add: made_def safe_def)
  let ?w1 = "fst (registerP True p c w')"
  let ?w2 = "fst (registerP False p d ?w1)"
  note both = register_both [OF w' assms(2,4,5,3)]
  have w2: "wf ?w2" "ext w ?w2" "good_cont ?w2 (w_next w) c" "good_cont ?w2 (w_next w) d"
    by (rule both; assumption)+
  have "good_cont ?w2 (w_next ?w2) e" if "e \<in> {c, d}" for e
    by (rule good_cont_mono [of ?w2 "w_next w"]) (use that w2 in \<open>auto simp: ext_def\<close>)
  then have "post w (call_instrs (snd (register True c (w_heap w' p)))
      @ call_instrs (snd (register False d (w_heap ?w1 p)))) ?w2"
    using w2 register_calls by (fastforce simp: post_def)
  then show ?thesis using assms(6) by simp
qed

lemma wp_doLogin:
  assumes "wf w" and "ip < w_next w" and "xfree w ip"
    and "\<And>js w'. post w js w' \<Longrightarrow> Q js w'" and "\<And>w'. safe w w' \<Longrightarrow> E w'"
  shows "wp (doLogin env prompt ip) Q E w"
  unfolding doLogin_def wp_bindJ
proof (rule wp_kc_login [OF assms(1) _ assms(5)])
  fix p w' assume m: "made w p w'"
  note good = good_cont_internal [OF fresh_safe(2) [OF m] _ _ assms(2,3)]
  have "good_cont w' (w_next w) (SetOk ip)" "good_cont w' (w_next w) (SetErr ip)"
    by (rule good; simp)+
  from wp_register_two [OF m _ _ this assms(4)]
  show "wp (registerP True p (SetOk ip)) (\<lambda>x. wp (registerP False p (SetErr ip))
      (\<lambda>xa. wp (ret (x @ xa)) Q E) E) E w'" by simp
qed

lemma wp_iframe_ready:
  assumes "wf w" and "ip < w_next w" and "xfree w ip"
    and "\<And>js w'. post w js w' \<Longrightarrow> Q js w'"
  shows "wp (iframe_ready env ip) Q E w"
  unfolding iframe_ready_def wp_bindJ
proof (rule wp_check [OF assms(1)])
  fix p w' assume "fresh w p w'"
  then have m: "made w p w'" by (rule fresh_safe)
  note good = good_cont_internal [OF fresh_safe(2) [OF m] _ _ assms(2,3)]
  have "good_cont w' (w_next w) (DoLogin ip)" "good_cont w' (w_next w) (SetOk ip)"
    by (rule good; simp)+
  from wp_register_two [OF m _ _ this assms(4)]
  show "wp (registerP True p (DoLogin ip)) (\<lambda>x. wp (registerP False p (SetOk ip))
      (\<lambda>xa. wp (ret (x @ xa)) Q E) E) E w'" by simp
qed

lemma wp_check_sso:
  assumes "wf w" and "ip < w_next w" and "xfree w ip"
    and "\<And>js w'. post w js w' \<Longrightarrow> Q js w'" and "\<And>w'. safe w w' \<Longrightarrow> E w'"
  shows "wp (check_sso env ip) Q E w"
proof -
  have "wp (setupCheckLoginIframe env) (\<lambda>r. wp (case r of None \<Rightarrow> raise TypeError
      | Some p \<Rightarrow> registerP True p (IframeReady ip)) Q E) E w"
  proof (rule wp_setup [OF assms(1)])
    show "wp (case None of None \<Rightarrow> raise TypeError | Some p \<Rightarrow> registerP True p (IframeReady ip)) Q E w'"
      if "safe w w'" for w' using assms(5) [OF that] by simp
    fix p w' assume f: "fresh w p w'"
    then have w': "wf w'" "ext w w'" "w_next w \<le> p" "p < w_next w'" "unused w' p" "unnamed w' p" "safe w w'"
      by (simp_all add: fresh_def made_def safe_def)
    have c: "good_cont w' (w_next w) (IframeReady ip)"
      by (rule good_cont_safe [OF w'(7)]) (use assms(2,3) in \<open>simp add: good_cont_def good_ref_def\<close>)
    let ?w = "fst (registerP True p (IframeReady ip) w')"
    have "wf ?w"
      by (rule wf_register_int [OF w'(1,4) _ w'(5)])
         (use w' c good_cont_mono [OF c w'(3)] in \<open>auto simp: ext_def\<close>)
    moreover have "ext w ?w" by (rule ext_register_fresh [OF w'(2,3)])
    ultimately have "post w (call_instrs (snd (register True (IframeReady ip) (w_heap w' p)))) ?w"
      by (rule post_register_int [OF w'(7)])
        (use good_cont_register [OF c w'(3)] register_calls in \<open>auto simp: fun_eq_iff\<close>)
    then show "wp (case Some p of None \<Rightarrow> raise TypeError | Some p \<Rightarrow> registerP True p (IframeReady ip)) Q E w'"
      using assms(4) by simp
  qed
  then show ?thesis
    using wp_doLogin [OF assms(1-3), where prompt = False] assms(4,5) by (simp add: check_sso_def)
qed

section \<open>Tokens\<close>

lemma wp_setToken:
  assumes "wf w" and "\<And>w'. safe w w' \<Longrightarrow> Q () w'" and "\<And>w'. safe w w' \<Longrightarrow> E w'"
  shows "wp (setToken env t r) Q E w"
proof -
  have rest: "wp (bindJ (set_access_token env t) (\<lambda>_. set_refresh_token env r)) Q E w'" if "safe w w'" for w'
  proof (rule wp_inert_safe)
    show "inert (bindJ (set_access_token env t) (\<lambda>_. set_refresh_token env r))"
      by (intro inert_intros)
    show "wf w'" using that by (simp add: safe_def)
    fix x w'' assume "safe w' w''"
    then show "Q x w''" using assms(2) safe_trans [OF that] by simp
  next
    fix w'' assume "safe w' w''"
    then show "E w''" using assms(3) safe_trans [OF that] by simp
  qed
  have "wp (setupCheckLoginIframe env)
      (\<lambda>_. wp (bindJ (set_access_token env t) (\<lambda>_. set_refresh_token env r)) Q E) E w"
    by (rule wp_setup [OF assms(1)]) (rule rest, simp add: fresh_safe(1))+
  then show ?thesis using rest [OF safe_refl [OF assms(1)]] by (simp add: setToken_def)
qed

lemma wp_token_response:
  assumes "wf w" and "\<And>w'. safe w w' \<Longrightarrow> Q () w'" and "\<And>w'. safe w w' \<Longrightarrow> E w'"
  shows "wp (token_response env body) Q E w"
  using wp_setToken [of w Q E] assms
  by (simp add: token_response_def split: sum.splits)

lemma wp_clearToken:
  assumes "wf w" and "\<And>js w'. post w js w' \<Longrightarrow> Q js w'" and "\<And>w'. safe w w' \<Longrightarrow> E w'"
  shows "wp (clearToken env) Q E w"
proof -
  have "wp (setToken env Null Null) (\<lambda>_. Q [Hook OnAuthLogout Undefined, ReLogin]) E w"
    by (rule wp_setToken [OF assms(1) _ assms(3)]) (simp_all add: assms(2) post_def safe_def)
  then show ?thesis using assms(1,2) by (simp add: clearToken_def)
qed

lemma wp_relogin:
  assumes "wf w" and "\<And>w'. safe w w' \<Longrightarrow> Q () w'" and "\<And>w'. safe w w' \<Longrightarrow> E w'"
  shows "wp (relogin env) Q E w"
proof -
  have "wp (kc_login env None) (\<lambda>_. Q ()) E w"
    by (rule wp_kc_login [OF assms(1) _ assms(3)]) (simp_all add: assms(2) fresh_safe(2))
  then show ?thesis using assms(1,2) by (simp add: relogin_def)
qed

section \<open>Requests\<close>

lemma wp_processCallback:
  assumes "wf w" and "p < w_next w" and "xfree w p"
    and "\<And>js w'. post w js w' \<Longrightarrow> Q js w'" and "\<And>w'. safe w w' \<Longrightarrow> E w'"
  shows "wp (processCallback env oa p) Q E w"
proof -
  have "wp (send_xhr (XCode p) m u h b c) (\<lambda>_. Q []) E w" for m u h b c
    by (rule wp_send_xhr [OF assms(1)]) (use assms in simp_all)
  moreover have "Q [Hook OnAuthError Undefined, SettleI False p Undefined] w" "Q [SettleI True p Undefined] w"
      "Q [] w"
    by (intro assms(4); use assms(1,2) in \<open>simp add: post_def\<close>)+
  ultimately show ?thesis
    using assms(1,5) by (simp add: processCallback_def split: sum.split prod.split)
qed

lemma post_code_response: "wf w \<Longrightarrow> p < w_next w \<Longrightarrow> post w (code_response p status body) w"
  by (simp add: post_def code_response_def)

lemma wp_loadUserProfile:
  assumes "wf w" and "\<And>p w'. safe w w' \<Longrightarrow> p < w_next w' \<Longrightarrow> Q p w'"
  shows "wp (loadUserProfile env) Q E w"
proof -
  let ?n = "fst (new_promise w)"
  have n: "fresh w (w_next w) ?n" by (rule fresh_new [OF assms(1)])
  have "wp (send_xhr (XProfile (w_next w)) m u h b c) (\<lambda>_. Q (w_next w)) E ?n" for m u h b c
  proof (rule wp_send_xhr)
    show "wf ?n" by (rule wf_new [OF assms(1)])
    show "p < w_next ?n \<and> xfree ?n p" if "handler_pid (XProfile (w_next w)) = Some p" for p
      using that n leaf_fresh by (auto simp: fresh_def)
    fix w' assume w': "safe ?n w'" "w_next w' = w_next ?n"
    then show "Q (w_next w) w'"
      using assms(2) [OF safe_trans [OF fresh_safe(1) [OF n] w'(1)]] by simp
  qed
  then show ?thesis by (simp add: loadUserProfile_def)
qed

lemma wp_profile_response:
  assumes "wf w" and "p < w_next w" and "\<And>js w'. post w js w' \<Longrightarrow> Q js w'" and "E w"
  shows "wp (profile_response env p status body) Q E w"
proof -
  have "post w [SettleI True p v] (set_kc f w)" for f v
    using safe_core [OF assms(1), of "set_kc f w"] assms(2) by (simp add: post_def safe_def)
  moreover have "post w [SettleI False p Undefined] w" using assms(1,2) by (simp add: post_def)
  ultimately show ?thesis
    using assms(3,4) by (simp add: profile_response_def split: sum.split)
qed

lemma wp_config_response:
  assumes "wf w" and "p < w_next w" and "\<And>js w'. post w js w' \<Longrightarrow> Q js w'" and "E w"
  shows "wp (config_response env p status body) Q E w"
proof -
  have "post w [SettleI True p Undefined] (set_kc f w)" for f
    using safe_core [OF assms(1), of "set_kc f w"] assms(2) by (simp add: post_def safe_def)
  moreover have "post w [SettleI False p Undefined] w" using assms(1,2) by (simp add: post_def)
  ultimately show ?thesis
    using assms(3,4) by (simp add: config_response_def split: sum.split)
qed

section \<open>Initialisation\<close>

lemma callback_unaccepted: "parseCallback url w = (w', Inr None) \<Longrightarrow> w' = w"
  by (auto simp: parseCallback_cases split: sum.splits if_splits)

lemma wp_processInit:
  assumes "wf w" and "ip < w_next w" and "xfree w ip"
    and "\<And>js w'. post w js w' \<Longrightarrow> Q js w'" and "\<And>w'. safe w w' \<Longrightarrow> E w'"
  shows "wp (processInit env opts ip) Q E w"
proof -
  have one: "Q [SettleI True ip Undefined] w'" if "safe w w'" for w'
    using that safe_next [OF that assms(2)] by (intro assms(4)) (simp add: post_def safe_def)
  have Nil: "Q [] w" by (intro assms(4)) (simp add: assms(1))
  have tokens: "wp (setToken env t r) (\<lambda>_. Q [SettleI True ip Undefined]) E w" for t r
    by (rule wp_setToken [OF assms(1) one assms(5)])
  have callback: "wp (processCallback env oa ip) Q E w'" if s: "safe w w'" for oa w'
  proof (rule wp_processCallback)
    show "wf w'" using s by (simp add: safe_def)
    show "ip < w_next w'" by (rule safe_next [OF s assms(2)])
    show "xfree w' ip" using s ext_xfree [OF _ assms(2,3)] by (simp add: safe_def)
  qed (use post_trans [OF s] safe_trans [OF s] assms(4,5) in auto)
  show ?thesis
    unfolding processInit_def wp_bindJ wp_asks
  proof (rule wpI, goal_cases)
    case (1 t cb)
    show ?case
    proof (cases cb)
      case None
      then have "t = w" using callback_unaccepted 1 by simp
      then show ?thesis
        using None one [OF safe_refl [OF assms(1)]] Nil tokens assms(5) [OF safe_refl [OF assms(1)]]
          wp_check_sso [OF assms(1-3), of Q E] wp_doLogin [OF assms(1-3), of Q E] assms(4,5)
        by (simp split: option.split)
    next
      case (Some oa)
      have "core t = core w" using parseCallback_frame [OF 1] by auto
      then have "safe w (restore_url oa t)"
        by (intro safe_core [OF assms(1)]) (simp add: core_restore_url)
      then show ?thesis using callback Some by simp
    qed
  next
    case (2 t e)
    then have "core t = core w" using parseCallback_frame by fastforce
    then show ?case by (intro assms(5) safe_core [OF assms(1)])
  qed
qed

lemma fresh_fill: "fresh w p w' \<Longrightarrow> fresh w p (set_kc f (fill_config_url w'))"
  by (rule fresh_core) (simp_all add: core_fill_config_url)

lemma wp_loadConfig:
  assumes "wf w" and "\<And>p w'. made w p w' \<Longrightarrow> Q p w'" and "\<And>w'. safe w w' \<Longrightarrow> E w'"
  shows "wp (loadConfig env) Q E w"
proof -
  let ?n = "fst (new_promise w)"
  have n: "fresh w (w_next w) ?n" by (rule fresh_new [OF assms(1)])
  have given: "Q (w_next w) (fst (settleP True (w_next w) Undefined (set_kc f (fill_config_url ?n))))" for f
    by (rule assms(2)) (rule fresh_safe(3) [OF fresh_settle [OF fresh_fill [OF n]]])
  have "safe ?n (fill_config_url ?n)"
    by (rule safe_core) (simp_all add: core_fill_config_url wf_new [OF assms(1)])
  then have bad: "E (fill_config_url ?n)"
    by (intro assms(3) safe_trans [OF fresh_safe(1) [OF n]])
  have "wp (send_xhr (XConfig (w_next w)) m u h b c) (\<lambda>_. Q (w_next w)) E ?n" for m u h b c
  proof (rule wp_send_xhr)
    show "wf ?n" by (rule wf_new [OF assms(1)])
    show "p < w_next ?n \<and> xfree ?n p" if "handler_pid (XConfig (w_next w)) = Some p" for p
      using that n leaf_fresh by (auto simp: fresh_def)
    fix w' assume w': "safe ?n w'" "callbacks w' = callbacks ?n" "w_next w' = w_next ?n"
      "w_refreshQueue w' = w_refreshQueue ?n"
    have "made w (w_next w) w'"
      using safe_trans [OF fresh_safe(1) [OF n] w'(1)] n w'(2-4)
      by (simp add: made_def fresh_def unused_def)
    then show "Q (w_next w) w'" by (rule assms(2))
  qed
  then show ?thesis
    using given bad by (simp add: loadConfig_def Let_def split: option.split)
qed

lemma xfree_register: "xfree w q \<Longrightarrow> \<not> is_exec c \<Longrightarrow> xfree (fst (registerP ok p c w)) q"
  using callbacks_register [of ok p c w q] by (auto simp: xfree_def split: if_splits)

lemma wp_init_tail:
  assumes "wf w" and "\<And>p js w'. post w js w' \<Longrightarrow> p < w_next w' \<Longrightarrow> Q (p, js) w'"
    and "\<And>w'. safe w w' \<Longrightarrow> E w'"
  shows "wp (bindJ new_promise (\<lambda>promise.
     bindJ new_promise (\<lambda>initPromise.
     bindJ (registerP True initPromise (InitReady promise)) (\<lambda>_.
     bindJ (registerP False initPromise (SetErr promise)) (\<lambda>_.
     bindJ (loadConfig env) (\<lambda>configPromise.
     bindJ (registerP True configPromise (ProcessInit initPromise opts)) (\<lambda>js1.
     bindJ (registerP False configPromise (SetErr promise)) (\<lambda>js2.
     ret (promise, js1 @ js2))))))))) Q E w"
proof -
  let ?w1 = "fst (new_promise w)"
  let ?w2 = "fst (new_promise ?w1)"
  let ?P = "w_next w" and ?I = "w_next ?w1"
  have f1: "fresh w ?P ?w1" by (rule fresh_new [OF assms(1)])
  then have P: "?P < w_next ?w1" "xfree ?w1 ?P" "wf ?w1" "safe w ?w1"
    using leaf_fresh by (simp_all add: fresh_def made_def safe_def)
  have f2: "fresh ?w1 ?I ?w2" by (rule fresh_new [OF P(3)])
  then have I: "wf ?w2" "ext ?w1 ?w2" "w_next ?w1 \<le> ?I" "?I < w_next ?w2" "unused ?w2 ?I"
    and Ix: "xfree ?w2 ?I"
    using leaf_fresh by (simp_all add: fresh_def made_def safe_def)
  have safe2: "safe ?w1 ?w2" by (rule fresh_safe(1) [OF f2])
  have good: "good_cont ?w2 (w_next ?w1) (InitReady ?P)" "good_cont ?w2 (w_next ?w1) (SetErr ?P)"
    by (rule good_cont_internal [OF safe2]; use P in simp)+
  let ?w4 = "fst (registerP False ?I (SetErr ?P) (fst (registerP True ?I (InitReady ?P) ?w2)))"
  have "wf ?w4" "ext ?w1 ?w4"
    using register_both(3,4) [OF I, of "InitReady ?P" "SetErr ?P"] good by simp_all
  then have s: "safe ?w1 ?w4" "safe w ?w4"
    using safe_trans [OF P(4), of ?w4] by (simp_all add: safe_def)
  have x4: "xfree ?w4 ?P" "xfree ?w4 ?I" "?P < w_next ?w4" "?I < w_next ?w4"
    using ext_xfree [OF _ P(1,2), of ?w4] s(1) Ix xfree_register by (simp_all add: safe_def)
  have "wp (loadConfig env) (\<lambda>cp. wp (registerP True cp (ProcessInit ?I opts)) (\<lambda>js1.
      wp (registerP False cp (SetErr ?P)) (\<lambda>js2. Q (?P, js1 @ js2)) E) E) E ?w4"
  proof (rule wp_loadConfig)
    show "wf ?w4" using s by (simp add: safe_def)
    show "E w'" if "safe ?w4 w'" for w' by (rule assms(3)) (rule safe_trans [OF s(2) that])
    fix cp w' assume m: "made ?w4 cp w'"
    have g: "good_cont w' (w_next ?w4) (ProcessInit ?I opts)" "good_cont w' (w_next ?w4) (SetErr ?P)"
      by (rule good_cont_internal [OF fresh_safe(2) [OF m]]; use x4 in simp)+
    show "wp (registerP True cp (ProcessInit ?I opts)) (\<lambda>js1.
        wp (registerP False cp (SetErr ?P)) (\<lambda>js2. Q (?P, js1 @ js2)) E) E w'"
    proof (rule wp_register_two [OF m _ _ g])
      fix js w'' assume js: "post ?w4 js w''"
      show "Q (?P, js) w''"
        by (rule assms(2) [OF post_trans [OF s(2) js]]) (rule safe_next [OF post_safe [OF js] x4(3)])
    qed simp_all
  qed
  then show ?thesis by simp
qed

lemma wp_kc_init:
  assumes "wf w" and "\<And>p js w'. post w js w' \<Longrightarrow> p < w_next w' \<Longrightarrow> Q (p, js) w'"
    and "\<And>w'. safe w w' \<Longrightarrow> E w'"
  shows "wp (kc_init env opts) Q E w"
proof -
  let ?w1 = "set_kc (\<lambda>k. k\<lparr>kc_authenticated := Bool False\<rparr>) w"
  have s1: "safe w ?w1" by (rule safe_core [OF assms(1)]) simp
  then have wf1: "wf ?w1" by (simp add: safe_def)
  show ?thesis
    unfolding kc_init_def wp_bindJ wp_upd wp_asks
  proof (rule wp_inert_safe [OF inert_loadAdapter wf1], goal_cases)
    case (1 x w')
    then have s2: "safe ?w1 w'" and "wf w'" by (simp_all add: safe_def)
    then have "safe w' (apply_init_options opts w')"
      by (intro safe_core core_apply_init_options)
    then have s: "safe w (apply_init_options opts w')"
      using safe_trans [OF safe_trans [OF s1 s2]] by blast
    then show ?case
      using wp_init_tail [of "apply_init_options opts w'" Q E env opts]
        assms(2) [OF post_trans [OF s]] assms(3) [OF safe_trans [OF s]]
      by (simp add: safe_def)
  next
    case (2 w')
    show ?case by (rule assms(3)) (rule safe_trans [OF s1 2])
  qed
qed

section \<open>Refresh\<close>

lemma wp_updateToken:
  assumes "wf w" and "\<And>p js w'. post w js w' \<Longrightarrow> p < w_next w' \<Longrightarrow> Q (p, js) w'"
  shows "wp (updateToken env m) Q E w"
proof -
  let ?w1 = "fst (new_promise w)" and ?P = "w_next w"
  have f1: "fresh w ?P ?w1" by (rule fresh_new [OF assms(1)])
  then have P: "?P < w_next ?w1" "leaf ?w1 ?P" "xfree ?w1 ?P" "wf ?w1" and s1: "safe w ?w1"
    using leaf_fresh by (simp_all add: fresh_def made_def safe_def)
  have failed: "Q (?P, []) (fst (settleP False ?P Undefined ?w1))"
    by (rule assms(2)) (use fresh_settle [OF f1] in \<open>simp_all add: fresh_def made_def\<close>)
  have exec: "good_cont w' (w_next ?w1) (ExecUpdate ?P r)" if "safe ?w1 w'" for w' r
    using P ext_leaf [of ?w1 w' ?P] that by (simp add: good_cont_def good_ref_def safe_def)
  have direct: "Q (?P, [Invoke (ExecUpdate ?P r) Undefined]) ?w1" for r
    by (rule assms(2)) (use s1 exec [OF safe_refl [OF P(4)]] P(1) in \<open>simp_all add: post_def safe_def\<close>)
  have check: "wp (checkLoginIframe env) (\<lambda>p. wp (registerP True p (ExecUpdate ?P r)) (\<lambda>js1.
      wp (registerP False p (SetErr ?P)) (\<lambda>js2. Q (?P, js1 @ js2)) E) E) E ?w1" for r
  proof (rule wp_check [OF P(4)])
    fix p w' assume f: "fresh ?w1 p w'"
    then have m: "made ?w1 p w'" and s: "safe ?w1 w'" and u: "unnamed w' p"
      by (simp_all add: fresh_def made_def)
    have e: "good_cont w' (w_next ?w1) (SetErr ?P)"
      by (rule good_cont_internal [OF s]) (use P in simp_all)
    show "wp (registerP True p (ExecUpdate ?P r)) (\<lambda>js1.
        wp (registerP False p (SetErr ?P)) (\<lambda>js2. Q (?P, js1 @ js2)) E) E w'"
    proof (rule wp_register_two [OF m u _ exec [OF s] e])
      fix js w'' assume js: "post ?w1 js w''"
      show "Q (?P, js) w''"
        by (rule assms(2) [OF post_trans [OF s1 js]]) (rule safe_next [OF post_safe [OF js] P(1)])
    qed simp
  qed
  show ?thesis
    using failed direct check by (simp add: updateToken_def)
qed

lemma wp_exec_update:
  assumes "wf w" and "p < w_next w" and "leaf w p"
    and "\<And>js w'. post w js w' \<Longrightarrow> Q js w'" and "\<And>w'. safe w w' \<Longrightarrow> E w'"
  shows "wp (exec_update env p m) Q E w"
proof -
  let ?w = "w\<lparr>w_refreshQueue := w_refreshQueue w @ [p]\<rparr>"
  have "wf ?w \<and> ext w ?w"
    by (rule wf_same_heap [OF assms(1)]) (use assms(2,3) in \<open>auto simp: root_def\<close>)
  then have s: "safe w ?w" and wf: "wf ?w" by (simp_all add: safe_def)
  have send: "wp (send_xhr XRefresh me u h b c) (\<lambda>_. Q []) E ?w" for me u h b c
    by (rule wp_send_xhr [OF wf]) (use safe_trans [OF s] assms(4) in simp_all)
  have queued: "Q [] ?w" "E ?w" "E w" using s assms(1,4,5) by simp_all
  have "Q (call_instrs (snd (settle True v (w_heap w p)))) (fst (settleP True p v w))" for v
    by (rule assms(4)) (rule post_settle [OF assms(1)])
  then show ?thesis
    using send queued
    by (cases "w_refreshQueue w = []") (simp_all add: exec_update_def split: sum.split prod.split)
qed

lemma wp_drain_queue:
  assumes "wf w" and "\<And>js w'. post w js w' \<Longrightarrow> Q js w'"
  shows "wp (drain_queue ok) Q E w"
proof -
  let ?w = "w\<lparr>w_refreshQueue := butlast (w_refreshQueue w)\<rparr>"
  have "wf ?w \<and> ext w ?w"
    by (rule wf_same_heap [OF assms(1)]) (auto simp: root_def dest: in_set_butlastD)
  then have s: "safe w ?w" and wf: "wf ?w" by (simp_all add: safe_def)
  have "post w (call_instrs (snd (settle ok v (w_heap w p))) @ [Drain ok]) (fst (settleP ok p v ?w))" for v p
    using post_trans [OF s post_settle [OF wf, of ok v p]] by (auto simp: post_def)
  then show ?thesis using assms by (simp add: drain_queue_def)
qed

section \<open>Events of the page\<close>

lemma wp_message_callback:
  assumes "wf w" and "\<And>js w'. post w js w' \<Longrightarrow> Q js w'"
  shows "wp (message_callback origin cid session loggedIn) Q E w"
proof -
  let ?w = "set_lif (\<lambda>l. l\<lparr>li_callbackMap := (li_callbackMap l)(cid := None)\<rparr>) w"
  have "wf ?w \<and> ext w ?w"
    by (rule wf_same_heap [OF assms(1)]) (auto simp: root_def ran_def split: if_splits)
  moreover have "p < w_next w" if "li_callbackMap (lif w) cid = Some p" for p
    using wf_mapD [OF assms(1) that] .
  ultimately have "post w js ?w" if "set js \<subseteq> {ClearToken, Raise TypeError}
      \<union> (\<lambda>p. SettleI True p Undefined) ` set_option (li_callbackMap (lif w) cid)
      \<union> (\<lambda>p. SettleI False p Undefined) ` set_option (li_callbackMap (lif w) cid)" for js
    using that by (fastforce simp: post_def)
  note this [THEN assms(2)]
  moreover have "Q [] w" using assms by simp
  ultimately show ?thesis by (simp add: message_callback_def Let_def split: option.split)
qed

lemma wp_iframe_onload:
  assumes "wf w" and "\<And>js w'. post w js w' \<Longrightarrow> Q js w'"
  shows "wp (iframe_onload env p) Q E w"
proof -
  let ?w = "set_lif (\<lambda>l. l\<lparr>li_iframeOrigin := Some (frame_origin env w), li_iframe := True\<rparr>) w"
  have s: "safe w ?w" by (rule safe_core [OF assms(1)]) (simp add: core_set_lif)
  then have "post w (call_instrs (snd (settle True Undefined (w_heap ?w p)))) (fst (settleP True p Undefined ?w))"
    by (intro post_trans [OF s] post_settle) (simp add: safe_def)
  then show ?thesis using assms(2) by (simp add: iframe_onload_def)
qed

lemma core_set_check_timeout: "core (set_check_timeout env w) = core w"
  by (simp add: set_check_timeout_def)

lemma wp_check_timer:
  assumes "wf w" and "\<And>w'. safe w w' \<Longrightarrow> Q () w'"
  shows "wp (check_timer env) Q E w"
  unfolding check_timer_def wp_bindJ
proof (rule wp_check [OF assms(1)])
  fix p w' assume "fresh w p w'"
  then have s: "safe w w'" by (rule fresh_safe)
  then have "safe w (set_check_timeout env w')"
    using safe_core [of w' "set_check_timeout env w'"] safe_trans [OF s] core_set_check_timeout
    by (simp add: safe_def)
  then show "wp (asks (\<lambda>w. truthy (kc_token (kc w)))) (\<lambda>x. wp (if x then upd (set_check_timeout env) else ret ()) Q E) E w'"
    using s assms(2) by simp
qed

lemma root_update_window:
  assumes "\<And>r. rw_kind (f r) = rw_kind r"
  shows "root (update_window i f w) = root w"
proof -
  have "(\<exists>r \<in> set ((w_windows w)[i := f (w_windows w ! i)]). window_pid (rw_kind r) = Some p)
      = (\<exists>r \<in> set (w_windows w). window_pid (rw_kind r) = Some p)" for p
  proof (cases "i < length (w_windows w)")
    case True
    have "map rw_kind ((w_windows w)[i := f (w_windows w ! i)]) = map rw_kind (w_windows w)"
      by (rule nth_equalityI) (auto simp: nth_list_update assms True)
    then have "rw_kind ` set ((w_windows w)[i := f (w_windows w ! i)]) = rw_kind ` set (w_windows w)"
      by (metis set_map)
    then show ?thesis by (metis (no_types, lifting) image_iff)
  qed (simp add: list_update_beyond not_less)
  then show ?thesis by (simp add: root_def update_window_def fun_eq_iff)
qed

lemma safe_update_window:
  "wf w \<Longrightarrow> (\<And>r. rw_kind (f r) = rw_kind r) \<Longrightarrow> safe w (update_window i f w)"
  unfolding safe_def
  by (rule wf_same_heap) (simp_all add: root_update_window, simp_all add: update_window_def callbacks_def)

lemma safe_emit: "safe w w' \<Longrightarrow> safe w (emit x w')"
  using safe_core [of w' "emit x w'"] safe_trans [of w w' "emit x w'"] by (simp add: safe_def)

lemma wp_ref_loadstart:
  assumes "wf w" and "\<And>w'. safe w w' \<Longrightarrow> Q () w'" and "\<And>w'. safe w w' \<Longrightarrow> E w'"
  shows "wp (ref_loadstart i url) Q E w"
proof -
  have "wp (parseCallback url) (\<lambda>c v. Q () (emit (CloseWindow i) (update_window i (\<lambda>r. r\<lparr>rw_callback := c\<rparr>) v))) E w"
  proof (rule wp_inert_safe [OF inert_parseCallback assms(1) _ assms(3)])
    fix c v assume s: "safe w v"
    then have "safe v (update_window i (\<lambda>r. r\<lparr>rw_callback := c\<rparr>) v)"
      by (intro safe_update_window) (simp_all add: safe_def)
    then show "Q () (emit (CloseWindow i) (update_window i (\<lambda>r. r\<lparr>rw_callback := c\<rparr>) v))"
      by (intro assms(2) safe_emit) (rule safe_trans [OF s])
  qed
  moreover have "Q () (emit (CloseWindow i) w)" "Q () w"
    using assms(1,2) safe_emit [OF safe_refl [OF assms(1)]] by simp_all
  ultimately show ?thesis by (simp add: ref_loadstart_def split: refkind.split)
qed

lemma wp_ref_loaderror:
  assumes "wf w" and "\<And>w'. safe w w' \<Longrightarrow> Q () w'"
  shows "wp (ref_loaderror i url) Q E w"
  using assms safe_emit [OF safe_update_window [OF assms(1)]] by (simp add: ref_loaderror_def)

lemma wp_ref_exit:
  assumes "wf w" and "i < length (w_windows w)"
    and "\<And>js w'. post w js w' \<Longrightarrow> Q js w'" and "\<And>w'. safe w w' \<Longrightarrow> E w'"
  shows "wp (ref_exit env i) Q E w"
proof -
  have p: "p < w_next w \<and> xfree w p" if "window_pid (rw_kind (w_windows w ! i)) = Some p" for p
    by (rule wf_rootD [OF assms(1)]) (use that assms(2) in \<open>auto simp: root_def\<close>)
  have settled: "Q [SettleI ok p Undefined] w" "Q [ClearToken, SettleI ok p Undefined] w" if "p < w_next w" for ok p
    by (intro assms(3); use that assms(1) in \<open>simp add: post_def\<close>)+
  have "Q [] w" by (intro assms(3)) (simp add: assms(1))
  then show ?thesis
    using p settled wp_processCallback [of w _ Q E] assms(1,3,4)
    by (simp add: ref_exit_def split: refkind.split)
qed

section \<open>Instructions\<close>

lemma wp_call_user: "wf w \<Longrightarrow> (\<And>js w'. post w js w' \<Longrightarrow> Q js w') \<Longrightarrow> wp (call_user env n v) Q E w"
  using safe_emit [OF safe_refl [of w]] by (simp add: call_user_def post_def safe_def)

lemma wp_call_hook: "wf w \<Longrightarrow> (\<And>js w'. post w js w' \<Longrightarrow> Q js w') \<Longrightarrow> wp (call_hook env h v) Q E w"
  using wp_call_user [of w Q] by (simp add: call_hook_def split: option.split)

lemma wp_settle: "wf w \<Longrightarrow> (\<And>js w'. post w js w' \<Longrightarrow> Q js w') \<Longrightarrow> wp (settleP ok p v) Q E w"
  using post_settle by simp

lemma wp_user_register:
  assumes "wf w" and "p < w_next w" and "\<And>js w'. post w js w' \<Longrightarrow> Q js w'"
  shows "wp (user_register ok p f) Q E w"
  using assms post_register_user [OF assms(1,2)] by (simp add: user_register_def split: option.split)

lemma call_cont_post:
  assumes "wf w" and "good_cont w (w_next w) c"
  shows "wp (call_cont env c v) (post w) (safe w) w"
proof (cases c)
  case (UserCb n)
  then show ?thesis using wp_call_user [OF assms(1)] by simp
next
  case (InitReady p)
  then show ?thesis using assms by (simp add: post_def good_cont_def)
next
  case (SetOk p)
  then show ?thesis using wp_settle [OF assms(1)] by simp
next
  case (SetErr p)
  then show ?thesis using wp_settle [OF assms(1)] by simp
next
  case (ProcessInit p opts)
  then show ?thesis using assms wp_processInit [OF assms(1), of p] by (simp add: good_cont_def good_ref_def)
next
  case (IframeReady p)
  then show ?thesis using assms wp_iframe_ready [OF assms(1), of p] by (simp add: good_cont_def good_ref_def)
next
  case (DoLogin p)
  then show ?thesis using assms wp_doLogin [OF assms(1), of p] by (simp add: good_cont_def good_ref_def)
next
  case (ExecUpdate p m)
  then show ?thesis using assms wp_exec_update [OF assms(1), of p] by (simp add: good_cont_def good_ref_def)
qed

lemma post_user_reg: "post w js w' \<Longrightarrow> p < w_next w' \<Longrightarrow> post w (js @ [UserReg p f g]) w'"
  by (auto simp: post_def)

lemma call_api_post: "wf w \<Longrightarrow> wp (call_api env a) (post w) (safe w) w"
proof (cases a)
  case (AInit opts f g)
  assume "wf w"
  then show ?thesis using AInit post_user_reg by (auto intro!: wp_kc_init)
next
  case (ALogin opts f g)
  assume "wf w"
  then show ?thesis using ALogin by (auto intro!: wp_kc_login simp: post_def made_def safe_def)
next
  case (ALogout opts f g)
  assume "wf w"
  then show ?thesis using ALogout by (auto intro!: wp_kc_logout simp: post_def made_def safe_def)
next
  case AAccount
  assume "wf w"
  then show ?thesis using AAccount by (auto intro!: wp_accountManagement)
next
  case (AUpdateToken m f g)
  assume "wf w"
  then show ?thesis using AUpdateToken post_user_reg by (auto intro!: wp_updateToken)
next
  case (ALoadProfile f g)
  assume "wf w"
  then show ?thesis using ALoadProfile by (auto intro!: wp_loadUserProfile simp: post_def safe_def)
qed simp

lemma on_response_post:
  assumes "wf w" and "instr_ok w (Response h status body)"
  shows "wp (on_response env h status body) (post w) (safe w) w"
proof (cases h)
  case (XConfig p)
  then show ?thesis using assms wp_config_response [OF assms(1), of p] by simp
next
  case (XCode p)
  then show ?thesis using assms post_code_response [OF assms(1), of p] by simp
next
  case XRefresh
  then show ?thesis using assms by (simp add: post_def refresh_response_def)
next
  case (XProfile p)
  then show ?thesis using assms wp_profile_response [OF assms(1), of p] by simp
qed

lemma user_reg_post:
  assumes "wf w" and "p < w_next w"
  shows "wp (user_register True p f) (\<lambda>js1. wp (user_register False p g) (\<lambda>js2. post w (js1 @ js2)) (safe w)) (safe w) w"
proof (rule wp_user_register [OF assms])
  fix js1 w1 assume p1: "post w js1 w1"
  show "wp (user_register False p g) (\<lambda>js2. post w (js1 @ js2)) (safe w) w1"
  proof (rule wp_user_register)
    show "wf w1" using p1 by (simp add: post_def)
    show "p < w_next w1" by (rule safe_next [OF post_safe [OF p1] assms(2)])
    show "post w (js1 @ js2) w2" if "post w1 js2 w2" for js2 w2 by (rule post_append [OF p1 that])
  qed
qed

lemma step_wf:
  assumes "wf w" and "instr_ok w i"
  shows "wp (step env i) (post w) (safe w) w"
proof (cases i)
  case (UserReg p f g)
  then show ?thesis using user_reg_post [OF assms(1), of p f g] assms(2) by simp
next
  case (Hook h v)
  then show ?thesis using wp_call_hook [OF assms(1)] by simp
next
  case (RefExit n)
  then show ?thesis using assms wp_ref_exit [OF assms(1), of n] by simp
next
  case (RefStart n url)
  then show ?thesis using wp_ref_loadstart [OF assms(1)] by simp
next
  case (Response h status body)
  then show ?thesis using on_response_post [OF assms(1)] assms(2) by simp
qed (use assms in \<open>simp_all add: call_cont_post call_api_post wp_settle wp_drain_queue
    wp_token_response wp_clearToken wp_relogin wp_message_callback wp_iframe_onload wp_check_timer
    wp_ref_loaderror del: wp_settleP\<close>)

section \<open>Turns and events\<close>

text \<open>
  The rule for a turn: \<open>I\<close> holds between instructions, \<open>G\<close> of every instruction still to run, \<open>F\<close>
  after an exception.
\<close>

lemma run_rule:
  assumes "run env js w = Some (w', r)" and "I w" and "\<forall>i \<in> set js. G w i"
    and step: "\<And>i w. I w \<Longrightarrow> G w i \<Longrightarrow>
      wp (step env i) (\<lambda>js w'. I w' \<and> (\<forall>j \<in> set js. G w' j) \<and> (\<forall>j. G w j \<longrightarrow> G w' j)) F w"
  shows "if r = None then I w' else F w'"
proof -
  define post where "post w x \<longleftrightarrow> (if snd x = None then I (fst x) else F (fst x))"
    for w :: world and x :: "world \<times> js_error option"
  have "I w \<longrightarrow> (\<forall>i \<in> set js. G w i) \<longrightarrow> post w (w', r)"
  proof (rule run.raw_induct [where P = "\<lambda>e js w x. e = env \<longrightarrow> I w \<longrightarrow> (\<forall>i \<in> set js. G w i) \<longrightarrow> post w x",
        OF _ assms(1), THEN mp, OF _ HOL.refl], goal_cases)
    case (1 f env' js w x)
    show ?case
    proof (intro impI)
      assume env: "env' = env" and I: "I w" and G: "\<forall>i \<in> set js. G w i"
      show "post w x"
      proof (cases js)
        case Nil
        then have "x = (w, None)" using 1(2) by simp
        then show ?thesis using I by (simp add: post_def)
      next
        case (Cons i rest)
        obtain w1 s where st: "step env i w = (w1, s)" by (cases "step env i w")
        have Gi: "G w i" using G Cons by simp
        show ?thesis
        proof (cases s)
          case (Inl e)
          then have "x = (w1, Some e)" using 1(2) Cons st env by simp
          then show ?thesis using wpD [OF step [OF I Gi] st] Inl by (simp add: post_def)
        next
          case (Inr js')
          then have "I w1" "\<forall>j \<in> set (js' @ rest). G w1 j"
            using wpD [OF step [OF I Gi] st] G Cons by auto
          moreover have "f env (js' @ rest) w1 = Some x" using 1(2) Cons st Inr env by simp
          ultimately have "post w1 x" using 1(1) by blast
          then show ?thesis by (simp add: post_def)
        qed
      qed
    qed
  qed
  then show ?thesis using assms(2,3) by (cases r) (simp_all add: post_def)
qed

lemma run_wf:
  assumes "run env js w = Some (w', r)" and "wf w" and "\<forall>i \<in> set js. instr_ok w i"
  shows "safe w w'"
proof -
  have "if r = None then safe w w' else safe w w'"
  proof (rule run_rule [OF assms(1), where I = "safe w" and G = instr_ok])
    fix i v assume s: "safe w v" and ok: "instr_ok v i"
    then have "wp (step env i) (post v) (safe v) v" by (intro step_wf) (simp_all add: safe_def)
    then show "wp (step env i) (\<lambda>js w'. safe w w' \<and> (\<forall>j \<in> set js. instr_ok w' j)
        \<and> (\<forall>j. instr_ok v j \<longrightarrow> instr_ok w' j)) (safe w) v"
    proof (rule wp_cong)
      fix js w' assume p: "post v js w'"
      have "safe v w'" using p by (rule post_safe)
      then show "safe w w' \<and> (\<forall>j \<in> set js. instr_ok w' j) \<and> (\<forall>j. instr_ok v j \<longrightarrow> instr_ok w' j)"
        using p safe_trans [OF s] instr_ok_mono [of v _ w'] by (auto simp: post_def safe_def)
    qed (rule safe_trans [OF s])
  qed (use assms in simp_all)
  then show ?thesis by simp
qed

lemma end_turn_safe: "safe w w' \<Longrightarrow> safe w (end_turn (w', r))"
  by (cases r) (simp_all add: end_turn_def safe_emit)

lemma run_turns_wf:
  assumes "run_turns env ts w = Some w'" and "wf w" and "\<forall>t \<in> set ts. \<forall>i \<in> set t. instr_ok w i"
  shows "safe w w'"
  using assms
proof (induction ts arbitrary: w)
  case Nil
  then show ?case by simp
next
  case (Cons t ts)
  then obtain w1 r where run: "run env t w = Some (w1, r)" by (auto split: option.splits)
  have s: "safe w (end_turn (w1, r))"
    by (rule end_turn_safe, rule run_wf [OF run]) (use Cons.prems in auto)
  have "safe (end_turn (w1, r)) w'"
  proof (rule Cons.IH)
    show "run_turns env ts (end_turn (w1, r)) = Some w'" using Cons.prems(1) run by simp
    show "wf (end_turn (w1, r))" using s by (simp add: safe_def)
    show "\<forall>t \<in> set ts. \<forall>i \<in> set t. instr_ok (end_turn (w1, r)) i"
      using Cons.prems(3) s instr_ok_mono [of w _ "end_turn (w1, r)"] by (simp add: safe_def)
  qed
  with s show ?case by (rule safe_trans)
qed

lemma turns_of_wf:
  assumes "turns_of e w = (w', ts)" and "wf w"
  shows "safe w w' \<and> (\<forall>t \<in> set ts. \<forall>i \<in> set t. instr_ok w' i)"
proof (cases e)
  case (EResponse i status body)
  show ?thesis
  proof (cases "map_of (w_xhrs w) i")
    case None
    then show ?thesis using assms EResponse by simp
  next
    case (Some h)
    let ?w = "w\<lparr>w_xhrs := filter (\<lambda>x. fst x \<noteq> i) (w_xhrs w)\<rparr>"
    have "wf ?w \<and> ext w ?w" by (rule wf_same_heap [OF assms(2)]) (force simp: root_def)+
    moreover have "p < w_next ?w \<and> xfree ?w p" if "handler_pid h = Some p" for p
    proof -
      have "root w p" using that map_of_SomeD [OF Some] by (force simp: root_def)
      then show ?thesis using wf_rootD [OF assms(2)] by (simp add: xfree_def)
    qed
    ultimately show ?thesis using assms(1) EResponse Some by (auto simp: safe_def)
  qed
next
  case ETimer
  then show ?thesis using assms safe_core [of w "w\<lparr>w_timers := w_timers w - 1\<rparr>"]
    by (auto split: if_splits)
next
  case (ETime t)
  then show ?thesis using assms safe_core [of w "w\<lparr>w_now := max t (w_now w)\<rparr>"] by auto
next
  case (EFrameLoad i)
  then show ?thesis using assms wf_frameD [OF assms(2)] by (auto split: if_splits)
qed (use assms in \<open>auto split: if_splits\<close>)

lemma handle_wf: "handle env e w = Some w' \<Longrightarrow> wf w \<Longrightarrow> safe w w'"
proof -
  assume h: "handle env e w = Some w'" and wf: "wf w"
  obtain w1 ts where t: "turns_of e w = (w1, ts)" by (cases "turns_of e w")
  then have s: "safe w w1" and ok: "\<forall>t \<in> set ts. \<forall>i \<in> set t. instr_ok w1 i"
    using turns_of_wf [OF t wf] by auto
  have "run_turns env ts w1 = Some w'" using h t by (simp add: handle_def)
  then have "safe w1 w'" by (rule run_turns_wf) (use s ok in \<open>simp_all add: safe_def\<close>)
  with s show ?thesis by (rule safe_trans)
qed

lemma handle_all_wf: "handle_all env es w = Some w' \<Longrightarrow> wf w \<Longrightarrow> safe w w'"
proof (induction es arbitrary: w)
  case Nil
  then show ?case by simp
next
  case (Cons e es)
  then obtain w1 where w1: "handle env e w = Some w1" "handle_all env es w1 = Some w'"
    by (auto split: option.splits)
  have s: "safe w w1" by (rule handle_wf [OF w1(1) Cons.prems(2)])
  have "safe w1 w'" by (rule Cons.IH [OF w1(2)]) (use s in \<open>simp add: safe_def\<close>)
  with s show ?case by (rule safe_trans)
qed

lemma wf_new_world: "wf (new_world config loc hooks cordova scripts stored)"
  by (simp add: wf_def new_world_def callbacks_def root_def createPromise_def)

end
