(* ===== verification/Kc_Turns.thy ===== *)
theory Kc_Turns
  imports Kc_Wf
begin

text \<open>
  Whole turns of the event loop, for applications whose functions do not call back into the
  object: every turn ends (\<open>turn_ends\<close>), by a weight on what is still to run that every
  instruction decreases, and what a turn does to the refresh queue and to the refresh requests
  under way.
\<close>

section \<open>What leaves the refresh queue alone\<close>

definition flights :: "world \<Rightarrow> nat" where
  "flights w = length (filter (\<lambda>x. snd x = XRefresh) (w_xhrs w))"

definition refresh_part :: "world \<Rightarrow> pid list \<times> nat" where
  "refresh_part w = (w_refreshQueue w, flights w)"

lemma refresh_part_core: "core w' = core w \<Longrightarrow> refresh_part w' = refresh_part w"
  by (simp add: refresh_part_def flights_def core_def)

text \<open>Only \<open>exec\<close> of \<open>updateToken\<close> and the loop over the queue touch it.\<close>

fun refreshes :: "instr \<Rightarrow> bool" where
  "refreshes (Invoke c v) = is_exec c"
| "refreshes (Drain ok) = True"
| "refreshes _ = False"

text \<open>
  A reflexive and transitive relation between states that the elementary changes keep is kept by
  every operation.  The two relations of interest: the queue and its requests are unchanged, and
  no promise loses its outcome.
\<close>

locale client_frame =
  fixes R :: "world \<Rightarrow> world \<Rightarrow> bool"
  assumes trans: "R u v \<Longrightarrow> R v w \<Longrightarrow> R u w"
    and same: "core w' = core w \<Longrightarrow> R w w'"
    and new: "R w (fst (new_promise w))"
    and settles: "R w (fst (settleP ok p x w))"
    and registers: "R w (fst (registerP ok p c w))"
    and sends: "h \<noteq> XRefresh \<Longrightarrow> R w (fst (send_xhr h meth url hs b cr w))"
    and frames: "R w (w\<lparr>w_frames := fs\<rparr>)"
    and windows: "R w (w\<lparr>w_windows := rs\<rparr>)"
    and map: "R w (set_lif g w)"
begin

definition keeps :: "'a client \<Rightarrow> bool" where
  "keeps m \<longleftrightarrow> (\<forall>w. R w (fst (m w)))"

lemma refl: "R w w"
  by (rule same) simp

lemma keeps_inert: "inert m \<Longrightarrow> keeps m"
  unfolding keeps_def inert_def by (intro allI same) simp

lemma keeps_bindJ:
  assumes "keeps m" and "\<And>x. keeps (f x)"
  shows "keeps (bindJ m f)"
  unfolding keeps_def
proof
  fix w
  obtain t r where m: "m w = (t, r)" by (cases "m w")
  then have "R w t" using assms(1) by (metis fst_conv keeps_def)
  moreover have "R t (fst (f x t))" for x using assms(2) by (simp add: keeps_def)
  ultimately show "R w (fst (bindJ m f w))"
    using trans by (cases r) (auto simp add: bindJ_def m)
qed

lemma keeps_upd: "(\<And>w. R w (f w)) \<Longrightarrow> keeps (upd f)"
  by (simp add: keeps_def)

lemma keeps_heap: "keeps new_promise" "keeps (settleP ok p v)" "keeps (registerP ok p c)"
  by (simp_all add: keeps_def new settles registers)

lemma keeps_send_xhr: "h \<noteq> XRefresh \<Longrightarrow> keeps (send_xhr h m u hs b c)"
  by (simp add: keeps_def sends)

lemma keeps_basic [simp]: "keeps (ret x)" "keeps (raise e)" "keeps (asks g)" "keeps (liftE y)"
  by (simp_all add: keeps_def refl)

lemma R_emit: "R w w' \<Longrightarrow> R w (emit x w')"
  using trans [of w w' "emit x w'"] same [of "emit x w'" w'] by simp

lemma R_upd:
  "R w (set_kc f w)" "R w (w\<lparr>w_now := t\<rparr>)" "R w (w\<lparr>w_timers := n\<rparr>)"
  "R w (apply_init_options opts w)" "R w (fill_config_url w)" "R w (restore_url oa w)"
  "R w (set_check_timeout env w)" "R w (emit x w)"
  by (rule same, simp add: core_apply_init_options core_fill_config_url core_restore_url
      core_set_check_timeout)+

lemma R_update_window: "R w (update_window i h w)"
  unfolding update_window_def by (rule windows)

lemmas keeps_intros = keeps_bindJ keeps_upd keeps_heap keeps_send_xhr keeps_basic
  R_emit R_upd R_update_window frames windows map inert_intros(2-12) [THEN keeps_inert]

lemma keeps_setup: "keeps (setupCheckLoginIframe env)"
  unfolding setupCheckLoginIframe_def by (auto intro!: keeps_intros)

lemma keeps_check: "keeps (checkLoginIframe env)"
  unfolding checkLoginIframe_def by (auto intro!: keeps_intros)

lemma keeps_setToken: "keeps (setToken env t r)"
  unfolding setToken_def by (auto intro!: keeps_intros keeps_setup)

lemma keeps_open_window: "keeps (open_window k u f)"
  unfolding open_window_def by (auto intro!: keeps_intros)

lemma keeps_kc_login: "keeps (kc_login env opts)"
  unfolding kc_login_def default_login_def cordova_login_def navigate_def
  by (auto intro!: keeps_intros keeps_open_window split: option.split adapter.split)

lemma keeps_kc_logout: "keeps (kc_logout env opts)"
  unfolding kc_logout_def default_logout_def cordova_logout_def navigate_def
  by (auto intro!: keeps_intros keeps_open_window split: option.split adapter.split)

lemma keeps_accountManagement: "keeps (accountManagement env)"
  unfolding accountManagement_def default_accountManagement_def cordova_accountManagement_def navigate_def
  by (auto intro!: keeps_intros keeps_open_window split: option.split adapter.split)

lemma keeps_doLogin: "keeps (doLogin env b p)"
  unfolding doLogin_def by (intro keeps_intros keeps_kc_login)

lemma keeps_iframe_ready: "keeps (iframe_ready env p)"
  unfolding iframe_ready_def by (intro keeps_intros keeps_check)

lemma keeps_check_sso: "keeps (check_sso env p)"
  unfolding check_sso_def by (auto intro!: keeps_intros keeps_setup keeps_doLogin split: option.split)

lemma keeps_processCallback: "keeps (processCallback env oa p)"
  unfolding processCallback_def by (auto intro!: keeps_intros split: prod.split)

lemma keeps_processInit: "keeps (processInit env opts p)"
  unfolding processInit_def
  by (auto intro!: keeps_intros keeps_processCallback keeps_setToken keeps_check_sso keeps_doLogin
      split: option.split)

lemma keeps_loadConfig: "keeps (loadConfig env)"
  unfolding loadConfig_def Let_def by (auto intro!: keeps_intros split: option.split)

lemma keeps_kc_init: "keeps (kc_init env opts)"
  unfolding kc_init_def by (auto intro!: keeps_intros keeps_loadConfig)

lemma keeps_updateToken: "keeps (updateToken env m)"
  unfolding updateToken_def by (auto intro!: keeps_intros keeps_check)

lemma keeps_token_response: "keeps (token_response env body)"
  unfolding token_response_def by (intro keeps_intros keeps_setToken)

lemma keeps_clearToken: "keeps (clearToken env)"
  unfolding clearToken_def by (auto intro!: keeps_intros keeps_setToken)

lemma keeps_relogin: "keeps (relogin env)"
  unfolding relogin_def by (auto intro!: keeps_intros keeps_kc_login)

lemma keeps_call_hook: "keeps (call_hook env h v)"
  unfolding call_hook_def call_user_def by (auto intro!: keeps_intros split: option.split)

lemma keeps_user_register: "keeps (user_register ok p f)"
  unfolding user_register_def by (auto intro!: keeps_intros split: option.split)

lemma keeps_call_api: "keeps (call_api env a)"
  by (cases a) (auto intro!: keeps_intros keeps_kc_init keeps_kc_login keeps_kc_logout
      keeps_accountManagement keeps_updateToken simp: loadUserProfile_def split: prod.split)

lemma keeps_on_response: "keeps (on_response env h status body)"
  by (cases h) (auto intro!: keeps_intros simp: config_response_def profile_response_def)

lemma keeps_call_cont: "\<not> is_exec c \<Longrightarrow> keeps (call_cont env c v)"
  by (cases c) (auto intro!: keeps_intros keeps_processInit keeps_iframe_ready keeps_doLogin
      simp: call_user_def)

lemma keeps_step: "\<not> refreshes i \<Longrightarrow> keeps (step env i)"
  by (cases i) (auto intro!: keeps_intros keeps_call_cont keeps_call_api keeps_call_hook
      keeps_user_register keeps_token_response keeps_clearToken keeps_relogin keeps_on_response keeps_check
      simp: message_callback_def iframe_onload_def check_timer_def ref_loadstart_def
        ref_loaderror_def ref_exit_def Let_def keeps_processCallback split: refkind.split option.split)

end

interpretation calm: client_frame "\<lambda>w w'. refresh_part w' = refresh_part w"
proof
  fix w w' :: world
  show "core w' = core w \<Longrightarrow> refresh_part w' = refresh_part w" by (rule refresh_part_core)
qed (simp_all add: refresh_part_def flights_def send_xhr_def)

text \<open>A settlement that has happened.\<close>

definition answered :: "bool \<Rightarrow> cont promise \<Rightarrow> bool" where
  "answered ok P \<longleftrightarrow> (if ok then p_success P else p_error P)"

definition lasting :: "world \<Rightarrow> world \<Rightarrow> bool" where
  "lasting w w' \<longleftrightarrow> w_next w \<le> w_next w'
     \<and> (\<forall>ok. \<forall>p < w_next w. answered ok (w_heap w p) \<longrightarrow> answered ok (w_heap w' p))"

interpretation outcome: client_frame lasting
proof
  fix u v w :: world
  assume "lasting u v" "lasting v w"
  then show "lasting u w" by (fastforce simp: lasting_def)
next
  fix w w' :: world
  assume "core w' = core w"
  from core_eqD(1,2) [OF this] show "lasting w w'" by (simp add: lasting_def)
qed (simp_all add: lasting_def answered_def new_promise_result settleP_result registerP_result
      send_xhr_def promise_defs)

section \<open>What a turn goes on with\<close>

text \<open>
  What an instruction returns: never what only starts a turn, never a call the application's
  functions do not make, and the loop over the queue only from the response to a refresh.
\<close>

fun followup :: "env \<Rightarrow> instr \<Rightarrow> bool" where
  "followup env (Api a) = (\<exists>n v. a \<in> set (script env n v))"
| "followup env (Message orig cid session loggedIn) = False"
| "followup env (Response h status body) = False"
| "followup env (FrameLoad p) = False"
| "followup env Timer = False"
| "followup env (RefStart i url) = False"
| "followup env (RefFail i url) = False"
| "followup env (RefExit i) = False"
| "followup env (Drain ok) = False"
| "followup env _ = True"

abbreviation follow :: "env \<Rightarrow> instr list \<Rightarrow> bool" where
  "follow env js \<equiv> \<forall>j \<in> set js. followup env j"

definition yields :: "('a \<Rightarrow> bool) \<Rightarrow> 'a client \<Rightarrow> bool" where
  "yields Q m \<longleftrightarrow> (\<forall>w w' x. m w = (w', Inr x) \<longrightarrow> Q x)"

lemma yields_bindJ: "(\<And>x. yields Q (f x)) \<Longrightarrow> yields Q (bindJ m f)"
  by (fastforce simp: yields_def bindJ_def split: prod.splits sum.splits)

lemma yields_bindJ2: "yields P m \<Longrightarrow> (\<And>x. P x \<Longrightarrow> yields Q (f x)) \<Longrightarrow> yields Q (bindJ m f)"
  by (fastforce simp: yields_def bindJ_def split: prod.splits sum.splits)

lemma yields_basic: "Q x \<Longrightarrow> yields Q (ret x)" "yields Q (raise e)"
  by (simp_all add: yields_def)

lemma yields_mono: "yields P m \<Longrightarrow> (\<And>x. P x \<Longrightarrow> Q x) \<Longrightarrow> yields Q m"
  by (auto simp: yields_def)

lemma follow_settle: "yields (follow env) (settleP ok p v)"
  using settle_calls by (fastforce simp: yields_def settleP_result)

lemma follow_register: "yields (follow env) (registerP ok p c)"
  using register_calls by (fastforce simp: yields_def registerP_result)

lemma follow_two:
  "yields (follow env) (bindJ (registerP a p c) (\<lambda>js1. bindJ (registerP b q d) (\<lambda>js2. ret (js1 @ js2))))"
  by (rule yields_bindJ2 [OF follow_register [of env]], rule yields_bindJ2 [OF follow_register [of env]])
     (auto intro!: yields_basic)

lemma follow_call_user: "yields (follow env) (call_user env n v)"
  by (auto intro!: yields_bindJ yields_basic simp: call_user_def) blast

lemma follow_doLogin: "yields (follow env) (doLogin env' b p)"
  unfolding doLogin_def by (intro yields_bindJ follow_two)

lemma follow_processCallback: "yields (follow env) (processCallback env' oa p)"
  by (auto intro!: yields_bindJ yields_basic simp: processCallback_def split: prod.split)

lemma follow_check_sso: "yields (follow env) (check_sso env' p)"
  by (auto intro!: yields_bindJ yields_basic follow_doLogin follow_register simp: check_sso_def split: option.split)

lemma follow_call_cont: "yields (follow env) (call_cont env c v)"
  by (cases c)
    (auto intro!: follow_call_user follow_settle yields_bindJ yields_basic follow_processCallback
      follow_check_sso follow_doLogin follow_two
      simp: processInit_def iframe_ready_def exec_update_def split: option.split prod.split)

lemma follow_pair: "yields (\<lambda>(p, js). follow env js) (kc_init env' opts)"
    "yields (\<lambda>(p, js). follow env js) (updateToken env' m)"
proof -
  have two: "yields (\<lambda>(p, js). follow env js)
      (bindJ (registerP a q c) (\<lambda>js1. bindJ (registerP b q d) (\<lambda>js2. ret (p, js1 @ js2))))" for a q c b d p
    by (rule yields_bindJ2 [OF follow_register [of env]], rule yields_bindJ2 [OF follow_register [of env]])
       (auto intro!: yields_basic)
  show "yields (\<lambda>(p, js). follow env js) (kc_init env' opts)"
    unfolding kc_init_def by (intro yields_bindJ two)
  show "yields (\<lambda>(p, js). follow env js) (updateToken env' m)"
    unfolding updateToken_def by (auto intro!: yields_bindJ two yields_basic)
qed

lemma follow_call_api: "yields (follow env) (call_api env' a)"
proof (cases a)
  case (AInit opts f g)
  then show ?thesis by (auto intro!: yields_bindJ2 [OF follow_pair(1)] yields_basic split: prod.splits)
next
  case (AUpdateToken m f g)
  then show ?thesis by (auto intro!: yields_bindJ2 [OF follow_pair(2)] yields_basic split: prod.splits)
qed (auto intro!: yields_bindJ yields_basic)

text \<open>The instructions that end with the loop over the queue.\<close>

fun drains :: "bool \<Rightarrow> instr \<Rightarrow> bool" where
  "drains ok (Drain b) = (b = ok)"
| "drains ok (Response h status body) = (h = XRefresh \<and> ok = (status = 200))"
| "drains ok _ = False"

lemma follow_step: "\<forall>ok. \<not> drains ok i \<Longrightarrow> yields (follow env) (step env i)"
proof (cases i)
  case (UserReg p f g)
  have reg: "yields (follow env) (user_register ok p f)" for ok f
    by (auto intro!: follow_register yields_basic simp: user_register_def split: option.split)
  show ?thesis unfolding UserReg step.simps
    by (rule yields_bindJ2 [OF reg], rule yields_bindJ2 [OF reg]) (auto intro!: yields_basic)
next
  case (Response h status body)
  assume "\<forall>ok. \<not> drains ok i"
  then show ?thesis using Response
    by (cases h) (auto intro!: yields_bindJ yields_basic
        simp: config_response_def code_response_def profile_response_def)
qed (auto intro!: yields_bindJ yields_basic follow_call_cont follow_call_api follow_settle follow_call_user
      follow_processCallback
      simp: call_hook_def clearToken_def message_callback_def iframe_onload_def ref_exit_def Let_def
      split: option.split refkind.split)

lemma drain_step:
  "drains ok i \<Longrightarrow> yields (\<lambda>js. js = [] \<or> (\<exists>ks. follow env ks \<and> js = ks @ [Drain ok])) (step env i)"
proof (cases i)
  case (Drain b)
  assume "drains ok i"
  then have b: "b = ok" using Drain by simp
  have drain: "yields (\<lambda>js. js = [] \<or> (\<exists>ks. follow env ks \<and> js = ks @ [Drain ok]))
      (bindJ (settleP ok p v) (\<lambda>calls. ret (calls @ [Drain ok])))" for p v
    by (rule yields_bindJ2 [OF follow_settle [of env]]) (auto intro!: yields_basic)
  show ?thesis unfolding Drain step.simps drain_queue_def b
    by (rule yields_bindJ) (simp add: yields_basic, rule impI, rule yields_bindJ, rule drain)
next
  case (Response h status body)
  assume "drains ok i"
  then have h: "h = XRefresh" and ok: "ok = (status = 200)" using Response by simp_all
  have "\<exists>ks. follow env ks \<and> refresh_response status body = ks @ [Drain ok]"
    unfolding refresh_response_def ok
    by (rule exI [of _ "butlast (refresh_response status body)"]) (simp add: refresh_response_def)
  then show ?thesis using Response h by (auto intro!: yields_basic)
qed auto

text \<open>The application's functions do not call methods of the object (they may throw).\<close>

definition silent :: "env \<Rightarrow> bool" where
  "silent env \<longleftrightarrow> (\<forall>n v. \<forall>a \<in> set (script env n v). \<exists>e. a = AThrow e)"

fun inner :: "instr \<Rightarrow> bool" where
  "inner (Api a) = (\<exists>e. a = AThrow e)"
| "inner (Message orig cid session loggedIn) = False"
| "inner (Response h status body) = False"
| "inner (FrameLoad p) = False"
| "inner Timer = False"
| "inner (RefStart i url) = False"
| "inner (RefFail i url) = False"
| "inner (RefExit i) = False"
| "inner _ = True"

abbreviation all_inner :: "instr list \<Rightarrow> bool" where
  "all_inner js \<equiv> \<forall>j \<in> set js. inner j"

lemma follow_inner: "silent env \<Longrightarrow> followup env j \<Longrightarrow> inner j"
  by (cases j) (auto simp: silent_def)

lemma inner_step: "silent env \<Longrightarrow> yields all_inner (step env i)"
proof (cases "\<exists>ok. drains ok i")
  case True
  assume s: "silent env"
  from True obtain ok where "drains ok i" by blast
  from drain_step [OF this, of env] show ?thesis
    by (rule yields_mono) (auto intro: follow_inner [OF s])
next
  case False
  assume s: "silent env"
  from False have "yields (follow env) (step env i)" by (intro follow_step) blast
  then show ?thesis by (rule yields_mono) (blast intro: follow_inner [OF s])
qed

section \<open>Weights\<close>

fun cweight :: "cont \<Rightarrow> nat" where
  "cweight (UserCb n) = 1"
| "cweight (SetOk p) = 10 * p + 3"
| "cweight (SetErr p) = 10 * p + 3"
| "cweight (InitReady p) = 10 * p + 4"
| "cweight (ProcessInit p opts) = 10 * p + 8"
| "cweight (IframeReady p) = 10 * p + 6"
| "cweight (DoLogin p) = 10 * p + 4"
| "cweight (ExecUpdate p m) = 10 * p + 5"

fun weight :: "instr \<Rightarrow> nat" where
  "weight (Invoke c v) = cweight c"
| "weight (SettleI ok p v) = 10 * p + 2"
| "weight (SettleAuth p) = 10 * p + 2"
| "weight (UserReg p f g) = 3"
| "weight ClearToken = 3"
| "weight (Api a) = 0"
| "weight _ = 1"

definition load :: "instr list \<Rightarrow> nat" where
  "load js = sum_list (map weight js)"

definition backlog :: "pid list \<Rightarrow> nat" where
  "backlog q = sum_list (map (\<lambda>p. 10 * p + 2) q)"

lemma load_simps [simp]:
  "load [] = 0" "load (i # js) = weight i + load js" "load (js @ ks) = load js + load ks"
  by (simp_all add: load_def)

lemma backlog_simps [simp]:
  "backlog [] = 0" "backlog (p # q) = 10 * p + 2 + backlog q" "backlog (q @ r) = backlog q + backlog r"
  by (simp_all add: backlog_def)

lemma cweight_ref: "ref c = Some q \<Longrightarrow> cweight c \<le> 10 * q + 8" "ref c = None \<Longrightarrow> cweight c = 1"
  by (cases c; simp)+

lemma settle_load: "wf w \<Longrightarrow> load (call_instrs (snd (settle ok v (w_heap w p)))) < 10 * p + 2"
proof -
  assume wf: "wf w"
  have "cweight c < 10 * p + 2" if c: "c \<in> callbacks w p" for c
  proof (cases "ref c")
    case None
    then show ?thesis using cweight_ref(2) by simp
  next
    case (Some q)
    then have "q < p" using wf_callbacksD [OF wf c] by (auto simp: good_cont_def)
    then show ?thesis using cweight_ref(1) [OF Some] by linarith
  qed
  then show ?thesis
    by (auto simp: call_instrs_def promise_defs callbacks_def split: option.split)
qed

lemma settle_leaf_load: "leaf w p \<Longrightarrow> load (call_instrs (snd (settle ok v (w_heap w p)))) \<le> 1"
  by (auto simp: call_instrs_def promise_defs callbacks_def leaf_def split: option.split)

section \<open>Loads of the operations\<close>

definition pending :: "world \<Rightarrow> pid \<Rightarrow> bool" where
  "pending w p \<longleftrightarrow> outcome (w_heap w p) = None"

lemma pending_fresh: "w_heap w p = createPromise \<Longrightarrow> pending w p"
  by (simp add: pending_def promise_defs)

lemma register_pending_calls:
  "pending w p \<Longrightarrow> call_instrs (snd (register ok c (w_heap w p))) = []
     \<and> pending (fst (registerP ok p c w)) p"
  by (auto simp: pending_def promise_defs call_instrs_def registerP_result split: if_splits)

lemma register_load: "load (call_instrs (snd (register ok c P))) \<le> cweight c"
  by (auto simp: promise_defs call_instrs_def)

lemma wp_login_pending:
  assumes "\<And>p w'. pending w' p \<Longrightarrow> Q p w'" and "\<And>w'. E w'"
  shows "wp (kc_login env opts) Q E w"
proof -
  have nav: "Q (w_next v) (fst (new_promise (emit (Navigate u) v)))" for u v
    by (rule assms(1)) (rule pending_fresh, simp add: new_promise_result)
  have "wp (createLoginUrl env opts) (\<lambda>u v. Q (w_next v) (fst (new_promise (emit (Navigate u) v)))) E w"
    by (rule wpI) (rule nav, rule assms(2))
  moreover have "wp (createLoginUrl env opts) (\<lambda>u v. Q (w_next w) (fst (open_window (RefLogin (w_next w)) u f v))) E
      (fst (new_promise w))" for f
  proof (rule wp_inert [OF inert_createLoginUrl _ assms(2)])
    fix u v assume "core v = core (fst (new_promise w))"
    then have "w_heap v = w_heap (fst (new_promise w))" by (rule core_eqD(1))
    then have "w_heap v (w_next w) = createPromise" by (simp add: new_promise_result)
    then show "Q (w_next w) (fst (open_window (RefLogin (w_next w)) u f v))"
      by (intro assms(1) pending_fresh) (simp add: open_window_def)
  qed
  ultimately show ?thesis using assms(2)
    by (simp add: kc_login_def default_login_def cordova_login_def navigate_def open_window_def
        split: option.split adapter.split)
qed

lemma wp_doLogin_load: "wp (doLogin env b p) (\<lambda>js _. load js = 0) (\<lambda>_. True) w"
  unfolding doLogin_def wp_bindJ
proof (rule wp_login_pending)
  fix q w' assume "pending w' q"
  then show "wp (registerP True q (SetOk p)) (\<lambda>x. wp (registerP False q (SetErr p))
      (\<lambda>y. wp (ret (x @ y)) (\<lambda>js _. load js = 0) (\<lambda>_. True)) (\<lambda>_. True)) (\<lambda>_. True) w'"
    using register_pending_calls by (simp add: load_def)
qed simp

lemma wp_check_heap:
  assumes "\<And>p w'. pending w' p \<or> w_heap w' p = fst (settle True Undefined createPromise) \<Longrightarrow> Q p w'"
  shows "wp (checkLoginIframe env) Q E w"
proof -
  have "Q p w'" if "w_heap w' p = createPromise \<or> w_heap w' p = fst (settle True Undefined createPromise)" for p w'
    by (rule assms) (use that in \<open>auto simp: pending_def promise_defs\<close>)
  then show ?thesis
    by (simp add: wp_def check_cases Let_def new_promise_result settleP_result createCallbackId_result)
qed

lemma wp_iframe_ready_load: "wp (iframe_ready env p) (\<lambda>js _. load js < 10 * p + 6) (\<lambda>_. True) w"
  unfolding iframe_ready_def wp_bindJ
proof (rule wp_check_heap)
  fix q w' assume "pending w' q \<or> w_heap w' q = fst (settle True Undefined createPromise)"
  then have "load (call_instrs (snd (register True (DoLogin p) (w_heap w' q)))
      @ call_instrs (snd (register False (SetOk p) (w_heap (fst (registerP True q (DoLogin p) w')) q)))) < 10 * p + 6"
    by (auto simp: pending_def promise_defs call_instrs_def registerP_result split: if_splits)
  then show "wp (registerP True q (DoLogin p)) (\<lambda>x. wp (registerP False q (SetOk p))
      (\<lambda>y. wp (ret (x @ y)) (\<lambda>js _. load js < 10 * p + 6) (\<lambda>_. True)) (\<lambda>_. True)) (\<lambda>_. True) w'"
    by simp
qed

lemma wp_check_sso_load: "wp (check_sso env p) (\<lambda>js _. load js = 0) (\<lambda>_. True) w"
proof -
  have "wp (setupCheckLoginIframe env) (\<lambda>r. wp (case r of None \<Rightarrow> raise TypeError
      | Some q \<Rightarrow> registerP True q (IframeReady p)) (\<lambda>js _. load js = 0) (\<lambda>_. True)) (\<lambda>_. True) w"
    by (simp add: wp_def setup_cases Let_def new_promise_result registerP_result set_check_timeout_def
        promise_defs call_instrs_def)
  then show ?thesis using wp_doLogin_load by (simp add: check_sso_def)
qed

lemma wp_True [simp]: "wp m (\<lambda>_ _. True) (\<lambda>_. True) w"
  by (simp add: wp_def split: prod.split sum.split)

lemma wp_any: "(\<And>x v. Q x v) \<Longrightarrow> wp m Q (\<lambda>_. True) w"
  by (simp add: wp_def split: prod.split sum.split)

lemma wp_processCallback_load:
  "wp (processCallback env oa p) (\<lambda>js _. load js \<le> 10 * p + 3) (\<lambda>_. True) w"
  by (simp add: processCallback_def wp_any split: sum.split prod.split)

lemma wp_processInit_load: "wp (processInit env opts p) (\<lambda>js _. load js < 10 * p + 8) (\<lambda>_. True) w"
proof -
  have le: "wp m (\<lambda>js _. load js < 10 * p + 8) (\<lambda>_. True) v"
    if "wp m (\<lambda>js _. load js \<le> 10 * p + 3) (\<lambda>_. True) v \<or> wp m (\<lambda>js _. load js = 0) (\<lambda>_. True) v" for m v
    using that by (fastforce simp: wp_def split: prod.splits sum.splits)
  have "wp (parseCallback u) Q (\<lambda>_. True) w" if "\<And>cb v. Q cb v" for u Q
    using that by (rule wp_any)
  then show ?thesis
    using le [OF disjI1 [OF wp_processCallback_load]] le [OF disjI2 [OF wp_check_sso_load]]
      le [OF disjI2 [OF wp_doLogin_load]]
    by (simp add: processInit_def wp_any split: option.split)
qed

section \<open>Every instruction decreases the load\<close>

lemma load_map_Api [simp]: "load (map Api as) = 0"
  by (simp add: load_def comp_def)

lemma wp_settle_load:
  "wf w \<Longrightarrow> wp (settleP ok p v) (\<lambda>js _. load js < 10 * p + 2) (\<lambda>_. True) w"
  using settle_load by simp

lemma wp_weaken:
  "wp m Q (\<lambda>_. True) w \<Longrightarrow> (\<And>x v. Q x v \<Longrightarrow> Q' x v) \<Longrightarrow> wp m Q' (\<lambda>_. True) w"
  by (rule wp_cong)

lemma wp_user_reg_load: "wp (user_register ok p f) (\<lambda>js _. load js \<le> 1) (\<lambda>_. True) w"
  using register_load [of ok "UserCb n" for n] by (auto simp: user_register_def split: option.split)

lemma step_calm_load:
  assumes "wf w" and "inner i" and "\<not> refreshes i"
  shows "wp (step env i) (\<lambda>js _. load js < weight i) (\<lambda>_. True) w"
proof (cases i)
  case (Invoke c v)
  show ?thesis
  proof (cases c)
    case (SetOk p)
    then show ?thesis using settle_load [OF assms(1), of True Undefined p] Invoke by simp
  next
    case (SetErr p)
    then show ?thesis using settle_load [OF assms(1), of False Undefined p] Invoke by simp
  next
    case (ProcessInit p opts)
    then show ?thesis using wp_processInit_load Invoke by simp
  next
    case (IframeReady p)
    then show ?thesis using wp_iframe_ready_load Invoke by simp
  next
    case (DoLogin p)
    then show ?thesis using wp_weaken [OF wp_doLogin_load [of env False p w]] Invoke by simp
  qed (use assms(3) Invoke in \<open>simp_all add: call_user_def\<close>)
next
  case (Hook h v)
  then show ?thesis by (simp add: call_hook_def call_user_def split: option.split)
next
  case (UserReg p f g)
  have "wp (user_register False p g) (\<lambda>ks _. load (js @ ks) < 3) (\<lambda>_. True) v" if "load js \<le> 1" for js v
    by (rule wp_weaken [OF wp_user_reg_load]) (use that in simp)
  then show ?thesis
    unfolding UserReg step.simps wp_bindJ
    by (intro wp_weaken [OF wp_user_reg_load]) simp
next
  case (TokenResponse body)
  then show ?thesis by (simp add: wp_any)
next
  case ClearToken
  then show ?thesis by (simp add: clearToken_def wp_any)
next
  case ReLogin
  then show ?thesis by (simp add: wp_any)
qed (use assms settle_load in auto)

lemma wp_conj:
  "wp m P (\<lambda>_. True) w \<Longrightarrow> wp m Q (\<lambda>_. True) w \<Longrightarrow> wp m (\<lambda>x v. P x v \<and> Q x v) (\<lambda>_. True) w"
  by (auto simp: wp_def split: prod.splits sum.splits)

lemma wp_calm: "calm.keeps m \<Longrightarrow> wp m (\<lambda>_ v. refresh_part v = refresh_part w) (\<lambda>v. refresh_part v = refresh_part w) w"
  by (rule wpI) (metis calm.keeps_def fst_conv)+

lemma step_load:
  assumes "wf w" and "instr_ok w i" and "inner i"
  shows "wp (step env i)
    (\<lambda>js v. load js + backlog (w_refreshQueue v) < weight i + backlog (w_refreshQueue w)) (\<lambda>_. True) w"
proof (cases "refreshes i")
  case False
  have "wp (step env i) (\<lambda>_ v. refresh_part v = refresh_part w) (\<lambda>_. True) w"
    by (rule wp_cong [OF wp_calm [OF calm.keeps_step [OF False]]]) auto
  from wp_conj [OF this step_calm_load [OF assms(1,3) False]] show ?thesis
    by (rule wp_weaken) (simp add: refresh_part_def)
next
  case True
  then show ?thesis
  proof (cases i)
    case (Invoke c v)
    then obtain p m where c: "c = ExecUpdate p m" using True by (cases c) auto
    have "leaf w p" using assms(2) Invoke c by (simp add: good_cont_def good_ref_def)
    then have "load (call_instrs (snd (settle True b (w_heap w p)))) \<le> 1" for b
      by (rule settle_leaf_load)
    from le_less_trans [OF this] show ?thesis using Invoke c
      by (simp add: exec_update_def send_xhr_def split: sum.split prod.split)
  next
    case (Drain ok)
    show ?thesis
    proof (cases "w_refreshQueue w" rule: rev_cases)
      case Nil
      then show ?thesis using Drain by (simp add: drain_queue_def)
    next
      case (snoc q p)
      then have "leaf w p" using wf_queueD [OF assms(1)] by simp
      then have "load (call_instrs (snd (settle ok b (w_heap w p)))) \<le> 1" for b
        by (rule settle_leaf_load)
      from le_less_trans [OF this] show ?thesis using Drain snoc by (simp add: drain_queue_def)
    qed
  qed simp_all
qed

section \<open>Every turn ends\<close>

lemma run_ends:
  assumes "silent env" and "wf w" and "\<forall>i \<in> set js. instr_ok w i \<and> inner i"
  shows "run env js w \<noteq> None"
  using assms(2,3)
proof (induction "load js + backlog (w_refreshQueue w)" arbitrary: js w rule: less_induct)
  case less
  show ?case
  proof (cases js)
    case Nil
    then show ?thesis by simp
  next
    case (Cons i rest)
    have i: "instr_ok w i" "inner i" using less.prems(2) Cons by auto
    obtain w1 s where st: "step env i w = (w1, s)" by (cases "step env i w")
    show ?thesis
    proof (cases s)
      case (Inl e)
      then show ?thesis using Cons st by (simp add: run_Cons)
    next
      case (Inr js')
      have post: "post w js' w1" using wpD [OF step_wf [OF less.prems(1) i(1)] st] Inr by simp
      have dec: "load js' + backlog (w_refreshQueue w1) < weight i + backlog (w_refreshQueue w)"
        using wpD [OF step_load [OF less.prems(1) i] st] Inr by simp
      have all: "all_inner js'" using inner_step [OF assms(1)] st Inr by (simp add: yields_def)
      have "run env (js' @ rest) w1 \<noteq> None"
      proof (rule less.hyps)
        show "load (js' @ rest) + backlog (w_refreshQueue w1) < load js + backlog (w_refreshQueue w)"
          using dec Cons by simp
        show "wf w1" using post by (simp add: post_def)
        have "instr_ok w1 j" if "j \<in> set rest" for j
          using instr_ok_mono [of w j w1] that less.prems(2) Cons post by (simp add: post_def)
        then show "\<forall>j \<in> set (js' @ rest). instr_ok w1 j \<and> inner j"
          using post all less.prems(2) Cons by (auto simp: post_def)
      qed
      then show ?thesis using Cons st Inr by (simp add: run_Cons)
    qed
  qed
qed

text \<open>An instruction that starts a turn is followed by inner ones only.\<close>

lemma turn_ends_one:
  assumes "silent env" and "wf w" and "instr_ok w i"
  shows "run env [i] w \<noteq> None"
proof -
  obtain w1 s where st: "step env i w = (w1, s)" by (cases "step env i w")
  show ?thesis
  proof (cases s)
    case (Inl e)
    then show ?thesis using st by (simp add: run_Cons)
  next
    case (Inr js)
    have "post w js w1" using wpD [OF step_wf [OF assms(2,3)] st] Inr by simp
    moreover have "all_inner js" using inner_step [OF assms(1)] st Inr by (simp add: yields_def)
    ultimately have "run env js w1 \<noteq> None" by (intro run_ends [OF assms(1)]) (auto simp: post_def)
    then show ?thesis using st Inr by (simp add: run_Cons)
  qed
qed

lemma turns_of_single: "turns_of e w = (w', ts) \<Longrightarrow> t \<in> set ts \<Longrightarrow> \<exists>i. t = [i]"
  by (cases e) (auto split: if_splits option.splits)

lemma run_turns_end:
  assumes "silent env" and "wf w" and "\<forall>t \<in> set ts. \<exists>i. t = [i] \<and> instr_ok w i"
  shows "run_turns env ts w \<noteq> None"
  using assms(2,3)
proof (induction ts arbitrary: w)
  case Nil
  then show ?case by simp
next
  case (Cons t ts)
  obtain i where i: "t = [i]" "instr_ok w i" using Cons.prems(2) by auto
  obtain w1 r where run: "run env t w = Some (w1, r)"
    using turn_ends_one [OF assms(1) Cons.prems(1) i(2)] i(1) by auto
  have s: "safe w (end_turn (w1, r))"
    by (rule end_turn_safe, rule run_wf [OF run Cons.prems(1)]) (use i in simp)
  have "run_turns env ts (end_turn (w1, r)) \<noteq> None"
  proof (rule Cons.IH)
    show "wf (end_turn (w1, r))" using s by (simp add: safe_def)
    show "\<forall>t \<in> set ts. \<exists>i. t = [i] \<and> instr_ok (end_turn (w1, r)) i"
      using Cons.prems(2) instr_ok_mono [of w _ "end_turn (w1, r)"] s by (fastforce simp: safe_def)
  qed
  then show ?case using run by simp
qed

lemma handle_ends:
  assumes "silent env" and "wf w"
  shows "handle env e w \<noteq> None"
proof -
  obtain w1 ts where t: "turns_of e w = (w1, ts)" by (cases "turns_of e w")
  have "run_turns env ts w1 \<noteq> None"
    by (rule run_turns_end [OF assms(1)])
      (use turns_of_wf [OF t assms(2)] turns_of_single [OF t] in \<open>fastforce simp: safe_def\<close>)+
  then show ?thesis using t by (simp add: handle_def)
qed

lemma handle_all_ends: "silent env \<Longrightarrow> wf w \<Longrightarrow> handle_all env es w \<noteq> None"
proof (induction es arbitrary: w)
  case Nil
  then show ?case by simp
next
  case (Cons e es)
  obtain w1 where w1: "handle env e w = Some w1" using handle_ends [OF Cons.prems] by auto
  have "wf w1" using handle_wf [OF w1 Cons.prems(2)] by (simp add: safe_def)
  then show ?case using Cons.IH [OF Cons.prems(1)] w1 by simp
qed

end
