(* ===== verification/Kc_Demo.thy ===== *)
theory Kc_Demo
  imports Kc_Heap
begin

text \<open>
  A concrete browser and page, on which the properties of the client are applied: a random
  source that always draws a half, a parser that knows a few texts, and base64 left out (the
  payload of a demo token is its own encoding).  The theorems here are the witnesses of the
  properties of \<open>Kc_Url\<close> and \<open>Kc_Token\<close>.
\<close>

section \<open>The browser\<close>

definition access_claims :: jsval where
  "access_claims = Obj [(''sub'', Str ''u1''), (''exp'', Num 100), (''session_state'', Str ''s1''),
     (''name'', Str ''Ann''),
     (''realm_access'', Obj [(''roles'', Arr [Str ''user'', Str ''admin''])])]"

definition demo_texts :: "(string \<times> jsval) list" where
  "demo_texts =
     [(''A1'', access_claims),
      (''R1'', Obj [(''session_state'', Str ''s1'')]),
      (''tokens'', Obj [(''access_token'', Str ''h.A1.s''), (''refresh_token'', Str ''h.R1.s'')]),
      (''broken'', Obj [(''access_token'', Str ''h.X.s''), (''refresh_token'', Str ''h.R1.s'')])]"

definition demo_env :: env where
  "demo_env = \<lparr>random = (\<lambda>_. 1/2),
     num_str = (\<lambda>r. if r = 0 then ''0'' else if r = 1 then ''1'' else ''0.5''),
     str_num = (\<lambda>_. None), JSON_parse = map_of demo_texts, atob = Some, btoa = Some,
     script = (\<lambda>_ _. [])\<rparr>"

definition demo_loc :: location where
  "demo_loc = \<lparr>loc_protocol = ''http:'', loc_host = ''a'', loc_hostname = ''a'', loc_port = [],
     loc_pathname = ''/'', loc_hash = [], loc_search = [], loc_origin = Some ''http://a''\<rparr>"

definition demo_config :: jsval where
  "demo_config = Obj [(''url'', Str ''http://k/auth''), (''realm'', Str ''r''), (''clientId'', Str ''c'')]"

definition demo_world :: world where
  "demo_world = new_world demo_config demo_loc (\<lambda>_. None) False [] (Some ''st'')"

text \<open>The page after its adapter and configuration are loaded, and with a token pair.\<close>

definition demo_ready :: world where
  "demo_ready = set_kc (\<lambda>k. k\<lparr>kc_authServerUrl := Str ''http://k/auth'', kc_realm := Str ''r'',
     kc_clientId := Str ''c''\<rparr>) demo_world\<lparr>w_adapter := Some DefaultAdapter\<rparr>"

definition demo_authenticated :: world where
  "demo_authenticated = set_kc (\<lambda>k. k\<lparr>kc_authenticated := Bool True, kc_token := Str ''h.A1.s'',
     kc_tokenParsed := access_claims, kc_refreshToken := Str ''h.R1.s''\<rparr>) demo_ready"

lemmas demo_defs = demo_env_def demo_world_def demo_ready_def demo_authenticated_def new_world_def
  new_kc_def demo_loc_def demo_config_def set_kc_def

lemma demo_sel [simp]:
  "random demo_env i = 1/2" "atob demo_env = Some" "btoa demo_env = Some" "script demo_env n v = []"
  "JSON_parse demo_env s = map_of demo_texts s" "str_num demo_env s = None"
  by (simp_all add: demo_env_def)

lemma demo_random: "0 \<le> random demo_env i \<and> random demo_env i < 1"
  by simp

lemma demo_decode [simp]:
  "decode_token demo_env (Str ''h.A1.s'') = Inr access_claims"
  "decode_refreshToken demo_env (Str ''h.R1.s'') = Inr (Obj [(''session_state'', Str ''s1'')])"
  "decode_token demo_env (Str ''h.X.s'') = Inl SyntaxError"
  by (simp_all add: decode_token_def decode_refreshToken_def atob_payload_def parse_json_def
    demo_texts_def)

section \<open>Witnesses\<close>

theorem createUUID_shape_witness:
  "\<exists>s. createUUID demo_env demo_world = (demo_world\<lparr>w_rng := w_rng demo_world + 36\<rparr>, Inr s)
     \<and> uuid_shape s"
  by (rule createUUID_shape) simp

theorem callback_state_checked_witness:
  "\<exists>w' oa. parseCallback ''?code=c1&state=st'' demo_world = (w', Inr (Some oa))
     \<and> oa_state oa = w_oauthState demo_world \<and> oa_code oa = Some ''c1'' \<and> w_oauthState w' = None"
proof -
  have call: "parseCallback ''?code=c1&state=st'' demo_world =
    (demo_world\<lparr>w_oauthState := None\<rparr>,
     Inr (Some (empty_oauth\<lparr>oa_code := Some ''c1'', oa_state := Some ''st''\<rparr>)))"
    by (simp add: parseCallback_cases query_params_def parse_param_def decodeURIComponent_def
      decode_arg_def empty_oauth_def demo_world_def new_world_def)
  show ?thesis using callback_state_checked [OF call] call by (simp add: empty_oauth_def)
qed

theorem login_roundtrip_witness:
  "\<exists>w' url state. createLoginUrl demo_env None demo_ready = (w', Inr url)
     \<and> w_oauthState w' = Some state
     \<and> query_pairs url = map (\<lambda>(k, v). (k, Inr v)) (login_params demo_env demo_ready ''http://a/'' state None)"
proof -
  let ?w = "fst (createLoginUrl demo_env None demo_ready)"
  have uri: "redirectUri None demo_ready = Inr ''http://a/''"
    by (simp add: redirectUri_def default_redirectUri_def demo_defs)
  then obtain url where call: "createLoginUrl demo_env None demo_ready = (?w, Inr url)"
    by (simp add: createLoginUrl_def createUUID_def draws_def bindJ_def demo_ready_def redirectUri_def)
  have client: "str_of demo_env (kc_clientId (kc demo_ready)) = ''c''"
    and server: "str_of demo_env (kc_authServerUrl (kc demo_ready)) = ''http://k/auth''"
    by (simp_all add: demo_ready_def)
  have add: "add_prompt None ''http://a/'' = ''http://a/''" by (simp add: add_prompt_def)
  show ?thesis
    using login_roundtrip [OF call demo_random _ _ _ uri, of "''http://a/''" "''c1''"] call
    by (auto simp: plain_options_def client server add Let_def)
qed

theorem setToken_stores_witness:
  "kc_subject (kc (fst (setToken demo_env (Str ''h.A1.s'') (Str ''h.R1.s'') demo_ready))) = Str ''u1''"
  using setToken_stores [of "Str ''h.A1.s''" demo_env _ "Str ''h.R1.s''" _ demo_ready]
  by (simp add: access_claims_def field_of_def)

theorem hasRealmRole_of_token_witness:
  "hasRealmRole ''admin'' (fst (setToken demo_env (Str ''h.A1.s'') (Str ''h.R1.s'') demo_ready)) = Inr True"
  using hasRealmRole_of_token [of "Str ''h.A1.s''" demo_env _ "Str ''h.R1.s''" _ _ _ "''admin''" demo_ready]
  by (simp add: access_claims_def field_of_def)

theorem id_token_claims_witness:
  "field_of (id_token access_claims (Obj [(''email'', Str ''old'')])) ''name'' = Str ''Ann''
   \<and> field_of (id_token access_claims (Obj [(''email'', Str ''old'')])) ''email'' = Str ''old''"
  using id_token_claims [of "Obj [(''email'', Str ''old'')]" access_claims]
  by (simp add: objish_def access_claims_def field_of_def idTokenProperties_def)

theorem setToken_undecodable_witness:
  "snd (setToken demo_env (Str ''h.X.s'') (Str ''h.R1.s'') demo_authenticated) = Inl SyntaxError
   \<and> kc_token (kc (fst (setToken demo_env (Str ''h.X.s'') (Str ''h.R1.s'') demo_authenticated))) = Str ''h.X.s''
   \<and> kc_tokenParsed (kc (fst (setToken demo_env (Str ''h.X.s'') (Str ''h.R1.s'') demo_authenticated)))
       = access_claims"
  using setToken_undecodable [of "Str ''h.X.s''" demo_env SyntaxError "Str ''h.R1.s''" demo_authenticated]
  by (simp add: demo_authenticated_def)

theorem isTokenExpired_no_exp_witness:
  "isTokenExpired demo_env (Some 5)
     (set_kc (\<lambda>k. k\<lparr>kc_tokenParsed := Obj []\<rparr>) demo_authenticated\<lparr>w_now := 10000000\<rparr>) = Inr False"
  using isTokenExpired_no_exp [of "set_kc (\<lambda>k. k\<lparr>kc_tokenParsed := Obj []\<rparr>) demo_authenticated"
      demo_env "Some 5" 10000000]
  by (simp add: demo_authenticated_def field_of_def)

end
