(* ===== verification/Kc_Queue.thy ===== *)
theory Kc_Queue
  imports Kc_Turns Kc_Demo
begin

text \<open>
  Properties of \<open>keycloak.js\<close> over whole sequences of events: every event is handled, at most one
  refresh request is under way, its response answers every waiting caller, and what happens to
  the queue when the response cannot be stored.
\<close>

section \<open>Reachable states\<close>

definition reachable :: "env \<Rightarrow> world \<Rightarrow> bool" where
  "reachable env w \<longleftrightarrow> (\<exists>config loc hooks cordova scripts stored es.
     handle_all env es (new_world config loc hooks cordova scripts stored) = Some w)"

lemma reachable_wf: "reachable env w \<Longrightarrow> wf w"
  using handle_all_wf wf_new_world by (fastforce simp: reachable_def safe_def)

lemma handle_all_append:
  "handle_all env (es @ fs) w = (case handle_all env es w of None \<Rightarrow> None | Some w' \<Rightarrow> handle_all env fs w')"
  by (induction es arbitrary: w) (auto split: option.split)

lemma reachable_handle: "reachable env w \<Longrightarrow> handle env e w = Some w' \<Longrightarrow> reachable env w'"
proof -
  assume "reachable env w" and h: "handle env e w = Some w'"
  then obtain config loc hooks cordova scripts stored es where
    "handle_all env es (new_world config loc hooks cordova scripts stored) = Some w"
    unfolding reachable_def by blast
  then have "handle_all env (es @ [e]) (new_world config loc hooks cordova scripts stored) = Some w'"
    using h by (simp add: handle_all_append)
  then show ?thesis unfolding reachable_def by blast
qed

lemma reachable_demo: "handle_all demo_env es demo_world = Some w \<Longrightarrow> reachable demo_env w"
  unfolding reachable_def demo_world_def by blast

text \<open>Induction over the turns of a sequence of events.\<close>

lemma run_turns_rule:
  assumes "run_turns env ts w = Some w'" and "I w"
    and turn: "\<And>t w w' r. t \<in> set ts \<Longrightarrow> I w \<Longrightarrow> run env t w = Some (w', r) \<Longrightarrow> I (end_turn (w', r))"
  shows "I w'"
  using assms
proof (induction ts arbitrary: w)
  case Nil
  then show ?case by simp
next
  case (Cons t ts)
  then obtain w1 r where run: "run env t w = Some (w1, r)" by (auto split: option.splits)
  show ?case
    by (rule Cons.IH [of "end_turn (w1, r)"])
       (use Cons.prems run in \<open>auto intro: Cons.prems(3)\<close>)
qed

lemma handle_all_rule:
  assumes "handle_all env es w = Some w'" and "I w"
    and "\<And>e w w'. I w \<Longrightarrow> handle env e w = Some w' \<Longrightarrow> I w'"
  shows "I w'"
  using assms
proof (induction es arbitrary: w)
  case Nil
  then show ?case by simp
next
  case (Cons e es)
  then obtain w1 where w1: "handle env e w = Some w1" "handle_all env es w1 = Some w'"
    by (auto split: option.splits)
  show ?case by (rule Cons.IH [OF w1(2) Cons.prems(3) [OF Cons.prems(2) w1(1)]]) (rule Cons.prems(3))
qed

section \<open>The queue and the requests under way\<close>

lemma refresh_part_end_turn [simp]: "refresh_part (end_turn (w, r)) = refresh_part w"
  by (cases r) (simp_all add: end_turn_def refresh_part_def flights_def)

lemma followup_not_drains: "followup env j \<Longrightarrow> \<not> drains ok j"
  by (cases j) auto

text \<open>An invariant of the queue and the flights that \<open>exec\<close> keeps holds through a turn that does
  not answer a refresh request.\<close>

definition push_closed :: "(pid list \<times> nat \<Rightarrow> bool) \<Rightarrow> bool" where
  "push_closed R \<longleftrightarrow> (\<forall>q n p. R (q, n) \<longrightarrow> R (q @ [p], n) \<and> (q = [] \<longrightarrow> R ([p], Suc n)))"

lemma flights_send:
  "flights (fst (send_xhr h m u hs b c w)) = (if h = XRefresh then Suc (flights w) else flights w)"
  by (simp add: send_xhr_def flights_def)

lemma step_push:
  assumes "push_closed R" and "R (refresh_part w)" and "\<forall>ok. \<not> drains ok i"
  shows "wp (step env i) (\<lambda>_ v. R (refresh_part v)) (\<lambda>v. R (refresh_part v)) w"
proof (cases "refreshes i")
  case False
  show ?thesis by (rule wp_cong [OF wp_calm [OF calm.keeps_step [OF False]]]) (use assms(2) in simp_all)
next
  case True
  then obtain p m v where i: "i = Invoke (ExecUpdate p m) v"
    using assms(3) by (cases i rule: refreshes.cases) (auto elim: is_exec.elims)
  have closed: "R (w_refreshQueue w @ [p], flights w)" "w_refreshQueue w = [] \<Longrightarrow> R ([p], Suc (flights w))"
    using assms(1,2) by (auto simp: push_closed_def refresh_part_def)
  have keep: "R (refresh_part (fst (settleP True p b w)))" for b
    using assms(2) calm.settles by simp
  show ?thesis
    using keep closed assms(2) unfolding i
    by (cases "w_refreshQueue w = []")
      (simp_all add: exec_update_def send_xhr_def refresh_part_def flights_def split: sum.split prod.split)
qed

lemma turn_push:
  assumes "push_closed R" and "run env js w = Some (w', r)" and "R (refresh_part w)"
    and "\<forall>i \<in> set js. \<forall>ok. \<not> drains ok i"
  shows "R (refresh_part w')"
proof -
  have "if r = None then R (refresh_part w') else R (refresh_part w')"
  proof (rule run_rule [OF assms(2), where I = "\<lambda>w. R (refresh_part w)" and G = "\<lambda>w i. \<forall>ok. \<not> drains ok i"])
    fix i v assume R: "R (refresh_part v)" and i: "\<forall>ok. \<not> drains ok i"
    show "wp (step env i) (\<lambda>js w'. R (refresh_part w') \<and> (\<forall>j \<in> set js. \<forall>ok. \<not> drains ok j)
        \<and> (\<forall>j. (\<forall>ok. \<not> drains ok j) \<longrightarrow> (\<forall>ok. \<not> drains ok j))) (\<lambda>w. R (refresh_part w)) v"
    proof (rule wp_cong [OF step_push [OF assms(1) R i]])
      fix x t assume st: "step env i v = (t, Inr x)" and Rt: "R (refresh_part t)"
      have "follow env x" using follow_step [OF i, of env] st unfolding yields_def by blast
      then have "\<forall>j \<in> set x. \<forall>ok. \<not> drains ok j" using followup_not_drains by blast
      then show "R (refresh_part t) \<and> (\<forall>j \<in> set x. \<forall>ok. \<not> drains ok j)
          \<and> (\<forall>j. (\<forall>ok. \<not> drains ok j) \<longrightarrow> (\<forall>ok. \<not> drains ok j))" using Rt by simp
    qed
  qed (use assms in simp_all)
  then show ?thesis by simp
qed

text \<open>What a turn that answers a refresh request runs, when the application does not call back.\<close>

fun answering :: "instr \<Rightarrow> bool" where
  "answering (TokenResponse body) = True"
| "answering (Hook h v) = True"
| "answering (Drain ok) = True"
| "answering (Invoke c v) = (\<exists>n. c = UserCb n)"
| "answering (Api a) = (\<exists>e. a = AThrow e)"
| "answering (Response h status body) = (h = XRefresh)"
| "answering _ = False"

lemma answering_ok: "answering j \<Longrightarrow> instr_ok w j"
  by (cases j) (auto simp: good_cont_def)

lemma answering_step:
  assumes "silent env" and "wf w" and "answering i"
  shows "wp (step env i) (\<lambda>js v. flights v = flights w \<and> (\<forall>j \<in> set js. answering j))
    (\<lambda>v. flights v = flights w) w"
proof (cases "refreshes i")
  case False
  have "yields (\<lambda>js. \<forall>j \<in> set js. answering j) (step env i)"
    using assms(1,3) False
    by (cases i) (auto intro!: yields_bindJ yields_basic
        simp: call_hook_def call_user_def refresh_response_def silent_def split: option.split)
  with wp_calm [OF calm.keeps_step [OF False], of env w] show ?thesis
    by (auto simp: wp_def yields_def refresh_part_def split: prod.splits sum.splits)
next
  case True
  then obtain ok where i: "i = Drain ok"
    using assms(3) by (cases i) (auto elim: is_exec.elims)
  show ?thesis
  proof (cases "w_refreshQueue w" rule: rev_cases)
    case Nil
    then show ?thesis using i by (simp add: drain_queue_def)
  next
    case (snoc q p)
    then have "leaf w p" using wf_queueD [OF assms(2)] by simp
    then have "\<forall>j \<in> set (call_instrs (snd (settle ok (Bool True) (w_heap w p)))). answering j"
      using settle_calls by (fastforce simp: leaf_def)
    then show ?thesis using i snoc by (simp add: drain_queue_def flights_def ball_Un)
  qed
qed

lemma turn_answering:
  assumes "silent env" and "run env js w = Some (w', r)" and "wf w" and "\<forall>j \<in> set js. answering j"
  shows "flights w' = flights w"
proof -
  have "if r = None then wf w' \<and> flights w' = flights w else flights w' = flights w"
  proof (rule run_rule [OF assms(2), where I = "\<lambda>v. wf v \<and> flights v = flights w" and G = "\<lambda>_. answering"])
    fix i v assume I: "wf v \<and> flights v = flights w" and i: "answering i"
    have "wp (step env i) (\<lambda>js v'. flights v' = flights v \<and> (\<forall>j \<in> set js. answering j)) (\<lambda>v'. flights v' = flights v) v"
      by (rule answering_step [OF assms(1) _ i]) (use I in simp)
    moreover have "wp (step env i) (post v) (safe v) v"
      by (rule step_wf) (use I answering_ok [OF i] in simp_all)
    ultimately show "wp (step env i) (\<lambda>js w'. (wf w' \<and> flights w' = flights w) \<and> (\<forall>j \<in> set js. answering j)
        \<and> (\<forall>j. answering j \<longrightarrow> answering j)) (\<lambda>v'. flights v' = flights w) v"
      using I by (auto simp: wp_def post_def split: prod.splits sum.splits)
  qed (use assms in simp_all)
  then show ?thesis by (simp split: if_splits)
qed

section \<open>At most one request\<close>

definition single :: "pid list \<times> nat \<Rightarrow> bool" where
  "single x \<longleftrightarrow> snd x \<le> 1 \<and> (fst x = [] \<longrightarrow> snd x = 0)"

lemma push_closed_single: "push_closed single"
  by (auto simp: push_closed_def single_def)

text \<open>An event whose turns answer no refresh request.\<close>

lemma turns_of_part:
  assumes "turns_of e w = (w', ts)"
  shows "(\<forall>t \<in> set ts. \<forall>i \<in> set t. \<forall>ok. \<not> drains ok i)
      \<and> w_refreshQueue w' = w_refreshQueue w \<and> flights w' \<le> flights w
    \<or> (\<exists>k status body. e = EResponse k status body \<and> map_of (w_xhrs w) k = Some XRefresh
      \<and> ts = [[Response XRefresh status body]]
      \<and> w_refreshQueue w' = w_refreshQueue w \<and> flights w' < flights w)"
proof (cases e)
  case (EResponse k status body)
  show ?thesis
  proof (cases "map_of (w_xhrs w) k")
    case None
    then show ?thesis using assms EResponse by simp
  next
    case (Some h)
    let ?keep = "\<lambda>x :: nat \<times> xhr_handler. fst x \<noteq> k"
    have w': "w' = w\<lparr>w_xhrs := filter ?keep (w_xhrs w)\<rparr>" and ts: "ts = [[Response h status body]]"
      using assms EResponse Some by auto
    have comm: "flights w' = length (filter ?keep (filter (\<lambda>x. snd x = XRefresh) (w_xhrs w)))"
      unfolding w' flights_def by (simp add: conj_commute)
    have "flights w' \<le> flights w" unfolding comm flights_def [of w] by (rule length_filter_le)
    moreover have "flights w' < flights w" if "h = XRefresh"
      unfolding comm flights_def [of w]
    proof (rule length_filter_less)
      show "(k, XRefresh) \<in> set (filter (\<lambda>x. snd x = XRefresh) (w_xhrs w))"
        using map_of_SomeD [OF Some] that by simp
    qed simp
    ultimately show ?thesis using EResponse Some ts w' by (cases "h = XRefresh") auto
  qed
qed (use assms in \<open>auto simp: flights_def split: if_splits\<close>)

lemma handle_single:
  assumes "silent env" and "handle env e w = Some w'" and "wf w" and "single (refresh_part w)"
  shows "single (refresh_part w')"
proof -
  obtain w1 ts where t: "turns_of e w = (w1, ts)" by (cases "turns_of e w")
  have run: "run_turns env ts w1 = Some w'" using assms(2) t by (simp add: handle_def)
  from turns_of_part [OF t] show ?thesis
  proof
    assume quiet: "(\<forall>t \<in> set ts. \<forall>i \<in> set t. \<forall>ok. \<not> drains ok i)
      \<and> w_refreshQueue w1 = w_refreshQueue w \<and> flights w1 \<le> flights w"
    show ?thesis
    proof (rule run_turns_rule [OF run])
      show "single (refresh_part w1)" using assms(4) quiet by (auto simp: single_def refresh_part_def)
      fix t v v' r assume t: "t \<in> set ts" and v: "single (refresh_part v)" and r: "run env t v = Some (v', r)"
      have "single (refresh_part v')"
        by (rule turn_push [OF push_closed_single r v]) (use t quiet in blast)
      then show "single (refresh_part (end_turn (v', r)))" by simp
    qed
  next
    assume "\<exists>k status body. e = EResponse k status body \<and> map_of (w_xhrs w) k = Some XRefresh
      \<and> ts = [[Response XRefresh status body]]
      \<and> w_refreshQueue w1 = w_refreshQueue w \<and> flights w1 < flights w"
    then obtain status body where ts: "ts = [[Response XRefresh status body]]" and fl: "flights w1 < flights w"
      by blast
    then obtain v r where v: "run env [Response XRefresh status body] w1 = Some (v, r)" and w': "w' = end_turn (v, r)"
      using run by (auto split: option.splits)
    have "flights v = flights w1"
      by (rule turn_answering [OF assms(1) v])
         (use turns_of_wf [OF t assms(3)] in \<open>simp_all add: safe_def\<close>)
    then have "flights v = 0" using fl assms(4) by (simp add: single_def refresh_part_def)
    then show ?thesis unfolding w' refresh_part_end_turn by (simp add: single_def refresh_part_def)
  qed
qed

text \<open>C1. However the application, the server, the iframe and the clock interleave, at most one refresh
  request is under way, and while one is there is a caller waiting for it (for applications whose
  callbacks do not call back into the object).\<close>

theorem refresh_single_flight:
  assumes "silent env"
    and "handle_all env es (new_world config loc hooks cordova scripts stored) = Some w"
  shows "flights w \<le> 1 \<and> (w_refreshQueue w = [] \<longrightarrow> flights w = 0)"
proof -
  have "wf w \<and> single (refresh_part w)"
  proof (rule handle_all_rule [OF assms(2)])
    show "wf (new_world config loc hooks cordova scripts stored)
        \<and> single (refresh_part (new_world config loc hooks cordova scripts stored))"
      using wf_new_world by (simp add: single_def refresh_part_def flights_def new_world_def)
    fix e w w' assume "wf w \<and> single (refresh_part w)" and h: "handle env e w = Some w'"
    then show "wf w' \<and> single (refresh_part w')"
      using handle_wf [OF h] handle_single [OF assms(1) h] by (simp add: safe_def)
  qed
  then show ?thesis by (simp add: single_def refresh_part_def)
qed

text \<open>C23. Every sequence of events is handled: no turn of the client runs forever, when the
  application's callbacks do not call back into the object.\<close>

theorem every_turn_ends:
  assumes "silent env"
  shows "\<exists>w. handle_all env es (new_world config loc hooks cordova scripts stored) = Some w"
  using handle_all_ends [OF assms wf_new_world] by blast

definition stuck :: "pid list \<Rightarrow> pid list \<times> nat \<Rightarrow> bool" where
  "stuck q x \<longleftrightarrow> snd x = 0 \<and> (\<exists>more. fst x = q @ more)"

lemma push_closed_stuck: "q \<noteq> [] \<Longrightarrow> push_closed (stuck q)"
  by (auto simp: push_closed_def stuck_def)

text \<open>C40. A queue without a request is stuck: whatever happens afterwards, whatever the application
  does, no refresh request is sent again and the callers that were waiting stay in the queue.\<close>

theorem refresh_stuck:
  assumes "w_refreshQueue w \<noteq> []" and "flights w = 0" and "handle_all env es w = Some w'"
  shows "flights w' = 0 \<and> (\<exists>more. w_refreshQueue w' = w_refreshQueue w @ more)"
proof -
  have "stuck (w_refreshQueue w) (refresh_part w')"
  proof (rule handle_all_rule [OF assms(3)])
    show "stuck (w_refreshQueue w) (refresh_part w)" using assms(2) by (simp add: stuck_def refresh_part_def)
    fix e u u' assume st: "stuck (w_refreshQueue w) (refresh_part u)" and h: "handle env e u = Some u'"
    obtain u1 ts where t: "turns_of e u = (u1, ts)" by (cases "turns_of e u")
    have run: "run_turns env ts u1 = Some u'" using h t by (simp add: handle_def)
    have "flights u = 0" using st by (simp add: stuck_def refresh_part_def)
    then have quiet: "(\<forall>t \<in> set ts. \<forall>i \<in> set t. \<forall>ok. \<not> drains ok i)
        \<and> w_refreshQueue u1 = w_refreshQueue u \<and> flights u1 = 0"
      using turns_of_part [OF t] by auto
    show "stuck (w_refreshQueue w) (refresh_part u')"
    proof (rule run_turns_rule [OF run])
      show "stuck (w_refreshQueue w) (refresh_part u1)" using st quiet by (simp add: stuck_def refresh_part_def)
      fix t v v' r assume t: "t \<in> set ts" and v: "stuck (w_refreshQueue w) (refresh_part v)"
        and r: "run env t v = Some (v', r)"
      have "stuck (w_refreshQueue w) (refresh_part v')"
        by (rule turn_push [OF push_closed_stuck [OF assms(1)] r v]) (use t quiet in blast)
      then show "stuck (w_refreshQueue w) (refresh_part (end_turn (v', r)))" by simp
    qed
  qed
  then show ?thesis by (simp add: stuck_def refresh_part_def)
qed

section \<open>The response answers every caller\<close>

text \<open>A turn with a bound on its number of instructions.\<close>

fun run_n :: "nat \<Rightarrow> env \<Rightarrow> instr list \<Rightarrow> world \<Rightarrow> (world \<times> js_error option) option" where
  "run_n n env [] w = Some (w, None)"
| "run_n 0 env (i # js) w = None"
| "run_n (Suc n) env (i # js) w =
     (case step env i w of
        (w', Inl e) \<Rightarrow> Some (w', Some e)
      | (w', Inr js') \<Rightarrow> run_n n env (js' @ js) w')"

lemma run_bounded: "run env js w = Some x \<Longrightarrow> \<exists>n. run_n n env js w = Some x"
proof (erule run.raw_induct [rotated, where P = "\<lambda>env js w x. \<exists>n. run_n n env js w = Some x"], goal_cases)
  case (1 f env js w x)
  show ?case
  proof (cases js)
    case Nil
    then show ?thesis using 1(2) by (intro exI [of _ 0]) simp
  next
    case (Cons i rest)
    obtain w1 s where st: "step env i w = (w1, s)" by (cases "step env i w")
    show ?thesis
    proof (cases s)
      case (Inl e)
      then show ?thesis using 1(2) Cons st by (intro exI [of _ "Suc 0"]) simp
    next
      case (Inr js')
      then obtain n where "run_n n env (js' @ rest) w1 = Some x" using 1 Cons st by fastforce
      then show ?thesis using Cons st Inr by (intro exI [of _ "Suc n"]) simp
    qed
  qed
qed

lemma drained:
  "run_n n env (js @ [Drain ok]) w = Some (w', None) \<Longrightarrow> w_refreshQueue w' = []"
proof (induction n arbitrary: js w)
  case 0
  then show ?case by (cases js) simp_all
next
  case (Suc n)
  show ?case
  proof (cases js)
    case Nil
    show ?thesis
    proof (cases "w_refreshQueue w = []")
      case True
      then show ?thesis using Suc.prems Nil by (cases n) (auto simp: drain_queue_def)
    next
      case False
      then show ?thesis using Suc.prems Nil Suc.IH
        by (auto simp: drain_queue_def bindJ_def settleP_result)
    qed
  next
    case (Cons i rest)
    then show ?thesis using Suc.prems Suc.IH [of "js' @ rest" for js']
      by (auto split: prod.splits sum.splits)
  qed
qed

lemma lasting_queue: "lasting w w' \<Longrightarrow> lasting w (w'\<lparr>w_refreshQueue := q\<rparr>)"
  by (simp add: lasting_def)

lemma step_lasting: "wp (step env i) (\<lambda>_. lasting w) (lasting w) w"
proof (cases "refreshes i")
  case False
  then show ?thesis
    using outcome.keeps_step [OF False, of env] unfolding outcome.keeps_def
    by (intro wpI) (metis fst_conv)+
next
  case True
  have settle: "lasting w (fst (settleP ok p v w'))" if "lasting w w'" for ok p v w'
    by (rule outcome.trans [OF that outcome.settles])
  have queued: "lasting w (w\<lparr>w_refreshQueue := q\<rparr>)" for q
    by (rule lasting_queue [OF outcome.refl])
  show ?thesis
  proof (cases i)
    case (Invoke c v)
    then obtain p m where c: "c = ExecUpdate p m" using True by (cases c) auto
    have sent: "lasting w (emit x (w\<lparr>w_refreshQueue := q, w_xhrs := xs, w_nextx := n\<rparr>))" for x q xs n
      by (simp add: lasting_def)
    show ?thesis
      using settle [OF outcome.refl] queued outcome.refl sent
      by (cases "w_refreshQueue w = []")
         (simp_all add: Invoke c exec_update_def send_xhr_def split: sum.split prod.split)
  next
    case (Drain ok)
    then show ?thesis
      using settle [OF queued] outcome.refl by (simp add: drain_queue_def)
  qed (use True in simp_all)
qed

text \<open>
  Through a turn that drains with one outcome, a promise that is in the queue or has that outcome
  stays so.
\<close>

definition owed :: "bool \<Rightarrow> pid \<Rightarrow> world \<Rightarrow> bool" where
  "owed ok p w \<longleftrightarrow> p < w_next w \<and> (p \<in> set (w_refreshQueue w) \<or> answered ok (w_heap w p))"

lemma step_owed:
  assumes "owed ok p w" and "\<not> drains (\<not> ok) i"
  shows "wp (step env i) (\<lambda>_. owed ok p) (\<lambda>_. True) w"
proof -
  have last: "owed ok p w'" if "lasting w w'" "p \<notin> set (w_refreshQueue w)" for w'
    using that assms(1) by (auto simp: owed_def lasting_def)
  have kept: "owed ok p w'" if "lasting w w'" "set (w_refreshQueue w) \<subseteq> set (w_refreshQueue w')" for w'
    using that assms(1) by (auto simp: owed_def lasting_def)
  have L: "wp (step env i) (\<lambda>_. lasting w) (\<lambda>_. True) w"
    by (rule wp_cong [OF step_lasting]) auto
  show ?thesis
  proof (cases "refreshes i")
    case False
    have "wp (step env i) (\<lambda>_ v. refresh_part v = refresh_part w) (\<lambda>_. True) w"
      by (rule wp_cong [OF wp_calm [OF calm.keeps_step [OF False]]]) auto
    from wp_conj [OF this L] show ?thesis
      by (rule wp_weaken) (auto intro: kept simp: refresh_part_def)
  next
    case True
    show ?thesis
    proof (cases i)
      case (Invoke c v)
      then obtain q m where c: "c = ExecUpdate q m" using True by (cases c) auto
      have "wp (exec_update env q m) (\<lambda>_ v. set (w_refreshQueue w) \<subseteq> set (w_refreshQueue v)) (\<lambda>_. True) w"
        by (cases "w_refreshQueue w = []")
          (auto simp: exec_update_def send_xhr_def split: sum.split prod.split)
      from wp_conj [OF this [folded call_cont.simps(8) [of env q m v]] L [unfolded Invoke c step.simps]]
      show ?thesis unfolding Invoke c step.simps by (rule wp_weaken) (auto intro: kept)
    next
      case (Drain b)
      then have b: "b = ok" using assms(2) by auto
      show ?thesis
      proof (cases "w_refreshQueue w" rule: rev_cases)
        case Nil
        then show ?thesis using assms(1) Drain by (simp add: drain_queue_def)
      next
        case (snoc qs q)
        then show ?thesis using assms(1) b
          by (auto simp: Drain drain_queue_def owed_def answered_def settleP_result promise_defs)
      qed
    qed (use True in simp_all)
  qed
qed

lemma run_owed:
  assumes "run env js w = Some (w', None)" and "owed ok p w" and "\<forall>i \<in> set js. \<not> drains (\<not> ok) i"
  shows "owed ok p w'"
proof -
  have "if (None :: js_error option) = None then owed ok p w' else True"
  proof (rule run_rule [OF assms(1), where I = "owed ok p" and G = "\<lambda>_ i. \<not> drains (\<not> ok) i" and F = "\<lambda>_. True"])
    fix i v assume v: "owed ok p v" and i: "\<not> drains (\<not> ok) i"
    show "wp (step env i) (\<lambda>js w'. owed ok p w' \<and> (\<forall>j \<in> set js. \<not> drains (\<not> ok) j)
        \<and> (\<forall>j. \<not> drains (\<not> ok) j \<longrightarrow> \<not> drains (\<not> ok) j)) (\<lambda>_. True) v"
    proof (rule wp_cong [OF step_owed [OF v i]])
      fix x t assume st: "step env i v = (t, Inr x)" and t: "owed ok p t"
      have "\<forall>j \<in> set x. \<not> drains (\<not> ok) j"
      proof (cases "drains ok i")
        case True
        from drain_step [OF this, of env] st obtain ks where "x = [] \<or> follow env ks \<and> x = ks @ [Drain ok]"
          unfolding yields_def by blast
        then show ?thesis using followup_not_drains [of env _ "\<not> ok"] by auto
      next
        case False
        have "\<not> drains b i" for b using False i by (cases b; cases ok; simp)
        then have "\<forall>b. \<not> drains b i" by blast
        from follow_step [OF this, of env] st show ?thesis
          using followup_not_drains unfolding yields_def by blast
      qed
      with t show "owed ok p t \<and> (\<forall>j \<in> set x. \<not> drains (\<not> ok) j)
        \<and> (\<forall>j. \<not> drains (\<not> ok) j \<longrightarrow> \<not> drains (\<not> ok) j)" by simp
    qed simp
  qed (use assms in simp_all)
  then show ?thesis by simp
qed

text \<open>C3. The response to a refresh request answers every caller: when its turn ends without an
  exception the queue is empty and every promise that was waiting has succeeded (status 200) or
  failed (any other status), whatever the application's callbacks do in between.\<close>

theorem refresh_answers_all:
  assumes "reachable env w" and "map_of (w_xhrs w) k = Some XRefresh"
    and "run env [Response XRefresh status body] (fst (turns_of (EResponse k status body) w)) = Some (w', None)"
  shows "w_refreshQueue w' = []
    \<and> (\<forall>p \<in> set (w_refreshQueue w). answered (status = 200) (w_heap w' p))"
proof -
  let ?w = "fst (turns_of (EResponse k status body) w)" and ?ok = "status = 200"
  have q: "w_refreshQueue ?w = w_refreshQueue w" "w_next ?w = w_next w" using assms(2) by simp_all
  obtain n where n: "run_n n env [Response XRefresh status body] ?w = Some (w', None)"
    using run_bounded [OF assms(3)] by blast
  have resp: "refresh_response status body = butlast (refresh_response status body) @ [Drain ?ok]"
    by (simp add: refresh_response_def)
  obtain m where m: "n = Suc m" using n by (cases n) simp_all
  then have "run_n m env (refresh_response status body) ?w = Some (w', None)"
    using n by simp
  then have "run_n m env (butlast (refresh_response status body) @ [Drain ?ok]) ?w = Some (w', None)"
    using resp by simp
  then have empty: "w_refreshQueue w' = []" by (rule drained)
  have "owed ?ok p w'" if p: "p \<in> set (w_refreshQueue w)" for p
  proof (rule run_owed [OF assms(3)])
    show "owed ?ok p ?w" using p q wf_queueD [OF reachable_wf [OF assms(1)] p] by (simp add: owed_def)
  qed auto
  with empty show ?thesis by (simp add: owed_def)
qed

end
