(* ===== verification/Kc_Client.thy ===== *)
theory Kc_Client
  imports Kc_Queue
begin

text \<open>
  What single events do to the client: calls and messages that must change nothing, the code
  exchange, the end of a session, and the ways in which a promise is left unanswered; with the
  witnesses of the properties of \<open>Kc_Queue\<close>.
\<close>

section \<open>Evaluation\<close>

lemmas promise_eval = createPromise_def setSuccess_def setError_def on_success_def on_error_def
  settle_def register_def outcome_def Let_def call_instrs_def

lemmas op_eval = bindJ_def new_promise_def settleP_def registerP_def send_xhr_def emit_def set_kc_def
  set_lif_def

lemmas init_eval = kc_init_def loadAdapter_def apply_init_options_def loadConfig_def
  fill_config_url_def field_of_def processInit_def parseCallback_def user_register_def

lemmas token_eval = setToken_def setupCheckLoginIframe_def set_access_token_def
  set_refresh_token_def store_parsed_def

lemmas turn_eval = handle_def run_Cons end_turn_def call_user_def call_hook_def

lemmas page_eval = demo_world_def new_world_def new_kc_def demo_loc_def demo_config_def

section \<open>A refresh that goes wrong\<close>

definition demo_options :: init_options where
  "demo_options = \<lparr>io_checkLoginIframe = Bool False, io_checkLoginIframeInterval = Undefined,
     io_onLoad = Undefined, io_token = Str ''h.A1.s'', io_refreshToken = Str ''h.R1.s''\<rparr>"

text \<open>The calls: initialise with tokens, let time pass, ask for a fresh token.\<close>

definition demo_calls :: "event list" where
  "demo_calls = [ECall (AInit (Some demo_options) None None), ETime 200000,
     ECall (AUpdateToken None (Some 1) (Some 2))]"

lemmas demo_eval = demo_calls_def turn_eval op_eval promise_eval page_eval demo_options_def init_eval
  token_eval access_claims_def updateToken_def exec_update_def isTokenExpired_def client_auth_def
  min_validity_def refresh_response_def token_response_def parse_json_def demo_texts_def
  drain_queue_def

lemma demo_refreshing:
  "\<exists>w. handle_all demo_env demo_calls demo_world = Some w \<and> w_refreshQueue w = [4]
     \<and> w_xhrs w = [(0, XRefresh)]
     \<and> (\<exists>w'. run demo_env [Response XRefresh 200 ''tokens''] (fst (turns_of (EResponse 0 200 ''tokens'') w))
          = Some (w', None))"
  by (simp add: demo_eval)

text \<open>The server answers with a token that does not decode.\<close>

lemma demo_stuck:
  "\<exists>w. handle_all demo_env (demo_calls @ [EResponse 0 200 ''broken'']) demo_world = Some w
     \<and> w_refreshQueue w = [4] \<and> flights w = 0
     \<and> (\<exists>w'. handle_all demo_env [ECall (AUpdateToken None None None)] w = Some w')"
  by (simp add: demo_eval flights_def)

lemma silent_demo: "silent demo_env"
  by (simp add: silent_def)

text \<open>
  An application whose success callback asks for a token again.  The callback runs while the queue is emptied: its
  promise is taken out of the queue although its own request is under way, so that the next caller finds the queue
  empty and sends another.
\<close>

definition reentrant_env :: env where
  "reentrant_env = demo_env\<lparr>script := \<lambda>n v. if n = 1 then [AUpdateToken None None None] else []\<rparr>"

lemma reentrant_sel [simp]:
  "script reentrant_env n v = (if n = 1 then [AUpdateToken None None None] else [])"
  "JSON_parse reentrant_env = JSON_parse demo_env" "random reentrant_env = random demo_env"
  "str_num reentrant_env = str_num demo_env" "atob reentrant_env = atob demo_env"
  by (simp_all add: reentrant_env_def)

lemma reentrant_decode [simp]:
  "decode_token reentrant_env t = decode_token demo_env t" "decode_refreshToken reentrant_env t = decode_refreshToken demo_env t"
  by (cases t; simp add: decode_token_def decode_refreshToken_def atob_payload_def parse_json_def)+

lemma reentrant_flights:
  "\<exists>w. handle_all reentrant_env (demo_calls @ [EResponse 0 200 ''tokens'', ECall (AUpdateToken None None None)]) demo_world
      = Some w \<and> flights w = 2"
  by (simp add: demo_eval flights_def)

theorem every_turn_ends_witness:
  "\<exists>w. handle_all demo_env (demo_calls @ [EResponse 0 200 ''broken'']) demo_world = Some w"
  unfolding demo_world_def by (rule every_turn_ends [OF silent_demo])

theorem refresh_single_flight_witness:
  "\<exists>w. handle_all demo_env demo_calls demo_world = Some w \<and> w_refreshQueue w = [4] \<and> flights w \<le> 1"
proof -
  obtain w where w: "handle_all demo_env demo_calls demo_world = Some w" "w_refreshQueue w = [4]"
    using demo_refreshing by blast
  show ?thesis using refresh_single_flight [OF silent_demo w(1) [unfolded demo_world_def]] w by blast
qed

theorem refresh_answers_all_witness:
  "\<exists>w w'. w_refreshQueue w = [4]
     \<and> run demo_env [Response XRefresh 200 ''tokens''] (fst (turns_of (EResponse 0 200 ''tokens'') w))
        = Some (w', None)
     \<and> w_refreshQueue w' = [] \<and> answered True (w_heap w' 4)"
proof -
  obtain w w' where w: "handle_all demo_env demo_calls demo_world = Some w" "w_refreshQueue w = [4]"
      "w_xhrs w = [(0, XRefresh)]"
    and run: "run demo_env [Response XRefresh 200 ''tokens''] (fst (turns_of (EResponse 0 200 ''tokens'') w))
      = Some (w', None)"
    using demo_refreshing by blast
  have "reachable demo_env w" by (rule reachable_demo [OF w(1)])
  moreover have "map_of (w_xhrs w) 0 = Some XRefresh" using w(3) by simp
  ultimately show ?thesis using refresh_answers_all [OF _ _ run] w(2) run by fastforce
qed

theorem refresh_stuck_witness:
  "\<exists>w w'. reachable demo_env w \<and> w_refreshQueue w = [4]
     \<and> handle_all demo_env [ECall (AUpdateToken None None None)] w = Some w'
     \<and> flights w' = 0 \<and> 4 \<in> set (w_refreshQueue w')"
proof -
  obtain w w' where w: "handle_all demo_env (demo_calls @ [EResponse 0 200 ''broken'']) demo_world = Some w"
      "w_refreshQueue w = [4]" "flights w = 0"
    and more: "handle_all demo_env [ECall (AUpdateToken None None None)] w = Some w'"
    using demo_stuck by blast
  have "w_refreshQueue w \<noteq> []" using w(2) by simp
  from refresh_stuck [OF this w(3) more] reachable_demo [OF w(1)] w(2) more show ?thesis by force
qed

section \<open>When a token is refreshed\<close>



section \<open>Calls and messages without effect\<close>

text \<open>Without a token \<open>updateToken\<close> fails at once: the promise it returns is settled with an error,
  nothing is sent, queued or changed in the object.\<close>

theorem updateToken_unauthenticated:
  assumes "\<not> (truthy (kc_tokenParsed (kc w)) \<and> truthy (kc_refreshToken (kc w)))"
  shows "\<exists>w'. updateToken env m w = (w', Inr (w_next w, []))
    \<and> outcome (w_heap w' (w_next w)) = Some (False, Undefined)
    \<and> w_out w' = w_out w \<and> w_xhrs w' = w_xhrs w \<and> w_refreshQueue w' = w_refreshQueue w \<and> kc w' = kc w"
  using assms by (auto simp: updateToken_def op_eval promise_eval)

theorem updateToken_unauthenticated_witness:
  "\<exists>w'. updateToken demo_env (Some 30) demo_ready = (w', Inr (0, []))
    \<and> outcome (w_heap w' 0) = Some (False, Undefined)"
  using updateToken_unauthenticated [of demo_ready demo_env "Some 30"]
  by (auto simp: demo_ready_def demo_world_def new_world_def new_kc_def)

lemma foreign_turn:
  assumes "Some origin \<noteq> li_iframeOrigin (lif w)"
  shows "run_turns env (replicate n [Message origin cid session loggedIn]) w = Some w"
  using assms by (induction n) (simp_all add: run_Cons message_callback_def end_turn_def)

text \<open>C7. A message from any origin but that of the login status iframe changes nothing, whatever it
  says and however many listeners there are.\<close>

theorem foreign_message_ignored:
  assumes "Some origin \<noteq> li_iframeOrigin (lif w)"
  shows "handle env (EMessage origin cid session loggedIn) w = Some w"
  using foreign_turn [OF assms] by (simp add: handle_def)

theorem foreign_message_ignored_witness:
  "handle demo_env (EMessage ''http://evil'' ''<id: 00.5>'' None False)
     (demo_authenticated\<lparr>w_frames := [0, 1], lif := lif demo_authenticated\<lparr>li_iframeOrigin := Some ''http://k''\<rparr>\<rparr>)
   = Some (demo_authenticated\<lparr>w_frames := [0, 1], lif := lif demo_authenticated\<lparr>li_iframeOrigin := Some ''http://k''\<rparr>\<rparr>)"
  by (rule foreign_message_ignored) simp

section \<open>The end of a session\<close>

text \<open>C36. A message of the iframe that the session is over, or is another one, first clears the tokens
  and forgets the check, and only then calls \<open>onAuthLogout\<close>, logs in again when a login is required,
  and fails the promise of the check.\<close>

theorem logged_out_message:
  assumes "li_iframeOrigin (lif w) = Some origin" and "li_callbackMap (lif w) cid = Some p"
    and "\<not> loggedIn \<or> truthy_str (kc_sessionId (kc w)) \<and> kc_sessionId (kc w) \<noteq> session"
    and "truthy (kc_token (kc w))"
  shows "run env [Message origin cid session loggedIn] w =
    run env [Hook OnAuthLogout Undefined, ReLogin, SettleI False p Undefined]
      (set_kc (\<lambda>k. k\<lparr>kc_token := Undefined, kc_tokenParsed := Undefined,
          kc_subject := Undefined, kc_realmAccess := Undefined, kc_resourceAccess := Undefined,
          kc_idToken := Undefined, kc_authenticated := Bool False, kc_refreshToken := Undefined,
          kc_refreshTokenParsed := Undefined\<rparr>)
        (set_lif (\<lambda>l. l\<lparr>li_callbackMap := (li_callbackMap l)(cid := None)\<rparr>) w))"
proof -
  let ?w = "set_lif (\<lambda>l. l\<lparr>li_callbackMap := (li_callbackMap l)(cid := None)\<rparr>) w"
  have "\<not> ((\<not> truthy_str (kc_sessionId (kc w)) \<or> kc_sessionId (kc w) = session) \<and> loggedIn)"
    using assms(3) by auto
  then have message: "step env (Message origin cid session loggedIn) w =
      (?w, Inr [ClearToken, SettleI False p Undefined])"
    using assms(1,2) by (simp add: message_callback_def Let_def)
  have clear: "step env ClearToken ?w = (set_kc cleared_kc ?w, Inr [Hook OnAuthLogout Undefined, ReLogin])"
    using assms(4) by (simp add: clearToken_def setToken_null bindJ_def)
  have "run env [Message origin cid session loggedIn] w = run env [ClearToken, SettleI False p Undefined] ?w"
    by (subst run_Cons) (simp only: message prod.case sum.case append.simps)
  also have "\<dots> = run env [Hook OnAuthLogout Undefined, ReLogin, SettleI False p Undefined] (set_kc cleared_kc ?w)"
    by (subst run_Cons) (simp only: clear prod.case sum.case append.simps)
  finally show ?thesis by (simp add: cleared_kc_def [abs_def] forget_token_def)
qed

theorem logged_out_message_witness:
  "\<exists>w w'. kc_authenticated (kc w) = Bool True
     \<and> run demo_env [Message ''http://k'' ''i'' None False] w = Some (w', None)
     \<and> kc_authenticated (kc w') = Bool False \<and> outcome (w_heap w' 0) = Some (False, Undefined)"
proof -
  let ?w = "demo_authenticated\<lparr>lif := lif demo_authenticated\<lparr>li_iframeOrigin := Some ''http://k'',
    li_callbackMap := [''i'' \<mapsto> 0]\<rparr>\<rparr>"
  have auth: "kc_authenticated (kc ?w) = Bool True" by (simp add: demo_authenticated_def)
  have "\<exists>w'. run demo_env [Message ''http://k'' ''i'' None False] ?w = Some (w', None)
     \<and> kc_authenticated (kc w') = Bool False \<and> outcome (w_heap w' 0) = Some (False, Undefined)"
    by (subst logged_out_message)
      (simp_all add: demo_authenticated_def demo_ready_def page_eval op_eval promise_eval turn_eval relogin_def)
  with auth show ?thesis by blast
qed

section \<open>The code exchange\<close>

text \<open>The page after the callback is taken out of the address, and the request for tokens.\<close>

definition callback_taken :: "oauth \<Rightarrow> world \<Rightarrow> world" where
  "callback_taken oa w =
     (let l = w_loc w; fragment = (if truthy_str (oa_fragment oa) then ''#'' @ the (oa_fragment oa) else [])
      in w\<lparr>w_oauthState := None, w_loc := l\<lparr>loc_search := [], loc_hash := fragment\<rparr>,
           w_out := w_out w @ [ReplaceState (loc_protocol l @ ''//'' @ loc_host l @ loc_pathname l @ fragment)]\<rparr>)"

definition code_posted :: "env \<Rightarrow> pid \<Rightarrow> (string \<times> string) list \<Rightarrow> string \<Rightarrow> world \<Rightarrow> world" where
  "code_posted env ip headers body w =
     w\<lparr>w_nextx := Suc (w_nextx w), w_xhrs := w_xhrs w @ [(w_nextx w, XCode ip)],
       w_out := w_out w @ [Send (w_nextx w) ''POST'' (getRealmUrl env w @ ''/tokens/access/codes'')
          ((''Content-type'', ''application/x-www-form-urlencoded'') # headers) body True]\<rparr>"

text \<open>C35. A page loaded with an accepted callback takes the callback out of the address, keeps the fragment and
  forgets the state.  A code is then posted once to the token endpoint, with the client's id in the body or, for a
  client with a secret, with both in the Authorization header (where they cannot be encoded, \<open>btoa\<close> throws and
  nothing is posted), and the promise of \<open>init\<close> waits for the response.  An error posts nothing: it fails the promise
  after \<open>onAuthError\<close>, or, when the login was silent, answers it with success.\<close>

theorem callback_code_exchanged:
  assumes "parseCallback (loc_search (w_loc w)) w = (w1, Inr (Some oa))"
  shows "(case oa_code oa of
      Some (c # cs) \<Rightarrow>
        (if truthy (kc_clientId (kc w)) \<and> truthy (kc_clientSecret (kc w))
         then (case btoa env (str_of env (kc_clientId (kc w)) @ '':'' @ str_of env (kc_clientSecret (kc w))) of
                 None \<Rightarrow> processInit env opts ip w = (callback_taken oa w, Inl InvalidCharacterError)
               | Some b \<Rightarrow> processInit env opts ip w =
                   (code_posted env ip [(''Authorization'', ''Basic '' @ b)] (''code='' @ c # cs) (callback_taken oa w), Inr []))
         else processInit env opts ip w =
                (code_posted env ip [] (''code='' @ c # cs @ ''&client_id='' @ encodeURIComponent (str_of env (kc_clientId (kc w))))
                   (callback_taken oa w), Inr []))
    | _ \<Rightarrow> truthy_str (oa_error oa) \<and> processInit env opts ip w =
        (callback_taken oa w, Inr (if oa_prompt oa = Some ''none'' then [SettleI True ip Undefined]
           else [Hook OnAuthError Undefined, SettleI False ip Undefined])))"
proof -
  have w1: "w1 = w\<lparr>w_oauthState := None\<rparr>" and answer: "truthy_str (oa_code oa) \<or> truthy_str (oa_error oa)"
    using assms by (auto simp: parseCallback_cases split: sum.splits if_splits)
  have restored: "processInit env opts ip w = processCallback env oa ip (callback_taken oa w)"
    by (simp add: processInit_def bindJ_def assms w1 restore_url_def emit_def callback_taken_def Let_def)
  show ?thesis
    unfolding restored using answer
    by (cases "oa_code oa") (auto simp: processCallback_def bindJ_def client_auth_def callback_taken_def code_posted_def send_xhr_def emit_def
        Let_def getRealmUrl_def split: option.split list.split)
qed

theorem callback_code_exchanged_witness:
  "\<exists>w2. processInit demo_env None 0
       (demo_ready\<lparr>w_loc := demo_loc\<lparr>loc_search := ''?code=c1&state=st''\<rparr>\<rparr>) = (w2, Inr [])
     \<and> w_xhrs w2 = [(0, XCode 0)] \<and> loc_search (w_loc w2) = []"
proof -
  let ?w = "demo_ready\<lparr>w_loc := demo_loc\<lparr>loc_search := ''?code=c1&state=st''\<rparr>\<rparr>"
  have "parseCallback (loc_search (w_loc ?w)) ?w = (?w\<lparr>w_oauthState := None\<rparr>,
     Inr (Some (empty_oauth\<lparr>oa_code := Some ''c1'', oa_state := Some ''st''\<rparr>)))"
    by (simp add: parseCallback_cases query_params_def parse_param_def decodeURIComponent_def
      decode_arg_def empty_oauth_def demo_ready_def demo_world_def new_world_def)
  from callback_code_exchanged [OF this, of demo_env None 0] show ?thesis
    by (auto simp: empty_oauth_def code_posted_def callback_taken_def Let_def demo_ready_def demo_world_def
      new_world_def new_kc_def)
qed

text \<open>C22. The response to the exchange.  Status 200 with a decodable token pair authenticates the object before
  \<open>onAuthSuccess\<close> is called and the promise succeeds; status 200 with a body that is no token pair, or one that does not
  decode, is an uncaught exception that leaves the promise unanswered; any other status, whatever its body, leaves the
  object alone, calls \<open>onAuthError\<close> and fails the promise.\<close>

theorem code_response_authenticates:
  "(\<forall>resp t r ps v. status = 200 \<and> parse_json env body = Inr (Obj resp)
        \<and> field_of (Obj resp) ''access_token'' = t \<and> field_of (Obj resp) ''refresh_token'' = r
        \<and> truthy t \<and> decode_token env t = Inr (Obj ps) \<and> truthy r \<and> decode_refreshToken env r = Inr v \<longrightarrow>
      (\<exists>w'. run env [Response (XCode p) status body] w =
          run env [Hook OnAuthSuccess Undefined, SettleI True p Undefined] w'
        \<and> kc_token (kc w') = t \<and> kc_refreshToken (kc w') = r \<and> kc_authenticated (kc w') = Bool True
        \<and> kc_subject (kc w') = field_of (Obj ps) ''sub''))
    \<and> (\<forall>w' e. status = 200 \<and> token_response env body w = (w', Inl e) \<longrightarrow>
        run env [Response (XCode p) status body] w = Some (w', Some e))
    \<and> (status \<noteq> 200 \<longrightarrow> run env [Response (XCode p) status body] w =
        run env [Hook OnAuthError Undefined, SettleI False p Undefined] w)"
proof (cases "status = 200")
  case False
  then have "step env (Response (XCode p) status body) w = (w, Inr [Hook OnAuthError Undefined, SettleI False p Undefined])"
    by (simp add: code_response_def)
  then have "run env [Response (XCode p) status body] w = run env [Hook OnAuthError Undefined, SettleI False p Undefined] w"
    by (subst run_Cons) (simp del: step.simps)
  then show ?thesis using False by blast
next
  case True
  have start: "run env [Response (XCode p) 200 body] w =
      run env [TokenResponse body, Hook OnAuthSuccess Undefined, SettleI True p Undefined] w"
    by (subst run_Cons) (simp add: code_response_def)
  have "run env [Response (XCode p) 200 body] w = Some (w', Some e)" if "token_response env body w = (w', Inl e)" for w' e
    unfolding start by (subst run_Cons) (simp add: bindJ_def that)
  moreover have "\<exists>w'. run env [Response (XCode p) 200 body] w =
        run env [Hook OnAuthSuccess Undefined, SettleI True p Undefined] w'
      \<and> kc_token (kc w') = t \<and> kc_refreshToken (kc w') = r \<and> kc_authenticated (kc w') = Bool True
      \<and> kc_subject (kc w') = field_of (Obj ps) ''sub''"
    if body: "parse_json env body = Inr (Obj resp)"
      "field_of (Obj resp) ''access_token'' = t" "field_of (Obj resp) ''refresh_token'' = r"
      and decodes: "truthy t" "decode_token env t = Inr (Obj ps)" "truthy r" "decode_refreshToken env r = Inr v"
    for resp t r ps v
  proof -
    let ?w = "fst (setToken env t r w)"
    have pair: "setToken env t r w = (?w, Inr ())" "kc ?w = stored_kc env t ps r v (kc w)"
      using setToken_pair [OF decodes, of w] by (metis prod.collapse, simp)
    have get: "getp (Obj resp) ''access_token'' = Inr t" "getp (Obj resp) ''refresh_token'' = Inr r"
      using body(2,3) by (simp_all add: field_of_def)
    have "token_response env body w = (?w, Inr ())"
      using pair(1) by (simp add: token_response_def body(1) get del: getp.simps)
    then have "step env (TokenResponse body) w = (?w, Inr [])" by (simp add: bindJ_def)
    then have "run env [TokenResponse body, Hook OnAuthSuccess Undefined, SettleI True p Undefined] w =
        run env [Hook OnAuthSuccess Undefined, SettleI True p Undefined] ?w"
      by (subst run_Cons) (simp del: step.simps)
    then show ?thesis using pair(2) start by (intro exI [of _ ?w]) (simp add: stored_kc_def)
  qed
  ultimately show ?thesis using True by blast
qed

theorem code_response_authenticates_witness:
  "(\<exists>w'. run demo_env [Response (XCode 0) 200 ''tokens''] demo_ready =
        run demo_env [Hook OnAuthSuccess Undefined, SettleI True 0 Undefined] w'
      \<and> kc_authenticated (kc w') = Bool True \<and> kc_subject (kc w') = Str ''u1'')
   \<and> run demo_env [Response (XCode 0) 400 ''no code''] demo_ready =
       run demo_env [Hook OnAuthError Undefined, SettleI False 0 Undefined] demo_ready"
proof -
  have body: "parse_json demo_env ''tokens'' =
      Inr (Obj [(''access_token'', Str ''h.A1.s''), (''refresh_token'', Str ''h.R1.s'')])"
    by (simp add: parse_json_def demo_texts_def)
  have "\<exists>w'. run demo_env [Response (XCode 0) 200 ''tokens''] demo_ready =
        run demo_env [Hook OnAuthSuccess Undefined, SettleI True 0 Undefined] w'
      \<and> kc_authenticated (kc w') = Bool True \<and> kc_subject (kc w') = field_of access_claims ''sub''"
    using code_response_authenticates [of 200 demo_env "''tokens''" 0 demo_ready] body demo_decode(1,2)
    by (fastforce simp: field_of_def access_claims_def)
  then show ?thesis
    using code_response_authenticates [of 400 demo_env "''no code''" 0 demo_ready] by (simp add: access_claims_def field_of_def)
qed

section \<open>Promises that are never answered\<close>

lemma apply_init_frame [simp]:
  "w_config (apply_init_options opts w) = w_config w" "w_next (apply_init_options opts w) = w_next w"
  "w_heap (apply_init_options opts w) = w_heap w" "w_loc (apply_init_options opts w) = w_loc w"
  "w_xhrs (apply_init_options opts w) = w_xhrs w" "w_frames (apply_init_options opts w) = w_frames w"
  "w_timers (apply_init_options opts w) = w_timers w" "w_windows (apply_init_options opts w) = w_windows w"
  "w_out (apply_init_options opts w) = w_out w"
  by (simp_all add: apply_init_options_def Let_def split: option.split)

text \<open>With a complete configuration object nothing is fetched.\<close>

lemma loadConfig_given:
  assumes "w_config w = Obj cs" and "cs \<noteq> []"
    and "truthy (field_of (Obj cs) ''url'')" and "truthy (field_of (Obj cs) ''realm'')"
    and "truthy (field_of (Obj cs) ''clientId'')"
  shows "\<exists>k. loadConfig env w = (set_kc k w\<lparr>w_heap := (w_heap w)(w_next w := fst (settle True Undefined createPromise)),
      w_next := Suc (w_next w)\<rparr>, Inr (w_next w))"
  using assms
  by (intro exI [of _ "\<lambda>k. k\<lparr>kc_authServerUrl := field_of (Obj cs) ''url'',
        kc_realm := field_of (Obj cs) ''realm'', kc_clientId := field_of (Obj cs) ''clientId'',
        kc_clientSecret := (if truthy (field_of (Obj cs) ''credentials'')
             then field_of (field_of (Obj cs) ''credentials'') ''secret'' else Undefined)\<rparr>"])
    (simp add: loadConfig_def op_eval promise_eval fill_config_url_def del: field_of_Obj)

lemma bindJ_heap:
  "bindJ new_promise h w = h (w_next w) (fst (new_promise w))"
  "bindJ (registerP ok p c) hr w = hr (call_instrs (snd (register ok c (w_heap w p)))) (fst (registerP ok p c w))"
  by (simp_all add: bindJ_def client_results)

definition idle_since :: "world \<Rightarrow> world \<Rightarrow> bool" where
  "idle_since w w' \<longleftrightarrow> w_loc w' = w_loc w \<and> w_xhrs w' = w_xhrs w \<and> w_frames w' = w_frames w
     \<and> w_timers w' = w_timers w \<and> w_windows w' = w_windows w \<and> w_out w' = w_out w"

lemma kc_init_given:
  assumes "w_config w = Obj cs" and "cs \<noteq> []"
    and "truthy (field_of (Obj cs) ''url'')" and "truthy (field_of (Obj cs) ''realm'')"
    and "truthy (field_of (Obj cs) ''clientId'')"
  shows "\<exists>w'. kc_init env opts w =
      (w', Inr (w_next w, [Invoke (ProcessInit (Suc (w_next w)) opts) Undefined]))
    \<and> idle_since w w' \<and> pending w' (w_next w) \<and> pending w' (Suc (w_next w))"
proof -
  define w1 where "w1 = apply_init_options opts
    (fst (loadAdapter (if w_cordova w then Some ''cordova'' else None)
      (set_kc (\<lambda>k. k\<lparr>kc_authenticated := Bool False\<rparr>) w)))"
  have idle: "idle_since w w1" "w_config w1 = w_config w" "w_next w1 = w_next w"
    by (simp_all add: w1_def idle_since_def loadAdapter_def)
  define w2 where "w2 = fst (registerP False (Suc (w_next w)) (SetErr (w_next w))
    (fst (registerP True (Suc (w_next w)) (InitReady (w_next w)) (fst (new_promise (fst (new_promise w1)))))))"
  have w2: "w_config w2 = w_config w" "w_next w2 = Suc (Suc (w_next w))" "idle_since w w2"
      "pending w2 (w_next w)" "pending w2 (Suc (w_next w))"
    using idle by (simp_all add: w2_def idle_since_def client_results pending_def promise_eval)
  obtain k where load: "loadConfig env w2 = (set_kc k w2\<lparr>w_heap := (w_heap w2)(w_next w2 :=
      fst (settle True Undefined createPromise)), w_next := Suc (w_next w2)\<rparr>, Inr (w_next w2))"
    using loadConfig_given [of w2 cs env] w2(1) assms by auto
  have n1: "w_next (fst (new_promise w1)) = Suc (w_next w)" using idle(3) by simp
  have "kc_init env opts w =
      bindJ (loadConfig env) (\<lambda>cp.
      bindJ (registerP True cp (ProcessInit (Suc (w_next w)) opts)) (\<lambda>js1.
      bindJ (registerP False cp (SetErr (w_next w))) (\<lambda>js2. ret (w_next w, js1 @ js2)))) w2"
    unfolding w2_def using idle(3) n1
    by (cases "w_cordova w")
      (simp_all add: kc_init_def loadAdapter_def bindJ_heap w1_def)
  then have "kc_init env opts w =
      (fst (registerP False (w_next w2) (SetErr (w_next w))
         (fst (registerP True (w_next w2) (ProcessInit (Suc (w_next w)) opts) (fst (loadConfig env w2))))),
       Inr (w_next w, [Invoke (ProcessInit (Suc (w_next w)) opts) Undefined]))"
    by (simp add: bindJ_def [of "loadConfig env"] load bindJ_heap promise_eval client_results)
  then show ?thesis
    using w2 by (simp add: load idle_since_def client_results pending_def promise_eval split: if_splits)
qed

text \<open>\<open>init\<close> with options that give neither tokens nor \<open>onLoad\<close> never answers: it does what it should
  with the configuration, but its promise is still pending when nothing is left that could settle
  it (no request, no iframe, no timer, no window).\<close>

theorem init_without_onLoad_unanswered:
  assumes "w_config w = Obj cs" and "cs \<noteq> []"
    and "truthy (field_of (Obj cs) ''url'')" and "truthy (field_of (Obj cs) ''realm'')"
    and "truthy (field_of (Obj cs) ''clientId'')"
    and "CHR ''?'' \<notin> set (loc_search (w_loc w))"
    and "\<not> truthy (io_token opts)" and "\<not> truthy (io_refreshToken opts)" and "\<not> truthy (io_onLoad opts)"
  shows "\<exists>w'. handle env (ECall (AInit (Some opts) f g)) w = Some w'
    \<and> pending w' (w_next w) \<and> pending w' (Suc (w_next w))
    \<and> w_xhrs w' = w_xhrs w \<and> w_frames w' = w_frames w \<and> w_timers w' = w_timers w
    \<and> w_windows w' = w_windows w \<and> w_out w' = w_out w"
proof -
  obtain w1 where init: "kc_init env (Some opts) w =
      (w1, Inr (w_next w, [Invoke (ProcessInit (Suc (w_next w)) (Some opts)) Undefined]))"
    and w1: "idle_since w w1" "pending w1 (w_next w)" "pending w1 (Suc (w_next w))"
    using kc_init_given [OF assms(1-5)] by blast
  have "js_indexOf ''?'' (loc_search (w_loc w1)) = -1"
    unfolding js_indexOf_char_iff using assms(6) w1(1) by (simp add: idle_since_def)
  then have process: "processInit env (Some opts) (Suc (w_next w)) w1 = (w1, Inr [])"
    using assms(7-9) by (simp add: processInit_def parseCallback_def bindJ_def)
  define w2 where "w2 = fst (bindJ (user_register True (w_next w) f) (\<lambda>_. user_register False (w_next w) g) w1)"
  have reg: "step env (UserReg (w_next w) f g) w1 = (w2, Inr [])"
    and w2: "idle_since w1 w2" "pending w2 (w_next w)" "pending w2 (Suc (w_next w))"
    using w1(2,3) by (cases f; cases g;
      simp add: w2_def user_register_def op_eval promise_eval pending_def idle_since_def split: if_splits)+
  have "run env [Api (AInit (Some opts) f g)] w = Some (w2, None)"
    using init process reg by (simp add: run_Cons bindJ_def)
  then show ?thesis
    using w1(1) w2 by (intro exI [of _ w2]) (simp add: handle_def end_turn_def idle_since_def)
qed

text \<open>Options that only switch the iframe off.\<close>

definition demo_no_onLoad :: init_options where
  "demo_no_onLoad = demo_options\<lparr>io_token := Undefined, io_refreshToken := Undefined\<rparr>"

theorem init_without_onLoad_unanswered_witness:
  "\<exists>w'. handle demo_env (ECall (AInit (Some demo_no_onLoad) (Some 1) (Some 2))) demo_world = Some w'
     \<and> pending w' 0 \<and> w_xhrs w' = [] \<and> w_out w' = []"
  using init_without_onLoad_unanswered [of demo_world _ demo_no_onLoad demo_env "Some 1" "Some 2"]
  by (auto simp: page_eval demo_no_onLoad_def demo_options_def field_of_def)

text \<open>\<open>check-sso\<close> on a page whose login iframe is already there throws: the setup returns no promise
  in that case, and the code registers a callback on it.\<close>

theorem check_sso_iframe_throws:
  assumes "li_enable (lif w)" and "li_iframe (lif w)"
  shows "snd (check_sso env ip w) = Inl TypeError
    \<and> w_out (fst (check_sso env ip w)) = w_out w \<and> w_xhrs (fst (check_sso env ip w)) = w_xhrs w"
  using assms by (simp add: check_sso_def bindJ_def setup_cases Let_def client_results)

theorem check_sso_iframe_throws_witness:
  "snd (check_sso demo_env 0 (demo_ready\<lparr>lif := lif demo_ready\<lparr>li_iframe := True\<rparr>\<rparr>)) = Inl TypeError"
  using check_sso_iframe_throws [of "demo_ready\<lparr>lif := lif demo_ready\<lparr>li_iframe := True\<rparr>\<rparr>"]
  by (simp add: demo_ready_def page_eval)

end
