(* ===== verification/Kc_Private.thy ===== *)
theory Kc_Private
  imports Kc_Queue
begin

text \<open>
  Promises that belong to callers of \<open>updateToken\<close>.  \<open>K\<close> is a set of such promises: nothing in
  the object refers to one of them but \<open>exec\<close>, the error branch of the iframe check and the
  refresh queue, so nothing else settles it, and its callbacks stay those its caller registered.
  \<open>keepK\<close> says that an operation respects this; the lemmas follow the operations of the client.
  Functions of the application with a number of 3 or more are those its requests register.
\<close>

section \<open>References to promises of \<open>K\<close>\<close>

fun cfine :: "pid set \<Rightarrow> cont \<Rightarrow> bool" where
  "cfine K (UserCb n) = (n < 3)"
| "cfine K (SetOk p) = (p \<notin> K)"
| "cfine K (SetErr p) = True"
| "cfine K (InitReady p) = (p \<notin> K)"
| "cfine K (ProcessInit p opts) = (p \<notin> K)"
| "cfine K (IframeReady p) = (p \<notin> K)"
| "cfine K (DoLogin p) = (p \<notin> K)"
| "cfine K (ExecUpdate p m) = (p \<in> K \<and> m = 5)"

definition small :: "nat option \<Rightarrow> bool" where
  "small f \<longleftrightarrow> (\<forall>n. f = Some n \<longrightarrow> n < 3)"

fun calls_fine :: "api \<Rightarrow> bool" where
  "calls_fine (AInit opts f g) = (small f \<and> small g)"
| "calls_fine (ALogout opts f g) = (small f \<and> small g)"
| "calls_fine _ = False"

fun tame :: "pid set \<Rightarrow> instr \<Rightarrow> bool" where
  "tame K (Invoke c v) = cfine K c"
| "tame K (Api a) = calls_fine a"
| "tame K (SettleI ok p v) = (p \<notin> K)"
| "tame K (SettleAuth p) = (p \<notin> K)"
| "tame K (UserReg p f g) = (p \<notin> K \<and> small f \<and> small g)"
| "tame K (Drain ok) = False"
| "tame K (Response h status body) = (h \<noteq> XRefresh \<and> (\<forall>p. handler_pid h = Some p \<longrightarrow> p \<notin> K))"
| "tame K (FrameLoad p) = (p \<notin> K)"
| "tame K (RefStart i url) = False"
| "tame K (RefFail i url) = False"
| "tame K (RefExit i) = False"
| "tame K _ = True"

abbreviation tames :: "pid set \<Rightarrow> instr list \<Rightarrow> bool" where
  "tames K js \<equiv> \<forall>j \<in> set js. tame K j"

definition sep :: "pid set \<Rightarrow> world \<Rightarrow> bool" where
  "sep K w \<longleftrightarrow> (\<forall>p. p \<notin> K \<longrightarrow> (\<forall>c \<in> callbacks w p. cfine K c))
     \<and> (\<forall>p \<in> K. p < w_next w)
     \<and> set (w_refreshQueue w) \<subseteq> K
     \<and> (\<forall>p. root w p \<longrightarrow> p \<notin> K)
     \<and> ran (li_callbackMap (lif w)) \<inter> K = {}
     \<and> set (w_frames w) \<inter> K = {}"

text \<open>The promises of \<open>K\<close> and the hooks of the application are left alone.\<close>

definition same_on :: "pid set \<Rightarrow> world \<Rightarrow> world \<Rightarrow> bool" where
  "same_on K w w' \<longleftrightarrow> (\<forall>p \<in> K. w_heap w' p = w_heap w p) \<and> kc_hooks (kc w') = kc_hooks (kc w)"

definition keepK :: "pid set \<Rightarrow> ('a \<Rightarrow> bool) \<Rightarrow> 'a client \<Rightarrow> bool" where
  "keepK K Q m \<longleftrightarrow> (\<forall>w. sep K w \<longrightarrow>
     sep K (fst (m w)) \<and> same_on K w (fst (m w)) \<and> (\<forall>x. snd (m w) = Inr x \<longrightarrow> Q x))"

lemma same_on_refl [simp]: "same_on K w w"
  by (simp add: same_on_def)

lemma same_on_trans: "same_on K u v \<Longrightarrow> same_on K v w \<Longrightarrow> same_on K u w"
  by (simp add: same_on_def)

lemma same_on_upd [simp]:
  "same_on K w (emit x w') = same_on K w w'" "same_on K w (set_lif g w') = same_on K w w'"
  by (simp_all add: same_on_def)

lemma sep_core: "core w' = core w \<Longrightarrow> sep K w' = sep K w"
  using core_eqD [of w' w] callbacks_cong [of w' w] by (simp add: sep_def root_def)

lemma small_None [simp]: "small None" and small_Some [simp]: "small (Some n) \<longleftrightarrow> n < 3"
  by (simp_all add: small_def)

section \<open>Rules\<close>

lemma keepK_bindJ:
  assumes "keepK K P m" and "\<And>x. P x \<Longrightarrow> keepK K Q (f x)"
  shows "keepK K Q (bindJ m f)"
  unfolding keepK_def
proof (intro allI impI)
  fix w assume s: "sep K w"
  obtain t r where m: "m w = (t, r)" by (cases "m w")
  have t: "sep K t" "same_on K w t" "\<And>x. r = Inr x \<Longrightarrow> P x"
    using assms(1) s m by (auto simp: keepK_def dest!: spec [of _ w])
  show "sep K (fst (bindJ m f w)) \<and> same_on K w (fst (bindJ m f w))
      \<and> (\<forall>x. snd (bindJ m f w) = Inr x \<longrightarrow> Q x)"
  proof (cases r)
    case (Inl e)
    then show ?thesis using t by (simp add: bindJ_def m)
  next
    case (Inr x)
    from assms(2) [OF t(3) [OF Inr]] have "sep K (fst (f x t)) \<and> same_on K t (fst (f x t))
        \<and> (\<forall>y. snd (f x t) = Inr y \<longrightarrow> Q y)"
      using t(1) by (simp add: keepK_def)
    then show ?thesis using same_on_trans [OF t(2)] by (simp add: bindJ_def m Inr)
  qed
qed

lemma keepK_weaken: "keepK K P m \<Longrightarrow> (\<And>x. P x \<Longrightarrow> Q x) \<Longrightarrow> keepK K Q m"
  by (auto simp: keepK_def)

lemma keepK_ret: "Q x \<Longrightarrow> keepK K Q (ret x)"
  by (simp add: keepK_def)

lemma keepK_raise: "keepK K Q (raise e)"
  by (simp add: keepK_def)

lemma keepK_liftE: "keepK K (\<lambda>_. True) (liftE r)"
  by (simp add: keepK_def)

lemma keepK_asks: "keepK K (\<lambda>_. True) (asks g)"
  by (simp add: keepK_def)

lemma keepK_asks_lif: "keepK K (\<lambda>l. ran (li_callbackMap l) \<inter> K = {}) (asks lif)"
  by (simp add: keepK_def sep_def)

text \<open>Operations that touch neither the heap nor the hooks.\<close>

definition still :: "'a client \<Rightarrow> bool" where
  "still m \<longleftrightarrow> (\<forall>w. core (fst (m w)) = core w \<and> kc_hooks (kc (fst (m w))) = kc_hooks (kc w))"

lemma keepK_still: "still m \<Longrightarrow> keepK K (\<lambda>_. True) m"
  unfolding keepK_def
proof (intro allI impI conjI)
  fix w assume m: "still m" and s: "sep K w"
  then have c: "core (fst (m w)) = core w" "kc_hooks (kc (fst (m w))) = kc_hooks (kc w)"
    by (simp_all add: still_def)
  show "sep K (fst (m w))" using s by (simp add: sep_core [OF c(1)])
  show "same_on K w (fst (m w))" using c(2) core_eqD(1) [OF c(1)] by (simp add: same_on_def)
qed simp

lemma still_bindJ:
  assumes "still m" and "\<And>x. still (f x)"
  shows "still (bindJ m f)"
  unfolding still_def
proof
  fix w
  obtain t r where m: "m w = (t, r)" by (cases "m w")
  then have "core t = core w" "kc_hooks (kc t) = kc_hooks (kc w)"
    using assms(1) by (metis fst_conv still_def)+
  moreover have "core (fst (f x t)) = core t" "kc_hooks (kc (fst (f x t))) = kc_hooks (kc t)" for x
    using assms(2) by (simp_all add: still_def)
  ultimately show "core (fst (bindJ m f w)) = core w
      \<and> kc_hooks (kc (fst (bindJ m f w))) = kc_hooks (kc w)"
    by (cases r) (simp_all add: bindJ_def m)
qed

lemma still_basic:
  "still (ret x)" "still (raise e)" "still (asks g)" "still (liftE r)"
  by (simp_all add: still_def)

lemma still_upd: "(\<And>w. core (f w) = core w) \<Longrightarrow> (\<And>w. kc_hooks (kc (f w)) = kc_hooks (kc w)) \<Longrightarrow> still (upd f)"
  by (simp add: still_def)

lemma still_draws: "still (draws env n)"
  by (simp add: still_def draws_def)

lemmas still_intros = still_bindJ still_basic still_upd still_draws

lemma still_createUUID: "still (createUUID env)"
  unfolding createUUID_def by (intro still_intros)

lemma still_createCallbackId: "still (createCallbackId env)"
  unfolding createCallbackId_def by (auto intro!: still_intros)

lemma still_createLoginUrl: "still (createLoginUrl env options)"
  unfolding createLoginUrl_def by (auto intro!: still_intros still_createUUID)

lemma still_createLogoutUrl: "still (createLogoutUrl env options)"
  unfolding createLogoutUrl_def by (auto intro!: still_intros)

lemma still_createAccountUrl: "still (createAccountUrl env options)"
  unfolding createAccountUrl_def by (auto intro!: still_intros)

lemma still_parseCallback: "still (parseCallback url)"
  unfolding still_def
proof
  fix w
  obtain w' r where "parseCallback url w = (w', r)" by (cases "parseCallback url w")
  then show "core (fst (parseCallback url w)) = core w
      \<and> kc_hooks (kc (fst (parseCallback url w))) = kc_hooks (kc w)"
    using parseCallback_frame [of url w w' r] by auto
qed

lemma still_store_parsed: "still (store_parsed env v)"
  unfolding store_parsed_def by (auto intro!: still_intros)

lemma still_set_access_token: "still (set_access_token env t)"
  unfolding set_access_token_def by (auto intro!: still_intros still_store_parsed simp: forget_token_def)

lemma still_set_refresh_token: "still (set_refresh_token env t)"
  unfolding set_refresh_token_def by (auto intro!: still_intros)

lemma still_loadAdapter: "still (loadAdapter type)"
  unfolding loadAdapter_def by (auto intro!: still_intros simp: core_set_lif core_def)

lemma still_page: "still (upd (apply_init_options opts))" "still (upd fill_config_url)"
    "still (upd (restore_url oa))" "still (upd (set_check_timeout env))"
  by (rule still_upd, simp only: core_apply_init_options core_fill_config_url core_restore_url
      core_set_check_timeout, simp add: apply_init_options_def fill_config_url_def restore_url_def
      set_check_timeout_def Let_def split: option.split)+

lemmas keepK_stills = keepK_still [OF still_createUUID] keepK_still [OF still_createCallbackId]
  keepK_still [OF still_createLoginUrl] keepK_still [OF still_createLogoutUrl]
  keepK_still [OF still_createAccountUrl] keepK_still [OF still_parseCallback]
  keepK_still [OF still_set_access_token] keepK_still [OF still_set_refresh_token]
  keepK_still [OF still_loadAdapter] keepK_still [OF still_page(1)] keepK_still [OF still_page(2)]
  keepK_still [OF still_page(3)] keepK_still [OF still_page(4)]

section \<open>The heap\<close>

lemma keepK_new: "keepK K (\<lambda>p. p \<notin> K) new_promise"
  unfolding keepK_def
proof (intro allI impI conjI)
  fix w assume s: "sep K w"
  show "sep K (fst (new_promise w))" using s by (simp add: sep_def callbacks_new less_SucI)
  show "same_on K w (fst (new_promise w))" using s by (auto simp: sep_def same_on_def new_promise_result)
  show "x \<notin> K" if "snd (new_promise w) = Inr x" for x
    using that s by (auto simp: new_promise_result sep_def)
qed

lemma keepK_settle: "p \<notin> K \<Longrightarrow> keepK K (tames K) (settleP ok p v)"
  unfolding keepK_def
proof (intro allI impI conjI)
  fix w assume p: "p \<notin> K" and s: "sep K w"
  show "sep K (fst (settleP ok p v w))" using s by (simp add: sep_def callbacks_settle)
  show "same_on K w (fst (settleP ok p v w))" using p by (auto simp: same_on_def settleP_result)
  fix js assume "snd (settleP ok p v w) = Inr js"
  then have "js = call_instrs (snd (settle ok v (w_heap w p)))" by (simp add: settleP_result)
  then show "tames K js" using s p settle_calls [of _ ok v w p] by (fastforce simp: sep_def)
qed

lemma keepK_register: "p \<notin> K \<Longrightarrow> cfine K c \<Longrightarrow> keepK K (tames K) (registerP ok p c)"
  unfolding keepK_def
proof (intro allI impI conjI)
  fix w assume p: "p \<notin> K" and c: "cfine K c" and s: "sep K w"
  show "sep K (fst (registerP ok p c w))"
    using s c callbacks_register [of ok p c w] by (fastforce simp: sep_def split: if_splits)
  show "same_on K w (fst (registerP ok p c w))" using p by (auto simp: same_on_def registerP_result)
  fix js assume "snd (registerP ok p c w) = Inr js"
  then have "js = call_instrs (snd (register ok c (w_heap w p)))" by (simp add: registerP_result)
  then show "tames K js" using c register_calls [of _ ok c "w_heap w p"] by fastforce
qed

lemma keepK_send:
  "(\<And>p. handler_pid h = Some p \<Longrightarrow> p \<notin> K) \<Longrightarrow> keepK K (\<lambda>_. True) (send_xhr h meth url hs b cr)"
  by (auto simp: keepK_def sep_def same_on_def send_xhr_def root_def callbacks_def)

lemma keepK_upd:
  "keepK K (\<lambda>_. True) (upd (emit x))"
  "(\<And>k. kc_hooks (f k) = kc_hooks k) \<Longrightarrow> keepK K (\<lambda>_. True) (upd (set_kc f))"
  "p \<notin> K \<Longrightarrow> keepK K (\<lambda>_. True) (upd (\<lambda>w. emit (g w) (w\<lparr>w_frames := w_frames w @ [p]\<rparr>)))"
  "p \<notin> K \<Longrightarrow> keepK K (\<lambda>_. True) (upd (set_lif (\<lambda>l. l\<lparr>li_callbackMap := (li_callbackMap l)(cid \<mapsto> p)\<rparr>)))"
  "keepK K (\<lambda>_. True) (upd (set_lif (\<lambda>l. l\<lparr>li_callbackMap := (li_callbackMap l)(cid := None)\<rparr>)))"
  "keepK K (\<lambda>_. True) (upd (\<lambda>w. set_lif (\<lambda>l. l\<lparr>li_iframeOrigin := h w, li_iframe := True\<rparr>) w))"
  "p \<notin> K \<Longrightarrow> window_pid kind = Some p \<or> window_pid kind = None \<Longrightarrow> keepK K (\<lambda>_. True) (open_window kind url feat)"
  by (auto simp: keepK_def sep_def same_on_def root_def callbacks_def open_window_def ran_def
      split: if_splits)

lemmas keepK_intros = keepK_ret keepK_raise keepK_upd keepK_stills keepK_new keepK_settle keepK_register
  keepK_send

section \<open>The operations\<close>

lemma keepK_any: "keepK K P m \<Longrightarrow> keepK K (\<lambda>_. True) m"
  by (rule keepK_weaken) simp_all

lemma keepK_then:
  "keepK K (\<lambda>_. True) m \<Longrightarrow> (\<And>x. keepK K Q (f x)) \<Longrightarrow> keepK K Q (bindJ m f)"
  by (rule keepK_bindJ)

lemma keepK_new_then: "(\<And>p. p \<notin> K \<Longrightarrow> keepK K Q (f p)) \<Longrightarrow> keepK K Q (bindJ new_promise f)"
  by (rule keepK_bindJ [OF keepK_new])

lemma keepK_settle_then:
  "p \<notin> K \<Longrightarrow> (\<And>js. tames K js \<Longrightarrow> keepK K Q (f js)) \<Longrightarrow> keepK K Q (bindJ (settleP ok p v) f)"
  by (rule keepK_bindJ [OF keepK_settle])

lemma keepK_register_then:
  "p \<notin> K \<Longrightarrow> cfine K c \<Longrightarrow> (\<And>js. tames K js \<Longrightarrow> keepK K Q (f js)) \<Longrightarrow> keepK K Q (bindJ (registerP ok p c) f)"
  by (rule keepK_bindJ [OF keepK_register])

lemma keepK_two:
  assumes "p \<notin> K" "cfine K c" "cfine K d"
  shows "keepK K (tames K) (bindJ (registerP a p c) (\<lambda>js1. bindJ (registerP b p d) (\<lambda>js2. ret (js1 @ js2))))"
  by (intro keepK_register_then assms keepK_ret) auto

lemmas keepK_seq = keepK_new_then keepK_settle_then keepK_register_then keepK_two
  keepK_then [OF keepK_asks] keepK_then [OF keepK_liftE] keepK_then [OF keepK_upd(1)]
  keepK_then [OF keepK_stills(1)] keepK_then [OF keepK_stills(2)] keepK_then [OF keepK_stills(3)]
  keepK_then [OF keepK_stills(4)] keepK_then [OF keepK_stills(5)] keepK_then [OF keepK_stills(6)]
  keepK_then [OF keepK_stills(7)] keepK_then [OF keepK_stills(8)] keepK_then [OF keepK_stills(9)]
  keepK_then [OF keepK_stills(10)] keepK_then [OF keepK_stills(11)] keepK_then [OF keepK_stills(12)]
  keepK_then [OF keepK_stills(13)] keepK_then [OF keepK_send] keepK_then [OF keepK_upd(2)]
  keepK_then [OF keepK_upd(3)] keepK_then [OF keepK_upd(4)] keepK_then [OF keepK_upd(5)]
  keepK_then [OF keepK_upd(6)] keepK_then [OF keepK_upd(7)]

lemma keepK_setup: "keepK K (\<lambda>r. \<forall>p. r = Some p \<longrightarrow> p \<notin> K) (setupCheckLoginIframe env)"
  unfolding setupCheckLoginIframe_def by (auto intro!: keepK_seq keepK_ret)

lemma keepK_check: "keepK K (\<lambda>p. p \<notin> K) (checkLoginIframe env)"
  unfolding checkLoginIframe_def by (auto intro!: keepK_seq keepK_ret)

lemma keepK_setToken: "keepK K (\<lambda>_. True) (setToken env t r)"
  unfolding setToken_def
  by (auto intro!: keepK_seq keepK_stills keepK_ret keepK_then [OF keepK_any [OF keepK_setup]]
      keepK_then [OF keepK_any])

lemma keepK_navigate: "keepK K (\<lambda>p. p \<notin> K) (navigate url)"
  unfolding navigate_def by (intro keepK_seq keepK_new)

lemma keepK_kc_login: "keepK K (\<lambda>p. p \<notin> K) (kc_login env opts)"
  unfolding kc_login_def default_login_def cordova_login_def
  by (auto intro!: keepK_seq keepK_navigate keepK_ret keepK_raise split: option.split adapter.split)

lemma keepK_kc_logout: "keepK K (\<lambda>p. p \<notin> K) (kc_logout env opts)"
  unfolding kc_logout_def default_logout_def cordova_logout_def
  by (auto intro!: keepK_seq keepK_navigate keepK_ret keepK_raise split: option.split adapter.split)

lemma keepK_doLogin: "ip \<notin> K \<Longrightarrow> keepK K (tames K) (doLogin env b ip)"
  unfolding doLogin_def by (rule keepK_bindJ [OF keepK_kc_login]) (auto intro!: keepK_seq keepK_ret)

lemma keepK_iframe_ready: "ip \<notin> K \<Longrightarrow> keepK K (tames K) (iframe_ready env ip)"
  unfolding iframe_ready_def by (rule keepK_bindJ [OF keepK_check]) (auto intro!: keepK_seq keepK_ret)

lemma keepK_check_sso: "ip \<notin> K \<Longrightarrow> keepK K (tames K) (check_sso env ip)"
  unfolding check_sso_def
  by (auto intro!: keepK_seq keepK_bindJ [OF keepK_setup] keepK_register keepK_raise keepK_doLogin
      split: option.split)

lemma keepK_processCallback: "ip \<notin> K \<Longrightarrow> keepK K (tames K) (processCallback env oa ip)"
  unfolding processCallback_def by (auto intro!: keepK_seq keepK_ret split: prod.split)

lemma keepK_processInit: "ip \<notin> K \<Longrightarrow> keepK K (tames K) (processInit env opts ip)"
  unfolding processInit_def
  by (auto intro!: keepK_seq keepK_ret keepK_raise keepK_processCallback keepK_then [OF keepK_setToken]
      keepK_check_sso keepK_doLogin split: option.split)

lemma keepK_loadConfig: "keepK K (\<lambda>p. p \<notin> K) (loadConfig env)"
  unfolding loadConfig_def Let_def by (auto intro!: keepK_seq keepK_ret keepK_raise split: option.split)

lemma keepK_kc_init: "keepK K (\<lambda>(p, js). p \<notin> K \<and> tames K js) (kc_init env opts)"
  unfolding kc_init_def
  by (auto intro!: keepK_seq keepK_ret keepK_bindJ [OF keepK_loadConfig])

lemma keepK_token_response: "keepK K (\<lambda>_. True) (token_response env body)"
  unfolding token_response_def by (intro keepK_seq keepK_setToken)

lemma keepK_clearToken: "keepK K (tames K) (clearToken env)"
  unfolding clearToken_def by (auto intro!: keepK_seq keepK_then [OF keepK_setToken] keepK_ret)

lemma keepK_relogin: "keepK K (\<lambda>_. True) (relogin env)"
  unfolding relogin_def by (auto intro!: keepK_seq keepK_then [OF keepK_any [OF keepK_kc_login]] keepK_ret)

lemma keepK_user_register:
  "p \<notin> K \<Longrightarrow> small f \<Longrightarrow> keepK K (tames K) (user_register ok p f)"
  unfolding user_register_def by (auto intro!: keepK_ret keepK_register split: option.split)

text \<open>An application whose functions neither call back into the object nor throw.\<close>

definition mute :: "env \<Rightarrow> bool" where
  "mute env \<longleftrightarrow> (\<forall>n v. script env n v = [])"

lemma mute_silent: "mute env \<Longrightarrow> silent env"
  by (simp add: mute_def silent_def)

lemma keepK_call_user: "mute env \<Longrightarrow> keepK K (\<lambda>js. js = []) (call_user env n v)"
  unfolding call_user_def mute_def by (auto intro!: keepK_seq keepK_ret)

lemma keepK_call_hook: "mute env \<Longrightarrow> keepK K (tames K) (call_hook env h v)"
  unfolding call_hook_def
  by (auto intro!: keepK_seq keepK_ret keepK_weaken [OF keepK_call_user] split: option.split)

lemma ran_disjoint: "ran f \<inter> K = {} \<Longrightarrow> f x = Some p \<Longrightarrow> p \<notin> K"
  by (auto simp: ran_def)

lemma keepK_message: "keepK K (tames K) (message_callback origin cid session loggedIn)"
  unfolding message_callback_def Let_def
  by (rule keepK_bindJ [OF keepK_asks_lif]) (auto intro!: keepK_seq keepK_ret split: option.split, (metis ran_disjoint)+)

lemma keepK_iframe_onload: "p \<notin> K \<Longrightarrow> keepK K (tames K) (iframe_onload env p)"
  unfolding iframe_onload_def by (intro keepK_seq keepK_settle)

lemma keepK_check_timer: "keepK K (\<lambda>_. True) (check_timer env)"
  unfolding check_timer_def
  by (auto intro!: keepK_then [OF keepK_any [OF keepK_check]] keepK_seq keepK_ret keepK_stills)

lemma keepK_on_response:
  assumes "h \<noteq> XRefresh" and "\<And>p. handler_pid h = Some p \<Longrightarrow> p \<notin> K"
  shows "keepK K (tames K) (on_response env h status body)"
  using assms
  by (cases h) (auto intro!: keepK_seq keepK_ret
      simp: config_response_def code_response_def profile_response_def)

lemma keepK_call_api: "calls_fine a \<Longrightarrow> keepK K (tames K) (call_api env a)"
proof (cases a)
  case (AInit opts f g)
  assume "calls_fine a"
  then show ?thesis unfolding AInit call_api.simps
    by (intro keepK_bindJ [OF keepK_kc_init]) (auto intro!: keepK_ret)
next
  case (ALogout opts f g)
  assume "calls_fine a"
  then show ?thesis unfolding ALogout call_api.simps
    by (intro keepK_bindJ [OF keepK_kc_logout]) (auto intro!: keepK_ret simp: ALogout)
qed simp_all

text \<open>Every tame instruction but the two that settle a promise of \<open>K\<close> respects it.\<close>

fun settles_own :: "pid set \<Rightarrow> instr \<Rightarrow> bool" where
  "settles_own K (Invoke (ExecUpdate p m) v) = True"
| "settles_own K (Invoke (SetErr p) v) = (p \<in> K)"
| "settles_own K _ = False"

lemma keepK_call_cont:
  assumes "mute env" and "cfine K c" and "\<not> settles_own K (Invoke c v)"
  shows "keepK K (tames K) (call_cont env c v)"
  using assms
  by (cases c) (auto intro!: keepK_weaken [OF keepK_call_user] keepK_settle keepK_seq keepK_ret
      keepK_processInit keepK_iframe_ready keepK_doLogin)

lemma keepK_step:
  assumes "mute env" and "tame K i" and "\<not> settles_own K i"
  shows "keepK K (tames K) (step env i)"
proof (cases i)
  case (UserReg p f g)
  then have "keepK K (tames K) (user_register b p h)" if "h \<in> {f, g}" for b h
    using that assms(2) by (auto intro!: keepK_user_register)
  then show ?thesis unfolding UserReg step.simps
    by (intro keepK_bindJ [of K "tames K"]) (auto intro!: keepK_ret)
qed (use assms in \<open>auto intro!: keepK_call_cont keepK_call_api keepK_call_hook keepK_settle keepK_seq
    keepK_then [OF keepK_token_response] keepK_then [OF keepK_relogin] keepK_clearToken keepK_ret
    keepK_raise keepK_message keepK_on_response keepK_iframe_onload keepK_then [OF keepK_check_timer]\<close>)

section \<open>The promises of the callers\<close>

lemma keepK_D:
  assumes "keepK K Q m" and "sep K w" and "m w = (w', r)"
  shows "sep K w'" "same_on K w w'" "r = Inr x \<Longrightarrow> Q x"
  using assms by (auto simp: keepK_def dest!: spec [of _ w])

text \<open>What \<open>exec\<close> does: answer when the token lasts five seconds more, or queue the promise.\<close>

lemma exec_update_outcome:
  assumes "exec_update env p m w = (w', r)" and "sep K w" and "p \<in> K"
  shows "isTokenExpired env (Some m) w = Inr False
        \<and> w' = fst (settleP True p (Bool False) w) \<and> r = Inr (call_instrs (snd (settle True (Bool False) (w_heap w p))))
      \<or> sep K w' \<and> w_heap w' = w_heap w \<and> kc w' = kc w \<and> w_now w' = w_now w
        \<and> (r = Inr [] \<or> (\<exists>e. r = Inl e))"
proof -
  have "sep K (w\<lparr>w_refreshQueue := w_refreshQueue w @ [p]\<rparr>)"
    using assms(2,3) by (simp add: sep_def root_def)
  moreover have "sep K (emit x (w\<lparr>w_refreshQueue := [p], w_xhrs := w_xhrs w @ [(n, XRefresh)], w_nextx := k\<rparr>))"
    for x n k
    using assms(2,3) by (auto simp: sep_def root_def)
  ultimately show ?thesis
    using assms(1,2)
    by (auto simp: exec_update_def send_xhr_def settleP_result split: sum.splits prod.splits if_splits)
qed

lemma sep_settle: "sep K w \<Longrightarrow> sep K (fst (settleP ok p v w))"
  by (simp add: sep_def callbacks_settle)

end
