(* ===== verification/Admin_Base.thy ===== *)
theory Admin_Base
  imports Prelude "HOL-Library.Word"
begin

text \<open>
  What the admin console (\<open>theme/admin/base/resources/js\<close>) shares: objects as lists of
  fields, the arithmetic of the language on their values, and \<open>angular.equals\<close>, which the
  forms use to see whether something was edited.  An object that came from the server or from
  a form is a list of fields without repeated names; \<open>angular.copy\<close> is the identity on values.
\<close>

section \<open>Objects\<close>

type_synonym fields = "(string \<times> jsval) list"

definition getf :: "fields \<Rightarrow> string \<Rightarrow> jsval" where
  "getf r k = (case map_of r k of None \<Rightarrow> Undefined | Some v \<Rightarrow> v)"

definition setf :: "string \<Rightarrow> jsval \<Rightarrow> fields \<Rightarrow> fields" where
  "setf k v r = AList.update k v r"

definition delf :: "string \<Rightarrow> fields \<Rightarrow> fields" where
  "delf k r = AList.delete k r"

lemma getf_setf [simp]: "getf (setf k v r) j = (if j = k then v else getf r j)"
  by (simp add: getf_def setf_def update_conv')

lemma getf_delf [simp]: "getf (delf k r) j = (if j = k then Undefined else getf r j)"
  by (simp add: getf_def delf_def delete_conv')

lemma getf_Nil [simp]: "getf [] k = Undefined"
  by (simp add: getf_def)

lemma getf_Cons [simp]: "getf ((j, v) # r) k = (if k = j then v else getf r k)"
  by (simp add: getf_def)

lemma setf_same: "getf r k = v \<Longrightarrow> v \<noteq> Undefined \<Longrightarrow> setf k v r = r"
  by (induction r) (auto simp: getf_def setf_def split: if_splits option.splits)

lemma distinct_setf: "distinct (map fst r) \<Longrightarrow> distinct (map fst (setf k v r))"
  by (simp add: setf_def distinct_update)

lemma set_setf: "set (setf k v r) \<subseteq> insert (k, v) (set r)"
  by (induction r) (auto simp: setf_def)

lemma getp_Obj: "getp (Obj r) k = Inr (getf r k)"
  by (simp add: getf_def)

text \<open>Property read \<open>v[k]\<close> where the sources have made sure that \<open>v\<close> is an object.\<close>

fun fields_of :: "jsval \<Rightarrow> fields" where
  "fields_of (Obj r) = r"
| "fields_of v = []"

section \<open>Arithmetic\<close>

text \<open>The conversions between strings and numbers, which the language defines.\<close>

record conv =
  to_number :: "string \<Rightarrow> rat option"
  to_string :: "rat \<Rightarrow> string"

definition num :: "conv \<Rightarrow> jsval \<Rightarrow> rat option" where
  "num cv = js_tonum (to_number cv) (to_string cv)"

definition of_num :: "rat option \<Rightarrow> jsval" where
  "of_num x = (case x of None \<Rightarrow> NaN | Some r \<Rightarrow> Num r)"

definition str :: "conv \<Rightarrow> jsval \<Rightarrow> string" where
  "str cv = js_str (to_string cv)"

lemma num_simps [simp]:
  "num cv (Num r) = Some r" "num cv NaN = None" "num cv Undefined = None" "num cv Null = Some 0"
  by (simp_all add: num_def)

lemma of_num_simps [simp]: "of_num None = NaN" "of_num (Some r) = Num r"
  by (simp_all add: of_num_def)

lemma num_of_num [simp]: "num cv (of_num x) = x"
  by (cases x) simp_all

lemma str_Str [simp]: "str cv (Str s) = s"
  by (simp add: str_def)

text \<open>\<open>x == 0\<close> and \<open>x % m\<close> for a positive \<open>m\<close>; the remainder has the sign of \<open>x\<close>.\<close>

definition js_mod :: "rat \<Rightarrow> rat \<Rightarrow> rat" where
  "js_mod x m = (if 0 \<le> x then x - m * of_int \<lfloor>x / m\<rfloor> else x - m * of_int \<lceil>x / m\<rceil>)"

lemma js_mod_eq_0_iff:
  assumes "0 < m"
  shows "js_mod x m = 0 \<longleftrightarrow> (\<exists>k::int. x = m * of_int k)"
  using assms by (auto simp: js_mod_def)

lemma js_mod_of_int [simp]: "js_mod (of_int t) 60 = 0 \<longleftrightarrow> t mod 60 = 0"
  "js_mod (of_int t) 24 = 0 \<longleftrightarrow> t mod 24 = 0"
proof -
  have *: "(\<exists>k. (of_int t :: rat) = of_int m * of_int k) \<longleftrightarrow> t mod m = 0" for m :: int
    by (metis dvd_def dvd_eq_mod_eq_0 of_int_eq_iff of_int_mult)
  show "js_mod (of_int t) 60 = 0 \<longleftrightarrow> t mod 60 = 0" using * [of 60] by (simp add: js_mod_eq_0_iff)
  show "js_mod (of_int t) 24 = 0 \<longleftrightarrow> t mod 24 = 0" using * [of 24] by (simp add: js_mod_eq_0_iff)
qed

section \<open>\<open>angular.equals\<close>\<close>

text \<open>
  Deep equality: fields whose name starts with a dollar sign are skipped, a missing field equals
  one that is \<open>undefined\<close>, and \<open>NaN\<close> equals \<open>NaN\<close>.
\<close>

definition dollar :: "string \<Rightarrow> bool" where
  "dollar k \<longleftrightarrow> take 1 k = ''$''"

fun equals :: "jsval \<Rightarrow> jsval \<Rightarrow> bool"
  and equals_list :: "jsval list \<Rightarrow> jsval list \<Rightarrow> bool"
  and equals_fields :: "fields \<Rightarrow> fields \<Rightarrow> bool" where
  "equals (Obj r) (Obj s) =
     (equals_fields r s \<and> list_all (\<lambda>(k, v). dollar k \<or> v = Undefined \<or> k \<in> set (map fst r)) s)"
| "equals (Arr xs) (Arr ys) = equals_list xs ys"
| "equals v w = (v = w)"
| "equals_list [] [] = True"
| "equals_list (x # xs) (y # ys) = (equals x y \<and> equals_list xs ys)"
| "equals_list xs ys = False"
| "equals_fields [] s = True"
| "equals_fields ((k, v) # r) s = ((dollar k \<or> equals v (getf s k)) \<and> equals_fields r s)"

fun distinct_fields :: "jsval \<Rightarrow> bool" where
  "distinct_fields (Obj r) = (distinct (map fst r) \<and> list_all (\<lambda>(k, v). distinct_fields v) r)"
| "distinct_fields (Arr xs) = list_all distinct_fields xs"
| "distinct_fields v = True"

declare equals.simps(1) [simp del]

lemma distinct_fields_setf:
  "distinct_fields (Obj r) \<Longrightarrow> distinct_fields v \<Longrightarrow> distinct_fields (Obj (setf k v r))"
  using set_setf [of k v r] distinct_setf [of r k v] by (fastforce simp: list_all_iff)

lemma distinct_fields_getf: "distinct_fields (Obj r) \<Longrightarrow> distinct_fields (getf r k)"
  by (auto simp: getf_def list_all_iff split: option.split dest!: map_of_SomeD)

lemma equals_fieldsI:
  "(\<And>k v. (k, v) \<in> set r \<Longrightarrow> dollar k \<or> equals v (getf s k)) \<Longrightarrow> equals_fields r s"
  by (induction r) auto

lemma equals_refl: "distinct_fields v \<Longrightarrow> equals v v"
proof (induction v)
  case (Arr xs)
  have "list_all distinct_fields ys \<Longrightarrow> (\<And>y. y \<in> set ys \<Longrightarrow> distinct_fields y \<Longrightarrow> equals y y)
      \<Longrightarrow> equals_list ys ys" for ys
    by (induction ys) auto
  then show ?case using Arr by simp
next
  case (Obj r)
  have dist: "distinct (map fst r)" using Obj.prems by simp
  have "equals v (getf r k)" if kv: "(k, v) \<in> set r" for k v
  proof -
    have "getf r k = v" using kv dist by (simp add: getf_def)
    moreover have "distinct_fields v" using Obj.prems kv by (auto simp: list_all_iff)
    moreover have "v \<in> Basic_BNFs.snds (k, v)" by simp
    ultimately show ?thesis using Obj.IH [OF kv] by simp
  qed
  then have "equals_fields r r" by (blast intro: equals_fieldsI)
  then show ?case by (force simp: list_all_iff equals.simps)
qed simp_all

section \<open>What the controllers do\<close>

text \<open>
  A request through a resource object: the resource, its action, the parameters of the call and
  the body; a call of \<open>$http\<close> has the method and the url.  The other effects are the ones of
  \<open>Notifications\<close>, \<open>$location.url\<close>, \<open>$route.reload\<close> and \<open>Dialog\<close>.
\<close>

datatype request =
    Rest string string fields jsval
  | Http string string jsval

datatype ceffect =
    Ask request
  | Success string
  | Failure string
  | GoTo string
  | Reload
  | Confirm string string string

section \<open>Edit forms\<close>

text \<open>
  The realm forms keep \<open>$scope.realm\<close>, its copy \<open>oldCopy\<close> and the flag \<open>$scope.changed\<close> that
  enables the buttons.  The deep watch on \<open>realm\<close> runs in every digest after an edit.
\<close>

record form =
  fm_scope :: fields
  fm_old :: fields
  fm_changed :: bool

definition watch_scope :: "form \<Rightarrow> form" where
  "watch_scope f =
     (if \<not> equals (Obj (fm_scope f)) (Obj (fm_old f)) then f\<lparr>fm_changed := True\<rparr> else f)"

definition edit_form :: "fields \<Rightarrow> form \<Rightarrow> form" where
  "edit_form r f = watch_scope (f\<lparr>fm_scope := r\<rparr>)"

definition reset_form :: "form \<Rightarrow> form" where
  "reset_form f = f\<lparr>fm_scope := fm_old f, fm_changed := False\<rparr>"

lemma watch_scope_simps [simp]:
  "fm_scope (watch_scope f) = fm_scope f" "fm_old (watch_scope f) = fm_old f"
  "fm_changed (watch_scope f) =
     (fm_changed f \<or> \<not> equals (Obj (fm_scope f)) (Obj (fm_old f)))"
  by (simp_all add: watch_scope_def)

text \<open>
  The contract of an edit form: whatever edits and resets happen, a form that does not show as
  changed shows what \<open>reset\<close> would restore, so no edit can be lost unnoticed.
\<close>

locale edit_contract =
  fixes shown :: "'s \<Rightarrow> jsval"
    and pristine :: "'s \<Rightarrow> jsval"
    and dirty :: "'s \<Rightarrow> bool"
    and edit :: "'e \<Rightarrow> 's \<Rightarrow> 's"
    and reset :: "'s \<Rightarrow> 's"
  assumes edit_pristine: "pristine (edit e s) = pristine s"
    and edit_dirty: "\<not> equals (shown (edit e s)) (pristine s) \<Longrightarrow> dirty (edit e s)"
    and edit_keeps_dirty: "dirty s \<Longrightarrow> dirty (edit e s)"
    and reset_shown: "shown (reset s) = pristine s"
    and reset_pristine: "pristine (reset s) = pristine s"
    and reset_dirty: "\<not> dirty (reset s)"
begin

fun act :: "'e option \<Rightarrow> 's \<Rightarrow> 's" where
  "act (Some e) s = edit e s"
| "act None s = reset s"

definition settled :: "'s \<Rightarrow> bool" where
  "settled s \<longleftrightarrow> dirty s \<or> equals (shown s) (pristine s)"

lemma act_settled: "distinct_fields (pristine s) \<Longrightarrow> settled (act a s)"
  by (cases a) (auto simp: settled_def edit_pristine reset_shown reset_pristine
    intro: edit_dirty equals_refl)

lemma act_pristine: "pristine (act a s) = pristine s"
  by (cases a) (simp_all add: edit_pristine reset_pristine)

lemma fold_pristine: "pristine (fold act as s) = pristine s"
  by (induction as arbitrary: s) (simp_all add: act_pristine)

lemma no_silent_edit:
  assumes "distinct_fields (pristine s)" and "settled s"
  shows "dirty (fold act as s) \<or> equals (shown (fold act as s)) (pristine s)"
  using assms
proof (induction as arbitrary: s)
  case Nil
  then show ?case by (simp add: settled_def)
next
  case (Cons a as)
  then show ?case using Cons.IH [of "act a s"] by (simp add: act_pristine act_settled)
qed

lemma edit_then_reset: "shown (reset (fold act as s)) = pristine s"
  by (simp add: reset_shown fold_pristine)

end

interpretation realm_form: edit_contract "\<lambda>f. Obj (fm_scope f)" "\<lambda>f. Obj (fm_old f)" fm_changed
  edit_form reset_form
  by unfold_locales (simp_all add: edit_form_def reset_form_def)

end
