(* ===== verification/Admin_Http.thy ===== *)
theory Admin_Http
  imports Admin_Base
begin

text \<open>
  Every request of the console goes through the interceptors of \<open>app.js\<close>: \<open>authInterceptor\<close>
  refreshes the token and adds it, \<open>spinnerFunction\<close> and \<open>spinnerInterceptor\<close> count the requests
  under way and show the spinner while there are any, \<open>errorInterceptor\<close> turns a failure into a
  notification.  \<open>Notifications\<close> (\<open>services.js\<close>) shows one message at a time for five seconds.
\<close>

section \<open>Notifications\<close>

record notification =
  nt_type :: string
  nt_header :: string
  nt_message :: string

text \<open>
  \<open>timers\<close> are the timeouts of the page that have neither fired nor been cancelled, with the time
  at which they fire.
\<close>

record notifier =
  nf_shown :: "notification option"
  nf_scheduled :: "nat option"
  nf_timers :: "(nat \<times> int) list"
  nf_next :: nat
  nf_now :: int

definition delay :: int where
  "delay = 5000"

definition new_notifier :: notifier where
  "new_notifier = \<lparr>nf_shown = None, nf_scheduled = None, nf_timers = [], nf_next = 0, nf_now = 0\<rparr>"

definition schedulePop :: "notifier \<Rightarrow> notifier" where
  "schedulePop n =
     (let timers = (case nf_scheduled n of
                      None \<Rightarrow> nf_timers n
                    | Some s \<Rightarrow> filter (\<lambda>t. fst t \<noteq> s) (nf_timers n))
      in n\<lparr>nf_timers := timers @ [(nf_next n, nf_now n + delay)],
           nf_scheduled := Some (nf_next n), nf_next := Suc (nf_next n)\<rparr>)"

definition notify :: "string \<Rightarrow> string \<Rightarrow> string \<Rightarrow> notifier \<Rightarrow> notifier" where
  "notify type header msg n =
     schedulePop (n\<lparr>nf_shown := Some \<lparr>nt_type = type, nt_header = header, nt_message = msg\<rparr>\<rparr>)"

definition notify_info :: "string \<Rightarrow> notifier \<Rightarrow> notifier" where
  "notify_info msg = notify ''info'' ''Info!'' msg"

definition notify_success :: "string \<Rightarrow> notifier \<Rightarrow> notifier" where
  "notify_success msg = notify ''success'' ''Success!'' msg"

definition notify_error :: "string \<Rightarrow> notifier \<Rightarrow> notifier" where
  "notify_error msg = notify ''danger'' ''Error!'' msg"

definition notify_warn :: "string \<Rightarrow> notifier \<Rightarrow> notifier" where
  "notify_warn msg = notify ''warning'' ''Warning!'' msg"

text \<open>The function given to \<open>$timeout\<close>, and time passing: every timeout that is due fires.\<close>

definition pop_notification :: "notifier \<Rightarrow> notifier" where
  "pop_notification n = n\<lparr>nf_shown := None, nf_scheduled := None\<rparr>"

fun fire_due :: "(nat \<times> int) list \<Rightarrow> notifier \<Rightarrow> notifier" where
  "fire_due [] n = n"
| "fire_due (t # ts) n = fire_due ts (pop_notification (n\<lparr>nf_timers := removeAll t (nf_timers n)\<rparr>))"

definition pass_time :: "nat \<Rightarrow> notifier \<Rightarrow> notifier" where
  "pass_time d n =
     (let n' = n\<lparr>nf_now := nf_now n + int d\<rparr>
      in fire_due (filter (\<lambda>t. snd t \<le> nf_now n') (nf_timers n')) n')"

datatype nuse = Message string string string | Pass nat

fun nuse1 :: "nuse \<Rightarrow> notifier \<Rightarrow> notifier" where
  "nuse1 (Message t h m) n = notify t h m n"
| "nuse1 (Pass d) n = pass_time d n"

text \<open>
  What should be on screen: the last message, if less than five seconds have passed since it was
  given.  The specification reads the history backwards: \<open>age\<close> is the time passed since.
\<close>

fun on_screen :: "int \<Rightarrow> nuse list \<Rightarrow> notification option" where
  "on_screen age [] = None"
| "on_screen age (Pass d # us) = on_screen (age + int d) us"
| "on_screen age (Message t h m # us) =
     (if age < delay then Some \<lparr>nt_type = t, nt_header = h, nt_message = m\<rparr> else None)"

definition notifier_ok :: "notifier \<Rightarrow> bool" where
  "notifier_ok n \<longleftrightarrow>
     (case nf_scheduled n of
        None \<Rightarrow> nf_timers n = [] \<and> nf_shown n = None
      | Some s \<Rightarrow> (\<exists>due. nf_timers n = [(s, due)] \<and> nf_now n < due) \<and> nf_shown n \<noteq> None)"

lemma notify_result:
  assumes "notifier_ok n"
  shows "notify t h m n =
    \<lparr>nf_shown = Some \<lparr>nt_type = t, nt_header = h, nt_message = m\<rparr>, nf_scheduled = Some (nf_next n),
     nf_timers = [(nf_next n, nf_now n + delay)], nf_next = Suc (nf_next n), nf_now = nf_now n\<rparr>"
  using assms by (auto simp: notify_def schedulePop_def notifier_ok_def split: option.splits)

lemma notify_ok: "notifier_ok n \<Longrightarrow> notifier_ok (notify t h m n)"
  by (simp add: notify_result) (simp add: notifier_ok_def delay_def)

lemma pass_time_result:
  assumes "notifier_ok n"
  shows "pass_time d n =
    (if \<exists>s due. nf_timers n = [(s, due)] \<and> due \<le> nf_now n + int d
     then n\<lparr>nf_now := nf_now n + int d, nf_timers := [], nf_shown := None, nf_scheduled := None\<rparr>
     else n\<lparr>nf_now := nf_now n + int d\<rparr>)"
  using assms
  by (auto simp: pass_time_def notifier_ok_def pop_notification_def Let_def split: option.splits)

lemma pass_time_ok: "notifier_ok n \<Longrightarrow> notifier_ok (pass_time d n)"
  by (auto simp: pass_time_result) (auto simp: notifier_ok_def split: option.splits)

text \<open>The screen and the timer together, as a history with its last message \<open>age\<close> ago leaves them.\<close>

definition shows_history :: "nuse list \<Rightarrow> notifier \<Rightarrow> bool" where
  "shows_history h n \<longleftrightarrow> notifier_ok n
     \<and> (\<forall>d. on_screen (int d) h =
          (case nf_timers n of
             [] \<Rightarrow> None
           | (s, due) # ts \<Rightarrow> if nf_now n + int d < due then nf_shown n else None))"

lemma shows_history_Nil: "shows_history [] new_notifier"
  by (simp add: shows_history_def new_notifier_def notifier_ok_def)

lemma shows_history_Cons: "shows_history h n \<Longrightarrow> shows_history (u # h) (nuse1 u n)"
proof (cases u)
  case (Message t hd m)
  then show "shows_history h n \<Longrightarrow> ?thesis"
    by (auto simp: shows_history_def notify_ok) (auto simp: notify_result)
next
  case (Pass d)
  assume *: "shows_history h n"
  then have ok: "notifier_ok n" by (simp add: shows_history_def)
  have "on_screen (int e + int d) h =
      (case nf_timers n of
         [] \<Rightarrow> None
       | (s, due) # ts \<Rightarrow> if nf_now n + int (e + d) < due then nf_shown n else None)" for e
    using * unfolding shows_history_def by (metis of_nat_add)
  then show ?thesis
    using ok pass_time_ok [OF ok, of d] Pass
    by (auto simp: shows_history_def pass_time_result [OF ok] algebra_simps split: list.splits)
qed

text \<open>After any sequence of messages and pauses the console shows the last message exactly while
  less than five seconds have passed since it was given, with one timeout scheduled while a message
  is shown and none otherwise.\<close>

theorem notification_shown:
  shows "nf_shown (foldr nuse1 h new_notifier) = on_screen 0 h
    \<and> length (nf_timers (foldr nuse1 h new_notifier)) = (if on_screen 0 h = None then 0 else 1)"
proof -
  have "shows_history h (foldr nuse1 h new_notifier)"
    by (induction h) (simp_all add: shows_history_Nil shows_history_Cons)
  then have "notifier_ok (foldr nuse1 h new_notifier)"
    and "on_screen (int 0) h = (case nf_timers (foldr nuse1 h new_notifier) of
       [] \<Rightarrow> None
     | (s, due) # ts \<Rightarrow>
         if nf_now (foldr nuse1 h new_notifier) + int 0 < due
         then nf_shown (foldr nuse1 h new_notifier) else None)"
    by (simp_all only: shows_history_def)
  then show ?thesis by (auto simp: notifier_ok_def split: option.splits)
qed

section \<open>Requests\<close>

text \<open>
  A request waits for \<open>updateToken\<close>, is stuck when its promise is never resolved, is under way
  once it has been sent, and is done when its response has come.
\<close>

datatype phase = Waiting | Stuck | UnderWay | Done

datatype heffect =
    HSend string "string option"     \<comment> \<open>url, Authorization header\<close>
  | HReload
  | HLogout
  | HError string

record http =
  h_token :: jsval
  h_reqs :: "(string \<times> phase) list"
  h_requests :: int
  h_timer :: int
  h_pending :: "int list"
  h_next :: int
  h_loading :: bool
  h_log :: "heffect list"

definition new_http :: "jsval \<Rightarrow> http" where
  "new_http token = \<lparr>h_token = token, h_reqs = [], h_requests = 0, h_timer = -1, h_pending = [],
     h_next = 1, h_loading = False, h_log = []\<rparr>"

text \<open>\<open>url.match(/.html$/)\<close>: the dot is any character but the end of a line.\<close>

definition matches_html :: "string \<Rightarrow> bool" where
  "matches_html url \<longleftrightarrow> 5 \<le> length url \<and> drop (length url - 4) url = ''html''
     \<and> url ! (length url - 5) \<notin> {CHR 0x0A, CHR 0x0D}"

definition hlog :: "heffect \<Rightarrow> http \<Rightarrow> http" where
  "hlog e s = s\<lparr>h_log := h_log s @ [e]\<rparr>"

definition set_phase :: "nat \<Rightarrow> phase \<Rightarrow> http \<Rightarrow> http" where
  "set_phase i p s = s\<lparr>h_reqs := (h_reqs s)[i := (fst (h_reqs s ! i), p)]\<rparr>"

definition phase_of :: "http \<Rightarrow> nat \<Rightarrow> phase option" where
  "phase_of s i = (if i < length (h_reqs s) then Some (snd (h_reqs s ! i)) else None)"

section \<open>The spinner\<close>

definition spinnerFunction :: "http \<Rightarrow> http" where
  "spinnerFunction s =
     (let s' = (if h_requests s = 0
                then s\<lparr>h_timer := h_next s, h_pending := h_pending s @ [h_next s], h_next := h_next s + 1\<rparr>
                else s)
      in s'\<lparr>h_requests := h_requests s' + 1\<rparr>)"

definition loading_timeout :: "http \<Rightarrow> http" where
  "loading_timeout s = s\<lparr>h_loading := True, h_timer := -1\<rparr>"

definition spinnerInterceptor :: "http \<Rightarrow> http" where
  "spinnerInterceptor s =
     (let s' = s\<lparr>h_requests := h_requests s - 1\<rparr>
      in if h_requests s' = 0
         then (let s'' = (if h_timer s' \<noteq> -1
                          then s'\<lparr>h_pending := removeAll (h_timer s') (h_pending s'), h_timer := -1\<rparr>
                          else s')
               in s''\<lparr>h_loading := False\<rparr>)
         else s')"

section \<open>Authorization and errors\<close>

text \<open>
  \<open>authInterceptor\<close>: a template goes out as it is; any other request waits for \<open>updateToken\<close>, and
  without a token its promise is never resolved.
\<close>

definition authInterceptor :: "string \<Rightarrow> http \<Rightarrow> phase" where
  "authInterceptor url s =
     (if \<not> matches_html url then (if truthy (h_token s) then Waiting else Stuck) else UnderWay)"

definition bearer :: "conv \<Rightarrow> http \<Rightarrow> string" where
  "bearer cv s = ''Bearer '' @ str cv (h_token s)"

definition errorInterceptor :: "nat \<Rightarrow> string option \<Rightarrow> heffect list" where
  "errorInterceptor status errorMessage =
     (if status = 401 then [HLogout]
      else if status = 403 then [HError ''Forbidden'']
      else if status = 404 then [HError ''Not found'']
      else if status \<noteq> 0 then
        (case errorMessage of
           Some msg \<Rightarrow> if msg \<noteq> [] then [HError msg] else [HError ''An unexpected server error has occurred'']
         | None \<Rightarrow> [HError ''An unexpected server error has occurred''])
      else [])"

section \<open>Events\<close>

datatype hevent =
    HRequest string
  | HTokenOk nat
  | HTokenError nat
  | HResponse nat bool nat "string option"     \<comment> \<open>request, success, status, \<open>data.errorMessage\<close>\<close>
  | HTimeout int
  | HToken jsval

fun hstep :: "conv \<Rightarrow> hevent \<Rightarrow> http \<Rightarrow> http" where
  "hstep cv (HRequest url) s =
     (let p = authInterceptor url s; s' = s\<lparr>h_reqs := h_reqs s @ [(url, p)]\<rparr>
      in if p = UnderWay then hlog (HSend url None) (spinnerFunction s') else s')"
| "hstep cv (HTokenOk i) s =
     (if phase_of s i = Some Waiting
      then hlog (HSend (fst (h_reqs s ! i)) (Some (bearer cv s))) (spinnerFunction (set_phase i UnderWay s))
      else s)"
| "hstep cv (HTokenError i) s =
     (if phase_of s i = Some Waiting then hlog HReload (set_phase i Stuck s) else s)"
| "hstep cv (HResponse i ok status msg) s =
     (if phase_of s i = Some UnderWay
      then spinnerInterceptor (fold hlog (if ok then [] else errorInterceptor status msg) (set_phase i Done s))
      else s)"
| "hstep cv (HTimeout t) s =
     (if t \<in> set (h_pending s) then loading_timeout (s\<lparr>h_pending := removeAll t (h_pending s)\<rparr>) else s)"
| "hstep cv (HToken token) s = s\<lparr>h_token := token\<rparr>"

definition hrun :: "conv \<Rightarrow> hevent list \<Rightarrow> http \<Rightarrow> http" where
  "hrun cv es s = fold (hstep cv) es s"

definition under_way :: "http \<Rightarrow> nat" where
  "under_way s = length (filter (\<lambda>r. snd r = UnderWay) (h_reqs s))"

text \<open>
  The counter is the number of requests under way; the spinner is hidden and no timer runs when it
  is 0, and otherwise either the timer that will show it runs or it is shown.
\<close>

definition spinner_ok :: "http \<Rightarrow> bool" where
  "spinner_ok s \<longleftrightarrow> h_requests s = int (under_way s) \<and> 0 < h_next s
     \<and> (if h_requests s = 0 then h_timer s = -1 \<and> h_pending s = [] \<and> \<not> h_loading s
        else h_timer s = -1 \<and> h_pending s = [] \<and> h_loading s
          \<or> 0 < h_timer s \<and> h_pending s = [h_timer s] \<and> \<not> h_loading s)"

definition sends_ok :: "heffect \<Rightarrow> bool" where
  "sends_ok e = (case e of HSend url a \<Rightarrow> matches_html url \<longleftrightarrow> a = None | _ \<Rightarrow> True)"

lemma hlog_simps [simp]:
  "h_token (hlog e s) = h_token s" "h_reqs (hlog e s) = h_reqs s" "h_requests (hlog e s) = h_requests s"
  "h_timer (hlog e s) = h_timer s" "h_pending (hlog e s) = h_pending s" "h_next (hlog e s) = h_next s"
  "h_loading (hlog e s) = h_loading s" "h_log (hlog e s) = h_log s @ [e]"
  by (simp_all add: hlog_def)

lemma under_way_hlog [simp]: "under_way (hlog e s) = under_way s"
  by (simp add: under_way_def)

lemma fold_hlog: "fold hlog es s = s\<lparr>h_log := h_log s @ es\<rparr>"
  by (induction es arbitrary: s) (simp_all add: hlog_def)

lemma spinner_ok_hlog [simp]: "spinner_ok (hlog e s) = spinner_ok s"
  by (simp add: spinner_ok_def under_way_def)

lemma filter_update:
  assumes "i < length xs"
  shows "length (filter P (xs[i := x])) + (if P (xs ! i) then 1 else 0) =
    length (filter P xs) + (if P x then 1 else 0)"
  using assms
proof (induction xs arbitrary: i)
  case Nil
  then show ?case by simp
next
  case (Cons y ys)
  show ?case
  proof (cases i)
    case 0
    then show ?thesis by simp
  next
    case (Suc j)
    then show ?thesis using Cons.IH [of j] Cons.prems by auto
  qed
qed

lemma under_way_set_phase:
  assumes "phase_of s i = Some q"
  shows "int (under_way (set_phase i p s)) =
    int (under_way s) + (if p = UnderWay then 1 else 0) - (if q = UnderWay then 1 else 0)"
proof -
  have i: "i < length (h_reqs s)" "snd (h_reqs s ! i) = q"
    using assms by (auto simp: phase_of_def split: if_splits)
  have "under_way (set_phase i p s) + (if q = UnderWay then 1 else 0)
      = under_way s + (if p = UnderWay then 1 else 0)"
    using filter_update [OF i(1), of "\<lambda>r. snd r = UnderWay" "(fst (h_reqs s ! i), p)"] i(2)
    by (simp add: under_way_def set_phase_def)
  then show ?thesis by (simp split: if_splits)
qed

lemma under_way_pos:
  assumes "phase_of s i = Some UnderWay"
  shows "0 < under_way s"
proof -
  have "h_reqs s ! i \<in> set (filter (\<lambda>r. snd r = UnderWay) (h_reqs s))"
    using assms by (auto simp: phase_of_def split: if_splits)
  then show ?thesis unfolding under_way_def by (rule length_pos_if_in_set)
qed

lemma set_phase_simps [simp]:
  "h_token (set_phase i p s) = h_token s" "h_requests (set_phase i p s) = h_requests s"
  "h_timer (set_phase i p s) = h_timer s" "h_pending (set_phase i p s) = h_pending s"
  "h_next (set_phase i p s) = h_next s" "h_loading (set_phase i p s) = h_loading s"
  "h_log (set_phase i p s) = h_log s"
  by (simp_all add: set_phase_def)

lemma spinnerFunction_ok:
  assumes "int (under_way s) = h_requests s + 1" and "0 \<le> h_requests s" and "0 < h_next s"
    and "if h_requests s = 0 then h_timer s = -1 \<and> h_pending s = [] \<and> \<not> h_loading s
      else h_timer s = -1 \<and> h_pending s = [] \<and> h_loading s
        \<or> 0 < h_timer s \<and> h_pending s = [h_timer s] \<and> \<not> h_loading s"
  shows "spinner_ok (spinnerFunction s)"
  using assms by (auto simp: spinner_ok_def spinnerFunction_def under_way_def Let_def)

lemma spinnerInterceptor_ok:
  assumes "int (under_way s) = h_requests s - 1" and "0 < h_requests s" and "0 < h_next s"
    and "h_timer s = -1 \<and> h_pending s = [] \<and> h_loading s
      \<or> 0 < h_timer s \<and> h_pending s = [h_timer s] \<and> \<not> h_loading s"
  shows "spinner_ok (spinnerInterceptor s)"
  using assms by (auto simp: spinner_ok_def spinnerInterceptor_def under_way_def Let_def)

lemma hstep_ok:
  assumes "spinner_ok s"
  shows "spinner_ok (hstep cv e s)"
proof (cases e)
  case (HRequest url)
  let ?s = "s\<lparr>h_reqs := h_reqs s @ [(url, authInterceptor url s)]\<rparr>"
  have "int (under_way ?s) = h_requests s + (if authInterceptor url s = UnderWay then 1 else 0)"
    using assms by (simp add: spinner_ok_def under_way_def)
  moreover have "spinner_ok ?s" if "authInterceptor url s \<noteq> UnderWay"
    using assms that by (simp add: spinner_ok_def under_way_def)
  moreover have "spinner_ok (spinnerFunction ?s)" if "authInterceptor url s = UnderWay"
    using assms that calculation(1) by (intro spinnerFunction_ok) (simp_all add: spinner_ok_def)
  ultimately show ?thesis using HRequest by (simp add: Let_def)
next
  case (HTokenOk i)
  show ?thesis
  proof (cases "phase_of s i = Some Waiting")
    case True
    have "spinner_ok (spinnerFunction (set_phase i UnderWay s))"
      using assms under_way_set_phase [OF True, of UnderWay]
      by (intro spinnerFunction_ok) (simp_all add: spinner_ok_def)
    then show ?thesis using HTokenOk True by simp
  qed (simp add: HTokenOk assms)
next
  case (HTokenError i)
  show ?thesis
  proof (cases "phase_of s i = Some Waiting")
    case True
    then show ?thesis
      using HTokenError assms under_way_set_phase [OF True, of Stuck] by (simp add: spinner_ok_def)
  qed (simp add: HTokenError assms)
next
  case (HResponse i ok status msg)
  show ?thesis
  proof (cases "phase_of s i = Some UnderWay")
    case True
    let ?s = "fold hlog (if ok then [] else errorInterceptor status msg) (set_phase i Done s)"
    have "under_way ?s = under_way (set_phase i Done s)" by (simp add: fold_hlog under_way_def)
    then have "spinner_ok (spinnerInterceptor ?s)"
      using assms under_way_set_phase [OF True, of Done] under_way_pos [OF True]
      by (intro spinnerInterceptor_ok) (auto simp: fold_hlog spinner_ok_def split: if_splits)
    then show ?thesis using HResponse True by simp
  qed (simp add: HResponse assms)
next
  case (HTimeout t)
  then show ?thesis
    using assms by (auto simp: loading_timeout_def spinner_ok_def under_way_def split: if_splits)
next
  case (HToken token)
  then show ?thesis using assms by (simp add: spinner_ok_def under_way_def)
qed

text \<open>C25. In every reachable state the request counter equals the number of requests under way; when
  it is 0 the spinner is hidden and no timer that would show it is left, and otherwise exactly one
  of the two holds: the spinner is shown, or the one timer that will show it is running.\<close>

theorem spinner_invariant:
  shows "spinner_ok (hrun cv es (new_http token))"
proof -
  have "spinner_ok s \<Longrightarrow> spinner_ok (fold (hstep cv) es s)" for s
    by (induction es arbitrary: s) (simp_all add: hstep_ok)
  moreover have "spinner_ok (new_http token)"
    by (simp add: spinner_ok_def new_http_def under_way_def)
  ultimately show ?thesis by (simp add: hrun_def)
qed

lemma errorInterceptor_sends: "list_all sends_ok (errorInterceptor status msg)"
  by (simp add: errorInterceptor_def sends_ok_def split: option.split)

lemma hstep_log:
  "list_all sends_ok (h_log s) \<Longrightarrow>
     (\<forall>r \<in> set (h_reqs s). snd r = Waiting \<longrightarrow> \<not> matches_html (fst r)) \<Longrightarrow>
     list_all sends_ok (h_log (hstep cv e s))
     \<and> (\<forall>r \<in> set (h_reqs (hstep cv e s)). snd r = Waiting \<longrightarrow> \<not> matches_html (fst r))"
proof (induction cv e s rule: hstep.induct)
  case (1 cv url s)
  then show ?case
    by (auto simp: Let_def authInterceptor_def spinnerFunction_def sends_ok_def)
next
  case (2 cv i s)
  show ?case
  proof (cases "phase_of s i = Some Waiting")
    case True
    then have "(fst (h_reqs s ! i), Waiting) \<in> set (h_reqs s)"
      using nth_mem [of i "h_reqs s"] by (cases "h_reqs s ! i") (auto simp: phase_of_def split: if_splits)
    then have no: "\<not> matches_html (fst (h_reqs s ! i))" using 2(2) by fastforce
    show ?thesis
      using 2 no True by (auto simp: spinnerFunction_def sends_ok_def set_phase_def Let_def
        dest!: set_update_subset_insert [THEN subsetD])
  qed (use 2 in simp)
next
  case (3 cv i s)
  then show ?case
    by (auto simp: sends_ok_def set_phase_def dest!: set_update_subset_insert [THEN subsetD])
next
  case (4 cv i ok status msg s)
  then show ?case
    using errorInterceptor_sends [of status msg]
    by (auto simp: fold_hlog spinnerInterceptor_def set_phase_def Let_def
      dest!: set_update_subset_insert [THEN subsetD])
qed (auto simp: loading_timeout_def)

text \<open>C26. Whatever happens, a request that leaves the console carries an Authorization header exactly
  when its url does not end in html.\<close>

theorem requests_authorized:
  assumes "HSend url a \<in> set (h_log (hrun cv es (new_http token)))"
  shows "a = None \<longleftrightarrow> matches_html url"
proof -
  let ?ok = "\<lambda>s. list_all sends_ok (h_log s)
    \<and> (\<forall>r \<in> set (h_reqs s). snd r = Waiting \<longrightarrow> \<not> matches_html (fst r))"
  have "?ok s \<Longrightarrow> ?ok (fold (hstep cv) es s)" for s
  proof (induction es arbitrary: s)
    case (Cons e es)
    then show ?case using hstep_log [of s cv e] Cons.IH [of "hstep cv e s"] by simp
  qed simp
  then have "list_all sends_ok (h_log (hrun cv es (new_http token)))"
    by (simp add: hrun_def new_http_def)
  then show ?thesis using assms by (auto simp: list_all_iff sends_ok_def)
qed

text \<open>
  The test is on the url of any request, so the request for the user named \<open>html\<close> is one that goes out
  without a token.
\<close>

definition demo_http :: http where
  "demo_http = hrun \<lparr>to_number = (\<lambda>s. None), to_string = (\<lambda>r. [])\<rparr>
     [HRequest ''/admin/realms/demo/users/html'', HRequest ''/admin/realms/demo'', HTokenOk 1,
      HResponse 0 False 401 None] (new_http (Str ''token''))"

theorem requests_authorized_witness:
  "h_log demo_http = [HSend ''/admin/realms/demo/users/html'' None,
      HSend ''/admin/realms/demo'' (Some ''Bearer token''), HLogout]
    \<and> matches_html ''/admin/realms/demo/users/html'' \<and> \<not> matches_html ''/admin/realms/demo''"
proof -
  have l: "h_log demo_http = [HSend ''/admin/realms/demo/users/html'' None,
      HSend ''/admin/realms/demo'' (Some ''Bearer token''), HLogout]"
    by (simp add: demo_http_def hrun_def new_http_def authInterceptor_def matches_html_def hlog_def
      spinnerFunction_def spinnerInterceptor_def set_phase_def phase_of_def bearer_def
      errorInterceptor_def)
  then have "HSend ''/admin/realms/demo/users/html'' None \<in> set (h_log demo_http)"
    "HSend ''/admin/realms/demo'' (Some ''Bearer token'') \<in> set (h_log demo_http)" by simp_all
  then show ?thesis
    using l requests_authorized unfolding demo_http_def by blast
qed

end
