(* ===== verification/Admin_Session.thy ===== *)
theory Admin_Session
  imports Kc_Private Kc_Client Admin_Http
begin

text \<open>
  The console as a whole: the \<open>Keycloak\<close> object of \<open>Kc_Machine\<close> and the requests of
  \<open>Admin_Http\<close>, put together the way \<open>app.js\<close> does it.  The page creates the object, calls
  \<open>init\<close> and starts angular when it succeeds; \<open>authInterceptor\<close> calls \<open>updateToken(5)\<close> for
  every request and sends it from the success callback; \<open>errorInterceptor\<close> and the menu call
  \<open>logout\<close>.  \<open>crun\<close> runs a turn of the object and, at every call of a function of the console,
  what that function does.
\<close>

section \<open>The functions given to the object\<close>

text \<open>
  \<open>onAuthLogout\<close>, the two callbacks of \<open>init\<close>, and for each request the two callbacks of
  \<open>updateToken\<close>; the object knows them by number.
\<close>

datatype console_fn = AuthLogout | Started | NotStarted | Granted nat | Refused nat

fun fn_code :: "console_fn \<Rightarrow> nat" where
  "fn_code AuthLogout = 0"
| "fn_code Started = 1"
| "fn_code NotStarted = 2"
| "fn_code (Granted i) = 2 * i + 3"
| "fn_code (Refused i) = 2 * i + 4"

definition fn_of :: "nat \<Rightarrow> console_fn" where
  "fn_of n = (if n = 0 then AuthLogout else if n = 1 then Started else if n = 2 then NotStarted
     else if odd n then Granted ((n - 3) div 2) else Refused ((n - 4) div 2))"

lemma fn_of_code [simp]: "fn_of (fn_code f) = f"
  by (cases f) (auto simp: fn_of_def)

lemma fn_code_inject [simp]: "fn_code f = fn_code g \<longleftrightarrow> f = g"
  by (metis fn_of_code)

definition console_hooks :: "hook \<Rightarrow> nat option" where
  "console_hooks h = (if h = OnAuthLogout then Some (fn_code AuthLogout) else None)"

definition console_options :: init_options where
  "console_options = \<lparr>io_checkLoginIframe = Undefined, io_checkLoginIframeInterval = Undefined,
     io_onLoad = Str ''login-required'', io_token = Undefined, io_refreshToken = Undefined\<rparr>"

definition consoleBaseUrl :: "string \<Rightarrow> string" where
  "consoleBaseUrl href = js_prefix href (js_indexOf ''/console'' href) @ ''/console''"

definition configUrl :: "string \<Rightarrow> string" where
  "configUrl href = consoleBaseUrl href @ ''/config''"

section \<open>The state\<close>

text \<open>
  \<open>co_ready\<close>: angular has been started with the object.  Two fields only record what happened:
  the promise \<open>updateToken\<close> returned for each request, and for each request that was let through
  the token it got, whether that token was about to expire, and what had started the turn.
\<close>

record sent_request =
  sn_request :: nat
  sn_token :: jsval
  sn_expired :: "js_error + bool"
  sn_turn :: instr

record console =
  co_http :: http
  co_ready :: bool
  co_promise :: "nat \<rightharpoonup> pid"
  co_sent :: "sent_request list"

definition new_console :: console where
  "new_console = \<lparr>co_http = new_http Undefined, co_ready = False, co_promise = Map.empty, co_sent = []\<rparr>"

definition conv_of :: "env \<Rightarrow> conv" where
  "conv_of env = \<lparr>to_number = str_num env, to_string = num_str env\<rparr>"

abbreviation waits :: "console \<Rightarrow> nat \<Rightarrow> bool" where
  "waits c i \<equiv> phase_of (co_http c) i = Some Waiting"

text \<open>What a function of the console does; \<open>turn\<close> is the instruction that started the turn.\<close>

fun console_call :: "env \<Rightarrow> instr \<Rightarrow> console_fn \<Rightarrow> world \<Rightarrow> console \<Rightarrow> console" where
  "console_call env turn AuthLogout w c = c\<lparr>co_http := hlog HReload (co_http c)\<rparr>"
| "console_call env turn Started w c = c\<lparr>co_ready := True\<rparr>"
| "console_call env turn NotStarted w c = c\<lparr>co_http := hlog HReload (co_http c)\<rparr>"
| "console_call env turn (Granted i) w c =
     c\<lparr>co_http := hstep (conv_of env) (HTokenOk i) (hstep (conv_of env) (HToken (kc_token (kc w))) (co_http c)),
       co_sent := co_sent c @
         (if waits c i
          then [\<lparr>sn_request = i, sn_token = kc_token (kc w),
                 sn_expired = isTokenExpired env (Some 5) w, sn_turn = turn\<rparr>]
          else [])\<rparr>"
| "console_call env turn (Refused i) w c =
     c\<lparr>co_http := hstep (conv_of env) (HTokenError i) (co_http c)\<rparr>"

section \<open>Turns\<close>

text \<open>The function of the console that an instruction of the object calls.\<close>

fun called :: "instr \<Rightarrow> world \<Rightarrow> nat option" where
  "called (Invoke (UserCb n) v) w = Some n"
| "called (Hook h v) w = kc_hooks (kc w) h"
| "called i w = None"

definition after_call :: "env \<Rightarrow> instr \<Rightarrow> instr \<Rightarrow> world \<Rightarrow> world \<Rightarrow> console \<Rightarrow> console" where
  "after_call env turn i w w' c =
     (case called i w of None \<Rightarrow> c | Some n \<Rightarrow> console_call env turn (fn_of n) w' c)"

partial_function (option) crun ::
    "env \<Rightarrow> instr \<Rightarrow> instr list \<Rightarrow> world \<Rightarrow> console \<Rightarrow> (world \<times> console \<times> js_error option) option" where
  "crun env turn js w c =
     (case js of
        [] \<Rightarrow> Some (w, c, None)
      | i # is \<Rightarrow>
          (case step env i w of
             (w', Inl e) \<Rightarrow> Some (w', after_call env turn i w w' c, Some e)
           | (w', Inr js') \<Rightarrow> crun env turn (js' @ is) w' (after_call env turn i w w' c)))"

definition cturn :: "env \<Rightarrow> instr \<Rightarrow> world \<Rightarrow> console \<Rightarrow> (world \<times> console \<times> js_error option) option" where
  "cturn env i w c = crun env i [i] w c"

fun cturns :: "env \<Rightarrow> instr list list \<Rightarrow> world \<Rightarrow> console \<Rightarrow> (world \<times> console) option" where
  "cturns env [] w c = Some (w, c)"
| "cturns env (t # ts) w c =
     (case crun env (hd t) t w c of
        None \<Rightarrow> None
      | Some (w', c', r) \<Rightarrow> cturns env ts (end_turn (w', r)) c')"

section \<open>Events\<close>

datatype sevent =
    SRequest string
  | SReply nat bool nat "string option"   \<comment> \<open>request, success, status, \<open>data.errorMessage\<close>\<close>
  | STimeout int                          \<comment> \<open>the spinner's timer\<close>
  | SLogout                               \<comment> \<open>the link of the menu\<close>
  | SPage event                           \<comment> \<open>an event for the object\<close>

text \<open>The console opens no windows, and only its own functions call the object.\<close>

fun page_event :: "event \<Rightarrow> bool" where
  "page_event (ECall a) = False"
| "page_event (ELoadstart i url) = False"
| "page_event (ELoaderror i url) = False"
| "page_event (EExit i) = False"
| "page_event _ = True"

text \<open>
  An exception in \<open>updateToken\<close> rejects the request: it is never sent, but the rejection runs
  through the response interceptors, of which \<open>errorInterceptor\<close> finds no status.  Exceptions in
  the console's own functions are caught by angular and given to its error handler.
\<close>

definition request_rejected :: "nat \<Rightarrow> http \<Rightarrow> http" where
  "request_rejected i h = spinnerInterceptor (set_phase i Stuck h)"

definition token_request :: "nat \<Rightarrow> instr" where
  "token_request i = Api (AUpdateToken (Some 5) (Some (fn_code (Granted i))) (Some (fn_code (Refused i))))"

definition logout_call :: instr where
  "logout_call = Api (ALogout None None None)"

definition logged_out :: "env \<Rightarrow> world \<Rightarrow> console \<Rightarrow> (world \<times> console) option" where
  "logged_out env w c =
     (case cturn env logout_call w c of None \<Rightarrow> None | Some (w', c', r) \<Rightarrow> Some (end_turn (w', r), c'))"

definition console_request :: "env \<Rightarrow> string \<Rightarrow> world \<Rightarrow> console \<Rightarrow> (world \<times> console) option" where
  "console_request env url w c =
     (let h = hstep (conv_of env) (HToken (kc_token (kc w))) (co_http c);
          i = length (h_reqs h);
          c' = c\<lparr>co_http := hstep (conv_of env) (HRequest url) h\<rparr>
      in if authInterceptor url h \<noteq> Waiting then Some (w, c')
         else
           (case cturn env (token_request i) w (c'\<lparr>co_promise := (co_promise c)(i \<mapsto> w_next w)\<rparr>) of
              None \<Rightarrow> None
            | Some (w', c'', None) \<Rightarrow> Some (w', c'')
            | Some (w', c'', Some e) \<Rightarrow> Some (end_turn (w', Some e), c''\<lparr>co_http := request_rejected i (co_http c'')\<rparr>)))"

fun sstep :: "env \<Rightarrow> sevent \<Rightarrow> world \<Rightarrow> console \<Rightarrow> (world \<times> console) option" where
  "sstep env (SRequest url) w c = (if co_ready c then console_request env url w c else Some (w, c))"
| "sstep env (SReply i ok status msg) w c =
     (let c' = c\<lparr>co_http := hstep (conv_of env) (HResponse i ok status msg) (co_http c)\<rparr>
      in if phase_of (co_http c) i = Some UnderWay \<and> \<not> ok \<and> status = 401
         then logged_out env w c' else Some (w, c'))"
| "sstep env (STimeout t) w c = Some (w, c\<lparr>co_http := hstep (conv_of env) (HTimeout t) (co_http c)\<rparr>)"
| "sstep env SLogout w c = (if co_ready c then logged_out env w c else Some (w, c))"
| "sstep env (SPage e) w c =
     (if page_event e then (case turns_of e w of (w', ts) \<Rightarrow> cturns env ts w' c) else Some (w, c))"

text \<open>The page when its document is ready.\<close>

definition console_page :: "string \<Rightarrow> location \<Rightarrow> string list \<Rightarrow> string option \<Rightarrow> world" where
  "console_page href loc scripts stored =
     new_world (Str (configUrl href)) loc console_hooks False scripts stored"

definition init_call :: instr where
  "init_call = Api (AInit (Some console_options) (Some (fn_code Started)) (Some (fn_code NotStarted)))"

fun srun :: "env \<Rightarrow> sevent list \<Rightarrow> world \<Rightarrow> console \<Rightarrow> (world \<times> console) option" where
  "srun env [] w c = Some (w, c)"
| "srun env (e # es) w c = (case sstep env e w c of None \<Rightarrow> None | Some (w', c') \<Rightarrow> srun env es w' c')"

definition console_session :: "env \<Rightarrow> string \<Rightarrow> location \<Rightarrow> string list \<Rightarrow> string option \<Rightarrow> sevent list
    \<Rightarrow> (world \<times> console) option" where
  "console_session env href loc scripts stored es =
     (case cturns env [[init_call]] (console_page href loc scripts stored) new_console of
        None \<Rightarrow> None
      | Some (w, c) \<Rightarrow> srun env es w c)"

section \<open>Turns and runs of the object\<close>

lemma crun_Nil [simp]: "crun env turn [] w c = Some (w, c, None)"
  by (subst crun.simps) simp

lemma crun_Cons:
  "crun env turn (i # is) w c =
     (case step env i w of
        (w', Inl e) \<Rightarrow> Some (w', after_call env turn i w w' c, Some e)
      | (w', Inr js') \<Rightarrow> crun env turn (js' @ is) w' (after_call env turn i w w' c))"
  by (subst crun.simps) simp

text \<open>Induction over a turn: \<open>P\<close> of what is still to run and of the state, \<open>Q\<close> of the end.\<close>

lemma crun_rule:
  assumes "crun env turn js w c = Some (w', c', r)" and "P js w c"
    and nil: "\<And>w c. P [] w c \<Longrightarrow> Q w c"
    and throw: "\<And>i is w c w1 e. P (i # is) w c \<Longrightarrow> step env i w = (w1, Inl e) \<Longrightarrow> Q w1 (after_call env turn i w w1 c)"
    and go_on: "\<And>i is w c w1 js'. P (i # is) w c \<Longrightarrow> step env i w = (w1, Inr js') \<Longrightarrow>
      P (js' @ is) w1 (after_call env turn i w w1 c)"
  shows "Q w' c'"
proof -
  have "P js w c \<longrightarrow> (case (w', c', r) of (v, d, x) \<Rightarrow> Q v d)"
  proof (rule crun.raw_induct [where P = "\<lambda>e t js w c x. e = env \<longrightarrow> t = turn \<longrightarrow> P js w c \<longrightarrow> (case x of (v, d, y) \<Rightarrow> Q v d)",
        OF _ assms(1), THEN mp, THEN mp, OF _ HOL.refl HOL.refl], goal_cases)
    case (1 f env' turn' js w c x)
    show ?case
    proof (intro impI)
      assume eq: "env' = env" "turn' = turn" and P: "P js w c"
      show "case x of (v, d, y) \<Rightarrow> Q v d"
      proof (cases js)
        case Nil
        then show ?thesis using 1(2) P nil by auto
      next
        case (Cons i rest)
        obtain w1 s where st: "step env i w = (w1, s)" by (cases "step env i w")
        show ?thesis
        proof (cases s)
          case (Inl e)
          then have "Q w1 (after_call env turn i w w1 c)" using throw P st Cons by simp
          then show ?thesis using 1(2) Cons st Inl eq by auto
        next
          case (Inr js')
          then have "P (js' @ rest) w1 (after_call env turn i w w1 c)" using go_on P st Cons by simp
          moreover have "f env turn (js' @ rest) w1 (after_call env turn i w w1 c) = Some x"
            using 1(2) Cons st Inr eq by simp
          ultimately show ?thesis using 1(1) by blast
        qed
      qed
    qed
  qed
  then show ?thesis using assms(2) by simp
qed

lemma crun_run: "run env js w = Some (w', r) \<Longrightarrow> \<exists>c'. crun env turn js w c = Some (w', c', r)"
proof -
  assume "run env js w = Some (w', r)"
  then obtain n where "run_n n env js w = Some (w', r)" using run_bounded by blast
  then show ?thesis
  proof (induction n arbitrary: js w c)
    case 0
    then show ?case by (cases js) simp_all
  next
    case (Suc n)
    show ?case
    proof (cases js)
      case Nil
      then show ?thesis using Suc.prems by simp
    next
      case (Cons i rest)
      then show ?thesis using Suc by (auto simp: crun_Cons split: prod.splits sum.splits)
    qed
  qed
qed

lemma run_crun: "crun env turn js w c = Some (w', c', r) \<Longrightarrow> run env js w = Some (w', r)"
proof -
  assume "crun env turn js w c = Some (w', c', r)"
  then have "run env js w = (case (w', c', r) of (v, d, x) \<Rightarrow> Some (v, x))"
  proof (rule crun.raw_induct [rotated], goal_cases)
    case (1 f env turn js w c x)
    then show ?case by (cases js) (auto simp: run_Cons split: prod.splits sum.splits)
  qed
  then show ?thesis by simp
qed

lemma cturns_run_turns: "cturns env ts w c = Some (w', c') \<Longrightarrow> run_turns env ts w = Some w'"
  by (induction ts arbitrary: w c) (auto split: option.splits prod.splits dest!: run_crun)

lemma run_turns_cturns: "run_turns env ts w = Some w' \<Longrightarrow> \<exists>c'. cturns env ts w c = Some (w', c')"
proof (induction ts arbitrary: w c)
  case Nil
  then show ?case by simp
next
  case (Cons t ts)
  then obtain w1 r where run: "run env t w = Some (w1, r)" "run_turns env ts (end_turn (w1, r)) = Some w'"
    by (auto split: option.splits)
  obtain c1 where "crun env (hd t) t w c = Some (w1, c1, r)" using crun_run [OF run(1)] by blast
  then show ?case using Cons.IH [OF run(2), of c1] by simp
qed

lemma cturn_handle:
  "cturn env (Api a) w c = Some (w', c', r) \<Longrightarrow> handle env (ECall a) w = Some (end_turn (w', r))"
  by (auto simp: cturn_def handle_def dest!: run_crun)

lemma cturn_ends: "silent env \<Longrightarrow> wf w \<Longrightarrow> \<exists>w' c' r. cturn env (Api a) w c = Some (w', c', r)"
  using turn_ends_one [of env w "Api a"] crun_run by (fastforce simp: cturn_def)

lemma logged_out_handle:
  "logged_out env w c = Some (w', c') \<Longrightarrow> handle env (ECall (ALogout None None None)) w = Some w'"
  by (auto simp: logged_out_def logout_call_def split: option.splits dest!: cturn_handle)

text \<open>To the object an event of the console is at most one event of its own.\<close>

lemma sstep_handle:
  assumes "sstep env e w c = Some (w', c')"
  shows "w' = w \<or> (\<exists>ev. handle env ev w = Some w')"
proof (cases e)
  case (SRequest url)
  then show ?thesis using assms
    by (auto simp: console_request_def Let_def token_request_def end_turn_def
        split: if_splits option.splits dest!: cturn_handle)
next
  case (SReply i ok status msg)
  then show ?thesis using assms
    by (auto simp: Let_def split: if_splits dest!: logged_out_handle)
next
  case SLogout
  then show ?thesis using assms by (auto split: if_splits dest!: logged_out_handle)
next
  case (SPage ev)
  then show ?thesis using assms
    by (auto simp: handle_def split: if_splits prod.splits dest!: cturns_run_turns intro!: exI [of _ ev])
qed (use assms in simp)

lemma sstep_ends:
  assumes "silent env" and "wf w"
  shows "\<exists>w' c'. sstep env e w c = Some (w', c')"
proof -
  have logout: "\<exists>w' c'. logged_out env w d = Some (w', c')" for d
    using cturn_ends [OF assms, of "ALogout None None None" d] by (auto simp: logged_out_def logout_call_def)
  show ?thesis
  proof (cases e)
    case (SRequest url)
    have "\<exists>x. console_request env url w c = Some x"
    proof -
      let ?i = "length (h_reqs (co_http c))"
      let ?d = "c\<lparr>co_http := hstep (conv_of env) (HRequest url) (hstep (conv_of env) (HToken (kc_token (kc w))) (co_http c)),
        co_promise := (co_promise c)(?i \<mapsto> w_next w)\<rparr>"
      obtain v d r where "cturn env (token_request ?i) w ?d = Some (v, d, r)"
        using cturn_ends [OF assms] unfolding token_request_def by metis
      then show ?thesis by (cases r) (auto simp: console_request_def Let_def)
    qed
    then show ?thesis using SRequest by auto
  next
    case (SReply i ok status msg)
    then show ?thesis using logout by (simp add: Let_def)
  next
    case SLogout
    then show ?thesis using logout by simp
  next
    case (SPage ev)
    obtain w1 ts where t: "turns_of ev w = (w1, ts)" by (cases "turns_of ev w")
    obtain w2 where "run_turns env ts w1 = Some w2"
      using handle_ends [OF assms, of ev] t by (auto simp: handle_def)
    then show ?thesis using SPage t run_turns_cturns by fastforce
  qed simp
qed

lemma srun_reachable:
  assumes "silent env"
  shows "reachable env w \<Longrightarrow> \<exists>w' c'. srun env es w c = Some (w', c') \<and> reachable env w'"
proof (induction es arbitrary: w c)
  case Nil
  then show ?case by simp
next
  case (Cons e es)
  obtain w1 c1 where st: "sstep env e w c = Some (w1, c1)"
    using sstep_ends [OF assms reachable_wf [OF Cons.prems]] by blast
  then have "reachable env w1"
    using sstep_handle [OF st] reachable_handle [OF Cons.prems] Cons.prems by blast
  then show ?case using Cons.IH st by simp
qed

lemma page_reachable:
  assumes "handle_all env es (new_world config loc hooks cordova scripts stored) = Some w"
  shows "reachable env w"
  using assms unfolding reachable_def by blast

lemma session_start:
  assumes "silent env"
  shows "\<exists>w c. cturns env [[init_call]] (console_page href loc scripts stored) new_console = Some (w, c)
    \<and> reachable env w"
proof -
  let ?a = "AInit (Some console_options) (Some (fn_code Started)) (Some (fn_code NotStarted))"
  let ?w = "console_page href loc scripts stored"
  have wf: "wf ?w" unfolding console_page_def by (rule wf_new_world)
  obtain w c r where t: "cturn env (Api ?a) ?w new_console = Some (w, c, r)"
    using cturn_ends [OF assms wf] by blast
  have "handle_all env [ECall ?a] (new_world (Str (configUrl href)) loc console_hooks False scripts stored)
      = Some (end_turn (w, r))"
    using cturn_handle [OF t] by (simp add: console_page_def)
  then have "reachable env (end_turn (w, r))" by (rule page_reachable)
  then show ?thesis using t by (simp add: init_call_def cturn_def)
qed

end
