(* ===== verification/Admin_Waiting.thy ===== *)
theory Admin_Waiting
  imports Admin_Session
begin

text \<open>
  What becomes of the requests of the console: a request that waits has a promise nothing but
  \<open>updateToken\<close> settles, with the two callbacks that send it or give it up; a request that is let
  through carries a token that is good for five seconds, or the one that has just arrived; and
  the response to a refresh lets through all that wait for it.
\<close>

section \<open>The invariant\<close>

definition armed :: "world \<Rightarrow> pid \<Rightarrow> nat \<Rightarrow> bool" where
  "armed w p i \<longleftrightarrow> \<not> p_success (w_heap w p) \<and> \<not> p_error (w_heap w p)
     \<and> p_successCallback (w_heap w p) = Some (UserCb (fn_code (Granted i)))
     \<and> p_errorCallback (w_heap w p) = Some (UserCb (fn_code (Refused i)))"

definition tagged :: "world \<Rightarrow> pid \<Rightarrow> nat \<Rightarrow> bool" where
  "tagged w p i \<longleftrightarrow> p_successCallback (w_heap w p) \<in> {None, Some (UserCb (fn_code (Granted i)))}
     \<and> p_errorCallback (w_heap w p) \<in> {None, Some (UserCb (fn_code (Refused i)))}"

text \<open>
  A token good for five seconds, or the access token of the refresh that started the turn (which
  \<open>setToken\<close> stores as \<open>undefined\<close> when there is none).
\<close>

definition fresh_entry :: "env \<Rightarrow> sent_request \<Rightarrow> bool" where
  "fresh_entry env e \<longleftrightarrow> sn_expired e = Inr False
     \<or> (\<exists>body v t. sn_turn e = Response XRefresh 200 body \<and> parse_json env body = Inr v
          \<and> getp v ''access_token'' = Inr t \<and> sn_token e = (if truthy t then t else Undefined))"

definition base :: "env \<Rightarrow> world \<Rightarrow> console \<Rightarrow> bool" where
  "base env w c \<longleftrightarrow> sep (ran (co_promise c)) w \<and> kc_hooks (kc w) = console_hooks
     \<and> (\<forall>i p. co_promise c i = Some p \<longrightarrow> i < length (h_reqs (co_http c)) \<and> tagged w p i
          \<and> (\<forall>j. co_promise c j = Some p \<longrightarrow> j = i))
     \<and> (\<forall>e \<in> set (co_sent c). fresh_entry env e)"

definition has_armed :: "world \<Rightarrow> console \<Rightarrow> nat \<Rightarrow> bool" where
  "has_armed w c i \<longleftrightarrow> (\<exists>p. co_promise c i = Some p \<and> armed w p i)"

definition waiting_armed :: "world \<Rightarrow> console \<Rightarrow> bool" where
  "waiting_armed w c \<longleftrightarrow> (\<forall>i. waits c i \<longrightarrow> has_armed w c i)"

text \<open>
  Within a turn the calls of the requests' callbacks come first, with a token that is good, and
  a waiting request may be among them.
\<close>

definition own_calls :: "env \<Rightarrow> world \<Rightarrow> instr list \<Rightarrow> bool" where
  "own_calls env w us \<longleftrightarrow> (\<forall>u \<in> set us.
     (\<exists>i v. u = Invoke (UserCb (fn_code (Granted i))) v \<and> isTokenExpired env (Some 5) w = Inr False)
     \<or> (\<exists>i v. u = Invoke (UserCb (fn_code (Refused i))) v))"

definition due_answer :: "nat \<Rightarrow> instr list \<Rightarrow> bool" where
  "due_answer i us \<longleftrightarrow> (\<exists>v. Invoke (UserCb (fn_code (Granted i))) v \<in> set us
     \<or> Invoke (UserCb (fn_code (Refused i))) v \<in> set us)"

definition turn_inv :: "env \<Rightarrow> instr list \<Rightarrow> world \<Rightarrow> console \<Rightarrow> bool" where
  "turn_inv env js w c \<longleftrightarrow> (\<exists>us rest. js = us @ rest \<and> own_calls env w us
     \<and> tames (ran (co_promise c)) rest \<and> base env w c
     \<and> (\<forall>i. waits c i \<longrightarrow> due_answer i us \<or> has_armed w c i))"

section \<open>Calls of the console's functions\<close>

declare fn_code.simps [simp del]

lemma waits_length: "phase_of h i = Some q \<Longrightarrow> i < length (h_reqs h)"
  by (simp add: phase_of_def split: if_splits)

lemma phase_of_hlog [simp]: "phase_of (hlog e h) i = phase_of h i"
  by (simp add: phase_of_def)

lemma phase_of_upd [simp]:
  "phase_of (h\<lparr>h_token := t\<rparr>) i = phase_of h i" "phase_of (spinnerFunction h) i = phase_of h i"
  "phase_of (spinnerInterceptor h) i = phase_of h i"
  by (simp_all add: phase_of_def spinnerFunction_def spinnerInterceptor_def Let_def)

lemma phase_of_set_phase:
  "phase_of (set_phase j p h) i = (if i = j \<and> j < length (h_reqs h) then Some p else phase_of h i)"
  by (auto simp: phase_of_def set_phase_def)

lemma length_reqs [simp]:
  "length (h_reqs (set_phase j p h)) = length (h_reqs h)"
  "h_reqs (spinnerFunction h) = h_reqs h" "h_reqs (spinnerInterceptor h) = h_reqs h"
  by (simp_all add: set_phase_def spinnerFunction_def spinnerInterceptor_def Let_def)

lemma console_call_frame [simp]:
  "co_promise (console_call env turn f w c) = co_promise c"
  "length (h_reqs (co_http (console_call env turn f w c))) = length (h_reqs (co_http c))"
  by (cases f; simp)+

lemma console_call_phase:
  "phase_of (co_http (console_call env turn f w c)) i =
     (if waits c i then
        (if f = Granted i then Some UnderWay else if f = Refused i then Some Stuck else Some Waiting)
      else phase_of (co_http c) i)"
  by (cases f) (auto simp: phase_of_set_phase dest: waits_length)

lemma console_call_sent:
  "co_sent (console_call env turn f w c) = co_sent c @
     (case f of Granted i \<Rightarrow> if waits c i
        then [\<lparr>sn_request = i, sn_token = kc_token (kc w), sn_expired = isTokenExpired env (Some 5) w,
               sn_turn = turn\<rparr>] else []
      | _ \<Rightarrow> [])"
  by (cases f) simp_all

lemma isTokenExpired_cong:
  "kc w' = kc w \<Longrightarrow> w_now w' = w_now w \<Longrightarrow> isTokenExpired env m w' = isTokenExpired env m w"
  unfolding isTokenExpired_def by (simp only:)

lemma base_call:
  assumes "base env w c"
    and "\<And>i. f = Granted i \<Longrightarrow> waits c i \<Longrightarrow> fresh_entry env
      \<lparr>sn_request = i, sn_token = kc_token (kc w'), sn_expired = isTokenExpired env (Some 5) w', sn_turn = turn\<rparr>"
  shows "base env w (console_call env turn f w' c)"
  using assms by (auto simp: base_def console_call_sent split: console_fn.splits)

lemma base_emit: "base env (emit x w) c = base env w c"
  using sep_core [of "emit x w" w] by (simp add: base_def tagged_def)

lemma armed_cong: "w_heap w' p = w_heap w p \<Longrightarrow> armed w' p i = armed w p i"
  by (simp add: armed_def)

lemma tagged_cong: "w_heap w' p = w_heap w p \<Longrightarrow> tagged w' p i = tagged w p i"
  by (simp add: tagged_def)

text \<open>A step that leaves the callers' promises alone.\<close>

lemma base_same:
  assumes "base env w c" and "same_on (ran (co_promise c)) w w'" and "sep (ran (co_promise c)) w'"
  shows "base env w' c" and "has_armed w' c i = has_armed w c i"
proof -
  have heap: "w_heap w' p = w_heap w p" if "co_promise c j = Some p" for j p
    using assms(2) that by (auto simp: same_on_def ran_def)
  show "base env w' c"
    using assms tagged_cong [OF heap] by (auto simp: base_def same_on_def)
  show "has_armed w' c i = has_armed w c i"
    using armed_cong [OF heap] by (auto simp: has_armed_def)
qed

text \<open>A step that settles one of them calls the callback of its request.\<close>

lemma base_settle:
  assumes "base env w c" and "co_promise c i = Some p"
  shows "base env (fst (settleP ok p v w)) c"
  using assms sep_settle by (auto simp: base_def tagged_def settleP_result promise_defs)

lemma base_tagged: "base env w c \<Longrightarrow> co_promise c i = Some p \<Longrightarrow> tagged w p i"
  by (simp add: base_def)

lemma settle_own:
  assumes "base env w c" and "co_promise c i = Some p"
    and "js = call_instrs (snd (settle ok v (w_heap w p)))"
  shows "js = [] \<and> \<not> has_armed w c i
    \<or> js = [Invoke (UserCb (fn_code (if ok then Granted i else Refused i))) v]"
  using base_tagged [OF assms(1,2)] assms(2,3)
  by (cases ok) (auto simp: tagged_def has_armed_def armed_def call_instrs_def promise_defs)

lemma settle_other:
  assumes "base env w c" and "co_promise c i = Some p" and "j \<noteq> i"
  shows "has_armed (fst (settleP ok p v w)) c j = has_armed w c j"
proof -
  have "q \<noteq> p" if "co_promise c j = Some q" for q
    using assms that unfolding base_def by metis
  then show ?thesis by (auto simp: has_armed_def armed_def settleP_result)
qed

lemma settle_turn:
  assumes "base env w c" and "co_promise c i = Some p" and "tames (ran (co_promise c)) rest"
    and "\<forall>j. waits c j \<longrightarrow> has_armed w c j"
    and "ok \<Longrightarrow> isTokenExpired env (Some 5) w = Inr False"
  shows "turn_inv env (call_instrs (snd (settle ok v (w_heap w p))) @ rest) (fst (settleP ok p v w)) c"
proof -
  let ?js = "call_instrs (snd (settle ok v (w_heap w p)))" and ?w = "fst (settleP ok p v w)"
  have js: "?js = [] \<and> \<not> has_armed w c i
      \<or> ?js = [Invoke (UserCb (fn_code (if ok then Granted i else Refused i))) v]"
    by (rule settle_own [OF assms(1,2)]) simp
  have "isTokenExpired env (Some 5) ?w = isTokenExpired env (Some 5) w"
    by (rule isTokenExpired_cong) (simp_all add: settleP_result)
  then have "own_calls env ?w ?js" using js assms(5) by (cases ok) (auto simp: own_calls_def)
  moreover have "due_answer j ?js \<or> has_armed ?w c j" if "waits c j" for j
    using that assms(4) js settle_other [OF assms(1,2), of j ok v]
    by (cases "j = i"; cases ok) (auto simp: due_answer_def)
  ultimately show ?thesis
    using assms(3) base_settle [OF assms(1,2)] unfolding turn_inv_def by blast
qed

section \<open>Turns\<close>

text \<open>A call that concerns no request.\<close>

definition global_fn :: "console_fn \<Rightarrow> bool" where
  "global_fn f \<longleftrightarrow> f = AuthLogout \<or> f = Started \<or> f = NotStarted"

lemma global_fn_of: "n < 3 \<Longrightarrow> global_fn (fn_of n)"
  by (auto simp: global_fn_def fn_of_def)

lemma call_other:
  assumes "global_fn f"
  shows "base env w (console_call env turn f w' c) = base env w c"
    and "has_armed w (console_call env turn f w' c) i = has_armed w c i"
    and "waits (console_call env turn f w' c) i = waits c i"
  using assms by (auto simp: global_fn_def base_def has_armed_def)

declare console_call.simps [simp del]

lemma tame_call:
  assumes "tame K i" and "kc_hooks (kc w) = console_hooks"
  shows "after_call env turn i w w' c = c
    \<or> (\<exists>f. after_call env turn i w w' c = console_call env turn f w' c \<and> global_fn f)"
proof -
  have "called i w = None \<or> (\<exists>n < 3. called i w = Some n)"
    using assms by (cases "(i, w)" rule: called.cases) (auto simp: console_hooks_def fn_code.simps)
  then show ?thesis using global_fn_of by (auto simp: after_call_def)
qed

lemma turn_inv_tame:
  "tames (ran (co_promise c)) rest \<Longrightarrow> base env w c \<Longrightarrow> waiting_armed w c \<Longrightarrow> turn_inv env rest w c"
  unfolding turn_inv_def waiting_armed_def
  by (intro exI [of _ "[]"] exI [of _ rest]) (simp add: own_calls_def)

lemma tame_call_frame:
  assumes "tame K i" and "kc_hooks (kc w) = console_hooks"
  shows "base env v (after_call env turn i w w' c) = base env v c"
    and "has_armed v (after_call env turn i w w' c) j = has_armed v c j"
    and "waits (after_call env turn i w w' c) j = waits c j"
    and "co_promise (after_call env turn i w w' c) = co_promise c"
  using tame_call [OF assms, of env turn w' c] call_other by auto

lemma own_call_step:
  assumes "f = Granted i \<and> isTokenExpired env (Some 5) w = Inr False \<or> f = Refused i"
    and "own_calls env w us" and "tames (ran (co_promise c)) rest" and "base env w c"
    and "\<forall>j. waits c j \<longrightarrow> due_answer j (Invoke (UserCb (fn_code f)) v # us) \<or> has_armed w c j"
  shows "turn_inv env (us @ rest) (emit x w) (console_call env turn f (emit x w) c)"
proof -
  let ?w = "emit x w" and ?c = "console_call env turn f (emit x w) c"
  have tok: "isTokenExpired env (Some 5) ?w = isTokenExpired env (Some 5) w"
    by (rule isTokenExpired_cong) simp_all
  have "own_calls env ?w us" using assms(2) by (simp add: own_calls_def tok)
  moreover have "base env ?w ?c"
    using assms(1,4) by (auto intro!: base_call simp: base_emit fresh_entry_def tok)
  moreover have "due_answer j us \<or> has_armed ?w ?c j" if "waits ?c j" for j
  proof -
    have "waits c j" "f \<noteq> Granted j" "f \<noteq> Refused j"
      using that by (auto simp: console_call_phase split: if_splits)
    then have "due_answer j us \<or> has_armed w c j"
      using assms(1,5) by (fastforce simp: due_answer_def)
    then show ?thesis by (simp add: has_armed_def armed_def)
  qed
  ultimately show ?thesis using assms(3) unfolding turn_inv_def
    by (intro exI [of _ us] exI [of _ rest]) simp
qed

text \<open>One instruction of a turn that answers no refresh.\<close>

lemma tame_step:
  assumes "mute env" and "step env i w = (w1, r)" and "tame (ran (co_promise c)) i"
    and "tames (ran (co_promise c)) is" and "base env w c" and "waiting_armed w c"
    and c1_def: "c1 = after_call env turn i w w1 c"
  shows "case r of Inl e \<Rightarrow> base env w1 c1 \<and> waiting_armed w1 c1 | Inr js \<Rightarrow> turn_inv env (js @ is) w1 c1"
proof -
  let ?K = "ran (co_promise c)"
  have sep: "sep ?K w" and hooks: "kc_hooks (kc w) = console_hooks" using assms(5) by (simp_all add: base_def)
  have armed: "\<forall>j. waits c j \<longrightarrow> has_armed w c j" using assms(6) by (simp add: waiting_armed_def)
  note frame = tame_call_frame [OF assms(3) hooks]
  show ?thesis
  proof (cases "settles_own ?K i")
    case False
    note keep = keepK_D [OF keepK_step [OF assms(1,3) False] sep assms(2)]
    have b: "base env w1 c" and h: "\<And>j. has_armed w1 c j = has_armed w c j"
      using base_same [OF assms(5) keep(2,1)] by auto
    show ?thesis
    proof (cases r)
      case (Inl e)
      then show ?thesis using b h armed by (simp add: c1_def frame waiting_armed_def)
    next
      case (Inr js)
      then have "tames ?K (js @ is)" using keep(3) assms(4) by auto
      moreover have "waiting_armed w1 c1" using h armed by (simp add: c1_def frame waiting_armed_def)
      ultimately show ?thesis using Inr b turn_inv_tame [of "js @ is" c1 env w1] by (simp add: c1_def frame)
    qed
  next
    case True
    then obtain p where i: "(\<exists>m v. i = Invoke (ExecUpdate p m) v) \<or> (\<exists>v. i = Invoke (SetErr p) v)" and p: "p \<in> ?K"
      using assms(3) by (cases "(?K, i)" rule: settles_own.cases) auto
    then obtain n where n: "co_promise c n = Some p" by (auto simp: ran_def)
    have c1: "c1 = c" using i by (auto simp: c1_def after_call_def)
    from i show ?thesis
    proof
      assume "\<exists>v. i = Invoke (SetErr p) v"
      then have st: "w1 = fst (settleP False p Undefined w)" "r = Inr (call_instrs (snd (settle False Undefined (w_heap w p))))"
        using assms(2) by (auto simp: settleP_result)
      show ?thesis
        using settle_turn [OF assms(5) n assms(4) armed, of False Undefined] st c1 by simp
    next
      assume "\<exists>m v. i = Invoke (ExecUpdate p m) v"
      then have "exec_update env p 5 w = (w1, r)" using assms(2,3) by auto
      from exec_update_outcome [OF this sep p] show ?thesis
      proof
        assume *: "isTokenExpired env (Some 5) w = Inr False \<and> w1 = fst (settleP True p (Bool False) w)
          \<and> r = Inr (call_instrs (snd (settle True (Bool False) (w_heap w p))))"
        then show ?thesis
          using settle_turn [OF assms(5) n assms(4) armed, of True "Bool False"] c1 by simp
      next
        assume *: "sep ?K w1 \<and> w_heap w1 = w_heap w \<and> kc w1 = kc w \<and> w_now w1 = w_now w
          \<and> (r = Inr [] \<or> (\<exists>e. r = Inl e))"
        then have "same_on ?K w w1" by (simp add: same_on_def)
        then have "base env w1 c" "\<And>j. has_armed w1 c j = has_armed w c j"
          using base_same [OF assms(5)] * by auto
        moreover from this have "waiting_armed w1 c" using armed by (simp add: waiting_armed_def)
        ultimately show ?thesis using * c1 turn_inv_tame [OF assms(4), of env w1] by auto
      qed
    qed
  qed
qed

lemma turn_inv_step:
  assumes "mute env" and "turn_inv env (i # is) w c" and "step env i w = (w1, r)"
    and c1: "c1 = after_call env turn i w w1 c"
  shows "case r of Inl e \<Rightarrow> base env w1 c1 \<and> waiting_armed w1 c1 | Inr js \<Rightarrow> turn_inv env (js @ is) w1 c1"
proof -
  obtain us rest where split: "i # is = us @ rest" "own_calls env w us" "tames (ran (co_promise c)) rest"
      "base env w c" "\<forall>j. waits c j \<longrightarrow> due_answer j us \<or> has_armed w c j"
    using assms(2) unfolding turn_inv_def by blast
  show ?thesis
  proof (cases us)
    case Nil
    then have "waiting_armed w c" using split(5) by (simp add: waiting_armed_def due_answer_def)
    then show ?thesis using tame_step [OF assms(1,3) _ _ split(4) _ c1] split(1,3) Nil by auto
  next
    case (Cons u us')
    then obtain f v where i: "i = Invoke (UserCb (fn_code f)) v"
        and f: "\<exists>j. f = Granted j \<and> isTokenExpired env (Some 5) w = Inr False \<or> f = Refused j"
      using split(1,2) by (auto simp: own_calls_def)
    then have st: "w1 = emit (UserCall (fn_code f) v) w" "r = Inr []"
      using assms(1,3) by (simp_all add: call_user_def mute_def)
    obtain j where j: "f = Granted j \<and> isTokenExpired env (Some 5) w = Inr False \<or> f = Refused j"
      using f by blast
    have us: "own_calls env w us'" "us = Invoke (UserCb (fn_code f)) v # us'" "is = us' @ rest"
      using split(1,2) Cons i by (auto simp: own_calls_def)
    have "turn_inv env (us' @ rest) w1 (console_call env turn f w1 c)"
      unfolding st(1) by (rule own_call_step [OF j us(1) split(3,4)]) (use split(5) us(2) in simp)
    then show ?thesis using us(3) st(2) by (simp add: c1 i after_call_def)
  qed
qed

lemma turn_keeps:
  assumes "crun env turn js w c = Some (w', c', r)" and "mute env" and "turn_inv env js w c"
  shows "base env w' c' \<and> waiting_armed w' c'"
proof (rule crun_rule [OF assms(1), where P = "turn_inv env" and Q = "\<lambda>w c. base env w c \<and> waiting_armed w c"])
  show "turn_inv env js w c" by (rule assms(3))
next
  fix w c assume "turn_inv env [] w c"
  then show "base env w c \<and> waiting_armed w c"
    by (auto simp: turn_inv_def waiting_armed_def due_answer_def)
next
  fix i "is" w c w1 e assume "turn_inv env (i # is) w c" "step env i w = (w1, Inl e)"
  then show "base env w1 (after_call env turn i w w1 c) \<and> waiting_armed w1 (after_call env turn i w w1 c)"
    using turn_inv_step [OF assms(2), of i "is" w c w1 "Inl e" _ turn] by simp
next
  fix i "is" w c w1 js' assume "turn_inv env (i # is) w c" "step env i w = (w1, Inr js')"
  then show "turn_inv env (js' @ is) w1 (after_call env turn i w w1 c)"
    using turn_inv_step [OF assms(2), of i "is" w c w1 "Inr js'" _ turn] by simp
qed

section \<open>The response to a refresh\<close>

definition own_fn :: "bool \<Rightarrow> nat \<Rightarrow> console_fn" where
  "own_fn ok i = (if ok then Granted i else Refused i)"

definition answer :: "env \<Rightarrow> instr \<Rightarrow> bool \<Rightarrow> world \<Rightarrow> pid \<Rightarrow> console \<Rightarrow> console" where
  "answer env turn ok w p c =
     (case waiting (w_heap w p) ok of
        Some (UserCb n) \<Rightarrow> console_call env turn (fn_of n) w c
      | _ \<Rightarrow> c)"

definition answers :: "env \<Rightarrow> instr \<Rightarrow> bool \<Rightarrow> world \<Rightarrow> pid list \<Rightarrow> console \<Rightarrow> console" where
  "answers env turn ok w = fold (answer env turn ok w)"

lemma answer_cong:
  assumes "kc w' = kc w" and "w_now w' = w_now w" and "waiting (w_heap w' p) = waiting (w_heap w p)"
  shows "answer env turn ok w' p c = answer env turn ok w p c"
proof -
  have "console_call env turn f w' c = console_call env turn f w c" for f
    using isTokenExpired_cong [OF assms(1,2)] assms(1) by (cases f) (simp_all add: console_call.simps)
  then show ?thesis by (simp add: answer_def assms(3) split: option.split cont.split)
qed

lemma answers_cong:
  assumes "kc w' = kc w" and "w_now w' = w_now w" and "\<And>p. waiting (w_heap w' p) = waiting (w_heap w p)"
  shows "answers env turn ok w' qs c = answers env turn ok w qs c"
  unfolding answers_def using answer_cong [OF assms] by (intro fold_cong) auto

text \<open>The loop over the queue: every promise is settled, last first, and its callback called.\<close>

definition drained_to :: "world \<Rightarrow> world \<Rightarrow> bool" where
  "drained_to w w' \<longleftrightarrow> kc w' = kc w \<and> w_now w' = w_now w
     \<and> (\<forall>p. waiting (w_heap w' p) = waiting (w_heap w p))
     \<and> (\<forall>p. p \<notin> set (w_refreshQueue w) \<longrightarrow> w_heap w' p = w_heap w p)
     \<and> (\<forall>K. sep K w \<longrightarrow> sep K w')"

lemma crun_drain_Nil:
  "w_refreshQueue w = [] \<Longrightarrow> crun env turn [Drain ok] w c = Some (w, c, None)"
  by (simp add: crun_Cons drain_queue_def after_call_def)

lemma crun_user:
  "mute env \<Longrightarrow> crun env turn (Invoke (UserCb n) v # js) w c =
     crun env turn js (emit (UserCall n v) w) (console_call env turn (fn_of n) (emit (UserCall n v) w) c)"
  by (simp add: crun_Cons call_user_def mute_def after_call_def)

lemma crun_drain_snoc:
  assumes "mute env" and "w_refreshQueue w = qs @ [p]"
    and "\<And>x. waiting (w_heap w p) ok = Some x \<Longrightarrow> \<exists>n. x = UserCb n"
  shows "\<exists>w1. crun env turn [Drain ok] w c = crun env turn [Drain ok] w1 (answer env turn ok w p c)
    \<and> w_refreshQueue w1 = qs \<and> drained_to w w1"
proof -
  let ?w = "fst (settleP ok p (Bool True) (w\<lparr>w_refreshQueue := qs\<rparr>))"
  have sep1: "sep K ?w" if "sep K w" for K
  proof (rule sep_settle)
    have "set qs \<subseteq> K" using that assms(2) by (simp add: sep_def)
    then show "sep K (w\<lparr>w_refreshQueue := qs\<rparr>)" using that by (simp add: sep_def root_def)
  qed
  have slots: "waiting (w_heap ?w q) = waiting (w_heap w q)" for q
    by (auto simp: settleP_result promise_defs fun_eq_iff)
  have d: "drained_to w ?w"
    using sep1 slots assms(2) by (auto simp: drained_to_def settleP_result)
  have st: "crun env turn [Drain ok] w c =
      crun env turn (call_instrs (snd (settle ok (Bool True) (w_heap w p))) @ [Drain ok]) ?w c"
    by (subst crun_Cons) (simp add: drain_queue_def assms(2) bindJ_def settleP_result after_call_def)
  show ?thesis
  proof (cases "waiting (w_heap w p) ok")
    case None
    then have "call_instrs (snd (settle ok (Bool True) (w_heap w p))) = []"
      by (cases ok) (simp_all add: promise_defs call_instrs_def)
    then show ?thesis using st d None by (intro exI [of _ ?w]) (simp add: answer_def)
  next
    case (Some x)
    then obtain n where x: "x = UserCb n" using assms(3) by blast
    let ?v = "emit (UserCall n (Bool True)) ?w"
    have "call_instrs (snd (settle ok (Bool True) (w_heap w p))) = [Invoke (UserCb n) (Bool True)]"
      using Some x by (cases ok) (simp_all add: promise_defs call_instrs_def)
    then have "crun env turn [Drain ok] w c =
        crun env turn [Drain ok] ?v (console_call env turn (fn_of n) ?v c)"
      using st crun_user [OF assms(1)] by simp
    moreover have "console_call env turn (fn_of n) ?v c = answer env turn ok ?v p c"
      using Some x slots by (simp add: answer_def)
    moreover have "answer env turn ok ?v p c = answer env turn ok w p c"
      by (rule answer_cong) (simp_all add: slots, simp_all add: settleP_result)
    moreover have "drained_to w ?v" using d by (simp add: drained_to_def sep_core [of "emit _ _"])
    ultimately show ?thesis by (intro exI [of _ ?v]) simp
  qed
qed

lemma drained_trans:
  assumes "drained_to u v" and "drained_to v w" and "set (w_refreshQueue v) \<subseteq> set (w_refreshQueue u)"
  shows "drained_to u w"
  using assms unfolding drained_to_def by (metis subsetD)

lemma crun_drain:
  assumes "mute env" and "\<forall>p \<in> set (w_refreshQueue w). \<forall>x. waiting (w_heap w p) ok = Some x \<longrightarrow> (\<exists>n. x = UserCb n)"
  shows "\<exists>w'. crun env turn [Drain ok] w c =
      Some (w', answers env turn ok w (rev (w_refreshQueue w)) c, None) \<and> drained_to w w'"
  using assms(2)
proof (induction "w_refreshQueue w" arbitrary: w c rule: rev_induct)
  case Nil
  then show ?case using crun_drain_Nil [of w env turn ok c]
    by (intro exI [of _ w]) (simp add: answers_def drained_to_def)
next
  case (snoc p qs)
  have q: "w_refreshQueue w = qs @ [p]" using snoc.hyps(2) by simp
  obtain w1 where w1: "crun env turn [Drain ok] w c = crun env turn [Drain ok] w1 (answer env turn ok w p c)"
      "w_refreshQueue w1 = qs" "drained_to w w1"
    using crun_drain_snoc [OF assms(1) q, of ok turn c] snoc.prems q by auto
  have "\<forall>p \<in> set (w_refreshQueue w1). \<forall>x. waiting (w_heap w1 p) ok = Some x \<longrightarrow> (\<exists>n. x = UserCb n)"
    using snoc.prems q w1(2,3) by (simp add: drained_to_def)
  from snoc.hyps(1) [OF w1(2) [symmetric] this, of "answer env turn ok w p c"] obtain w' where
    w': "crun env turn [Drain ok] w1 (answer env turn ok w p c) =
        Some (w', answers env turn ok w1 (rev qs) (answer env turn ok w p c), None)" "drained_to w1 w'"
    using w1(2) by auto
  have "answers env turn ok w1 (rev qs) d = answers env turn ok w (rev qs) d" for d
    using w1(3) by (intro answers_cong) (auto simp: drained_to_def)
  then have "crun env turn [Drain ok] w c = Some (w', answers env turn ok w (rev (w_refreshQueue w)) c, None)"
    using w1(1) w'(1) q by (simp add: answers_def)
  moreover have "drained_to w w'"
    using drained_trans [OF w1(3) w'(2)] w1(2) q by auto
  ultimately show ?case by blast
qed

text \<open>What the calls do to the requests and to the records of the console.\<close>

definition own_slots :: "bool \<Rightarrow> world \<Rightarrow> pid list \<Rightarrow> bool" where
  "own_slots ok w qs \<longleftrightarrow> (\<forall>p \<in> set qs. waiting (w_heap w p) ok = None
     \<or> (\<exists>i. waiting (w_heap w p) ok = Some (UserCb (fn_code (own_fn ok i)))))"

definition called_for :: "bool \<Rightarrow> world \<Rightarrow> pid list \<Rightarrow> nat \<Rightarrow> bool" where
  "called_for ok w qs i \<longleftrightarrow> (\<exists>p \<in> set qs. waiting (w_heap w p) ok = Some (UserCb (fn_code (own_fn ok i))))"

definition done_phase :: "bool \<Rightarrow> phase" where
  "done_phase ok = (if ok then UnderWay else Stuck)"

lemma own_fn_phase:
  "phase_of (co_http (console_call env turn (own_fn ok j) w c)) i =
     (if waits c i \<and> i = j then Some (done_phase ok) else phase_of (co_http c) i)"
  by (auto simp: console_call_phase own_fn_def done_phase_def)

lemma own_fn_inject [simp]: "own_fn ok i = own_fn ok j \<longleftrightarrow> i = j"
  by (simp add: own_fn_def)

lemma answers_Cons: "answers env turn ok w (p # qs) c = answers env turn ok w qs (answer env turn ok w p c)"
  by (simp add: answers_def)

lemma answers_phase:
  "own_slots ok w qs \<Longrightarrow> phase_of (co_http (answers env turn ok w qs c)) i =
     (if waits c i \<and> called_for ok w qs i then Some (done_phase ok) else phase_of (co_http c) i)"
proof (induction qs arbitrary: c)
  case Nil
  then show ?case by (simp add: answers_def called_for_def)
next
  case (Cons p qs)
  have ih: "phase_of (co_http (answers env turn ok w qs d)) i =
     (if waits d i \<and> called_for ok w qs i then Some (done_phase ok) else phase_of (co_http d) i)" for d
    using Cons by (simp add: own_slots_def)
  have np: "done_phase ok \<noteq> Waiting" by (simp add: done_phase_def)
  from Cons.prems consider "waiting (w_heap w p) ok = None"
    | j where "waiting (w_heap w p) ok = Some (UserCb (fn_code (own_fn ok j)))"
    by (auto simp: own_slots_def)
  then show ?case
  proof cases
    case 1
    then have "called_for ok w (p # qs) i = called_for ok w qs i" by (simp add: called_for_def)
    then show ?thesis using ih 1 by (simp add: answers_Cons answer_def)
  next
    case 2
    then have "called_for ok w (p # qs) i \<longleftrightarrow> i = j \<or> called_for ok w qs i"
      by (auto simp: called_for_def)
    then show ?thesis using ih 2 np by (auto simp: answers_Cons answer_def own_fn_phase)
  qed
qed

lemma answer_frame:
  "co_promise (answer env turn ok w p c) = co_promise c"
  "length (h_reqs (co_http (answer env turn ok w p c))) = length (h_reqs (co_http c))"
  by (simp_all add: answer_def split: option.split cont.split)

lemma answers_frame:
  "co_promise (answers env turn ok w qs c) = co_promise c"
  "length (h_reqs (co_http (answers env turn ok w qs c))) = length (h_reqs (co_http c))"
  by (induction qs arbitrary: c) (simp_all add: answers_def answer_frame)

lemma answer_sent:
  "e \<in> set (co_sent (answer env turn ok w p c)) \<Longrightarrow>
     e \<in> set (co_sent c) \<or> sn_token e = kc_token (kc w) \<and> sn_turn e = turn
       \<and> (\<exists>x. waiting (w_heap w p) ok = Some x \<and> (\<forall>i. x \<noteq> UserCb (fn_code (Refused i))))"
  by (auto simp: answer_def console_call_sent fn_of_code split: option.splits cont.splits console_fn.splits if_splits)

lemma answers_sent:
  "own_slots ok w qs \<Longrightarrow> e \<in> set (co_sent (answers env turn ok w qs c)) \<Longrightarrow>
     e \<in> set (co_sent c) \<or> ok \<and> sn_token e = kc_token (kc w) \<and> sn_turn e = turn"
proof (induction qs arbitrary: c)
  case Nil
  then show ?case by (simp add: answers_def)
next
  case (Cons p qs)
  then have "e \<in> set (co_sent (answer env turn ok w p c)) \<or> ok \<and> sn_token e = kc_token (kc w) \<and> sn_turn e = turn"
    by (auto simp: answers_Cons own_slots_def)
  moreover have "ok" if "waiting (w_heap w p) ok = Some x" "\<forall>i. x \<noteq> UserCb (fn_code (Refused i))" for x
    using Cons.prems(1) that by (cases ok) (auto simp: own_slots_def own_fn_def)
  ultimately show ?case using answer_sent by blast
qed

text \<open>The log grows by one entry for each request that is let through or given up.\<close>

definition bearer_of :: "env \<Rightarrow> world \<Rightarrow> string" where
  "bearer_of env w = ''Bearer '' @ str (conv_of env) (kc_token (kc w))"

definition answer_effect :: "env \<Rightarrow> bool \<Rightarrow> world \<Rightarrow> string \<Rightarrow> heffect" where
  "answer_effect env ok w url = (if ok then HSend url (Some (bearer_of env w)) else HReload)"

definition url_of :: "console \<Rightarrow> nat \<Rightarrow> string" where
  "url_of c i = fst (h_reqs (co_http c) ! i)"

lemma url_of_set_phase: "fst (h_reqs (set_phase j p h) ! i) = fst (h_reqs h ! i)"
proof (cases "j < length (h_reqs h)")
  case True
  then show ?thesis by (cases "i = j") (simp_all add: set_phase_def)
next
  case False
  then show ?thesis by (simp add: set_phase_def list_update_beyond)
qed

lemma own_call_log:
  "h_log (co_http (console_call env turn (own_fn ok j) w c)) =
     h_log (co_http c) @ (if waits c j then [answer_effect env ok w (url_of c j)] else [])"
  "url_of (console_call env turn (own_fn ok j) w c) i = url_of c i"
  by (auto simp: own_fn_def console_call.simps answer_effect_def url_of_def bearer_of_def bearer_def
      url_of_set_phase spinnerFunction_def Let_def)

definition answered_log :: "env \<Rightarrow> bool \<Rightarrow> world \<Rightarrow> pid list \<Rightarrow> console \<Rightarrow> console \<Rightarrow> bool" where
  "answered_log env ok w qs c c' \<longleftrightarrow> (\<exists>es. h_log (co_http c') = h_log (co_http c) @ es
     \<and> (\<forall>i. waits c i \<and> called_for ok w qs i \<longrightarrow> answer_effect env ok w (url_of c i) \<in> set es)
     \<and> (\<forall>x \<in> set es. \<exists>url. x = answer_effect env ok w url))"

lemma answers_log:
  "own_slots ok w qs \<Longrightarrow> answered_log env ok w qs c (answers env turn ok w qs c)"
proof (induction qs arbitrary: c)
  case Nil
  then show ?case by (simp add: answers_def called_for_def answered_log_def)
next
  case (Cons p qs)
  have os: "own_slots ok w qs" using Cons.prems by (simp add: own_slots_def)
  from Cons.prems consider "waiting (w_heap w p) ok = None"
    | j where "waiting (w_heap w p) ok = Some (UserCb (fn_code (own_fn ok j)))"
    by (auto simp: own_slots_def)
  then show ?case
  proof cases
    case 1
    then have "called_for ok w (p # qs) i = called_for ok w qs i" for i by (simp add: called_for_def)
    then show ?thesis using Cons.IH [OF os, of c] 1 by (simp add: answers_Cons answer_def answered_log_def)
  next
    case 2
    let ?d = "console_call env turn (own_fn ok j) w c"
    have np: "done_phase ok \<noteq> Waiting" by (simp add: done_phase_def)
    have called: "called_for ok w (p # qs) i \<longleftrightarrow> i = j \<or> called_for ok w qs i" for i
      using 2 by (auto simp: called_for_def)
    obtain es where es: "h_log (co_http (answers env turn ok w qs ?d)) = h_log (co_http ?d) @ es"
        "\<forall>i. waits ?d i \<and> called_for ok w qs i \<longrightarrow> answer_effect env ok w (url_of ?d i) \<in> set es"
        "\<forall>x \<in> set es. \<exists>url. x = answer_effect env ok w url"
      using Cons.IH [OF os, of ?d] by (auto simp: answered_log_def)
    let ?es = "(if waits c j then [answer_effect env ok w (url_of c j)] else []) @ es"
    have "answer_effect env ok w (url_of c i) \<in> set ?es" if "waits c i" "called_for ok w (p # qs) i" for i
      using that es(2) np by (cases "i = j") (auto simp: called own_fn_phase own_call_log(2))
    then have "answered_log env ok w (p # qs) c (answers env turn ok w qs ?d)"
      unfolding answered_log_def using es(1,3) by (intro exI [of _ ?es]) (auto simp: own_call_log(1))
    then show ?thesis using 2 by (simp add: answers_Cons answer_def)
  qed
qed

text \<open>\<open>setToken\<close> stores the access token, or \<open>undefined\<close> when there is none.\<close>

lemma set_access_token_result:
  "set_access_token env t w = (w', Inr x) \<Longrightarrow> kc_token (kc w') = (if truthy t then t else Undefined)"
  by (auto simp: set_access_token_def store_parsed_def forget_token_def split: if_splits sum.splits)

lemma set_refresh_token_token: "set_refresh_token env t w = (w', r) \<Longrightarrow> kc_token (kc w') = kc_token (kc w)"
  by (auto simp: set_refresh_token_def split: if_splits sum.splits)

lemma token_response_token:
  assumes "token_response env body w = (w', Inr x)"
  shows "\<exists>v t. parse_json env body = Inr v \<and> getp v ''access_token'' = Inr t
    \<and> kc_token (kc w') = (if truthy t then t else Undefined)"
  using assms
  by (auto simp: token_response_def setToken_cases Let_def set_refresh_token_token
      simp del: getp.simps split: sum.splits prod.splits dest!: set_access_token_result)

text \<open>The turn of a response: an exception while the tokens are stored, or the loop over the queue.\<close>

definition refreshed :: "env \<Rightarrow> nat \<Rightarrow> string \<Rightarrow> world \<Rightarrow> bool" where
  "refreshed env status body w \<longleftrightarrow> (status = 200 \<longrightarrow>
     (\<exists>v t. parse_json env body = Inr v \<and> getp v ''access_token'' = Inr t
        \<and> kc_token (kc w) = (if truthy t then t else Undefined)))"

lemma step_hook_none:
  "kc_hooks (kc w) = console_hooks \<Longrightarrow> h \<noteq> OnAuthLogout \<Longrightarrow>
     crun env turn (Hook h v # js) w c = crun env turn js w c"
  by (simp add: crun_Cons call_hook_def console_hooks_def after_call_def bindJ_def)

lemma own_slots_queue:
  assumes "base env w c" and "same_on (ran (co_promise c)) w w1"
  shows "own_slots ok w1 (rev (w_refreshQueue w))"
  unfolding own_slots_def
proof
  fix p assume "p \<in> set (rev (w_refreshQueue w))"
  then have p: "p \<in> ran (co_promise c)" using assms(1) by (auto simp: base_def sep_def)
  then obtain i where i: "co_promise c i = Some p" by (auto simp: ran_def)
  have "w_heap w1 p = w_heap w p" using assms(2) p by (simp add: same_on_def)
  then show "waiting (w_heap w1 p) ok = None
      \<or> (\<exists>i. waiting (w_heap w1 p) ok = Some (UserCb (fn_code (own_fn ok i))))"
    using base_tagged [OF assms(1) i] by (auto simp: tagged_def waiting_def own_fn_def)
qed

lemma refresh_drain:
  assumes "mute env" and "base env w c" and "same_on (ran (co_promise c)) w w1"
    and "w_refreshQueue w1 = w_refreshQueue w"
  shows "\<exists>w'. crun env turn [Drain ok] w1 c =
      Some (w', answers env turn ok w1 (rev (w_refreshQueue w)) c, None) \<and> drained_to w1 w'"
proof -
  have "\<forall>p \<in> set (w_refreshQueue w1). \<forall>x. waiting (w_heap w1 p) ok = Some x \<longrightarrow> (\<exists>n. x = UserCb n)"
    using own_slots_queue [OF assms(2,3), of ok] assms(4) by (fastforce simp: own_slots_def)
  from crun_drain [OF assms(1) this] show ?thesis by (simp add: assms(4))
qed

lemma refresh_turn:
  assumes "crun env turn [Response XRefresh status body] w c = Some (w', c', r)"
    and "mute env" and "base env w c"
  shows "status = 200 \<and> (\<exists>e. snd (token_response env body w) = Inl e) \<and> c' = c
      \<and> sep (ran (co_promise c)) w' \<and> same_on (ran (co_promise c)) w w'
    \<or> r = None \<and> (\<exists>w1. sep (ran (co_promise c)) w1 \<and> same_on (ran (co_promise c)) w w1
        \<and> refreshed env status body w1 \<and> drained_to w1 w'
        \<and> w_refreshQueue w1 = w_refreshQueue w
        \<and> c' = answers env turn (status = 200) w1 (rev (w_refreshQueue w)) c)"
proof -
  let ?K = "ran (co_promise c)"
  have sep: "sep ?K w" and hooks: "kc_hooks (kc w) = console_hooks" using assms(3) by (simp_all add: base_def)
  have first: "crun env turn [Response XRefresh status body] w c = crun env turn (refresh_response status body) w c"
    by (subst crun_Cons) (simp add: after_call_def)
  show ?thesis
  proof (cases "status = 200")
    case False
    then have "crun env turn [Drain False] w c = Some (w', c', r)"
      using assms(1) first hooks by (simp add: refresh_response_def step_hook_none)
    then show ?thesis
      using refresh_drain [OF assms(2,3), of w turn False] False sep
      by (auto simp: refreshed_def)
  next
    case True
    let ?js = "[Hook OnAuthRefreshSuccess Undefined, Drain True]"
    obtain w1 s where tok: "token_response env body w = (w1, s)" by (cases "token_response env body w")
    note keep = keepK_D [OF keepK_token_response sep tok]
    have "refresh_part w1 = refresh_part w"
      using calm.keeps_token_response [of env body] tok unfolding calm.keeps_def by (metis fst_conv)
    then have queue: "w_refreshQueue w1 = w_refreshQueue w" by (simp add: refresh_part_def)
    have go: "crun env turn (TokenResponse body # ?js) w c = Some (w', c', r)"
      using assms(1) first True by (simp add: refresh_response_def)
    show ?thesis
    proof (cases s)
      case (Inl e)
      then show ?thesis using go tok keep True by (auto simp: crun_Cons bindJ_def after_call_def)
    next
      case (Inr x)
      then have "crun env turn ?js w1 c = Some (w', c', r)"
        using go tok by (subst (asm) crun_Cons) (simp add: bindJ_def after_call_def)
      moreover have "kc_hooks (kc w1) = console_hooks" using keep(2) hooks by (simp add: same_on_def)
      ultimately have "crun env turn [Drain True] w1 c = Some (w', c', r)" by (simp add: step_hook_none)
      moreover have "refreshed env status body w1"
        using token_response_token [OF tok [unfolded Inr]] by (simp add: refreshed_def)
      ultimately show ?thesis
        using refresh_drain [OF assms(2,3) keep(2) queue, of turn True] True keep queue by auto
    qed
  qed
qed

lemma refresh_turn_keeps:
  assumes "crun env (Response XRefresh status body) [Response XRefresh status body] w c = Some (w', c', r)"
    and "mute env" and "base env w c" and "waiting_armed w c"
  shows "base env w' c' \<and> waiting_armed w' c'"
  using refresh_turn [OF assms(1-3)]
proof
  assume "status = 200 \<and> (\<exists>e. snd (token_response env body w) = Inl e) \<and> c' = c \<and> sep (ran (co_promise c)) w' \<and> same_on (ran (co_promise c)) w w'"
  then show ?thesis
    using base_same [OF assms(3), of w'] assms(4) by (auto simp: waiting_armed_def)
next
  let ?K = "ran (co_promise c)" and ?qs = "rev (w_refreshQueue w)" and ?ok = "status = 200"
  assume "r = None \<and> (\<exists>w1. sep ?K w1 \<and> same_on ?K w w1 \<and> refreshed env status body w1 \<and> drained_to w1 w'
      \<and> w_refreshQueue w1 = w_refreshQueue w
      \<and> c' = answers env (Response XRefresh status body) ?ok w1 ?qs c)"
  then obtain w1 where w1: "sep ?K w1" "same_on ?K w w1" "refreshed env status body w1" "drained_to w1 w'"
      "w_refreshQueue w1 = w_refreshQueue w"
    and c': "c' = answers env (Response XRefresh status body) ?ok w1 ?qs c" by blast
  note slots = own_slots_queue [OF assms(3) w1(2), of ?ok]
  have b1: "base env w1 c" and armed1: "\<And>i. has_armed w1 c i = has_armed w c i"
    using base_same [OF assms(3) w1(2,1)] by auto
  have "fresh_entry env e" if "e \<in> set (co_sent c')" for e
    using answers_sent [OF slots that [unfolded c']]
  proof
    assume "e \<in> set (co_sent c)"
    then show ?thesis using assms(3) by (simp add: base_def)
  next
    assume "?ok \<and> sn_token e = kc_token (kc w1) \<and> sn_turn e = Response XRefresh status body"
    then show ?thesis using w1(3) unfolding fresh_entry_def refreshed_def by metis
  qed
  moreover have "tagged w' p i" if "co_promise c i = Some p" for i p
  proof -
    have "waiting (w_heap w' p) b = waiting (w_heap w1 p) b" for b
      using w1(4) by (simp add: drained_to_def)
    from this [of True] this [of False] show ?thesis
      using base_tagged [OF b1 that] by (simp add: tagged_def waiting_def)
  qed
  moreover have "sep ?K w'" and "kc w' = kc w1" using w1(1,4) by (simp_all add: drained_to_def)
  ultimately have base: "base env w' c'"
    using b1 by (simp add: base_def c' answers_frame)
  have "has_armed w' c' i" if wi: "waits c' i" for i
  proof -
    have np: "done_phase ?ok \<noteq> Waiting" by (simp add: done_phase_def)
    have i: "waits c i" "\<not> called_for ?ok w1 ?qs i"
      using wi np unfolding c' answers_phase [OF slots] by (auto split: if_splits)
    then have "has_armed w1 c i" using assms(4) armed1 by (simp add: waiting_armed_def)
    then obtain p where p: "co_promise c i = Some p" "armed w1 p i" by (auto simp: has_armed_def)
    then have "waiting (w_heap w1 p) ?ok = Some (UserCb (fn_code (own_fn ?ok i)))"
      by (simp add: armed_def waiting_def own_fn_def)
    then have "p \<notin> set (w_refreshQueue w1)" using i(2) w1(5) by (auto simp: called_for_def)
    then have "w_heap w' p = w_heap w1 p" using w1(4) by (simp add: drained_to_def)
    from armed_cong [OF this] show ?thesis using p by (simp add: has_armed_def c' answers_frame)
  qed
  with base show ?thesis by (simp add: waiting_armed_def)
qed

end
