(* ===== verification/Admin_Console.thy ===== *)
theory Admin_Console
  imports Admin_Waiting
begin

text \<open>
  The console from its start on: the invariants of \<open>Admin_Waiting\<close> hold after every event
  (\<open>session_inv\<close>), and the properties of the composed system.
\<close>

section \<open>A request asks for a token\<close>

lemma sep_new:
  assumes "sep K w" and "wf w"
  shows "sep (insert (w_next w) K) (fst (new_promise w))"
proof -
  let ?p = "w_next w" and ?w = "fst (new_promise w)"
  have fine: "cfine (insert ?p K) c" if q: "q \<notin> K" "c \<in> callbacks w q" for q c
  proof -
    have "cfine K c" using assms(1) q by (simp add: sep_def)
    moreover have "r \<noteq> ?p" if "ref c = Some r" for r
      using assms(2) q that by (force simp: wf_def good_cont_def)
    ultimately show ?thesis by (cases c) auto
  qed
  have "?p \<notin> ran (li_callbackMap (lif w))" "?p \<notin> set (w_frames w)" "\<not> Kc_Heap.root w ?p"
    using assms(2) unfolding wf_def by blast+
  then show ?thesis
    using assms(1) fine by (auto simp: sep_def callbacks_new less_SucI)
qed

text \<open>What is true of the new promise when \<open>updateToken\<close> returns it.\<close>

definition unclaimed :: "world \<Rightarrow> pid \<Rightarrow> bool" where
  "unclaimed w p \<longleftrightarrow> p_successCallback (w_heap w p) = None \<and> p_errorCallback (w_heap w p) = None"

definition open_promise :: "world \<Rightarrow> pid \<Rightarrow> bool" where
  "open_promise w p \<longleftrightarrow> unclaimed w p \<and> \<not> p_success (w_heap w p) \<and> \<not> p_error (w_heap w p)"

lemma open_createPromise: "w_heap w p = createPromise \<Longrightarrow> open_promise w p"
  by (simp add: open_promise_def unclaimed_def createPromise_def)

lemma check_result:
  "\<exists>w1 q. checkLoginIframe env w = (w1, Inr q)
     \<and> (w_heap w1 q = createPromise \<or> w_heap w1 q = fst (settle True Undefined createPromise))"
  by (cases "li_iframe (lif w) \<and> truthy_str (li_iframeOrigin (lif w))")
    (simp_all add: check_cases Let_def client_results)

lemma check_register:
  assumes "sep K w" and "p \<in> K"
  shows "\<exists>w1 js. bindJ (checkLoginIframe env) (\<lambda>q.
        bindJ (registerP True q (ExecUpdate p 5)) (\<lambda>js1.
        bindJ (registerP False q (SetErr p)) (\<lambda>js2. ret (p, js1 @ js2)))) w = (w1, Inr (p, js))
    \<and> sep K w1 \<and> same_on K w w1 \<and> (js = [] \<or> js = [Invoke (ExecUpdate p 5) Undefined])"
proof -
  let ?m = "bindJ (checkLoginIframe env) (\<lambda>q.
        bindJ (registerP True q (ExecUpdate p 5)) (\<lambda>js1.
        bindJ (registerP False q (SetErr p)) (\<lambda>js2. ret (p, js1 @ js2))))"
  have "keepK K (\<lambda>_. True) ?m"
    by (rule keepK_bindJ [OF keepK_check]) (auto intro!: keepK_register_then keepK_ret assms(2))
  then have keep: "sep K (fst (?m w))" "same_on K w (fst (?m w))"
    using assms(1) by (simp_all add: keepK_def)
  have "\<exists>js. snd (?m w) = Inr (p, js) \<and> (js = [] \<or> js = [Invoke (ExecUpdate p 5) Undefined])"
  proof -
    obtain w1 q where q: "checkLoginIframe env w = (w1, Inr q)"
        "w_heap w1 q = createPromise \<or> w_heap w1 q = fst (settle True Undefined createPromise)"
      using check_result by blast
    have "?m w = bindJ (registerP True q (ExecUpdate p 5)) (\<lambda>js1.
        bindJ (registerP False q (SetErr p)) (\<lambda>js2. ret (p, js1 @ js2))) w1"
      by (simp add: bindJ_def [of "checkLoginIframe env"] q(1))
    then show ?thesis using q(2)
      by (auto simp: bindJ_heap registerP_result promise_defs call_instrs_def)
  qed
  then obtain js where js: "snd (?m w) = Inr (p, js)" "js = [] \<or> js = [Invoke (ExecUpdate p 5) Undefined]"
    by blast
  obtain w1 r where m: "?m w = (w1, r)" by (cases "?m w")
  show ?thesis using keep js unfolding m by simp
qed

lemma updateToken_outcome:
  assumes "sep K w" and "wf w"
  shows "\<exists>w1 js. updateToken env (Some 5) w = (w1, Inr (w_next w, js))
    \<and> sep (insert (w_next w) K) w1 \<and> same_on K w w1 \<and> unclaimed w1 (w_next w) \<and> \<not> p_success (w_heap w1 (w_next w))
    \<and> (js = [] \<or> js = [Invoke (ExecUpdate (w_next w) 5) Undefined] \<and> open_promise w1 (w_next w))"
proof -
  let ?p = "w_next w" and ?K = "insert (w_next w) K" and ?w = "fst (new_promise w)"
  have sep: "sep ?K ?w" by (rule sep_new [OF assms])
  have "?p \<notin> K" using assms(1) by (auto simp: sep_def)
  then have same: "same_on K w ?w" and heap: "w_heap ?w ?p = createPromise"
    by (auto simp: same_on_def new_promise_result)
  have weak: "same_on K ?w v" if "same_on ?K ?w v" for v
    using that by (simp add: same_on_def)
  have heapv: "w_heap v ?p = createPromise" if "same_on ?K ?w v" for v
    using that heap by (simp add: same_on_def)
  have start: "updateToken env (Some 5) w =
      (if \<not> (truthy (kc_tokenParsed (kc w)) \<and> truthy (kc_refreshToken (kc w)))
       then (fst (settleP False ?p Undefined ?w), Inr (?p, []))
       else if li_enable (lif w) then
         bindJ (checkLoginIframe env) (\<lambda>q.
           bindJ (registerP True q (ExecUpdate ?p 5)) (\<lambda>js1.
           bindJ (registerP False q (SetErr ?p)) (\<lambda>js2. ret (?p, js1 @ js2)))) ?w
       else (?w, Inr (?p, [Invoke (ExecUpdate ?p 5) Undefined])))"
    by (simp add: updateToken_def bindJ_heap min_validity_def bindJ_def [of "settleP _ _ _"] settleP_result)
  consider "\<not> (truthy (kc_tokenParsed (kc w)) \<and> truthy (kc_refreshToken (kc w)))"
    | "truthy (kc_tokenParsed (kc w)) \<and> truthy (kc_refreshToken (kc w))" "li_enable (lif w)"
    | "truthy (kc_tokenParsed (kc w)) \<and> truthy (kc_refreshToken (kc w))" "\<not> li_enable (lif w)" by blast
  then show ?thesis
  proof cases
    case 1
    let ?v = "fst (settleP False ?p Undefined ?w)"
    have "sep ?K ?v" by (rule sep_settle [OF sep])
    moreover have "same_on K w ?v" using same \<open>?p \<notin> K\<close> by (auto simp: same_on_def settleP_result)
    moreover have "unclaimed ?v ?p" "\<not> p_success (w_heap ?v ?p)"
      by (simp_all add: unclaimed_def settleP_result heap promise_defs)
    ultimately show ?thesis using 1 by (simp add: start)
  next
    case 2
    then obtain w1 js where *: "updateToken env (Some 5) w = (w1, Inr (?p, js))" "sep ?K w1" "same_on ?K ?w w1"
        "js = [] \<or> js = [Invoke (ExecUpdate ?p 5) Undefined]"
      using check_register [OF sep, of ?p env] start by auto
    have "open_promise w1 ?p" by (rule open_createPromise [OF heapv [OF *(3)]])
    then show ?thesis
      using * same_on_trans [OF same weak [OF *(3)]] by (auto simp: open_promise_def)
  next
    case 3
    have "open_promise ?w ?p" by (rule open_createPromise [OF heap])
    then show ?thesis using 3 sep same by (simp add: start open_promise_def)
  qed
qed

text \<open>\<open>.success(f).error(g)\<close> on it: both are registered, or the one that is due is called.\<close>

lemma register_request:
  assumes "unclaimed w p" and "\<not> (p_success (w_heap w p) \<and> p_error (w_heap w p))" and "p \<in> K" and "sep K w"
  shows "\<exists>w1 js. step env (UserReg p (Some a) (Some b)) w = (w1, Inr js)
    \<and> sep K w1 \<and> (\<forall>q. q \<noteq> p \<longrightarrow> w_heap w1 q = w_heap w q) \<and> kc w1 = kc w \<and> w_now w1 = w_now w
    \<and> p_successCallback (w_heap w1 p) \<in> {None, Some (UserCb a)}
    \<and> p_errorCallback (w_heap w1 p) \<in> {None, Some (UserCb b)}
    \<and> (js = [Invoke (UserCb a) (p_result (w_heap w p))] \<and> p_success (w_heap w p)
       \<or> js = [Invoke (UserCb b) (p_result (w_heap w p))]
       \<or> js = [] \<and> p_successCallback (w_heap w1 p) = Some (UserCb a)
           \<and> p_errorCallback (w_heap w1 p) = Some (UserCb b)
           \<and> \<not> p_success (w_heap w1 p) \<and> \<not> p_error (w_heap w1 p))"
proof -
  have sep1: "sep K (w\<lparr>w_heap := (w_heap w)(p := P)\<rparr>)" for P
    using assms(3,4) by (auto simp: sep_def root_def callbacks_def)
  have reg: "step env (UserReg p (Some a) (Some b)) w =
      bindJ (registerP True p (UserCb a)) (\<lambda>js1. bindJ (registerP False p (UserCb b)) (\<lambda>js2. ret (js1 @ js2))) w"
    by (simp add: user_register_def)
  consider "p_success (w_heap w p)" "\<not> p_error (w_heap w p)"
    | "\<not> p_success (w_heap w p)" "p_error (w_heap w p)"
    | "\<not> p_success (w_heap w p)" "\<not> p_error (w_heap w p)"
    using assms(2) by blast
  then show ?thesis
    unfolding reg
    by cases (use assms(1,4) sep1 in \<open>simp_all add: bindJ_heap registerP_result promise_defs call_instrs_def unclaimed_def\<close>)
qed

text \<open>
  The console \<open>c'\<close> in which a new request \<open>i\<close> waits with a promise of its own that is still
  unclaimed, from one in which all is well.
\<close>

definition asked :: "env \<Rightarrow> world \<Rightarrow> console \<Rightarrow> console \<Rightarrow> nat \<Rightarrow> pid \<Rightarrow> bool" where
  "asked env w c c' i p \<longleftrightarrow> base env w c \<and> waiting_armed w c
     \<and> i = length (h_reqs (co_http c)) \<and> p = w_next w
     \<and> length (h_reqs (co_http c')) = Suc i \<and> co_promise c' = (co_promise c)(i \<mapsto> p)
     \<and> co_sent c' = co_sent c \<and> (\<forall>j. j \<noteq> i \<longrightarrow> phase_of (co_http c') j = phase_of (co_http c) j)"

lemma asked_ran:
  assumes "asked env w c c' i p"
  shows "ran (co_promise c') = insert p (ran (co_promise c))" and "p \<notin> ran (co_promise c)"
proof -
  have "co_promise c i = None"
    using assms by (cases "co_promise c i") (auto simp: asked_def base_def)
  then show "ran (co_promise c') = insert p (ran (co_promise c))"
    using assms by (simp add: asked_def)
  show "p \<notin> ran (co_promise c)" using assms by (auto simp: asked_def base_def sep_def)
qed

lemma asked_base:
  assumes "asked env w c c' i p" and "sep (insert p (ran (co_promise c))) w1" and "same_on (ran (co_promise c)) w w1"
    and "tagged w1 p i"
  shows "base env w1 c'" and "\<And>j. j \<noteq> i \<Longrightarrow> waits c' j \<Longrightarrow> has_armed w1 c' j"
proof -
  have a: "base env w c" "waiting_armed w c" "i = length (h_reqs (co_http c))"
      "length (h_reqs (co_http c')) = Suc i" "co_promise c' = (co_promise c)(i \<mapsto> p)"
      "co_sent c' = co_sent c" "\<And>j. j \<noteq> i \<Longrightarrow> phase_of (co_http c') j = phase_of (co_http c) j"
    using assms(1) by (simp_all add: asked_def)
  have heap: "w_heap w1 q = w_heap w q" if "co_promise c j = Some q" for j q
    using assms(3) that by (auto simp: same_on_def ran_def)
  have old: "j < i" "tagged w1 q j" "\<And>k. co_promise c k = Some q \<Longrightarrow> k = j" "q \<noteq> p"
    if "co_promise c j = Some q" for j q
    using a(1,3) that tagged_cong [OF heap [OF that]] asked_ran(2) [OF assms(1)]
    by (auto simp: base_def ran_def)
  have "kc_hooks (kc w1) = console_hooks" using a(1) assms(3) by (simp add: base_def same_on_def)
  moreover have "k < length (h_reqs (co_http c')) \<and> tagged w1 q k \<and> (\<forall>j. co_promise c' j = Some q \<longrightarrow> j = k)"
    if "co_promise c' k = Some q" for k q
  proof (cases "k = i")
    case True
    then have q: "q = p" using that a(5) by simp
    have "j = i" if "co_promise c' j = Some p" for j
      using that a(5) old(4) [of j p] by (simp split: if_splits)
    then show ?thesis using True q assms(4) a(4) by simp
  next
    case False
    then have k: "co_promise c k = Some q" using that a(5) by simp
    have "j = k" if "co_promise c' j = Some q" for j
      using that a(5) old(3) [OF k, of j] old(4) [OF k] by (simp split: if_splits)
    then show ?thesis using old(1,2) [OF k] a(4) by simp
  qed
  moreover have "\<forall>e \<in> set (co_sent c'). fresh_entry env e" using a(1,6) by (simp add: base_def)
  ultimately show "base env w1 c'"
    using assms(2) by (simp add: base_def asked_ran(1) [OF assms(1)])
  show "has_armed w1 c' j" if "j \<noteq> i" "waits c' j" for j
  proof -
    have "has_armed w c j" using that a(2,7) by (simp add: waiting_armed_def)
    then show ?thesis using a(5) that(1) armed_cong [OF heap] by (auto simp: has_armed_def)
  qed
qed

lemma request_registered:
  assumes "mute env" and "asked env w c c' i p" and "unclaimed w1 p"
    and "\<not> (p_success (w_heap w1 p) \<and> p_error (w_heap w1 p))"
    and "sep (insert p (ran (co_promise c))) w1" and "same_on (ran (co_promise c)) w w1"
    and "p_success (w_heap w1 p) \<Longrightarrow> isTokenExpired env (Some 5) w1 = Inr False"
    and "crun env turn [UserReg p (Some (fn_code (Granted i))) (Some (fn_code (Refused i)))] w1 c' = Some (w', d, r)"
  shows "base env w' d \<and> waiting_armed w' d"
proof -
  let ?K = "insert p (ran (co_promise c))" and ?a = "fn_code (Granted i)" and ?b = "fn_code (Refused i)"
  obtain w2 js where w2: "step env (UserReg p (Some ?a) (Some ?b)) w1 = (w2, Inr js)" "sep ?K w2"
      "\<forall>q. q \<noteq> p \<longrightarrow> w_heap w2 q = w_heap w1 q" "kc w2 = kc w1" "w_now w2 = w_now w1"
      "p_successCallback (w_heap w2 p) \<in> {None, Some (UserCb ?a)}"
      "p_errorCallback (w_heap w2 p) \<in> {None, Some (UserCb ?b)}"
    and js: "js = [Invoke (UserCb ?a) (p_result (w_heap w1 p))] \<and> p_success (w_heap w1 p)
       \<or> js = [Invoke (UserCb ?b) (p_result (w_heap w1 p))] \<or> js = [] \<and> armed w2 p i"
    using register_request [OF assms(3,4) _ assms(5), of env ?a ?b] unfolding armed_def by auto
  have same: "same_on (ran (co_promise c)) w w2"
    using assms(6) w2(3,4) asked_ran(2) [OF assms(2)] by (auto simp: same_on_def)
  have tag: "tagged w2 p i" using w2(6,7) by (simp add: tagged_def)
  note b = asked_base [OF assms(2) w2(2) same tag]
  have "own_calls env w2 js"
    using js assms(7) isTokenExpired_cong [OF w2(4,5), of env "Some 5"] by (auto simp: own_calls_def)
  moreover have "due_answer j js \<or> has_armed w2 c' j" if "waits c' j" for j
  proof (cases "j = i")
    case True
    have "co_promise c' i = Some p" using assms(2) by (simp add: asked_def)
    then show ?thesis using js True by (auto simp: due_answer_def has_armed_def)
  qed (use b(2) that in blast)
  ultimately have "turn_inv env js w2 c'"
    unfolding turn_inv_def using b(1) by (intro exI [of _ js] exI [of _ "[]"]) simp
  moreover have "crun env turn js w2 c' = Some (w', d, r)"
    using assms(8) by (subst (asm) crun_Cons) (simp add: w2(1) after_call_def del: step.simps)
  ultimately show ?thesis using turn_keeps [OF _ assms(1)] by blast
qed

lemma request_turn:
  assumes "mute env" and "wf w" and "asked env w c c' i p" and "waits c' i"
    and "cturn env (token_request i) w c' = Some (w', d, r)"
  shows "base env w' d \<and> (r = None \<longrightarrow> waiting_armed w' d)
    \<and> (r \<noteq> None \<longrightarrow> (\<forall>j. j \<noteq> i \<longrightarrow> waits d j \<longrightarrow> has_armed w' d j))"
proof -
  let ?K = "ran (co_promise c)" and ?t = "token_request i"
  let ?reg = "UserReg p (Some (fn_code (Granted i))) (Some (fn_code (Refused i)))"
  have "sep ?K w" and p: "p = w_next w" using assms(3) by (simp_all add: asked_def base_def)
  then obtain w1 js where w1: "updateToken env (Some 5) w = (w1, Inr (p, js))" "sep (insert p ?K) w1"
      "same_on ?K w w1" "unclaimed w1 p" "\<not> p_success (w_heap w1 p)"
    and js: "js = [] \<or> js = [Invoke (ExecUpdate p 5) Undefined] \<and> open_promise w1 p"
    using updateToken_outcome [OF _ assms(2)] by metis
  have go: "crun env ?t (js @ [?reg]) w1 c' = Some (w', d, r)"
    using assms(5) unfolding cturn_def
    by (subst (asm) crun_Cons) (simp add: token_request_def w1(1) bindJ_def after_call_def)
  from js show ?thesis
  proof
    assume "js = []"
    then show ?thesis
      using request_registered [OF assms(1,3) w1(4) _ w1(2,3) _ go [unfolded \<open>js = []\<close> append_Nil]] w1(5)
      by (auto simp: waiting_armed_def)
  next
    assume ex: "js = [Invoke (ExecUpdate p 5) Undefined] \<and> open_promise w1 p"
    obtain w2 s where st: "exec_update env p 5 w1 = (w2, s)" by (cases "exec_update env p 5 w1")
    have after: "crun env ?t (js2 @ [?reg]) w2 c' = Some (w', d, r)" if "s = Inr js2" for js2
      using go ex st that by (simp add: crun_Cons [of env ?t "Invoke (ExecUpdate p 5) Undefined"] after_call_def)
    from exec_update_outcome [OF st w1(2) insertI1] show ?thesis
    proof
      assume *: "isTokenExpired env (Some 5) w1 = Inr False \<and> w2 = fst (settleP True p (Bool False) w1)
        \<and> s = Inr (call_instrs (snd (settle True (Bool False) (w_heap w1 p))))"
      then have "s = Inr []" using w1(4) by (simp add: unclaimed_def promise_defs call_instrs_def)
      then have go2: "crun env ?t [?reg] w2 c' = Some (w', d, r)" using after by simp
      have "isTokenExpired env (Some 5) w2 = Inr False"
        using * isTokenExpired_cong [of w2 w1 env "Some 5"] by (simp add: settleP_result)
      moreover have "unclaimed w2 p" "\<not> p_error (w_heap w2 p)"
        using * ex by (simp_all add: open_promise_def unclaimed_def settleP_result promise_defs)
      moreover have "sep (insert p ?K) w2" using * sep_settle [OF w1(2)] by simp
      moreover have "same_on ?K w w2"
        using * w1(3) asked_ran(2) [OF assms(3)] by (auto simp: same_on_def settleP_result)
      ultimately show ?thesis using request_registered [OF assms(1,3) _ _ _ _ _ go2] by (auto simp: waiting_armed_def)
    next
      assume *: "sep (insert p ?K) w2 \<and> w_heap w2 = w_heap w1 \<and> kc w2 = kc w1 \<and> w_now w2 = w_now w1
        \<and> (s = Inr [] \<or> (\<exists>e. s = Inl e))"
      then have w2: "sep (insert p ?K) w2" "same_on ?K w w2" "unclaimed w2 p" "\<not> p_success (w_heap w2 p)"
        using w1(3-5) by (simp_all add: same_on_def unclaimed_def)
      show ?thesis
      proof (cases s)
        case (Inl e)
        then have "w' = w2 \<and> d = c' \<and> r = Some e"
          using go ex st by (simp add: crun_Cons [of env ?t "Invoke (ExecUpdate p 5) Undefined"] after_call_def)
        moreover have "tagged w2 p i" using w2(3) by (simp add: unclaimed_def tagged_def)
        ultimately show ?thesis using asked_base [OF assms(3) w2(1,2)] by auto
      next
        case (Inr js2)
        then have "s = Inr []" using * by auto
        then have "crun env ?t [?reg] w2 c' = Some (w', d, r)" using after by simp
        then show ?thesis
          using request_registered [OF assms(1,3) w2(3) _ w2(1,2)] w2(4) by (auto simp: waiting_armed_def)
      qed
    qed
  qed
qed

section \<open>Every event keeps the invariant\<close>

definition session_inv :: "env \<Rightarrow> world \<Rightarrow> console \<Rightarrow> bool" where
  "session_inv env w c \<longleftrightarrow> base env w c \<and> waiting_armed w c"

lemma base_http:
  "base env w c \<Longrightarrow> length (h_reqs (co_http c)) \<le> length (h_reqs h) \<Longrightarrow> base env w (c\<lparr>co_http := h\<rparr>)"
  unfolding base_def by (simp, meson less_le_trans)

lemma session_inv_http:
  assumes "session_inv env w c" and "length (h_reqs (co_http c)) \<le> length (h_reqs h)"
    and "\<And>i. phase_of h i = Some Waiting \<Longrightarrow> waits c i"
  shows "session_inv env w (c\<lparr>co_http := h\<rparr>)"
  using assms base_http [of env w c h] by (simp add: session_inv_def waiting_armed_def has_armed_def)

lemma same_page:
  assumes "sep K w" and "w_heap w' = w_heap w" and "kc w' = kc w" and "w_next w' = w_next w"
    and "set (w_xhrs w') \<subseteq> set (w_xhrs w)" and "w_windows w' = w_windows w"
    and "w_refreshQueue w' = w_refreshQueue w" and "lif w' = lif w" and "w_frames w' = w_frames w"
  shows "sep K w'" and "same_on K w w'"
proof -
  have "\<not> root w' p" if "p \<in> K" for p
    using that assms(1,5,6) unfolding sep_def root_def by (metis subsetD)
  then show "sep K w'" using assms callbacks_cong [OF assms(2)] by (auto simp: sep_def)
  show "same_on K w w'" using assms(2,3) by (simp add: same_on_def)
qed

lemma session_inv_same:
  "session_inv env w c \<Longrightarrow> sep (ran (co_promise c)) w' \<Longrightarrow> same_on (ran (co_promise c)) w w' \<Longrightarrow> session_inv env w' c"
  using base_same [of env w c w'] by (auto simp: session_inv_def waiting_armed_def)

lemma end_turn_inv: "session_inv env w c \<Longrightarrow> session_inv env (end_turn (w, r)) c"
  by (cases r) (auto simp: end_turn_def session_inv_def base_emit waiting_armed_def has_armed_def armed_def)

text \<open>A turn the page starts: one tame instruction, or the response to a refresh.\<close>

lemma page_turn:
  assumes "mute env" and "session_inv env w c" and "crun env i [i] w c = Some (w', c', r)"
    and "tame (ran (co_promise c)) i \<or> (\<exists>status body. i = Response XRefresh status body)"
  shows "session_inv env w' c'"
  using assms(4)
proof
  assume "tame (ran (co_promise c)) i"
  then have "turn_inv env [i] w c"
    using assms(2) by (intro turn_inv_tame) (simp_all add: session_inv_def)
  then show ?thesis using turn_keeps [OF assms(3,1)] by (simp add: session_inv_def)
next
  assume "\<exists>status body. i = Response XRefresh status body"
  then show ?thesis using refresh_turn_keeps assms(1-3) by (auto simp: session_inv_def)
qed

text \<open>The turns change neither the set of promises nor how the page starts further ones.\<close>

lemma crun_promise: "crun env turn js w c = Some (w', c', r) \<Longrightarrow> co_promise c' = co_promise c"
proof -
  assume "crun env turn js w c = Some (w', c', r)"
  then have "case (w', c', r) of (v, d, x) \<Rightarrow> co_promise d = co_promise c"
  proof (rule crun.raw_induct [rotated], goal_cases)
    case (1 f env turn js w c x)
    have call: "co_promise (after_call env turn i w v c) = co_promise c" for i v
      by (simp add: after_call_def split: option.split)
    from 1 call show ?case by (cases js) (fastforce split: prod.splits sum.splits)+
  qed
  then show ?thesis by simp
qed

lemma page_turns:
  assumes "mute env"
  shows "session_inv env w c \<Longrightarrow> cturns env ts w c = Some (w', c') \<Longrightarrow>
    \<forall>t \<in> set ts. \<exists>i. t = [i] \<and> (tame (ran (co_promise c)) i \<or> (\<exists>status body. i = Response XRefresh status body))
    \<Longrightarrow> session_inv env w' c'"
proof (induction ts arbitrary: w c)
  case Nil
  then show ?case by simp
next
  case (Cons t ts)
  then obtain i w1 c1 r where t: "t = [i]" "crun env i [i] w c = Some (w1, c1, r)"
      "cturns env ts (end_turn (w1, r)) c1 = Some (w', c')"
      "tame (ran (co_promise c)) i \<or> (\<exists>status body. i = Response XRefresh status body)"
    by (auto split: option.splits)
  have "session_inv env (end_turn (w1, r)) c1"
    by (rule end_turn_inv [OF page_turn [OF assms Cons.prems(1) t(2,4)]])
  then show ?case using Cons.IH [OF _ t(3)] Cons.prems(3) crun_promise [OF t(2)] by simp
qed

lemma page_event_turns:
  assumes "page_event e" and "turns_of e w = (w', ts)" and "sep K w"
  shows "sep K w' \<and> same_on K w w'
    \<and> (\<forall>t \<in> set ts. \<exists>i. t = [i] \<and> (tame K i \<or> (\<exists>status body. i = Response XRefresh status body)))"
proof (cases e)
  case (EResponse k status body)
  show ?thesis
  proof (cases "map_of (w_xhrs w) k")
    case None
    then show ?thesis using assms EResponse by simp
  next
    case (Some h)
    let ?w = "w\<lparr>w_xhrs := filter (\<lambda>x. fst x \<noteq> k) (w_xhrs w)\<rparr>"
    have w': "w' = ?w" "ts = [[Response h status body]]" using assms EResponse Some by simp_all
    have "(k, h) \<in> set (w_xhrs w)" using Some by (rule map_of_SomeD)
    then have "handler_pid h = Some p \<longrightarrow> p \<notin> K" for p
      using assms(3) unfolding sep_def root_def by (metis snd_conv)
    moreover have "sep K ?w" "same_on K w ?w" by (rule same_page [OF assms(3)]; auto)+
    ultimately show ?thesis using w' by auto
  qed
next
  case (EFrameLoad i)
  have "w_frames w ! i \<notin> K" if "i < length (w_frames w)"
    using that assms(3) unfolding sep_def by (metis disjoint_iff nth_mem)
  then show ?thesis using assms EFrameLoad by auto
next
  case ETimer
  have "sep K (w\<lparr>w_timers := n\<rparr>)" "same_on K w (w\<lparr>w_timers := n\<rparr>)" for n
    by (rule same_page [OF assms(3)]; simp)+
  then show ?thesis using assms ETimer by (auto split: if_splits)
next
  case (ETime t)
  have "sep K (w\<lparr>w_now := n\<rparr>)" "same_on K w (w\<lparr>w_now := n\<rparr>)" for n
    by (rule same_page [OF assms(3)]; simp)+
  then show ?thesis using assms ETime by auto
next
  case (EMessage origin cid sess logged)
  then show ?thesis using assms by (auto simp: in_set_replicate)
qed (use assms in simp_all)

lemma logged_out_inv:
  assumes "mute env" and "session_inv env w c" and "logged_out env w c = Some (w', c')"
  shows "session_inv env w' c'"
proof -
  obtain v r where t: "crun env logout_call [logout_call] w c = Some (v, c', r)" "w' = end_turn (v, r)"
    using assms(3) by (auto simp: logged_out_def cturn_def split: option.splits)
  have "session_inv env v c'"
    by (rule page_turn [OF assms(1,2) t(1)]) (simp add: logout_call_def)
  then show ?thesis using end_turn_inv t(2) by simp
qed

declare hstep.simps [simp del]

lemma hstep_token [simp]: "hstep cv (HToken t) h = h\<lparr>h_token := t\<rparr>"
  by (simp add: hstep.simps)

lemma request_phase:
  "phase_of (hstep cv (HRequest url) h) i =
     (if i = length (h_reqs h) then Some (authInterceptor url h) else phase_of h i)"
  "length (h_reqs (hstep cv (HRequest url) h)) = Suc (length (h_reqs h))"
  by (auto simp: hstep.simps Let_def phase_of_def nth_append)

lemma console_request_inv:
  assumes "mute env" and "wf w" and inv: "session_inv env w c"
    and "console_request env url w c = Some (w', c')"
  shows "session_inv env w' c'"
proof -
  let ?h = "hstep (conv_of env) (HToken (kc_token (kc w))) (co_http c)" and ?i = "length (h_reqs (co_http c))"
  let ?c = "c\<lparr>co_http := hstep (conv_of env) (HRequest url) ?h\<rparr>"
  have phase: "phase_of (co_http ?c) j = (if j = ?i then Some (authInterceptor url ?h) else phase_of (co_http c) j)"
      "length (h_reqs (co_http ?c)) = Suc ?i" for j
    by (simp_all add: request_phase)
  show ?thesis
  proof (cases "authInterceptor url ?h = Waiting")
    case False
    then have "w' = w \<and> c' = ?c" using assms(4) by (auto simp: console_request_def Let_def)
    moreover have "session_inv env w ?c"
      by (rule session_inv_http [OF inv]) (use phase False in \<open>auto simp: request_phase split: if_splits\<close>)
    ultimately show ?thesis by simp
  next
    case True
    let ?d = "?c\<lparr>co_promise := (co_promise c)(?i \<mapsto> w_next w)\<rparr>"
    have asked: "asked env w c ?d ?i (w_next w)"
      using inv phase unfolding asked_def session_inv_def by simp
    have waits: "waits ?d ?i" using phase(1) [of ?i] True by simp
    obtain v d r where t: "cturn env (token_request ?i) w ?d = Some (v, d, r)"
      using assms(4) True
      by (cases "cturn env (token_request ?i) w ?d") (auto simp: console_request_def Let_def)
    have res: "Some (w', c') = (case r of None \<Rightarrow> Some (v, d)
        | Some e \<Rightarrow> Some (end_turn (v, Some e), d\<lparr>co_http := request_rejected ?i (co_http d)\<rparr>))"
      using assms(4) True t by (simp add: console_request_def Let_def split: option.split)
    note b = request_turn [OF assms(1,2) asked waits t]
    show ?thesis
    proof (cases r)
      case None
      then show ?thesis using res b by (simp add: session_inv_def)
    next
      case (Some e)
      let ?r = "d\<lparr>co_http := request_rejected ?i (co_http d)\<rparr>"
      have ph: "phase_of (co_http ?r) j = (if j = ?i \<and> ?i < length (h_reqs (co_http d)) then Some Stuck else phase_of (co_http d) j)" for j
        by (simp add: request_rejected_def phase_of_set_phase)
      have "base env v ?r" using b by (intro base_http) (auto simp: request_rejected_def)
      moreover have "has_armed v ?r j" if "waits ?r j" for j
      proof -
        have "waits d j" using that ph by (auto split: if_splits)
        moreover have "j \<noteq> ?i" using that ph waits_length [of _ j] by (auto split: if_splits)
        ultimately show ?thesis using b Some by (auto simp: has_armed_def)
      qed
      ultimately have "session_inv env v ?r" by (simp add: session_inv_def waiting_armed_def)
      then show ?thesis using res Some end_turn_inv by simp
    qed
  qed
qed

lemma response_phase:
  "phase_of (hstep cv (HResponse i ok status msg) h) j = Some Waiting \<Longrightarrow> phase_of h j = Some Waiting"
  "phase_of (hstep cv (HTimeout t) h) j = phase_of h j"
  "length (h_reqs (hstep cv (HResponse i ok status msg) h)) = length (h_reqs h)"
  "length (h_reqs (hstep cv (HTimeout t) h)) = length (h_reqs h)"
proof -
  have log: "phase_of (fold hlog es k) j = phase_of k j" for es k by (simp add: fold_hlog phase_of_def)
  show "phase_of (hstep cv (HResponse i ok status msg) h) j = Some Waiting \<Longrightarrow> phase_of h j = Some Waiting"
    by (auto simp: hstep.simps log phase_of_set_phase split: if_splits)
  show "phase_of (hstep cv (HTimeout t) h) j = phase_of h j"
    by (simp add: hstep.simps loading_timeout_def phase_of_def)
qed (simp_all add: hstep.simps fold_hlog loading_timeout_def)

lemma sstep_inv:
  assumes "mute env" and "wf w" and inv: "session_inv env w c" and "sstep env e w c = Some (w', c')"
  shows "session_inv env w' c'"
proof (cases e)
  case (SRequest url)
  then show ?thesis using assms console_request_inv [OF assms(1-3)] by (auto split: if_splits)
next
  case (SReply i ok status msg)
  let ?c = "c\<lparr>co_http := hstep (conv_of env) (HResponse i ok status msg) (co_http c)\<rparr>"
  have "session_inv env w ?c"
    by (rule session_inv_http [OF inv]) (use response_phase in \<open>auto\<close>)
  then show ?thesis using assms(4) logged_out_inv [OF assms(1)] SReply
    by (auto simp: Let_def split: if_splits)
next
  case (STimeout t)
  have "session_inv env w (c\<lparr>co_http := hstep (conv_of env) (HTimeout t) (co_http c)\<rparr>)"
    by (rule session_inv_http [OF inv]) (use response_phase in \<open>auto\<close>)
  then show ?thesis using assms(4) STimeout by simp
next
  case SLogout
  then show ?thesis using assms(4) logged_out_inv [OF assms(1) inv] inv by (auto split: if_splits)
next
  case (SPage ev)
  show ?thesis
  proof (cases "page_event ev")
    case True
    obtain w1 ts where t: "turns_of ev w = (w1, ts)" by (cases "turns_of ev w")
    have "sep (ran (co_promise c)) w" using inv by (simp add: session_inv_def base_def)
    note p = page_event_turns [OF True t this]
    have "session_inv env w1 c" using session_inv_same [OF inv] p by blast
    then show ?thesis using page_turns [OF assms(1)] p assms(4) SPage True t by simp
  next
    case False
    then show ?thesis using SPage assms by simp
  qed
qed

lemma sstep_reachable:
  "reachable env w \<Longrightarrow> sstep env e w c = Some (w', c') \<Longrightarrow> reachable env w'"
  using sstep_handle reachable_handle by blast

lemma srun_inv:
  assumes "mute env"
  shows "reachable env w \<Longrightarrow> session_inv env w c \<Longrightarrow> srun env es w c = Some (w', c')
    \<Longrightarrow> reachable env w' \<and> session_inv env w' c'"
proof (induction es arbitrary: w c)
  case Nil
  then show ?case by simp
next
  case (Cons e es)
  then obtain w1 c1 where st: "sstep env e w c = Some (w1, c1)" "srun env es w1 c1 = Some (w', c')"
    by (auto split: option.splits)
  show ?case
    using Cons.IH [OF sstep_reachable [OF Cons.prems(1) st(1)] _ st(2)]
      sstep_inv [OF assms reachable_wf [OF Cons.prems(1)] Cons.prems(2) st(1)] by blast
qed

section \<open>From the start\<close>

lemma start_inv:
  assumes "mute env"
    and "cturns env [[init_call]] (console_page href loc scripts stored) new_console = Some (w, c)"
  shows "session_inv env w c"
proof (rule page_turns [OF assms(1) _ assms(2)])
  have none: "callbacks (console_page href loc scripts stored) p = {}"
      "\<not> root (console_page href loc scripts stored) p" for p
    by (auto simp: console_page_def new_world_def callbacks_def root_def createPromise_def)
  then have "sep {} (console_page href loc scripts stored)" by (simp add: sep_def console_page_def new_world_def)
  then show "session_inv env (console_page href loc scripts stored) new_console"
    by (simp add: session_inv_def base_def waiting_armed_def new_console_def new_http_def phase_of_def
        console_page_def new_world_def new_kc_def)
qed (simp add: init_call_def fn_code.simps)

lemma session_invariant:
  assumes "mute env" and "console_session env href loc scripts stored es = Some (w, c)"
  shows "reachable env w" and "session_inv env w c"
proof -
  obtain w0 c0 where start: "cturns env [[init_call]] (console_page href loc scripts stored) new_console = Some (w0, c0)"
    and run: "srun env es w0 c0 = Some (w, c)"
    using assms(2) by (auto simp: console_session_def split: option.splits)
  have "reachable env w0"
    using session_start [OF mute_silent [OF assms(1)], of href loc scripts stored] start by auto
  then show "reachable env w" "session_inv env w c"
    using srun_inv [OF assms(1) _ start_inv [OF assms(1) start] run] by blast+
qed

section \<open>What is sent\<close>

text \<open>Every request with a token in the log has its record.\<close>

definition recorded :: "env \<Rightarrow> console \<Rightarrow> bool" where
  "recorded env c \<longleftrightarrow> (\<forall>url a. HSend url (Some a) \<in> set (h_log (co_http c)) \<longrightarrow>
     (\<exists>e \<in> set (co_sent c). sn_request e < length (h_reqs (co_http c)) \<and> url = url_of c (sn_request e)
        \<and> a = ''Bearer '' @ str (conv_of env) (sn_token e)))"

lemma recorded_http:
  assumes "recorded env c"
    and "\<And>url a. HSend url (Some a) \<in> set (h_log h) \<Longrightarrow> HSend url (Some a) \<in> set (h_log (co_http c))"
    and "length (h_reqs (co_http c)) \<le> length (h_reqs h)"
    and "\<And>i. i < length (h_reqs (co_http c)) \<Longrightarrow> fst (h_reqs h ! i) = fst (h_reqs (co_http c) ! i)"
  shows "recorded env (c\<lparr>co_http := h\<rparr>)"
  unfolding recorded_def
proof (intro allI impI)
  fix url a assume "HSend url (Some a) \<in> set (h_log (co_http (c\<lparr>co_http := h\<rparr>)))"
  then obtain e where e: "e \<in> set (co_sent c)" "sn_request e < length (h_reqs (co_http c))"
      "url = url_of c (sn_request e)" "a = ''Bearer '' @ str (conv_of env) (sn_token e)"
    using assms(1) assms(2) [of url a] unfolding recorded_def by auto
  then show "\<exists>e \<in> set (co_sent (c\<lparr>co_http := h\<rparr>)). sn_request e < length (h_reqs (co_http (c\<lparr>co_http := h\<rparr>)))
      \<and> url = url_of (c\<lparr>co_http := h\<rparr>) (sn_request e) \<and> a = ''Bearer '' @ str (conv_of env) (sn_token e)"
    using assms(3,4) by (intro bexI [of _ e]) (auto simp: url_of_def)
qed

lemma call_url: "url_of (console_call env turn f w c) i = url_of c i"
  by (cases f) (auto simp: console_call.simps url_of_def hstep.simps url_of_set_phase spinnerFunction_def Let_def)

lemma recorded_call:
  assumes "recorded env c"
  shows "recorded env (console_call env turn f w c)"
proof (cases "\<exists>i. f = Granted i \<and> waits c i")
  case True
  then obtain i where i: "f = Granted i" "waits c i" by blast
  have "h_log (co_http (console_call env turn f w c)) = h_log (co_http c) @ [answer_effect env True w (url_of c i)]"
    using own_call_log(1) [of env turn True i w c] i by (simp add: own_fn_def)
  moreover have "co_sent (console_call env turn f w c) = co_sent c @ [\<lparr>sn_request = i, sn_token = kc_token (kc w),
      sn_expired = isTokenExpired env (Some 5) w, sn_turn = turn\<rparr>]"
    using i by (simp add: console_call_sent)
  ultimately show ?thesis
    using assms waits_length [OF i(2)]
    by (auto simp: recorded_def call_url answer_effect_def bearer_of_def)
next
  case False
  then have "HSend url (Some a) \<in> set (h_log (co_http (console_call env turn f w c))) \<Longrightarrow>
      HSend url (Some a) \<in> set (h_log (co_http c))" for url a
    by (cases f) (auto simp: console_call.simps hstep.simps split: if_splits)
  moreover have "co_sent (console_call env turn f w c) = co_sent c"
    using False by (auto simp: console_call_sent split: console_fn.split)
  ultimately show ?thesis using assms by (auto simp: recorded_def call_url)
qed

lemma recorded_crun: "crun env turn js w c = Some (w', c', r) \<Longrightarrow> recorded env c \<Longrightarrow> recorded env c'"
  by (rule crun_rule [where P = "\<lambda>js w c. recorded env c" and Q = "\<lambda>w c. recorded env c"])
     (auto simp: after_call_def recorded_call split: option.split)

lemma recorded_cturns: "cturns env ts w c = Some (w', c') \<Longrightarrow> recorded env c \<Longrightarrow> recorded env c'"
  by (induction ts arbitrary: w c) (auto split: option.splits dest: recorded_crun)

lemma spinner_log [simp]: "h_log (spinnerFunction h) = h_log h" "h_log (spinnerInterceptor h) = h_log h"
  by (simp_all add: spinnerFunction_def spinnerInterceptor_def Let_def)

lemma error_no_send: "HSend url a \<notin> set (errorInterceptor status msg)"
  by (simp add: errorInterceptor_def split: option.split)

lemma recorded_sstep:
  assumes "sstep env e w c = Some (w', c')" and "recorded env c"
  shows "recorded env c'"
proof -
  have turn: "recorded env d" if "cturn env i v b = Some (v', d, r)" "recorded env b" for i v b v' d r
    using recorded_crun that unfolding cturn_def by blast
  have out: "recorded env d" if "logged_out env v b = Some (v', d)" "recorded env b" for v b v' d
    using that turn by (auto simp: logged_out_def split: option.splits)
  show ?thesis
  proof (cases e)
    case (SRequest url)
    let ?h = "hstep (conv_of env) (HRequest url) (co_http c\<lparr>h_token := kc_token (kc w)\<rparr>)"
    have h: "recorded env (c\<lparr>co_http := ?h\<rparr>)"
      by (rule recorded_http [OF assms(2)])
        (auto simp: hstep.simps Let_def nth_append spinnerFunction_def split: if_splits)
    have p: "recorded env (b\<lparr>co_promise := f\<rparr>) = recorded env b" for b f
      by (simp add: recorded_def url_of_def)
    have rej: "recorded env (d\<lparr>co_http := request_rejected i (co_http d)\<rparr>)" if "recorded env d" for d i
      by (rule recorded_http [OF that])
        (auto simp: request_rejected_def url_of_set_phase)
    show ?thesis using assms(1) SRequest h p rej turn assms(2)
      by (auto simp: console_request_def Let_def split: if_splits option.splits)
  next
    case (SReply i ok status msg)
    have "recorded env (c\<lparr>co_http := hstep (conv_of env) (HResponse i ok status msg) (co_http c)\<rparr>)"
      by (rule recorded_http [OF assms(2)])
        (auto simp: hstep.simps fold_hlog error_no_send url_of_set_phase split: if_splits)
    then show ?thesis using assms(1) SReply out by (auto simp: Let_def split: if_splits)
  next
    case (STimeout t)
    have "recorded env (c\<lparr>co_http := hstep (conv_of env) (HTimeout t) (co_http c)\<rparr>)"
      by (rule recorded_http [OF assms(2)]) (auto simp: hstep.simps loading_timeout_def split: if_splits)
    then show ?thesis using assms(1) STimeout by simp
  next
    case SLogout
    then show ?thesis using assms out by (auto split: if_splits)
  next
    case (SPage ev)
    then show ?thesis using assms recorded_cturns by (auto split: if_splits prod.splits)
  qed
qed

lemma recorded_srun: "srun env es w c = Some (w', c') \<Longrightarrow> recorded env c \<Longrightarrow> recorded env c'"
  by (induction es arbitrary: w c) (auto split: option.splits dest: recorded_sstep)

lemma session_recorded: "console_session env href loc scripts stored es = Some (w, c) \<Longrightarrow> recorded env c"
proof -
  assume "console_session env href loc scripts stored es = Some (w, c)"
  then obtain w0 c0 where "cturns env [[init_call]] (console_page href loc scripts stored) new_console = Some (w0, c0)"
      "srun env es w0 c0 = Some (w, c)"
    by (auto simp: console_session_def split: option.splits)
  moreover have "recorded env new_console" by (simp add: recorded_def new_console_def new_http_def)
  ultimately show ?thesis using recorded_cturns recorded_srun by blast
qed

section \<open>Properties\<close>

text \<open>C24. The console never hangs: whatever its user, the server, the iframe and the clock do, every
  event is handled to its end, and the client in it is in a state reachable by the client alone, so
  that what holds of those states holds in the console.\<close>

theorem session_total:
  assumes "mute env"
  shows "\<exists>w c. console_session env href loc scripts stored es = Some (w, c) \<and> reachable env w"
proof -
  obtain w0 c0 where "cturns env [[init_call]] (console_page href loc scripts stored) new_console = Some (w0, c0)"
      "reachable env w0"
    using session_start [OF mute_silent [OF assms]] by blast
  then show ?thesis using srun_reachable [OF mute_silent [OF assms], of w0 es c0] by (auto simp: console_session_def)
qed

text \<open>C4. In every state of the console a request that waits for a token has a promise of the client
  that is not settled and has exactly the two callbacks that send the request or give it up: no
  request is forgotten, whatever else happens.\<close>

theorem waiting_request_armed:
  assumes "mute env" and "console_session env href loc scripts stored es = Some (w, c)" and "waits c i"
  shows "\<exists>p. co_promise c i = Some p \<and> armed w p i"
  using session_invariant(2) [OF assms(1,2)] assms(3)
  by (auto simp: session_inv_def waiting_armed_def has_armed_def)

text \<open>C5. Every request that leaves the console with an Authorization header carries a token of the
  client that, when it was let through, was good for five more seconds by the client's clock, or that
  had just arrived in the response to a refresh.\<close>

theorem requests_fresh:
  assumes "mute env" and "console_session env href loc scripts stored es = Some (w, c)"
    and "HSend url (Some a) \<in> set (h_log (co_http c))"
  shows "\<exists>e \<in> set (co_sent c). url = url_of c (sn_request e)
    \<and> a = ''Bearer '' @ str (conv_of env) (sn_token e) \<and> fresh_entry env e"
proof -
  obtain e where "e \<in> set (co_sent c)" "url = url_of c (sn_request e)"
      "a = ''Bearer '' @ str (conv_of env) (sn_token e)"
    using session_recorded [OF assms(2)] assms(3) unfolding recorded_def by blast
  then show ?thesis
    using session_invariant(2) [OF assms(1,2)] unfolding session_inv_def base_def by blast
qed

text \<open>A response with a token pair that can be stored.\<close>

definition token_pair :: "env \<Rightarrow> string \<Rightarrow> jsval \<Rightarrow> bool" where
  "token_pair env body t \<longleftrightarrow> (\<exists>resp r ps v. parse_json env body = Inr (Obj resp)
     \<and> getf resp ''access_token'' = t \<and> truthy t \<and> decode_token env t = Inr (Obj ps)
     \<and> getf resp ''refresh_token'' = r \<and> truthy r \<and> decode_refreshToken env r = Inr v)"

lemma token_pair_response:
  assumes "token_pair env body t"
  shows "snd (token_response env body w) = Inr ()" and "refreshed env 200 body w1 \<Longrightarrow> kc_token (kc w1) = t"
proof -
  obtain resp r ps v where a: "parse_json env body = Inr (Obj resp)" "getf resp ''access_token'' = t"
      "truthy t" "decode_token env t = Inr (Obj ps)" "getf resp ''refresh_token'' = r" "truthy r"
      "decode_refreshToken env r = Inr v"
    using assms unfolding token_pair_def by blast
  have "setToken env t r w = (fst (setToken env t r w), Inr ())"
    using setToken_pair [OF a(3,4,6,7), of w] by (metis prod.collapse)
  then show "snd (token_response env body w) = Inr ()"
    by (simp add: token_response_def a(1,2,5) getp_Obj del: getp.simps) (metis snd_conv)
  show "refreshed env 200 body w1 \<Longrightarrow> kc_token (kc w1) = t"
    using a(1-3) by (auto simp: refreshed_def getp_Obj simp del: getp.simps)
qed

text \<open>A response whose tokens cannot be stored ends the turn with nothing done but that.\<close>

lemma refresh_turn_fails:
  assumes "crun env turn [Response XRefresh 200 body] w c = Some (w', c', r)"
    and "snd (token_response env body w) = Inl e"
  shows "c' = c \<and> w_refreshQueue w' = w_refreshQueue w"
proof -
  obtain w1 where tok: "token_response env body w = (w1, Inl e)" using assms(2) by (metis prod.collapse)
  have "refresh_part w1 = refresh_part w"
    using calm.keeps_token_response [of env body] tok unfolding calm.keeps_def by (metis fst_conv)
  moreover have "crun env turn (refresh_response 200 body) w c = Some (w', c', r)"
    using assms(1) by (subst (asm) crun_Cons) (simp add: after_call_def)
  then have "w' = w1 \<and> c' = c"
    by (simp add: refresh_response_def crun_Cons bindJ_def after_call_def tok)
  ultimately show ?thesis by (simp add: refresh_part_def)
qed

lemma answered_waiting:
  assumes "mute env" and "console_session env href loc scripts stored es0 = Some (w, c)"
    and "map_of (w_xhrs w) k = Some XRefresh"
    and "crun env (Response XRefresh status body) [Response XRefresh status body]
           (w\<lparr>w_xhrs := filter (\<lambda>x. fst x \<noteq> k) (w_xhrs w)\<rparr>) c = Some (v, c', r)"
    and "status = 200 \<longrightarrow> snd (token_response env body (w\<lparr>w_xhrs := filter (\<lambda>x. fst x \<noteq> k) (w_xhrs w)\<rparr>)) = Inr x"
    and "waits c i" and "co_promise c i = Some p" and "p \<in> set (w_refreshQueue w)"
  shows "\<exists>es w1. h_log (co_http c') = h_log (co_http c) @ es \<and> refreshed env status body w1
    \<and> (if status = 200
       then phase_of (co_http c') i = Some UnderWay
         \<and> HSend (url_of c i) (Some (''Bearer '' @ str (conv_of env) (kc_token (kc w1)))) \<in> set es
       else phase_of (co_http c') i = Some Stuck \<and> HReload \<in> set es \<and> (\<forall>url a. HSend url a \<notin> set es))"
proof -
  let ?ok = "status = 200" and ?t = "Response XRefresh status body" and ?K = "ran (co_promise c)"
  let ?w = "w\<lparr>w_xhrs := filter (\<lambda>x. fst x \<noteq> k) (w_xhrs w)\<rparr>"
  have inv: "session_inv env w c" using session_invariant [OF assms(1,2)] by auto
  have "sep ?K w" using inv by (simp add: session_inv_def base_def)
  then have same: "sep ?K ?w" "same_on ?K w ?w" by (rule same_page; auto)+
  have inv1: "session_inv env ?w c" by (rule session_inv_same [OF inv same])
  have "base env ?w c" using inv1 by (simp add: session_inv_def)
  from refresh_turn [OF assms(4,1) this] assms(5)
  obtain w1 where w1: "same_on ?K ?w w1" "refreshed env status body w1"
    and c': "c' = answers env ?t ?ok w1 (rev (w_refreshQueue w)) c"
    by auto
  have slots: "own_slots ?ok w1 (rev (w_refreshQueue w))"
    using own_slots_queue [OF \<open>base env ?w c\<close> w1(1)] by simp
  have p: "p \<in> ?K" using assms(7) by (auto simp: ran_def)
  have "armed w p i" using inv assms(6,7)
    by (auto simp: session_inv_def waiting_armed_def has_armed_def)
  moreover have "w_heap w1 p = w_heap w p" using w1(1) p by (simp add: same_on_def)
  ultimately have called: "called_for ?ok w1 (rev (w_refreshQueue w)) i"
    using assms(8) by (auto simp: called_for_def armed_def waiting_def own_fn_def intro!: bexI [of _ p])
  obtain es where es: "h_log (co_http c') = h_log (co_http c) @ es"
      "answer_effect env ?ok w1 (url_of c i) \<in> set es" "\<forall>x \<in> set es. \<exists>url. x = answer_effect env ?ok w1 url"
    using answers_log [OF slots, of env c ?t] called assms(6) unfolding c' answered_log_def by blast
  have phase: "phase_of (co_http c') i = Some (done_phase ?ok)"
    unfolding c' answers_phase [OF slots] using assms(6) called by simp
  show ?thesis
    using es phase w1(2)
    by (intro exI [of _ es] exI [of _ w1]) (auto simp: answer_effect_def done_phase_def bearer_of_def)
qed

text \<open>C6. The response to a refresh, for every request that waits for it.  With status 200 and a decodable token pair
  the request is sent, with the new access token; with any other status nothing is sent, the request is given up, and
  the page is reloaded.  With status 200 and tokens that cannot be stored nothing happens: the request waits on, its
  promise stays in the queue, and no request is sent.\<close>

theorem refresh_lets_through:
  assumes "mute env" and "console_session env href loc scripts stored es0 = Some (w, c)"
    and "map_of (w_xhrs w) k = Some XRefresh"
    and "waits c i" and "co_promise c i = Some p" and "p \<in> set (w_refreshQueue w)"
  shows "\<exists>w' c' es. sstep env (SPage (EResponse k status body)) w c = Some (w', c')
    \<and> h_log (co_http c') = h_log (co_http c) @ es
    \<and> (\<forall>t. status = 200 \<and> token_pair env body t \<longrightarrow> phase_of (co_http c') i = Some UnderWay
         \<and> HSend (url_of c i) (Some (''Bearer '' @ str (conv_of env) t)) \<in> set es)
    \<and> (\<forall>e. status = 200 \<and> snd (token_response env body (fst (turns_of (EResponse k status body) w))) = Inl e \<longrightarrow>
         c' = c \<and> es = [] \<and> p \<in> set (w_refreshQueue w'))
    \<and> (status \<noteq> 200 \<longrightarrow> phase_of (co_http c') i = Some Stuck \<and> HReload \<in> set es
         \<and> (\<forall>url a. HSend url a \<notin> set es))"
proof -
  let ?t = "Response XRefresh status body"
  let ?w = "w\<lparr>w_xhrs := filter (\<lambda>x. fst x \<noteq> k) (w_xhrs w)\<rparr>"
  have reach: "reachable env w" using session_invariant [OF assms(1,2)] by auto
  have turns: "turns_of (EResponse k status body) w = (?w, [[?t]])" using assms(3) by simp
  obtain w' c' where step: "sstep env (SPage (EResponse k status body)) w c = Some (w', c')"
    using sstep_ends [OF mute_silent [OF assms(1)] reachable_wf [OF reach]] by blast
  then obtain v r where turn: "crun env ?t [?t] ?w c = Some (v, c', r)" and w': "w' = end_turn (v, r)"
    using turns by (auto split: option.splits)
  note answered = answered_waiting [OF assms(1-3) turn _ assms(4-6)]
  show ?thesis
  proof (cases "status = 200")
    case False
    then show ?thesis using answered step by auto
  next
    case True
    show ?thesis
    proof (cases "snd (token_response env body ?w)")
      case (Inl e)
      have "c' = c \<and> w_refreshQueue v = w_refreshQueue w"
        using refresh_turn_fails [OF turn [unfolded True] Inl] by simp
      moreover from this have "p \<in> set (w_refreshQueue w')"
        using refresh_part_end_turn [of v r] assms(6) by (simp add: w' refresh_part_def)
      moreover have "\<not> token_pair env body t" for t using token_pair_response(1) Inl by force
      ultimately show ?thesis using step True by auto
    next
      case (Inr x)
      then obtain es w1 where es: "h_log (co_http c') = h_log (co_http c) @ es" "refreshed env status body w1"
          "phase_of (co_http c') i = Some UnderWay"
          "HSend (url_of c i) (Some (''Bearer '' @ str (conv_of env) (kc_token (kc w1)))) \<in> set es"
        using answered True by auto
      moreover have "kc_token (kc w1) = t" if "token_pair env body t" for t
        using token_pair_response(2) [OF that] es(2) True by simp
      ultimately show ?thesis using step True turns Inr
        by (intro exI [of _ w'] exI [of _ c'] exI [of _ es]) auto
    qed
  qed
qed

section \<open>A session\<close>

text \<open>
  The page comes back from the login with a code; the configuration and the tokens arrive and
  angular starts; a request is sent at once, and after the token has expired a second one waits
  for the refresh.
\<close>

definition console_texts :: "(string \<times> jsval) list" where
  "console_texts = (''config'', Obj [(''auth-server-url'', Str ''/auth''), (''realm'', Str ''master''),
     (''resource'', Str ''console'')]) # demo_texts"

definition console_env :: env where
  "console_env = demo_env\<lparr>JSON_parse := map_of console_texts\<rparr>"

definition console_loc :: location where
  "console_loc = demo_loc\<lparr>loc_search := ''?code=c1&state=st''\<rparr>"

definition demo_session :: "sevent list \<Rightarrow> (world \<times> console) option" where
  "demo_session = console_session console_env ''http://a/auth/admin/master/console/'' console_loc [] (Some ''st'')"

definition demo_events :: "sevent list" where
  "demo_events = [SPage (EResponse 0 200 ''config''), SPage (EResponse 1 200 ''tokens''),
     SRequest ''/auth/admin/realms/demo'', SPage (ETime 200000), SRequest ''/auth/admin/realms/demo/users'']"

lemma mute_console: "mute console_env"
  by (simp add: mute_def console_env_def)

text \<open>Rules that evaluate the session.\<close>

lemma console_sel [simp]:
  "random console_env i = 1/2" "atob console_env = Some" "btoa console_env = Some" "script console_env n v = []"
  "JSON_parse console_env s = map_of console_texts s" "str_num console_env s = None"
  "num_str console_env = num_str demo_env"
  by (simp_all add: console_env_def)

lemma parse_demo:
  "w_oauthState w = Some ''st'' \<Longrightarrow> parseCallback ''?code=c1&state=st'' w =
    (w\<lparr>w_oauthState := None\<rparr>, Inr (Some (empty_oauth\<lparr>oa_code := Some ''c1'', oa_state := Some ''st''\<rparr>)))"
  by (simp add: parseCallback_cases query_params_def parse_param_def decodeURIComponent_def decode_arg_def empty_oauth_def)

lemma decode_console [simp]:
  "decode_token console_env (Str ''h.A1.s'') = Inr access_claims"
  "decode_refreshToken console_env (Str ''h.R1.s'') = Inr (Obj [(''session_state'', Str ''s1'')])"
  by (simp_all add: decode_token_def decode_refreshToken_def atob_payload_def parse_json_def
    demo_texts_def console_texts_def)

lemma fn_of_lits [simp]:
  "fn_of 0 = AuthLogout" "fn_of 1 = Started" "fn_of (Suc 0) = Started" "fn_of 2 = NotStarted"
  "fn_of 3 = Granted 0" "fn_of 4 = Refused 0" "fn_of 5 = Granted 1" "fn_of 6 = Refused 1"
  by (simp_all add: fn_of_def)

lemma url_console:
  "configUrl ''http://a/auth/admin/master/console/'' = ''http://a/auth/admin/master/console/config''"
  by code_simp

lemma enc_console:
  "encodeURIComponent ''c'' = ''c''" "encodeURIComponent ''r'' = ''r''"
  "encodeURIComponent ''master'' = ''master''" "encodeURIComponent ''console'' = ''console''"
  by code_simp+

declare encodeURIComponent.simps [simp del]

lemmas session_eval = url_console enc_console getRealmUrl_def console_session_def cturn_def turn_eval crun_Cons
  console_page_def after_call_def new_console_def console_options_def init_call_def console_call.simps
  hstep.simps fn_code.simps token_request_def console_request_def op_eval promise_eval page_eval kc_init_def
  loadAdapter_def apply_init_options_def loadConfig_def field_of_def processInit_def user_register_def
  token_eval access_claims_def updateToken_def exec_update_def isTokenExpired_def client_auth_def
  min_validity_def refresh_response_def token_response_def parse_json_def demo_texts_def drain_queue_def
  console_texts_def console_loc_def config_response_def code_response_def processCallback_def
  restore_url_def parse_demo empty_oauth_def console_hooks_def checkLoginIframe_def new_http_def
  authInterceptor_def matches_html_def phase_of_def hlog_def spinnerFunction_def set_phase_def bearer_def
  conv_of_def set_check_timeout_def iframe_src_def getOrigin_def

lemma demo_session_runs:
  "\<exists>w c. demo_session demo_events = Some (w, c) \<and> waits c 1 \<and> co_promise c 1 = Some 6
    \<and> w_refreshQueue w = [6] \<and> map_of (w_xhrs w) 2 = Some XRefresh
    \<and> url_of c 1 = ''/auth/admin/realms/demo/users''
    \<and> HSend ''/auth/admin/realms/demo'' (Some ''Bearer h.A1.s'') \<in> set (h_log (co_http c))"
  by (simp add: demo_session_def session_eval demo_events_def url_of_def)

lemma demo_pair: "token_pair console_env ''tokens'' (Str ''h.A1.s'')"
  by (simp add: token_pair_def parse_json_def demo_texts_def console_texts_def getf_def access_claims_def)

lemma session_total_witness:
  "\<exists>w c. demo_session demo_events = Some (w, c) \<and> reachable console_env w"
  unfolding demo_session_def by (rule session_total [OF mute_console])

lemma waiting_request_armed_witness:
  "\<exists>w c p. demo_session demo_events = Some (w, c) \<and> waits c 1 \<and> co_promise c 1 = Some p \<and> armed w p 1"
proof -
  obtain w c where s: "demo_session demo_events = Some (w, c)" "waits c 1" using demo_session_runs by blast
  then show ?thesis using waiting_request_armed [OF mute_console s(1) [unfolded demo_session_def] s(2)] by blast
qed

lemma requests_fresh_witness:
  "\<exists>w c e. demo_session demo_events = Some (w, c) \<and> e \<in> set (co_sent c)
    \<and> ''/auth/admin/realms/demo'' = url_of c (sn_request e) \<and> fresh_entry console_env e"
proof -
  obtain w c where s: "demo_session demo_events = Some (w, c)"
      "HSend ''/auth/admin/realms/demo'' (Some ''Bearer h.A1.s'') \<in> set (h_log (co_http c))"
    using demo_session_runs by blast
  then show ?thesis using requests_fresh [OF mute_console s(1) [unfolded demo_session_def] s(2)] by blast
qed

lemma refresh_lets_through_witness:
  "\<exists>w c w' c'. demo_session demo_events = Some (w, c) \<and> waits c 1
    \<and> sstep console_env (SPage (EResponse 2 200 ''tokens'')) w c = Some (w', c')
    \<and> phase_of (co_http c') 1 = Some UnderWay
    \<and> HSend ''/auth/admin/realms/demo/users'' (Some ''Bearer h.A1.s'') \<in> set (h_log (co_http c'))"
proof -
  obtain w c where s: "demo_session demo_events = Some (w, c)" "waits c 1" "co_promise c 1 = Some 6"
      "w_refreshQueue w = [6]" "map_of (w_xhrs w) 2 = Some XRefresh" "url_of c 1 = ''/auth/admin/realms/demo/users''"
    using demo_session_runs by blast
  have "6 \<in> set (w_refreshQueue w)" by (simp add: s(4))
  from refresh_lets_through [OF mute_console s(1) [unfolded demo_session_def] s(5) s(2,3) this, of 200 "''tokens''"]
  obtain w' c' es where "sstep console_env (SPage (EResponse 2 200 ''tokens'')) w c = Some (w', c')"
      "h_log (co_http c') = h_log (co_http c) @ es" "phase_of (co_http c') 1 = Some UnderWay"
      "HSend (url_of c 1) (Some (''Bearer '' @ str (conv_of console_env) (Str ''h.A1.s''))) \<in> set es"
    using demo_pair by blast
  then show ?thesis using s(1,2) unfolding s(6) by (intro exI [of _ w] exI [of _ c] exI [of _ w'] exI [of _ c']) simp
qed

end
