(* ===== verification/Admin_Rest.thy ===== *)
theory Admin_Rest
  imports Admin_Base Js_Uri
begin

text \<open>
  The REST interface of the console: the table of \<open>$resource\<close> objects that \<open>services.js\<close> registers,
  and the request a call of one of their actions sends.  What \<open>$resource\<close> itself does (filling in a
  template) is the documented behaviour of the library: a parameter that is given replaces its
  placeholder, encoded as a path segment, one that is missing drops its segment, a default that starts with
  an at sign is read from the body, and a parameter without a placeholder becomes part of the query.
\<close>

section \<open>Resource objects\<close>

datatype http_method = GET | POST | PUT | DELETE

datatype base_url = AuthUrl | ConsoleUrl

record action =
  ac_method :: http_method
  ac_params :: "(string \<times> string) list"
  ac_isArray :: bool

record resource =
  rs_base :: base_url
  rs_url :: string
  rs_defaults :: "(string \<times> string) list"
  rs_actions :: "(string \<times> action) list"

definition default_actions :: "(string \<times> action) list" where
  "default_actions = [
     (''get'', \<lparr>ac_method = GET, ac_params = [], ac_isArray = False\<rparr>),
     (''save'', \<lparr>ac_method = POST, ac_params = [], ac_isArray = False\<rparr>),
     (''query'', \<lparr>ac_method = GET, ac_params = [], ac_isArray = True\<rparr>),
     (''remove'', \<lparr>ac_method = DELETE, ac_params = [], ac_isArray = False\<rparr>),
     (''delete'', \<lparr>ac_method = DELETE, ac_params = [], ac_isArray = False\<rparr>)]"

definition action_of :: "resource \<Rightarrow> string \<Rightarrow> action option" where
  "action_of r a = map_of (rs_actions r @ default_actions) a"

section \<open>The table of \<open>services.js\<close>\<close>

abbreviation resource_of :: "string \<Rightarrow> (string \<times> string) list \<Rightarrow> resource" where
  "resource_of url defaults \<equiv> \<lparr>rs_base = AuthUrl, rs_url = url, rs_defaults = defaults, rs_actions = []\<rparr>"

abbreviation resource_with :: "string \<Rightarrow> (string \<times> string) list \<Rightarrow> (string \<times> action) list \<Rightarrow> resource" where
  "resource_with url defaults actions \<equiv> \<lparr>rs_base = AuthUrl, rs_url = url, rs_defaults = defaults, rs_actions = actions\<rparr>"

definition resources1 :: "(string \<times> resource) list" where
  "resources1 = [
    (''WhoAmI'', \<lparr>rs_base = ConsoleUrl, rs_url = ''/whoami'', rs_defaults = [], rs_actions = []\<rparr>),
    (''Realm'', resource_with ''/admin/realms/:id'' [(''id'', ''@realm'')]
       [(''update'', \<lparr>ac_method = PUT, ac_params = [], ac_isArray = False\<rparr>), (''create'', \<lparr>ac_method = POST, ac_params = [(''id'', '''')], ac_isArray = False\<rparr>)]),
    (''RealmEventsConfig'', resource_with ''/admin/realms/:id/events/config'' [(''id'', ''@realm'')]
       [(''update'', \<lparr>ac_method = PUT, ac_params = [], ac_isArray = False\<rparr>)]),
    (''RealmEvents'', resource_of ''/admin/realms/:id/events'' [(''id'', ''@realm'')]),
    (''RealmLDAPConnectionTester'', resource_of ''/admin/realms/:realm/testLDAPConnection'' []),
    (''ServerInfo'', resource_of ''/admin/serverinfo'' []),
    (''User'', resource_with ''/admin/realms/:realm/users/:userId'' [(''realm'', ''@realm''), (''userId'', ''@userId'')]
       [(''update'', \<lparr>ac_method = PUT, ac_params = [], ac_isArray = False\<rparr>)]),
    (''UserFederationInstances'', resource_with ''/admin/realms/:realm/user-federation/instances/:instance'' [(''realm'', ''@realm''), (''instance'', ''@instance'')]
       [(''update'', \<lparr>ac_method = PUT, ac_params = [], ac_isArray = False\<rparr>)]),
    (''UserFederationProviders'', resource_of ''/admin/realms/:realm/user-federation/providers/:provider'' [(''realm'', ''@realm''), (''provider'', ''@provider'')]),
    (''UserFederationSync'', resource_of ''/admin/realms/:realm/user-federation/sync/:provider'' []),
    (''UserSessionStats'', resource_of ''/admin/realms/:realm/users/:user/session-stats'' [(''realm'', ''@realm''), (''user'', ''@user'')]),
    (''UserSessions'', resource_of ''/admin/realms/:realm/users/:user/sessions'' [(''realm'', ''@realm''), (''user'', ''@user'')]),
    (''UserSessionLogout'', resource_of ''/admin/realms/:realm/sessions/:session'' [(''realm'', ''@realm''), (''session'', ''@session'')]),
    (''UserLogout'', resource_of ''/admin/realms/:realm/users/:user/logout'' [(''realm'', ''@realm''), (''user'', ''@user'')]),
    (''UserSocialLinks'', resource_of ''/admin/realms/:realm/users/:user/social-links'' [(''realm'', ''@realm''), (''user'', ''@user'')])]"

definition resources2 :: "(string \<times> resource) list" where
  "resources2 = [
    (''UserCredentials.resetPassword'', resource_with ''/admin/realms/:realm/users/:userId/reset-password'' [(''realm'', ''@realm''), (''userId'', ''@userId'')]
       [(''update'', \<lparr>ac_method = PUT, ac_params = [], ac_isArray = False\<rparr>)]),
    (''UserCredentials.removeTotp'', resource_with ''/admin/realms/:realm/users/:userId/remove-totp'' [(''realm'', ''@realm''), (''userId'', ''@userId'')]
       [(''update'', \<lparr>ac_method = PUT, ac_params = [], ac_isArray = False\<rparr>)]),
    (''UserCredentials.resetPasswordEmail'', resource_with ''/admin/realms/:realm/users/:userId/reset-password-email'' [(''realm'', ''@realm''), (''userId'', ''@userId'')]
       [(''update'', \<lparr>ac_method = PUT, ac_params = [], ac_isArray = False\<rparr>)]),
    (''RealmRoleMapping'', resource_of ''/admin/realms/:realm/users/:userId/role-mappings/realm'' [(''realm'', ''@realm''), (''userId'', ''@userId'')]),
    (''CompositeRealmRoleMapping'', resource_of ''/admin/realms/:realm/users/:userId/role-mappings/realm/composite'' [(''realm'', ''@realm''), (''userId'', ''@userId'')]),
    (''AvailableRealmRoleMapping'', resource_of ''/admin/realms/:realm/users/:userId/role-mappings/realm/available'' [(''realm'', ''@realm''), (''userId'', ''@userId'')]),
    (''ApplicationRoleMapping'', resource_of ''/admin/realms/:realm/users/:userId/role-mappings/applications/:application'' [(''realm'', ''@realm''), (''userId'', ''@userId''), (''application'', ''@application'')]),
    (''AvailableApplicationRoleMapping'', resource_of ''/admin/realms/:realm/users/:userId/role-mappings/applications/:application/available'' [(''realm'', ''@realm''), (''userId'', ''@userId''), (''application'', ''@application'')]),
    (''CompositeApplicationRoleMapping'', resource_of ''/admin/realms/:realm/users/:userId/role-mappings/applications/:application/composite'' [(''realm'', ''@realm''), (''userId'', ''@userId''), (''application'', ''@application'')]),
    (''ApplicationRealmScopeMapping'', resource_of ''/admin/realms/:realm/applications/:application/scope-mappings/realm'' [(''realm'', ''@realm''), (''application'', ''@application'')]),
    (''ApplicationAvailableRealmScopeMapping'', resource_of ''/admin/realms/:realm/applications/:application/scope-mappings/realm/available'' [(''realm'', ''@realm''), (''application'', ''@application'')]),
    (''ApplicationCompositeRealmScopeMapping'', resource_of ''/admin/realms/:realm/applications/:application/scope-mappings/realm/composite'' [(''realm'', ''@realm''), (''application'', ''@application'')]),
    (''ApplicationApplicationScopeMapping'', resource_of ''/admin/realms/:realm/applications/:application/scope-mappings/applications/:targetApp'' [(''realm'', ''@realm''), (''application'', ''@application''), (''targetApp'', ''@targetApp'')]),
    (''ApplicationAvailableApplicationScopeMapping'', resource_of ''/admin/realms/:realm/applications/:application/scope-mappings/applications/:targetApp/available'' [(''realm'', ''@realm''), (''application'', ''@application''), (''targetApp'', ''@targetApp'')]),
    (''ApplicationCompositeApplicationScopeMapping'', resource_of ''/admin/realms/:realm/applications/:application/scope-mappings/applications/:targetApp/composite'' [(''realm'', ''@realm''), (''application'', ''@application''), (''targetApp'', ''@targetApp'')]),
    (''RealmRoles'', resource_of ''/admin/realms/:realm/roles'' [(''realm'', ''@realm'')]),
    (''RoleRealmComposites'', resource_of ''/admin/realms/:realm/roles-by-id/:role/composites/realm'' [(''realm'', ''@realm''), (''role'', ''@role'')])]"

definition resources3 :: "(string \<times> resource) list" where
  "resources3 = [
    (''RealmPushRevocation'', resource_of ''/admin/realms/:realm/push-revocation'' [(''realm'', ''@realm'')]),
    (''RealmSessionStats'', resource_of ''/admin/realms/:realm/session-stats'' [(''realm'', ''@realm'')]),
    (''RealmApplicationSessionStats'', resource_of ''/admin/realms/:realm/application-session-stats'' [(''realm'', ''@realm'')]),
    (''RoleApplicationComposites'', resource_of ''/admin/realms/:realm/roles-by-id/:role/composites/applications/:application'' [(''realm'', ''@realm''), (''role'', ''@role''), (''application'', ''@application'')])]"

definition resources4 :: "(string \<times> resource) list" where
  "resources4 = [
    (''Role'', resource_with ''/admin/realms/:realm/roles/:role'' [(''realm'', ''@realm''), (''role'', ''@role'')]
       [(''update'', \<lparr>ac_method = PUT, ac_params = [], ac_isArray = False\<rparr>)]),
    (''RoleById'', resource_with ''/admin/realms/:realm/roles-by-id/:role'' [(''realm'', ''@realm''), (''role'', ''@role'')]
       [(''update'', \<lparr>ac_method = PUT, ac_params = [], ac_isArray = False\<rparr>)]),
    (''ApplicationRole'', resource_with ''/admin/realms/:realm/applications/:application/roles/:role'' [(''realm'', ''@realm''), (''application'', ''@application''), (''role'', ''@role'')]
       [(''update'', \<lparr>ac_method = PUT, ac_params = [], ac_isArray = False\<rparr>)]),
    (''ApplicationClaims'', resource_with ''/admin/realms/:realm/applications/:application/claims'' [(''realm'', ''@realm''), (''application'', ''@application'')]
       [(''update'', \<lparr>ac_method = PUT, ac_params = [], ac_isArray = False\<rparr>)]),
    (''ApplicationSessionStats'', resource_of ''/admin/realms/:realm/applications/:application/session-stats'' [(''realm'', ''@realm''), (''application'', ''@application'')]),
    (''ApplicationSessionStatsWithUsers'', resource_of ''/admin/realms/:realm/applications/:application/session-stats?users=true'' [(''realm'', ''@realm''), (''application'', ''@application'')]),
    (''ApplicationSessionCount'', resource_of ''/admin/realms/:realm/applications/:application/session-count'' [(''realm'', ''@realm''), (''application'', ''@application'')]),
    (''ApplicationUserSessions'', resource_of ''/admin/realms/:realm/applications/:application/user-sessions'' [(''realm'', ''@realm''), (''application'', ''@application'')]),
    (''ApplicationLogoutAll'', resource_of ''/admin/realms/:realm/applications/:application/logout-all'' [(''realm'', ''@realm''), (''application'', ''@application'')]),
    (''ApplicationLogoutUser'', resource_of ''/admin/realms/:realm/applications/:application/logout-user/:user'' [(''realm'', ''@realm''), (''application'', ''@application''), (''user'', ''@user'')]),
    (''RealmLogoutAll'', resource_of ''/admin/realms/:realm/logout-all'' [(''realm'', ''@realm'')]),
    (''ApplicationPushRevocation'', resource_of ''/admin/realms/:realm/applications/:application/push-revocation'' [(''realm'', ''@realm''), (''application'', ''@application'')]),
    (''Application'', resource_with ''/admin/realms/:realm/applications/:application'' [(''realm'', ''@realm''), (''application'', ''@application'')]
       [(''update'', \<lparr>ac_method = PUT, ac_params = [], ac_isArray = False\<rparr>)]),
    (''ApplicationCredentials'', resource_with ''/admin/realms/:realm/applications/:application/client-secret'' [(''realm'', ''@realm''), (''application'', ''@application'')]
       [(''update'', \<lparr>ac_method = POST, ac_params = [], ac_isArray = False\<rparr>)])]"

definition resources5 :: "(string \<times> resource) list" where
  "resources5 = [
    (''ApplicationOrigins'', resource_with ''/admin/realms/:realm/applications/:application/allowed-origins'' [(''realm'', ''@realm''), (''application'', ''@application'')]
       [(''update'', \<lparr>ac_method = PUT, ac_params = [], ac_isArray = True\<rparr>)]),
    (''OAuthClient'', resource_with ''/admin/realms/:realm/oauth-clients/:oauth'' [(''realm'', ''@realm''), (''oauth'', ''@oauth'')]
       [(''update'', \<lparr>ac_method = PUT, ac_params = [], ac_isArray = False\<rparr>)]),
    (''OAuthClientClaims'', resource_with ''/admin/realms/:realm/oauth-clients/:oauth/claims'' [(''realm'', ''@realm''), (''oauth'', ''@oauth'')]
       [(''update'', \<lparr>ac_method = PUT, ac_params = [], ac_isArray = False\<rparr>)]),
    (''OAuthClientCredentials'', resource_with ''/admin/realms/:realm/oauth-clients/:oauth/client-secret'' [(''realm'', ''@realm''), (''oauth'', ''@oauth'')]
       [(''update'', \<lparr>ac_method = POST, ac_params = [], ac_isArray = False\<rparr>)]),
    (''OAuthClientRealmScopeMapping'', resource_of ''/admin/realms/:realm/oauth-clients/:oauth/scope-mappings/realm'' [(''realm'', ''@realm''), (''oauth'', ''@oauth'')]),
    (''OAuthClientCompositeRealmScopeMapping'', resource_of ''/admin/realms/:realm/oauth-clients/:oauth/scope-mappings/realm/composite'' [(''realm'', ''@realm''), (''oauth'', ''@oauth'')]),
    (''OAuthClientAvailableRealmScopeMapping'', resource_of ''/admin/realms/:realm/oauth-clients/:oauth/scope-mappings/realm/available'' [(''realm'', ''@realm''), (''oauth'', ''@oauth'')]),
    (''OAuthClientApplicationScopeMapping'', resource_of ''/admin/realms/:realm/oauth-clients/:oauth/scope-mappings/applications/:targetApp'' [(''realm'', ''@realm''), (''oauth'', ''@oauth''), (''targetApp'', ''@targetApp'')]),
    (''OAuthClientCompositeApplicationScopeMapping'', resource_of ''/admin/realms/:realm/oauth-clients/:oauth/scope-mappings/applications/:targetApp/composite'' [(''realm'', ''@realm''), (''oauth'', ''@oauth''), (''targetApp'', ''@targetApp'')]),
    (''OAuthClientAvailableApplicationScopeMapping'', resource_of ''/admin/realms/:realm/oauth-clients/:oauth/scope-mappings/applications/:targetApp/available'' [(''realm'', ''@realm''), (''oauth'', ''@oauth''), (''targetApp'', ''@targetApp'')]),
    (''OAuthClientInstallation'', resource_with ''/admin/realms/:realm/oauth-clients/:oauth/installation'' [(''realm'', ''@realm''), (''oauth'', ''@oauth'')]
       [(''update'', \<lparr>ac_method = PUT, ac_params = [], ac_isArray = False\<rparr>)])]"

definition resources :: "(string \<times> resource) list" where
  "resources = resources1 @ resources2 @ resources3 @ resources4 @ resources5"

section \<open>Filling in a template\<close>

datatype seg = Lit string | Par string

definition seg_of :: "string \<Rightarrow> seg" where
  "seg_of s = (case s of [] \<Rightarrow> Lit [] | c # cs \<Rightarrow> if c = CHR '':'' then Par cs else Lit s)"

text \<open>The segments after the leading slash.\<close>

definition segs_of :: "string \<Rightarrow> seg list" where
  "segs_of url = map seg_of (tl (js_split (CHR ''/'') url))"

definition seg_param :: "seg \<Rightarrow> string list" where
  "seg_param s = (case s of Lit t \<Rightarrow> [] | Par p \<Rightarrow> [p])"

definition path_char :: "char \<Rightarrow> bool" where
  "path_char c \<longleftrightarrow> unreserved c \<or> c \<in> set '':@$,&=+''"

fun encodeUriSegment :: "string \<Rightarrow> string" where
  "encodeUriSegment [] = []"
| "encodeUriSegment (c # r) =
     (if path_char c then c # encodeUriSegment r
      else CHR ''%'' # hexd (byte c div 16) # hexd (byte c mod 16) # encodeUriSegment r)"

fun fill_segs :: "(string \<Rightarrow> string option) \<Rightarrow> seg list \<Rightarrow> string list" where
  "fill_segs ps [] = []"
| "fill_segs ps (Lit s # r) = s # fill_segs ps r"
| "fill_segs ps (Par p # r) =
     (case ps p of None \<Rightarrow> fill_segs ps r | Some v \<Rightarrow> encodeUriSegment v # fill_segs ps r)"

definition join_segs :: "string list \<Rightarrow> string" where
  "join_segs ws = concat (map (\<lambda>w. CHR ''/'' # w) ws)"

definition strip_slashes :: "string \<Rightarrow> string" where
  "strip_slashes s = rev (dropWhile (\<lambda>c. c = CHR ''/'') (rev s))"

definition word_char :: "char \<Rightarrow> bool" where
  "word_char c \<longleftrightarrow> (let n = byte c in
     48 \<le> n \<and> n \<le> 57 \<or> 65 \<le> n \<and> n \<le> 90 \<or> 97 \<le> n \<and> n \<le> 122 \<or> n = 95)"

text \<open>A last segment that starts with a dot is joined to the one before it.\<close>

definition word_then_end :: "string \<Rightarrow> bool" where
  "word_then_end s \<longleftrightarrow> takeWhile word_char s \<noteq> []
     \<and> take 1 (dropWhile word_char s) \<in> {[], ''?''}"

fun join_dot :: "string \<Rightarrow> string" where
  "join_dot [] = []"
| "join_dot (c # cs) =
     (if c = CHR ''/'' \<and> take 1 cs = ''.'' \<and> word_then_end (tl cs) then cs else c # join_dot cs)"

text \<open>
  A call: the parameters it gives (one may be \<open>undefined\<close>), and the string fields of its body.
\<close>

definition resolve_default :: "(string \<Rightarrow> string option) \<Rightarrow> string \<Rightarrow> string option" where
  "resolve_default body v = (case v of [] \<Rightarrow> Some [] | c # f \<Rightarrow> if c = CHR ''@'' then body f else Some v)"

definition call_param :: "resource \<Rightarrow> action \<Rightarrow> (string \<times> string option) list \<Rightarrow> (string \<Rightarrow> string option)
    \<Rightarrow> string \<Rightarrow> string option" where
  "call_param r a call body p =
     (case map_of call p of
        Some v \<Rightarrow> v
      | None \<Rightarrow> (case map_of (ac_params a @ rs_defaults r) p of
                  Some v \<Rightarrow> resolve_default body v
                | None \<Rightarrow> None))"

record rest_request =
  rq_method :: http_method
  rq_url :: string
  rq_query :: "(string \<times> string) list"
  rq_isArray :: bool

definition base_of :: "string \<Rightarrow> string \<Rightarrow> resource \<Rightarrow> string" where
  "base_of auth console r = (case rs_base r of AuthUrl \<Rightarrow> auth | ConsoleUrl \<Rightarrow> console)"

definition rest_call :: "string \<Rightarrow> string \<Rightarrow> resource \<Rightarrow> action \<Rightarrow> (string \<times> string option) list
    \<Rightarrow> (string \<Rightarrow> string option) \<Rightarrow> rest_request" where
  "rest_call auth console r a call body =
     (let segs = segs_of (rs_url r); ps = call_param r a call body
      in \<lparr>rq_method = ac_method a,
          rq_url = join_dot (strip_slashes (base_of auth console r @ join_segs (fill_segs ps segs))),
          rq_query = [(k, v). k \<leftarrow> remdups (map fst call @ map fst (ac_params a) @ map fst (rs_defaults r)),
                              k \<notin> set (concat (map seg_param segs)),
                              v \<leftarrow> (case ps k of None \<Rightarrow> [] | Some v \<Rightarrow> [v])],
          rq_isArray = ac_isArray a\<rparr>)"

text \<open>A call of an action by name, as the controllers and loaders write it.\<close>

definition rest :: "string \<Rightarrow> string \<Rightarrow> string \<Rightarrow> string \<Rightarrow> (string \<times> string option) list
    \<Rightarrow> (string \<Rightarrow> string option) \<Rightarrow> js_error + rest_request" where
  "rest auth console service action call body =
     (case map_of resources service of
        None \<Rightarrow> Inl (Thrown (''Unknown provider: '' @ service))
      | Some r \<Rightarrow> (case action_of r action of
          None \<Rightarrow> Inl TypeError
        | Some a \<Rightarrow> Inr (rest_call auth console r a call body)))"

section \<open>What the url of a request looks like\<close>

lemma set_encodeUriSegment: "set (encodeUriSegment s) \<subseteq> {c. path_char c} \<union> {CHR ''%''}"
proof (induction s)
  case (Cons c s)
  have "unreserved (hexd (byte c div 16))" "unreserved (hexd (byte c mod 16))"
    by (simp_all add: hexd_unreserved byte_div_16)
  then have "path_char (hexd (byte c div 16))" "path_char (hexd (byte c mod 16))"
    by (simp_all add: path_char_def)
  with Cons show ?case by auto
qed simp

lemma encodeUriSegment_no_slash: "CHR ''/'' \<notin> set (encodeUriSegment s)"
  "CHR ''?'' \<notin> set (encodeUriSegment s)" "CHR ''#'' \<notin> set (encodeUriSegment s)"
  using set_encodeUriSegment [of s] by (auto simp: path_char_def unreserved_def)

lemma encodeUriSegment_Nil [simp]: "encodeUriSegment s = [] \<longleftrightarrow> s = []"
  by (cases s) auto

lemma pct_decode_encodeUriSegment: "pct_decode (encodeUriSegment s) = Some s"
proof (induction s)
  case (Cons c s)
  have "byte c div 16 < 16" "byte c mod 16 < 16" by (simp_all add: byte_div_16)
  moreover have "c \<noteq> CHR ''%''" if "path_char c" using that by (auto simp: path_char_def unreserved_def)
  ultimately show ?case using Cons by (simp add: hexval_hexd)
qed simp

lemma strip_slashes_id: "s \<noteq> [] \<Longrightarrow> last s \<noteq> CHR ''/'' \<Longrightarrow> strip_slashes s = s"
  by (cases s rule: rev_cases) (simp_all add: strip_slashes_def)

lemma js_split_segs: "ws \<noteq> [] \<Longrightarrow> \<forall>w \<in> set ws. c \<notin> set w \<Longrightarrow> js_split c (js_join [c] ws) = ws"
  by (induction "[c]" ws rule: js_join.induct) (simp_all add: js_split_no_sep js_split_sep_app)

lemma join_segs_Cons: "join_segs (w # ws) = CHR ''/'' # w @ join_segs ws"
  by (simp add: join_segs_def)

lemma join_segs_Nil [simp]: "join_segs [] = []"
  by (simp add: join_segs_def)

text \<open>A url whose segments are not empty and do not start with a dot is left as it was built.\<close>

definition clean_seg :: "string \<Rightarrow> bool" where
  "clean_seg w \<longleftrightarrow> w \<noteq> [] \<and> CHR ''/'' \<notin> set w \<and> take 1 w \<noteq> ''.''"

lemma join_dot_no_slash: "CHR ''/'' \<notin> set w \<Longrightarrow> join_dot (w @ s) = w @ join_dot s"
  by (induction w) auto

lemma join_dot_segs: "\<forall>w \<in> set ws. clean_seg w \<Longrightarrow> join_dot (join_segs ws) = join_segs ws"
proof (induction ws)
  case (Cons w ws)
  obtain c cs where w: "w = c # cs" "c \<noteq> CHR ''.''"
    using Cons.prems by (cases w) (auto simp: clean_seg_def)
  then show ?case
    using Cons join_dot_no_slash [of w "join_segs ws"] by (simp add: join_segs_Cons clean_seg_def)
qed simp

lemma word_then_end_base: "CHR ''?'' \<notin> set a \<Longrightarrow> \<not> word_then_end (a @ CHR ''/'' # r)"
proof -
  have "CHR ''?'' \<notin> set a \<Longrightarrow> take (Suc 0) (dropWhile word_char (a @ CHR ''/'' # r)) \<notin> {[], ''?''}"
    by (induction a) (auto simp: word_char_def)
  then show "CHR ''?'' \<notin> set a \<Longrightarrow> \<not> word_then_end (a @ CHR ''/'' # r)"
    by (simp add: word_then_end_def)
qed

lemma join_dot_base:
  "CHR ''?'' \<notin> set a \<Longrightarrow> join_dot (a @ CHR ''/'' # r) = a @ join_dot (CHR ''/'' # r)"
proof (induction a)
  case (Cons c a)
  have "\<not> word_then_end (tl (a @ CHR ''/'' # r))" if "take 1 (a @ CHR ''/'' # r) = ''.''"
  proof (cases a)
    case Nil
    then show ?thesis using that by simp
  next
    case (Cons d b)
    then show ?thesis using Cons.prems word_then_end_base [of b r] by simp
  qed
  then show ?case using Cons by auto
qed simp

lemma join_segs_last:
  assumes "ws \<noteq> []" and "\<forall>w \<in> set ws. clean_seg w"
  shows "join_segs ws \<noteq> [] \<and> last (join_segs ws) \<noteq> CHR ''/''"
  using assms
proof (induction ws)
  case (Cons w ws)
  have "clean_seg w" using Cons.prems by simp
  then have "last w \<noteq> CHR ''/''" unfolding clean_seg_def by (metis last_in_set)
  then show ?case using Cons by (cases ws) (auto simp: join_segs_Cons clean_seg_def)
qed simp

lemma url_of_segs:
  assumes "ws \<noteq> []" and "\<forall>w \<in> set ws. clean_seg w" and "CHR ''?'' \<notin> set base"
  shows "join_dot (strip_slashes (base @ join_segs ws)) = base @ join_segs ws"
proof -
  obtain r where r: "join_segs ws = CHR ''/'' # r" using assms(1) by (cases ws) (auto simp: join_segs_Cons)
  have "strip_slashes (base @ join_segs ws) = base @ join_segs ws"
    using join_segs_last [OF assms(1,2)] by (intro strip_slashes_id) simp_all
  then show ?thesis using join_dot_base [OF assms(3), of r] join_dot_segs [OF assms(2)] r by simp
qed

lemma encodeUriSegment_dot: "take (Suc 0) (encodeUriSegment v) = ''.'' \<longleftrightarrow> take (Suc 0) v = ''.''"
  by (cases v) (auto simp: path_char_def unreserved_def)

lemma clean_encoded: "v \<noteq> [] \<Longrightarrow> take 1 v \<noteq> ''.'' \<Longrightarrow> clean_seg (encodeUriSegment v)"
  by (simp add: clean_seg_def encodeUriSegment_dot encodeUriSegment_no_slash)

end
