(* ===== verification/Admin_Routes.thy ===== *)
theory Admin_Routes
  imports Admin_Rest
begin

text \<open>
  The navigation of the console: the loaders of \<open>loaders.js\<close>, each of which fetches what a page needs
  with the parameters of the current route, and the route table of \<open>app.js\<close>.  Matching a path with the table
  is the documented behaviour of \<open>$route\<close>: the first route matches whose segments do, a placeholder matches
  one segment that is not empty, the parameters are URI-decoded, and each route has a redirection for the
  path with (or without) a trailing slash.
\<close>

section \<open>Loaders\<close>

text \<open>
  The service, its action (\<open>Loader.get\<close> or \<open>Loader.query\<close>) and for each parameter of the call the route
  parameters it is read from, joined by \<open>||\<close>; a loader without a function for its parameters has \<open>None\<close>.
\<close>

datatype loader = Loader (ld_action: string) (ld_service: string)
  (ld_params: "(string \<times> string list) list option")

definition loaders1 :: "(string \<times> loader) list" where
  "loaders1 = [
    (''RealmListLoader'', Loader ''get'' ''Realm'' None),
    (''ServerInfoLoader'', Loader ''get'' ''ServerInfo'' None),
    (''RealmLoader'', Loader ''get'' ''Realm'' (Some [(''id'', [''realm''])])),
    (''RealmEventsConfigLoader'', Loader ''get'' ''RealmEventsConfig'' (Some [(''id'', [''realm''])])),
    (''UserListLoader'', Loader ''query'' ''User'' (Some [(''realm'', [''realm''])])),
    (''RealmSessionStatsLoader'', Loader ''get'' ''RealmSessionStats'' (Some [(''realm'', [''realm''])])),
    (''RealmApplicationSessionStatsLoader'', Loader ''get'' ''RealmApplicationSessionStats'' (Some [(''realm'', [''realm''])])),
    (''UserLoader'', Loader ''get'' ''User'' (Some [(''realm'', [''realm'']), (''userId'', [''user''])])),
    (''UserFederationInstanceLoader'', Loader ''get'' ''UserFederationInstances'' (Some [(''realm'', [''realm'']), (''instance'', [''instance''])])),
    (''UserFederationFactoryLoader'', Loader ''get'' ''UserFederationProviders'' (Some [(''realm'', [''realm'']), (''provider'', [''provider''])])),
    (''UserSessionStatsLoader'', Loader ''get'' ''UserSessionStats'' (Some [(''realm'', [''realm'']), (''user'', [''user''])])),
    (''UserSessionsLoader'', Loader ''query'' ''UserSessions'' (Some [(''realm'', [''realm'']), (''user'', [''user''])])),
    (''UserSocialLinksLoader'', Loader ''query'' ''UserSocialLinks'' (Some [(''realm'', [''realm'']), (''user'', [''user''])])),
    (''RoleLoader'', Loader ''get'' ''Role'' (Some [(''realm'', [''realm'']), (''role'', [''role''])])),
    (''RoleListLoader'', Loader ''query'' ''Role'' (Some [(''realm'', [''realm''])]))]"

definition loaders2 :: "(string \<times> loader) list" where
  "loaders2 = [
    (''ApplicationRoleLoader'', Loader ''get'' ''ApplicationRole'' (Some [(''realm'', [''realm'']), (''application'', [''application'']), (''role'', [''role''])])),
    (''ApplicationSessionStatsLoader'', Loader ''get'' ''ApplicationSessionStats'' (Some [(''realm'', [''realm'']), (''application'', [''application''])])),
    (''ApplicationSessionCountLoader'', Loader ''get'' ''ApplicationSessionCount'' (Some [(''realm'', [''realm'']), (''application'', [''application''])])),
    (''ApplicationClaimsLoader'', Loader ''get'' ''ApplicationClaims'' (Some [(''realm'', [''realm'']), (''application'', [''application''])])),
    (''ApplicationInstallationLoader'', Loader ''get'' ''ApplicationInstallation'' (Some [(''realm'', [''realm'']), (''application'', [''application''])])),
    (''ApplicationRoleListLoader'', Loader ''query'' ''ApplicationRole'' (Some [(''realm'', [''realm'']), (''application'', [''application''])])),
    (''ApplicationLoader'', Loader ''get'' ''Application'' (Some [(''realm'', [''realm'']), (''application'', [''application''])])),
    (''ApplicationListLoader'', Loader ''query'' ''Application'' (Some [(''realm'', [''realm''])])),
    (''RoleMappingLoader'', Loader ''query'' ''RoleMapping'' (Some [(''realm'', [''realm'', ''application'']), (''role'', [''role''])])),
    (''OAuthClientLoader'', Loader ''get'' ''OAuthClient'' (Some [(''realm'', [''realm'']), (''oauth'', [''oauth''])])),
    (''OAuthClientClaimsLoader'', Loader ''get'' ''OAuthClientClaims'' (Some [(''realm'', [''realm'']), (''oauth'', [''oauth''])])),
    (''OAuthClientListLoader'', Loader ''query'' ''OAuthClient'' (Some [(''realm'', [''realm''])])),
    (''OAuthClientInstallationLoader'', Loader ''get'' ''OAuthClientInstallation'' (Some [(''realm'', [''realm'']), (''oauth'', [''oauth''])]))]"

definition loaders :: "(string \<times> loader) list" where
  "loaders = loaders1 @ loaders2"

type_synonym params = "(string \<times> string) list"

fun first_truthy :: "params \<Rightarrow> string list \<Rightarrow> string option" where
  "first_truthy ps [] = None"
| "first_truthy ps [x] = map_of ps x"
| "first_truthy ps (x # y # r) =
     (if truthy_str (map_of ps x) then map_of ps x else first_truthy ps (y # r))"

definition loader_call :: "loader \<Rightarrow> params \<Rightarrow> (string \<times> string option) list" where
  "loader_call l ps = (case ld_params l of
       None \<Rightarrow> []
     | Some as \<Rightarrow> map (\<lambda>(k, alts). (k, first_truthy ps alts)) as)"

definition load_page :: "string \<Rightarrow> string \<Rightarrow> string \<Rightarrow> params \<Rightarrow> js_error + rest_request" where
  "load_page auth console name ps =
     (case map_of loaders name of
        None \<Rightarrow> Inl (Thrown (''Unknown provider: '' @ name))
      | Some l \<Rightarrow> rest auth console (ld_service l) (ld_action l) (loader_call l ps) (\<lambda>_. None))"

section \<open>The route table\<close>

text \<open>
  Path, template, controller, and for each name the controller gets injected the loader that is called,
  \<open>None\<close> for a new object.
\<close>

datatype route = Route (rt_path: string) (rt_template: string) (rt_controller: string)
  (rt_resolve: "(string \<times> string option) list")

definition routes1 :: "route list" where
  "routes1 = [
    Route ''/create/realm'' ''partials/realm-create.html'' ''RealmCreateCtrl''
      [],
    Route ''/realms/:realm'' ''partials/realm-detail.html'' ''RealmDetailCtrl''
      [(''realm'', Some ''RealmLoader''), (''serverInfo'', Some ''ServerInfoLoader'')],
    Route ''/realms/:realm/login-settings'' ''partials/realm-login-settings.html'' ''RealmLoginSettingsCtrl''
      [(''realm'', Some ''RealmLoader''), (''serverInfo'', Some ''ServerInfoLoader'')],
    Route ''/realms/:realm/theme-settings'' ''partials/realm-theme-settings.html'' ''RealmThemeCtrl''
      [(''realm'', Some ''RealmLoader''), (''serverInfo'', Some ''ServerInfoLoader'')],
    Route ''/realms/:realm/cache-settings'' ''partials/realm-cache-settings.html'' ''RealmCacheCtrl''
      [(''realm'', Some ''RealmLoader''), (''serverInfo'', Some ''ServerInfoLoader'')],
    Route ''/realms'' ''partials/realm-list.html'' ''RealmListCtrl''
      [],
    Route ''/realms/:realm/token-settings'' ''partials/realm-tokens.html'' ''RealmTokenDetailCtrl''
      [(''realm'', Some ''RealmLoader'')],
    Route ''/realms/:realm/keys-settings'' ''partials/realm-keys.html'' ''RealmKeysDetailCtrl''
      [(''realm'', Some ''RealmLoader'')],
    Route ''/realms/:realm/social-settings'' ''partials/realm-social.html'' ''RealmSocialCtrl''
      [(''realm'', Some ''RealmLoader''), (''serverInfo'', Some ''ServerInfoLoader'')],
    Route ''/realms/:realm/default-roles'' ''partials/realm-default-roles.html'' ''RealmDefaultRolesCtrl''
      [(''realm'', Some ''RealmLoader''), (''applications'', Some ''ApplicationListLoader''), (''roles'', Some ''RoleListLoader'')],
    Route ''/realms/:realm/required-credentials'' ''partials/realm-credentials.html'' ''RealmRequiredCredentialsCtrl''
      [(''realm'', Some ''RealmLoader'')],
    Route ''/realms/:realm/smtp-settings'' ''partials/realm-smtp.html'' ''RealmSMTPSettingsCtrl''
      [(''realm'', Some ''RealmLoader'')],
    Route ''/realms/:realm/events'' ''partials/realm-events.html'' ''RealmEventsCtrl''
      [(''realm'', Some ''RealmLoader'')]]"

definition routes2 :: "route list" where
  "routes2 = [
    Route ''/realms/:realm/events-settings'' ''partials/realm-events-config.html'' ''RealmEventsConfigCtrl''
      [(''realm'', Some ''RealmLoader''), (''serverInfo'', Some ''ServerInfoLoader''), (''eventsConfig'', Some ''RealmEventsConfigLoader'')],
    Route ''/create/user/:realm'' ''partials/user-detail.html'' ''UserDetailCtrl''
      [(''realm'', Some ''RealmLoader''), (''user'', None)],
    Route ''/realms/:realm/users/:user'' ''partials/user-detail.html'' ''UserDetailCtrl''
      [(''realm'', Some ''RealmLoader''), (''user'', Some ''UserLoader'')],
    Route ''/realms/:realm/users/:user/user-credentials'' ''partials/user-credentials.html'' ''UserCredentialsCtrl''
      [(''realm'', Some ''RealmLoader''), (''user'', Some ''UserLoader'')],
    Route ''/realms/:realm/users/:user/role-mappings'' ''partials/role-mappings.html'' ''UserRoleMappingCtrl''
      [(''realm'', Some ''RealmLoader''), (''user'', Some ''UserLoader''), (''applications'', Some ''ApplicationListLoader'')],
    Route ''/realms/:realm/users/:user/sessions'' ''partials/user-sessions.html'' ''UserSessionsCtrl''
      [(''realm'', Some ''RealmLoader''), (''user'', Some ''UserLoader''), (''sessions'', Some ''UserSessionsLoader'')],
    Route ''/realms/:realm/users/:user/social-links'' ''partials/user-social-links.html'' ''UserSocialCtrl''
      [(''realm'', Some ''RealmLoader''), (''user'', Some ''UserLoader''), (''socialLinks'', Some ''UserSocialLinksLoader'')],
    Route ''/realms/:realm/users'' ''partials/user-list.html'' ''UserListCtrl''
      [(''realm'', Some ''RealmLoader'')],
    Route ''/create/role/:realm'' ''partials/role-detail.html'' ''RoleDetailCtrl''
      [(''realm'', Some ''RealmLoader''), (''role'', None), (''roles'', Some ''RoleListLoader''), (''applications'', Some ''ApplicationListLoader'')]]"

definition routes3 :: "route list" where
  "routes3 = [
    Route ''/realms/:realm/roles/:role'' ''partials/role-detail.html'' ''RoleDetailCtrl''
      [(''realm'', Some ''RealmLoader''), (''role'', Some ''RoleLoader''), (''roles'', Some ''RoleListLoader''), (''applications'', Some ''ApplicationListLoader'')],
    Route ''/realms/:realm/roles'' ''partials/role-list.html'' ''RoleListCtrl''
      [(''realm'', Some ''RealmLoader''), (''roles'', Some ''RoleListLoader'')],
    Route ''/create/role/:realm/applications/:application'' ''partials/application-role-detail.html'' ''ApplicationRoleDetailCtrl''
      [(''realm'', Some ''RealmLoader''), (''application'', Some ''ApplicationLoader''), (''role'', None), (''roles'', Some ''RoleListLoader''), (''applications'', Some ''ApplicationListLoader'')],
    Route ''/realms/:realm/applications/:application/roles/:role'' ''partials/application-role-detail.html'' ''ApplicationRoleDetailCtrl''
      [(''realm'', Some ''RealmLoader''), (''application'', Some ''ApplicationLoader''), (''role'', Some ''ApplicationRoleLoader''), (''roles'', Some ''RoleListLoader''), (''applications'', Some ''ApplicationListLoader'')],
    Route ''/realms/:realm/applications/:application/claims'' ''partials/application-claims.html'' ''ApplicationClaimsCtrl''
      [(''realm'', Some ''RealmLoader''), (''application'', Some ''ApplicationLoader''), (''claims'', Some ''ApplicationClaimsLoader'')],
    Route ''/realms/:realm/applications/:application/sessions'' ''partials/application-sessions.html'' ''ApplicationSessionsCtrl''
      [(''realm'', Some ''RealmLoader''), (''application'', Some ''ApplicationLoader''), (''sessionCount'', Some ''ApplicationSessionCountLoader'')],
    Route ''/realms/:realm/applications/:application/credentials'' ''partials/application-credentials.html'' ''ApplicationCredentialsCtrl''
      [(''realm'', Some ''RealmLoader''), (''application'', Some ''ApplicationLoader'')],
    Route ''/realms/:realm/applications/:application/roles'' ''partials/application-role-list.html'' ''ApplicationRoleListCtrl''
      [(''realm'', Some ''RealmLoader''), (''application'', Some ''ApplicationLoader''), (''roles'', Some ''ApplicationRoleListLoader'')]]"

definition routes4 :: "route list" where
  "routes4 = [
    Route ''/realms/:realm/applications/:application/revocation'' ''partials/application-revocation.html'' ''ApplicationRevocationCtrl''
      [(''realm'', Some ''RealmLoader''), (''application'', Some ''ApplicationLoader'')],
    Route ''/realms/:realm/applications/:application/scope-mappings'' ''partials/application-scope-mappings.html'' ''ApplicationScopeMappingCtrl''
      [(''realm'', Some ''RealmLoader''), (''application'', Some ''ApplicationLoader''), (''applications'', Some ''ApplicationListLoader'')],
    Route ''/realms/:realm/applications/:application/installation'' ''partials/application-installation.html'' ''ApplicationInstallationCtrl''
      [(''realm'', Some ''RealmLoader''), (''application'', Some ''ApplicationLoader'')],
    Route ''/create/application/:realm'' ''partials/application-detail.html'' ''ApplicationDetailCtrl''
      [(''realm'', Some ''RealmLoader''), (''applications'', Some ''ApplicationListLoader''), (''application'', None)],
    Route ''/realms/:realm/applications/:application'' ''partials/application-detail.html'' ''ApplicationDetailCtrl''
      [(''realm'', Some ''RealmLoader''), (''applications'', Some ''ApplicationListLoader''), (''application'', Some ''ApplicationLoader'')],
    Route ''/realms/:realm/applications'' ''partials/application-list.html'' ''ApplicationListCtrl''
      [(''realm'', Some ''RealmLoader''), (''applications'', Some ''ApplicationListLoader'')],
    Route ''/realms/:realm/oauth-clients/:oauth/claims'' ''partials/oauth-client-claims.html'' ''OAuthClientClaimsCtrl''
      [(''realm'', Some ''RealmLoader''), (''oauth'', Some ''OAuthClientLoader''), (''claims'', Some ''OAuthClientClaimsLoader'')],
    Route ''/realms/:realm/oauth-clients/:oauth/revocation'' ''partials/oauth-client-revocation.html'' ''OAuthClientRevocationCtrl''
      [(''realm'', Some ''RealmLoader''), (''oauth'', Some ''OAuthClientLoader'')],
    Route ''/realms/:realm/oauth-clients/:oauth/credentials'' ''partials/oauth-client-credentials.html'' ''OAuthClientCredentialsCtrl''
      [(''realm'', Some ''RealmLoader''), (''oauth'', Some ''OAuthClientLoader'')],
    Route ''/realms/:realm/oauth-clients/:oauth/scope-mappings'' ''partials/oauth-client-scope-mappings.html'' ''OAuthClientScopeMappingCtrl''
      [(''realm'', Some ''RealmLoader''), (''oauth'', Some ''OAuthClientLoader''), (''applications'', Some ''ApplicationListLoader'')]]"

definition routes5 :: "route list" where
  "routes5 = [
    Route ''/realms/:realm/oauth-clients/:oauth/installation'' ''partials/oauth-client-installation.html'' ''OAuthClientInstallationCtrl''
      [(''realm'', Some ''RealmLoader''), (''oauth'', Some ''OAuthClientLoader''), (''installation'', Some ''OAuthClientInstallationLoader'')],
    Route ''/create/oauth-client/:realm'' ''partials/oauth-client-detail.html'' ''OAuthClientDetailCtrl''
      [(''realm'', Some ''RealmLoader''), (''oauth'', None)],
    Route ''/realms/:realm/oauth-clients/:oauth'' ''partials/oauth-client-detail.html'' ''OAuthClientDetailCtrl''
      [(''realm'', Some ''RealmLoader''), (''oauth'', Some ''OAuthClientLoader'')],
    Route ''/realms/:realm/oauth-clients'' ''partials/oauth-client-list.html'' ''OAuthClientListCtrl''
      [(''realm'', Some ''RealmLoader''), (''oauthClients'', Some ''OAuthClientListLoader'')],
    Route ''/'' ''partials/home.html'' ''HomeCtrl''
      [],
    Route ''/mocks/:realm'' ''partials/realm-detail_mock.html'' ''RealmDetailCtrl''
      [(''realm'', Some ''RealmLoader''), (''serverInfo'', Some ''ServerInfoLoader'')],
    Route ''/realms/:realm/sessions/revocation'' ''partials/session-revocation.html'' ''RealmRevocationCtrl''
      [(''realm'', Some ''RealmLoader'')],
    Route ''/realms/:realm/sessions/realm'' ''partials/session-realm.html'' ''RealmSessionStatsCtrl''
      [(''realm'', Some ''RealmLoader''), (''stats'', Some ''RealmApplicationSessionStatsLoader'')],
    Route ''/realms/:realm/user-federation'' ''partials/user-federation.html'' ''UserFederationCtrl''
      [(''realm'', Some ''RealmLoader'')],
    Route ''/realms/:realm/user-federation/providers/ldap/:instance'' ''partials/federated-ldap.html'' ''LDAPCtrl''
      [(''realm'', Some ''RealmLoader''), (''instance'', Some ''UserFederationInstanceLoader'')],
    Route ''/create/user-federation/:realm/providers/ldap'' ''partials/federated-ldap.html'' ''LDAPCtrl''
      [(''realm'', Some ''RealmLoader''), (''instance'', None)],
    Route ''/create/user-federation/:realm/providers/:provider'' ''partials/federated-generic.html'' ''GenericUserFederationCtrl''
      [(''realm'', Some ''RealmLoader''), (''instance'', None), (''providerFactory'', Some ''UserFederationFactoryLoader'')]]"

definition routes6 :: "route list" where
  "routes6 = [
    Route ''/realms/:realm/user-federation/providers/:provider/:instance'' ''partials/federated-generic.html'' ''GenericUserFederationCtrl''
      [(''realm'', Some ''RealmLoader''), (''instance'', Some ''UserFederationInstanceLoader''), (''providerFactory'', Some ''UserFederationFactoryLoader'')],
    Route ''/realms/:realm/defense/headers'' ''partials/defense-headers.html'' ''DefenseHeadersCtrl''
      [(''realm'', Some ''RealmLoader''), (''serverInfo'', Some ''ServerInfoLoader'')],
    Route ''/realms/:realm/defense/brute-force'' ''partials/brute-force.html'' ''RealmBruteForceCtrl''
      [(''realm'', Some ''RealmLoader'')],
    Route ''/logout'' ''partials/home.html'' ''LogoutCtrl''
      []]"

definition routes :: "route list" where
  "routes = routes1 @ routes2 @ routes3 @ routes4 @ routes5 @ routes6"

section \<open>Matching a path\<close>

definition path_segs :: "string \<Rightarrow> seg list" where
  "path_segs p = map seg_of (js_split (CHR ''/'') p)"

definition redirect_path :: "string \<Rightarrow> string" where
  "redirect_path p = (if last p = CHR ''/'' then butlast p else p @ ''/'')"

fun match_segs :: "seg list \<Rightarrow> string list \<Rightarrow> params option" where
  "match_segs [] [] = Some []"
| "match_segs (Lit s # r) (w # ws) = (if w = s then match_segs r ws else None)"
| "match_segs (Par p # r) (w # ws) =
     (if w \<noteq> [] then map_option (Cons (p, w)) (match_segs r ws) else None)"
| "match_segs _ _ = None"

fun decode_params :: "params \<Rightarrow> js_error + params" where
  "decode_params [] = Inr []"
| "decode_params ((p, w) # r) =
     (case decodeURIComponent w of
        Inl e \<Rightarrow> Inl e
      | Inr v \<Rightarrow> (case decode_params r of Inl e \<Rightarrow> Inl e | Inr r' \<Rightarrow> Inr ((p, v) # r')))"

datatype hit = Show route params | RedirectTo route params | NotFound

definition route_table :: "(seg list \<times> (params \<Rightarrow> hit)) list" where
  "route_table = concat (map (\<lambda>r. [(path_segs (rt_path r), Show r),
      (path_segs (redirect_path (rt_path r)), RedirectTo r)]) routes)"

fun find_in :: "(seg list \<times> (params \<Rightarrow> hit)) list \<Rightarrow> string list \<Rightarrow> js_error + hit" where
  "find_in [] ws = Inr NotFound"
| "find_in ((segs, k) # t) ws =
     (case match_segs segs ws of
        None \<Rightarrow> find_in t ws
      | Some ps \<Rightarrow> (case decode_params ps of Inl e \<Rightarrow> Inl e | Inr ps' \<Rightarrow> Inr (k ps')))"

definition find_route :: "string \<Rightarrow> js_error + hit" where
  "find_route path = find_in route_table (js_split (CHR ''/'') path)"

definition params_of :: "seg list \<Rightarrow> string list" where
  "params_of segs = concat (map seg_param segs)"

definition route_params :: "route \<Rightarrow> string list" where
  "route_params r = params_of (path_segs (rt_path r))"

text \<open>What a path that leads to a route says about the parameters.\<close>

lemma params_of_simps [simp]:
  "params_of [] = []" "params_of (Lit s # r) = params_of r" "params_of (Par p # r) = p # params_of r"
  by (simp_all add: params_of_def seg_param_def)

lemma match_segs_fst: "match_segs segs ws = Some ps \<Longrightarrow> map fst ps = params_of segs"
proof (induction segs arbitrary: ws ps)
  case Nil
  then show ?case by (cases ws) simp_all
next
  case (Cons s segs)
  then show ?case by (cases s; cases ws) (auto split: if_splits)
qed

lemma match_segs_nonempty: "match_segs segs ws = Some ps \<Longrightarrow> (p, w) \<in> set ps \<Longrightarrow> w \<noteq> []"
proof (induction segs arbitrary: ws ps)
  case Nil
  then show ?case by (cases ws) simp_all
next
  case (Cons s segs)
  then show ?case by (cases s; cases ws) (auto split: if_splits)
qed

lemma decode_params_fst: "decode_params ps = Inr ps' \<Longrightarrow> map fst ps' = map fst ps"
proof (induction ps arbitrary: ps' rule: decode_params.induct)
  case (2 p w r)
  then show ?case by (auto split: sum.splits)
qed simp

lemma pct_decode_Nil: "pct_decode w = Some [] \<Longrightarrow> w = []"
  by (cases w rule: pct_decode.cases) (auto split: if_splits option.splits list.splits)

lemma decode_params_nonempty:
  "decode_params ps = Inr ps' \<Longrightarrow> \<forall>(p, w) \<in> set ps. w \<noteq> [] \<Longrightarrow> \<forall>(p, v) \<in> set ps'. v \<noteq> []"
proof (induction ps arbitrary: ps' rule: decode_params.induct)
  case (2 p w r)
  then obtain v r' where "decodeURIComponent w = Inr v" "decode_params r = Inr r'" "ps' = (p, v) # r'"
    by (auto split: sum.splits)
  moreover from this have "v \<noteq> []" using 2(3) pct_decode_Nil [of w]
    by (auto simp: decodeURIComponent_def split: option.splits if_splits)
  ultimately show ?case using 2 by auto
qed simp

lemma find_in_Show:
  "find_in t ws = Inr (Show r ps) \<Longrightarrow>
     \<exists>segs k raw ps'. (segs, k) \<in> set t \<and> match_segs segs ws = Some raw \<and> decode_params raw = Inr ps'
       \<and> k ps' = Show r ps"
  by (induction t ws rule: find_in.induct) (fastforce split: option.splits sum.splits)+

lemma find_route_Show:
  assumes "find_route path = Inr (Show r ps)"
  shows "r \<in> set routes" and "map fst ps = route_params r"
    and "\<forall>(p, v) \<in> set ps. v \<noteq> []"
proof -
  obtain segs k raw ps' where f: "(segs, k) \<in> set route_table"
    "match_segs segs (js_split (CHR ''/'') path) = Some raw" "decode_params raw = Inr ps'"
    "k ps' = Show r ps"
    using find_in_Show assms unfolding find_route_def by blast
  then have *: "r \<in> set routes" "route_params r = params_of segs" "ps' = ps"
    by (auto simp: route_table_def route_params_def)
  then show "r \<in> set routes" "map fst ps = route_params r"
    "\<forall>(p, v) \<in> set ps. v \<noteq> []"
    using match_segs_fst [OF f(2)] match_segs_nonempty [OF f(2)] decode_params_fst [OF f(3)]
      decode_params_nonempty [OF f(3)] by auto
qed

end
