(* ===== verification/Admin_Tables.thy ===== *)
theory Admin_Tables
  imports Admin_Routes
begin

text \<open>
  The route table, the loaders and the resource objects fit together: checked by evaluating the three
  tables, and used to say what a page fetches when its path is visited.
\<close>

section \<open>The tables fit together\<close>

text \<open>
  A loader fits a route when its service and action exist, it gives exactly the parameters of the
  url, all but possibly the last one of a list, and it reads each from a parameter of the route.
\<close>

definition clean_lit :: "seg \<Rightarrow> bool" where
  "clean_lit s = (case s of Lit w \<Rightarrow> clean_seg w | Par p \<Rightarrow> True)"

definition loader_args :: "loader \<Rightarrow> (string \<times> string list) list" where
  "loader_args l = (case ld_params l of None \<Rightarrow> [] | Some as \<Rightarrow> as)"

definition loader_fits :: "loader \<Rightarrow> bool" where
  "loader_fits l =
     (case map_of resources (ld_service l) of
        None \<Rightarrow> False
      | Some r \<Rightarrow> (case action_of r (ld_action l) of
          None \<Rightarrow> False
        | Some a \<Rightarrow>
            (let as = map fst (loader_args l); segs = segs_of (rs_url r); ps = params_of segs
             in rs_base r = AuthUrl \<and> ac_method a = GET \<and> ac_params a = [] \<and> segs \<noteq> []
                \<and> list_all clean_lit segs \<and> distinct as
                \<and> list_all (\<lambda>x. length (snd x) = 1) (loader_args l)
                \<and> list_all (\<lambda>x. take 1 (snd x) = ''@'' \<and> fst x \<in> set ps) (rs_defaults r)
                \<and> list_all (\<lambda>p. p \<in> set ps) as
                \<and> (list_all (\<lambda>p. p \<in> set as) ps
                   \<or> ac_isArray a \<and> 1 < length segs
                     \<and> list_all (\<lambda>p. p \<in> set as) (params_of (butlast segs))
                     \<and> (case last segs of Lit w \<Rightarrow> False | Par p \<Rightarrow> p \<notin> set as)))))"

definition reads :: "loader \<Rightarrow> string list" where
  "reads l = concat (map snd (loader_args l))"

definition route_loaders :: "route \<Rightarrow> string list" where
  "route_loaders r = concat (map (\<lambda>x. case snd x of None \<Rightarrow> [] | Some l \<Rightarrow> [l]) (rt_resolve r))"

text \<open>The loaders that some route uses, with the route parameters each of them reads.\<close>

definition needs :: "(string \<times> string list) list" where
  "needs = [
    (''RealmLoader'', [''realm'']),
    (''ApplicationListLoader'', [''realm'']),
    (''ApplicationLoader'', [''realm'', ''application'']),
    (''ServerInfoLoader'', []),
    (''RoleListLoader'', [''realm'']),
    (''OAuthClientLoader'', [''realm'', ''oauth'']),
    (''UserLoader'', [''realm'', ''user'']),
    (''UserFederationInstanceLoader'', [''realm'', ''instance'']),
    (''UserFederationFactoryLoader'', [''realm'', ''provider'']),
    (''RealmEventsConfigLoader'', [''realm'']),
    (''UserSessionsLoader'', [''realm'', ''user'']),
    (''UserSocialLinksLoader'', [''realm'', ''user'']),
    (''RoleLoader'', [''realm'', ''role'']),
    (''ApplicationRoleLoader'', [''realm'', ''application'', ''role'']),
    (''ApplicationClaimsLoader'', [''realm'', ''application'']),
    (''ApplicationSessionCountLoader'', [''realm'', ''application'']),
    (''ApplicationRoleListLoader'', [''realm'', ''application'']),
    (''OAuthClientClaimsLoader'', [''realm'', ''oauth'']),
    (''OAuthClientInstallationLoader'', [''realm'', ''oauth'']),
    (''OAuthClientListLoader'', [''realm'']),
    (''RealmApplicationSessionStatsLoader'', [''realm''])]"

lemma needs_fit:
  "list_all (\<lambda>x. case map_of loaders (fst x) of None \<Rightarrow> False | Some l \<Rightarrow> loader_fits l \<and> reads l = snd x) needs"
  by code_simp

lemma routes_fit:
  "list_all (\<lambda>r. list_all (\<lambda>l. case map_of needs l of None \<Rightarrow> False
      | Some ps \<Rightarrow> list_all (\<lambda>p. p \<in> set (route_params r)) ps) (route_loaders r)) routes"
  by code_simp

lemma route_loader_fits:
  assumes "r \<in> set routes" and "name \<in> set (route_loaders r)"
  obtains l where "map_of loaders name = Some l" "loader_fits l" "set (reads l) \<subseteq> set (route_params r)"
proof -
  obtain ps where ps: "map_of needs name = Some ps" "set ps \<subseteq> set (route_params r)"
    using routes_fit assms by (fastforce simp: list_all_iff split: option.splits)
  then have "(name, ps) \<in> set needs" by (simp add: map_of_SomeD)
  then obtain l where "map_of loaders name = Some l" "loader_fits l" "reads l = ps"
    using needs_fit by (fastforce simp: list_all_iff split: option.splits)
  then show ?thesis using that ps(2) by simp
qed


section \<open>Routes that match the same path\<close>

fun compatible :: "seg \<Rightarrow> seg \<Rightarrow> bool" where
  "compatible (Lit s) (Lit t) = (s = t)"
| "compatible (Par p) (Lit t) = (t \<noteq> [])"
| "compatible (Lit s) (Par q) = (s \<noteq> [])"
| "compatible (Par p) (Par q) = True"

text \<open>The pairs of routes, the earlier first, that some path matches both; last segments differ most.\<close>

fun clashes :: "(seg list \<times> string) list \<Rightarrow> (string \<times> string) list" where
  "clashes [] = []"
| "clashes (x # xs) =
     map (\<lambda>y. (snd x, snd y)) (filter (\<lambda>y. list_all2 compatible (rev (fst x)) (rev (fst y))) xs) @ clashes xs"

lemma route_clashes:
  "clashes (map (\<lambda>r. (path_segs (rt_path r), rt_path r)) routes) =
     [(''/realms/:realm/user-federation/providers/ldap/:instance'',
       ''/realms/:realm/user-federation/providers/:provider/:instance''),
      (''/create/user-federation/:realm/providers/ldap'',
       ''/create/user-federation/:realm/providers/:provider'')]"
  by code_simp

lemma route_paths: "list_all (\<lambda>r. rt_path r = ''/'' \<or> last (path_segs (rt_path r)) \<noteq> Lit [] \<and> 1 < length (path_segs (rt_path r)))
    routes"
  by code_simp

lemma match_compatible:
  "match_segs a ws = Some ps \<Longrightarrow> match_segs b ws = Some qs \<Longrightarrow> list_all2 compatible a b"
proof (induction a arbitrary: b ws ps qs)
  case Nil
  then show ?case by (cases ws; cases b rule: list.exhaust) simp_all
next
  case (Cons s a)
  then obtain w ws' where w: "ws = w # ws'" by (cases s; cases ws) simp_all
  then obtain t b' where t: "b = t # b'" using Cons.prems(2) by (cases b) simp_all
  show ?case using Cons w t by (cases s; cases t) (auto split: if_splits)
qed

lemma clashes_in:
  "i < j \<Longrightarrow> j < length xs \<Longrightarrow> list_all2 compatible (fst (xs ! i)) (fst (xs ! j)) \<Longrightarrow>
     (snd (xs ! i), snd (xs ! j)) \<in> set (clashes xs)"
proof (induction xs arbitrary: i j)
  case (Cons x xs)
  show ?case
  proof (cases i)
    case 0
    then obtain k where k: "j = Suc k" using Cons.prems by (cases j) simp_all
    then have "xs ! k \<in> set (filter (\<lambda>y. list_all2 compatible (rev (fst x)) (rev (fst y))) xs)"
      using Cons.prems 0 by simp
    then show ?thesis using 0 k by auto
  next
    case (Suc i')
    then obtain k where "j = Suc k" using Cons.prems by (cases j) simp_all
    then show ?thesis using Cons Suc by simp
  qed
qed simp

end
