(* ===== verification/Admin_Access.thy ===== *)
theory Admin_Access
  imports Admin_Rest
begin

text \<open>
  What the administrator may see and which realm is shown: the \<open>Current\<close> service of \<open>services.js\<close>,
  and \<open>GlobalCtrl\<close>, \<open>HomeCtrl\<close>, \<open>RealmListCtrl\<close>, \<open>RealmDropdownCtrl\<close> and \<open>RealmCreateCtrl\<close> of
  \<open>controllers/realm.js\<close>, with the part of \<open>RealmDetailCtrl\<close> that keeps \<open>Current\<close> in step.
\<close>

section \<open>The shared state\<close>

record session =
  ss_realms :: "fields list"          \<comment> \<open>\<open>Current.realms\<close>\<close>
  ss_realm :: "fields option"         \<comment> \<open>\<open>Current.realm\<close>\<close>
  ss_user :: jsval                    \<comment> \<open>\<open>Auth.user\<close>\<close>
  ss_loggedIn :: bool

definition realm_name :: "fields \<Rightarrow> jsval" where
  "realm_name r = getf r ''realm''"

text \<open>The loops over \<open>Current.realms\<close>: the last realm of that name, or the one before.\<close>

fun last_named :: "jsval \<Rightarrow> fields list \<Rightarrow> fields option \<Rightarrow> fields option" where
  "last_named n [] cur = cur"
| "last_named n (r # rs) cur = last_named n rs (if realm_name r = n then Some r else cur)"

fun first_named :: "jsval \<Rightarrow> fields list \<Rightarrow> fields option \<Rightarrow> fields option" where
  "first_named n [] cur = cur"
| "first_named n (r # rs) cur = (if n = realm_name r then Some r else first_named n rs cur)"

text \<open>\<open>Current.refresh\<close> and the answer to its query; \<open>param\<close> is the realm of the current route.\<close>

definition current_refresh :: "session \<Rightarrow> session \<times> ceffect list" where
  "current_refresh s = (s\<lparr>ss_realm := None, ss_realms := []\<rparr>, [Ask (Rest ''Realm'' ''query'' [] Undefined)])"

definition current_loaded :: "jsval \<Rightarrow> fields list \<Rightarrow> session \<Rightarrow> session" where
  "current_loaded param realms s =
     (let s' = s\<lparr>ss_realms := realms\<rparr>
      in if truthy param then s'\<lparr>ss_realm := last_named param realms (ss_realm s')\<rparr> else s')"

text \<open>
  \<open>RealmDetailCtrl\<close>, when it opens an existing realm: two loops over the realms that are known.
\<close>

definition detail_current :: "fields \<Rightarrow> session \<Rightarrow> session" where
  "detail_current realm s =
     (let cur = (case ss_realm s of
                   None \<Rightarrow> first_named (realm_name realm) (ss_realms s) None
                 | Some c \<Rightarrow> if realm_name c \<noteq> realm_name realm
                            then first_named (realm_name realm) (ss_realms s) (Some c) else Some c)
      in s\<lparr>ss_realm := last_named (realm_name realm) (ss_realms s) cur\<rparr>)"

section \<open>\<open>GlobalCtrl\<close>\<close>

definition whoami_loaded :: "jsval \<Rightarrow> session \<Rightarrow> session" where
  "whoami_loaded data s = s\<lparr>ss_user := data, ss_loggedIn := True\<rparr>"

text \<open>\<open>xs.indexOf(role) >= 0\<close>, on an array or a string.\<close>

definition index_of_role :: "jsval \<Rightarrow> string \<Rightarrow> js_error + bool" where
  "index_of_role v role =
     (case v of
        Arr xs \<Rightarrow> Inr (Str role \<in> set xs)
      | Str s \<Rightarrow> Inr (0 \<le> js_indexOf role s)
      | _ \<Rightarrow> Inl TypeError)"

definition getAccess :: "conv \<Rightarrow> session \<Rightarrow> string \<Rightarrow> js_error + bool" where
  "getAccess cv s role =
     (case ss_realm s of
        None \<Rightarrow> Inr False
      | Some realm \<Rightarrow>
          (case (if truthy (ss_user s) then getp (ss_user s) ''realm_access'' else Inr (ss_user s)) of
             Inl e \<Rightarrow> Inl e
           | Inr access \<Rightarrow>
               if truthy access then
                 (case getp access (str cv (realm_name realm)) of
                    Inl e \<Rightarrow> Inl e
                  | Inr roles \<Rightarrow> if truthy roles then index_of_role roles role else Inr False)
               else Inr False))"

definition either :: "js_error + bool \<Rightarrow> js_error + bool \<Rightarrow> js_error + bool" where
  "either a b = (case a of Inl e \<Rightarrow> Inl e | Inr x \<Rightarrow> if x then Inr True else b)"

definition createRealm :: "session \<Rightarrow> js_error + jsval" where
  "createRealm s = (if truthy (ss_user s) then getp (ss_user s) ''createRealm'' else Inr (ss_user s))"

definition manageRealm :: "conv \<Rightarrow> session \<Rightarrow> js_error + bool" where
  "manageRealm cv s = getAccess cv s ''manage-realm''"

definition manageApplications :: "conv \<Rightarrow> session \<Rightarrow> js_error + bool" where
  "manageApplications cv s = getAccess cv s ''manage-applications''"

definition manageClients :: "conv \<Rightarrow> session \<Rightarrow> js_error + bool" where
  "manageClients cv s = getAccess cv s ''manage-clients''"

definition manageUsers :: "conv \<Rightarrow> session \<Rightarrow> js_error + bool" where
  "manageUsers cv s = getAccess cv s ''manage-users''"

definition manageEvents :: "conv \<Rightarrow> session \<Rightarrow> js_error + bool" where
  "manageEvents cv s = getAccess cv s ''manage-events''"

definition viewRealm :: "conv \<Rightarrow> session \<Rightarrow> js_error + bool" where
  "viewRealm cv s = either (getAccess cv s ''view-realm'') (manageRealm cv s)"

definition viewApplications :: "conv \<Rightarrow> session \<Rightarrow> js_error + bool" where
  "viewApplications cv s = either (getAccess cv s ''view-applications'') (manageApplications cv s)"

definition viewClients :: "conv \<Rightarrow> session \<Rightarrow> js_error + bool" where
  "viewClients cv s = either (getAccess cv s ''view-clients'') (manageClients cv s)"

definition viewUsers :: "conv \<Rightarrow> session \<Rightarrow> js_error + bool" where
  "viewUsers cv s = either (getAccess cv s ''view-users'') (manageClients cv s)"

definition viewEvents :: "conv \<Rightarrow> session \<Rightarrow> js_error + bool" where
  "viewEvents cv s = either (getAccess cv s ''view-events'') (manageClients cv s)"

text \<open>\<open>$location.path().substring(1).split("/")\<close>, kept in \<open>$scope.path\<close> by several controllers.\<close>

definition scope_path :: "string \<Rightarrow> string list" where
  "scope_path path = js_split (CHR ''/'') (drop 1 path)"

section \<open>\<open>HomeCtrl\<close>, \<open>RealmListCtrl\<close>, \<open>RealmDropdownCtrl\<close>\<close>

definition HomeCtrl :: "ceffect list" where
  "HomeCtrl = [Ask (Rest ''Realm'' ''query'' [] Undefined)]"

text \<open>With two realms the one that is not the user's own; reading that of a user not known yet is a \<open>TypeError\<close>.\<close>

definition home_realm :: "session \<Rightarrow> fields list \<Rightarrow> js_error + jsval" where
  "home_realm s realms =
     (case realms of
        [r] \<Rightarrow> Inr (realm_name r)
      | [r1, r2] \<Rightarrow>
          (case getp (ss_user s) ''realm'' of
             Inl e \<Rightarrow> Inl e
           | Inr own \<Rightarrow> if realm_name r1 = own then Inr (realm_name r2)
                        else if realm_name r2 = own then Inr (realm_name r1) else Inr Undefined)
      | _ \<Rightarrow> Inr Undefined)"

definition home_loaded :: "conv \<Rightarrow> session \<Rightarrow> fields list \<Rightarrow> js_error + ceffect list" where
  "home_loaded cv s realms =
     (case home_realm s realms of
        Inl e \<Rightarrow> Inl e
      | Inr realm \<Rightarrow> if truthy realm then Inr [GoTo (''/realms/'' @ str cv realm)] else Inr [GoTo ''/realms''])"

text \<open>\<open>Current.realms\<close> is the array the query returns at once and fills when the answer comes.\<close>

definition RealmListCtrl :: "session \<Rightarrow> session \<times> ceffect list" where
  "RealmListCtrl s = (s\<lparr>ss_realms := []\<rparr>, [Ask (Rest ''Realm'' ''query'' [] Undefined)])"

definition realm_list_loaded :: "fields list \<Rightarrow> session \<Rightarrow> session" where
  "realm_list_loaded realms s = s\<lparr>ss_realms := realms\<rparr>"

definition changeRealm :: "string \<Rightarrow> ceffect list" where
  "changeRealm selectedRealm = [GoTo (''/realms/'' @ selectedRealm)]"

definition showNav :: "session \<Rightarrow> bool" where
  "showNav s \<longleftrightarrow> ss_loggedIn s \<and> ss_realms s \<noteq> []"

section \<open>\<open>RealmCreateCtrl\<close>\<close>

text \<open>\<open>files\<close> is \<open>None\<close> after \<open>clearFileSelect\<close>; \<open>uploadFile\<close> sends every selected file.\<close>

record realm_create =
  rc_form :: form
  rc_files :: "jsval list option"

definition RealmCreateCtrl :: "session \<Rightarrow> session \<times> realm_create" where
  "RealmCreateCtrl s =
     (s\<lparr>ss_realm := None\<rparr>,
      \<lparr>rc_form = \<lparr>fm_scope = [(''enabled'', Bool True)], fm_old = [(''enabled'', Bool True)], fm_changed = False\<rparr>,
       rc_files = Some []\<rparr>)"

definition onFileSelect :: "jsval list \<Rightarrow> realm_create \<Rightarrow> realm_create" where
  "onFileSelect fs c = c\<lparr>rc_files := Some fs\<rparr>"

definition clearFileSelect :: "realm_create \<Rightarrow> realm_create" where
  "clearFileSelect c = c\<lparr>rc_files := None\<rparr>"

definition uploadFile :: "string \<Rightarrow> realm_create \<Rightarrow> js_error + ceffect list" where
  "uploadFile auth c =
     (case rc_files c of
        None \<Rightarrow> Inl TypeError
      | Some fs \<Rightarrow> Inr (map (\<lambda>f. Ask (Http ''POST'' (auth @ ''/admin/realms'') f)) fs))"

definition upload_failed :: "ceffect list" where
  "upload_failed = [Failure ''The realm can not be uploaded. Please verify the file.'']"

text \<open>
  After an upload, and after \<open>save\<close>, the realms and the user are asked for again; \<open>lastIndexOf\<close> of the
  slash in the location of the new realm cuts off its name.
\<close>

definition after_last_slash :: "string \<Rightarrow> string" where
  "after_last_slash l = rev (takeWhile (\<lambda>c. c \<noteq> CHR ''/'') (rev l))"

definition upload_done :: "ceffect list" where
  "upload_done = [Ask (Rest ''Realm'' ''query'' [] Undefined)]"

definition realms_then_whoami :: "fields list \<Rightarrow> session \<Rightarrow> session \<times> ceffect list" where
  "realms_then_whoami data s = (s\<lparr>ss_realms := data\<rparr>, [Ask (Rest ''WhoAmI'' ''get'' [] Undefined)])"

definition upload_whoami :: "string option \<Rightarrow> jsval \<Rightarrow> session \<Rightarrow> session \<times> ceffect list" where
  "upload_whoami location user s =
     (s\<lparr>ss_user := user\<rparr>,
      [Success ''The realm has been uploaded.'',
       if truthy_str location then GoTo (''/realms/'' @ after_last_slash (the location)) else GoTo ''/realms''])"

definition create_save :: "realm_create \<Rightarrow> ceffect list" where
  "create_save c = [Ask (Rest ''Realm'' ''create'' [] (Obj (fm_scope (rc_form c))))]"

definition create_saved :: "ceffect list" where
  "create_saved = [Ask (Rest ''Realm'' ''query'' [] Undefined)]"

definition create_whoami :: "string \<Rightarrow> jsval \<Rightarrow> session \<Rightarrow> session \<times> ceffect list" where
  "create_whoami realm user s =
     (s\<lparr>ss_user := user\<rparr>, [GoTo (''/realms/'' @ realm), Success ''The realm has been created.''])"

section \<open>What is granted\<close>

definition granted :: "session \<Rightarrow> string \<Rightarrow> bool" where
  "granted s role \<longleftrightarrow> (\<exists>realm n access roles.
     ss_realm s = Some realm \<and> realm_name realm = Str n \<and> getp (ss_user s) ''realm_access'' = Inr (Obj access)
     \<and> getf access n = Arr roles \<and> Str role \<in> set roles)"

text \<open>The user as the server describes it: for each realm a list of roles.\<close>

definition user_ok :: "jsval \<Rightarrow> bool" where
  "user_ok u \<longleftrightarrow> \<not> truthy u \<or> (\<exists>fs access. u = Obj fs \<and> getf fs ''realm_access'' = Obj access
     \<and> (\<forall>n. getf access n = Undefined \<or> (\<exists>rs. getf access n = Arr rs)))"

definition current_ok :: "session \<Rightarrow> bool" where
  "current_ok s \<longleftrightarrow> (\<forall>r. ss_realm s = Some r \<longrightarrow> (\<exists>n. realm_name r = Str n))"

lemma getAccess_granted:
  assumes "user_ok (ss_user s)" and "current_ok s"
  shows "getAccess cv s role = Inr (granted s role)"
proof (cases "ss_realm s")
  case None
  then show ?thesis by (simp add: getAccess_def granted_def)
next
  case (Some realm)
  then obtain n where n: "realm_name realm = Str n" using assms(2) by (auto simp: current_ok_def)
  show ?thesis
  proof (cases "truthy (ss_user s)")
    case False
    then have "\<not> (\<exists>access. getp (ss_user s) ''realm_access'' = Inr (Obj access))" by (cases "ss_user s") auto
    then show ?thesis using Some False by (simp add: getAccess_def granted_def)
  next
    case True
    then obtain fs access where u: "ss_user s = Obj fs" "getf fs ''realm_access'' = Obj access"
      "getf access n = Undefined \<or> (\<exists>rs. getf access n = Arr rs)"
      using assms(1) by (auto simp: user_ok_def)
    then show ?thesis
      using Some n True by (auto simp: getAccess_def granted_def getp_Obj index_of_role_def simp del: getp.simps)
  qed
qed

text \<open>C30. Each right is granted exactly by the roles of the user in the realm that is shown: managing by the
  managing role of its kind alone, a view by its own role or by the managing role of the same kind, except that the
  users and the events can be seen by who manages clients, and not by who only manages users or events.\<close>

theorem access_granted:
  assumes "user_ok (ss_user s)" and "current_ok s"
  shows "viewRealm cv s = Inr (granted s ''view-realm'' \<or> granted s ''manage-realm'')
    \<and> viewApplications cv s = Inr (granted s ''view-applications'' \<or> granted s ''manage-applications'')
    \<and> viewClients cv s = Inr (granted s ''view-clients'' \<or> granted s ''manage-clients'')
    \<and> viewUsers cv s = Inr (granted s ''view-users'' \<or> granted s ''manage-clients'')
    \<and> viewEvents cv s = Inr (granted s ''view-events'' \<or> granted s ''manage-clients'')
    \<and> manageRealm cv s = Inr (granted s ''manage-realm'')
    \<and> manageApplications cv s = Inr (granted s ''manage-applications'')
    \<and> manageClients cv s = Inr (granted s ''manage-clients'')
    \<and> manageUsers cv s = Inr (granted s ''manage-users'')
    \<and> manageEvents cv s = Inr (granted s ''manage-events'')"
  using getAccess_granted [OF assms]
  by (simp add: viewRealm_def viewApplications_def viewClients_def viewUsers_def viewEvents_def manageRealm_def
    manageApplications_def manageClients_def manageUsers_def manageEvents_def either_def)

definition users_admin :: session where
  "users_admin = \<lparr>ss_realms = [[(''realm'', Str ''demo'')]], ss_realm = Some [(''realm'', Str ''demo'')],
     ss_user = Obj [(''realm_access'', Obj [(''demo'', Arr [Str ''manage-users''])])], ss_loggedIn = True\<rparr>"

theorem access_granted_witness:
  "manageUsers \<lparr>to_number = (\<lambda>s. None), to_string = (\<lambda>r. [])\<rparr> users_admin = Inr True
    \<and> viewUsers \<lparr>to_number = (\<lambda>s. None), to_string = (\<lambda>r. [])\<rparr> users_admin = Inr False"
proof -
  have "user_ok (ss_user users_admin)" by (simp add: user_ok_def users_admin_def)
  moreover have "current_ok users_admin" by (simp add: current_ok_def users_admin_def realm_name_def)
  moreover have "granted users_admin ''manage-users''" "\<not> granted users_admin ''view-users''"
    "\<not> granted users_admin ''manage-clients''"
    by (simp_all add: granted_def users_admin_def realm_name_def getp_Obj)
  ultimately show ?thesis
    using access_granted [of users_admin "\<lparr>to_number = (\<lambda>s. None), to_string = (\<lambda>r. [])\<rparr>"] by simp
qed

end
