(* ===== verification/Admin_Policy.thy ===== *)
theory Admin_Policy
  imports Admin_Rest
begin

text \<open>
  Password policies: the \<open>PasswordPolicy\<close> service of \<open>services.js\<close>, which reads and writes the policy
  string of a realm, and \<open>RealmRequiredCredentialsCtrl\<close> of \<open>controllers/realm.js\<close>, the form that
  edits the policy beside the realm.
\<close>

section \<open>Reading and writing a policy string\<close>

text \<open>\<open>s.split(sep)\<close> for a separator that is not empty.\<close>

function split_str :: "string \<Rightarrow> string \<Rightarrow> string list" where
  "split_str sep [] = [[]]"
| "split_str sep (c # cs) =
     (if take (length sep) (c # cs) = sep then [] # split_str sep (drop (length sep - 1) cs)
      else (case split_str sep cs of [] \<Rightarrow> [[c]] | w # ws \<Rightarrow> (c # w) # ws))"
  by pat_completeness auto
termination by (relation "measure (\<lambda>(sep, s). length s)") auto

definition digit :: "char \<Rightarrow> bool" where
  "digit c \<longleftrightarrow> 48 \<le> byte c \<and> byte c \<le> 57"

text \<open>
  \<open>/(\w+)\(*(\d*)\)*/.exec(s)\<close>: the first word, and the digits behind the parentheses that follow it;
  \<open>None\<close> when there is no word character.
\<close>

definition policy_entry :: "string \<Rightarrow> (string \<times> string) option" where
  "policy_entry s =
     (let t = dropWhile (\<lambda>c. \<not> word_char c) s
      in if t = [] then None
         else Some (takeWhile word_char t,
                    takeWhile digit (dropWhile (\<lambda>c. c = CHR ''('') (dropWhile word_char t))))"

text \<open>\<open>parseInt\<close> of a string of digits.\<close>

fun digits_value :: "nat \<Rightarrow> string \<Rightarrow> nat" where
  "digits_value n [] = n"
| "digits_value n (c # cs) = digits_value (10 * n + (byte c - 48)) cs"

definition parseInt_digits :: "string \<Rightarrow> jsval" where
  "parseInt_digits s = (if s = [] then NaN else Num (of_nat (digits_value 0 s)))"

type_synonym policy = "(string \<times> jsval) list"

fun parse_tokens :: "string list \<Rightarrow> js_error + policy" where
  "parse_tokens [] = Inr []"
| "parse_tokens (t # ts) =
     (case policy_entry t of
        None \<Rightarrow> Inl TypeError
      | Some (name, ds) \<Rightarrow>
          (case parse_tokens ts of Inl e \<Rightarrow> Inl e | Inr ps \<Rightarrow> Inr ((name, parseInt_digits ds) # ps)))"

definition parse_policy :: "jsval \<Rightarrow> js_error + policy" where
  "parse_policy v =
     (case v of
        Str s \<Rightarrow> if s = [] then Inr [] else parse_tokens (split_str '' and '' s)
      | _ \<Rightarrow> if truthy v then Inl TypeError else Inr [])"

text \<open>\<open>toString\<close>: the last separator is cut off; an empty policy is \<open>null\<close>.\<close>

definition entry_string :: "conv \<Rightarrow> string \<times> jsval \<Rightarrow> string" where
  "entry_string cv e = fst e @ (if truthy (snd e) then ''('' @ str cv (snd e) @ '')'' else [])"

definition policy_string :: "conv \<Rightarrow> policy \<Rightarrow> jsval" where
  "policy_string cv ps =
     (if ps = [] then Null
      else (let s = concat (map (\<lambda>e. entry_string cv e @ '' and '') ps) in Str (take (length s - 5) s)))"

definition allPolicies :: policy where
  "allPolicies = [(''hashIterations'', Num 1), (''length'', Num 8), (''digits'', Num 1),
     (''lowerCase'', Num 1), (''upperCase'', Num 1), (''specialChars'', Num 1)]"

definition policyMessages :: "(string \<times> string) list" where
  "policyMessages = [
     (''hashIterations'', ''Number of hashing iterations.  Default is 1.  Recommended is 50000.''),
     (''length'', ''Minimal password length (integer type). Default value is 8.''),
     (''digits'', ''Minimal number (integer type) of digits in password. Default value is 1.''),
     (''lowerCase'', ''Minimal number (integer type) of lowercase characters in password. Default value is 1.''),
     (''upperCase'', ''Minimal number (integer type) of uppercase characters in password. Default value is 1.''),
     (''specialChars'', ''Minimal number (integer type) of special characters in password. Default value is 1.'')]"

section \<open>Decimal numbers\<close>

fun decimal :: "nat \<Rightarrow> string" where
  "decimal n = (if n < 10 then [hexd n] else decimal (n div 10) @ [hexd (n mod 10)])"

declare decimal.simps [simp del]

lemma byte_hexd: "n < 10 \<Longrightarrow> byte (hexd n) = 48 + n"
proof -
  assume "n < 10"
  then have "n \<in> set [0..<10]" by simp
  then show ?thesis by (auto simp: hexd_def upt_rec)
qed

lemma digits_value_append: "digits_value n (s @ t) = digits_value (digits_value n s) t"
  by (induction s arbitrary: n) simp_all

lemma digits_value_decimal: "digits_value 0 (decimal n) = n"
proof (induction n rule: decimal.induct)
  case (1 n)
  show ?case
  proof (cases "n < 10")
    case True
    then show ?thesis by (subst decimal.simps) (simp add: byte_hexd)
  next
    case False
    then show ?thesis using 1 by (subst decimal.simps) (simp add: digits_value_append byte_hexd)
  qed
qed

lemma decimal_not_Nil [simp]: "decimal n \<noteq> []"
  by (subst decimal.simps) simp

lemma decimal_digits: "c \<in> set (decimal n) \<Longrightarrow> digit c"
proof (induction n rule: decimal.induct)
  case (1 n)
  show ?case
  proof (cases "n < 10")
    case True
    then show ?thesis using "1.prems" by (subst (asm) decimal.simps) (simp add: digit_def byte_hexd)
  next
    case False
    then have "c \<in> set (decimal (n div 10)) \<or> c = hexd (n mod 10)"
      using "1.prems" by (subst (asm) decimal.simps) auto
    moreover have "byte (hexd (n mod 10)) = 48 + n mod 10" by (simp add: byte_hexd)
    ultimately show ?thesis using "1.IH" False by (auto simp: digit_def)
  qed
qed

section \<open>Reading back what was written\<close>

text \<open>A name is a word; a value is missing, or a positive whole number.\<close>

definition entry_ok :: "string \<times> jsval \<Rightarrow> bool" where
  "entry_ok e \<longleftrightarrow> fst e \<noteq> [] \<and> (\<forall>c \<in> set (fst e). word_char c)
     \<and> (snd e = NaN \<or> (\<exists>n. 0 < n \<and> snd e = Num (of_nat n)))"

definition decimal_conv :: "conv \<Rightarrow> bool" where
  "decimal_conv cv \<longleftrightarrow> (\<forall>n. to_string cv (of_nat n) = decimal n)"

definition entry_text :: "string \<times> jsval \<Rightarrow> string" where
  "entry_text e = fst e @ (case snd e of Num r \<Rightarrow> ''('' @ decimal (nat \<lfloor>r\<rfloor>) @ '')'' | _ \<Rightarrow> [])"

lemma entry_string_ok: "decimal_conv cv \<Longrightarrow> entry_ok e \<Longrightarrow> entry_string cv e = entry_text e"
  by (auto simp: entry_string_def entry_text_def entry_ok_def str_def decimal_conv_def)

lemma takeWhile_word: "(\<forall>c \<in> set w. word_char c) \<Longrightarrow> takeWhile word_char (w @ t) = w @ takeWhile word_char t"
  by (simp add: takeWhile_append)

lemma word_special: "\<not> word_char (CHR ''('')" "\<not> word_char (CHR '')'')" "\<not> word_char (CHR '' '')"
  "\<not> digit (CHR '')'')" "\<not> digit (CHR ''('')"
  by (simp_all add: word_char_def digit_def)

lemma takeWhile_digits: "(\<forall>c \<in> set w. digit c) \<Longrightarrow> takeWhile digit (w @ CHR '')'' # t) = w"
  by (simp add: takeWhile_append word_special)

lemma policy_entry_text:
  assumes "entry_ok e"
  shows "\<exists>ds. policy_entry (entry_text e) = Some (fst e, ds) \<and> parseInt_digits ds = snd e"
proof -
  obtain c cs where n: "fst e = c # cs" "word_char c" "\<forall>d \<in> set cs. word_char d"
    using assms by (cases "fst e") (auto simp: entry_ok_def)
  have drop: "dropWhile (\<lambda>c. \<not> word_char c) (fst e @ t) = fst e @ t" for t using n by simp
  consider "snd e = NaN" | k where "0 < k" "snd e = Num (of_nat k)" using assms by (auto simp: entry_ok_def)
  then show ?thesis
  proof cases
    case 1
    have "dropWhile word_char cs = []" "takeWhile word_char cs = cs" using n(3) by (simp_all add: takeWhile_eq_all_conv)
    then have "policy_entry (fst e) = Some (fst e, [])"
      using n(2) by (simp only: n(1) policy_entry_def Let_def dropWhile.simps takeWhile.simps if_False if_True
        not_True_eq_False list.distinct simp_thms list.simps)
    then show ?thesis
      using 1 by (simp add: entry_text_def parseInt_digits_def)
  next
    case (2 k)
    have t: "entry_text e = fst e @ CHR ''('' # decimal k @ '')''" using 2 by (simp add: entry_text_def)
    have word: "\<forall>d \<in> set (fst e). word_char d" using n by simp
    have "takeWhile word_char (entry_text e) = fst e"
      "dropWhile word_char (entry_text e) = CHR ''('' # decimal k @ '')''"
      using word by (simp_all add: t takeWhile_append dropWhile_append word_special)
    moreover have "dropWhile (\<lambda>c. c = CHR ''('') (CHR ''('' # decimal k @ '')'') = decimal k @ '')''"
    proof (cases "decimal k")
      case (Cons d ds)
      then have "d \<noteq> CHR ''(''" using decimal_digits [of d k] word_special(5) by auto
      then show ?thesis using Cons by simp
    qed simp
    moreover have "takeWhile digit (decimal k @ '')'') = decimal k"
      using decimal_digits takeWhile_digits [of "decimal k" "[]"] by simp
    ultimately have "policy_entry (entry_text e) = Some (fst e, decimal k)"
      using drop [of "CHR ''('' # decimal k @ '')''"] n(1) by (simp add: policy_entry_def Let_def t)
    then show ?thesis using 2 by (simp add: parseInt_digits_def digits_value_decimal)
  qed
qed

lemma split_str_sep:
  assumes "sep = c # sep'" and "c \<notin> set w"
  shows "split_str sep (w @ sep @ t) = w # split_str sep t"
  using assms(2)
proof (induction w)
  case Nil
  then show ?case using assms(1) by simp
next
  case (Cons d w)
  then show ?case using assms(1) by auto
qed

lemma split_str_last: "c \<notin> set w \<Longrightarrow> split_str (c # sep') w = [w]"
proof (induction w)
  case (Cons d w)
  then show ?case by auto
qed simp

lemma entry_text_no_space: "entry_ok e \<Longrightarrow> CHR '' '' \<notin> set (entry_text e)"
proof -
  have "\<not> digit (CHR '' '')" by (simp add: digit_def)
  then show "entry_ok e \<Longrightarrow> ?thesis"
    using word_special(3) decimal_digits [of "CHR '' ''"] by (auto simp: entry_ok_def entry_text_def)
qed

text \<open>The string without the last separator: the entries joined by it.\<close>

fun join_entries :: "policy \<Rightarrow> string" where
  "join_entries [] = []"
| "join_entries [e] = entry_text e"
| "join_entries (e # f # es) = entry_text e @ '' and '' @ join_entries (f # es)"

lemma join_entries_cut: "ps \<noteq> [] \<Longrightarrow> concat (map (\<lambda>e. entry_text e @ '' and '') ps) = join_entries ps @ '' and ''"
  by (induction ps rule: join_entries.induct) simp_all

lemma policy_string_join:
  assumes "decimal_conv cv" and "\<forall>e \<in> set ps. entry_ok e" and "ps \<noteq> []"
  shows "policy_string cv ps = Str (join_entries ps)"
proof -
  have "map (\<lambda>e. entry_string cv e @ '' and '') ps = map (\<lambda>e. entry_text e @ '' and '') ps"
    using assms(1,2) by (simp add: entry_string_ok)
  then have "concat (map (\<lambda>e. entry_string cv e @ '' and '') ps) = join_entries ps @ '' and ''"
    using join_entries_cut [OF assms(3)] by (simp only:)
  then show ?thesis using assms(3) by (simp add: policy_string_def Let_def)
qed

lemma parse_join:
  "\<forall>e \<in> set ps. entry_ok e \<Longrightarrow> ps \<noteq> [] \<Longrightarrow> parse_tokens (split_str '' and '' (join_entries ps)) = Inr ps"
proof (induction ps rule: join_entries.induct)
  case (2 e)
  obtain ds where "policy_entry (entry_text e) = Some (fst e, ds)" "parseInt_digits ds = snd e"
    using policy_entry_text [of e] 2 by auto
  then show ?case using entry_text_no_space [of e] 2 by (simp add: split_str_last)
next
  case (3 e f es)
  obtain ds where "policy_entry (entry_text e) = Some (fst e, ds)" "parseInt_digits ds = snd e"
    using policy_entry_text [of e] 3 by auto
  moreover have "split_str '' and '' (entry_text e @ '' and '' @ join_entries (f # es))
      = entry_text e # split_str '' and '' (join_entries (f # es))"
    using entry_text_no_space [of e] 3 by (intro split_str_sep) simp_all
  ultimately show ?case using 3 by simp
qed simp

lemma join_entries_not_Nil: "ps \<noteq> [] \<Longrightarrow> \<forall>e \<in> set ps. entry_ok e \<Longrightarrow> join_entries ps \<noteq> []"
  by (cases ps rule: join_entries.cases) (auto simp: entry_ok_def entry_text_def)

text \<open>C27. A policy written as a string reads back as it was, for policies whose names are words and whose
  values are missing or positive whole numbers.\<close>

theorem policy_roundtrip:
  assumes "\<forall>e \<in> set ps. entry_ok e" and "decimal_conv cv"
  shows "parse_policy (policy_string cv ps) = Inr ps"
proof (cases "ps = []")
  case True
  then show ?thesis by (simp add: policy_string_def parse_policy_def)
next
  case False
  then show ?thesis
    using policy_string_join [OF assms(2,1) False] parse_join [OF assms(1) False]
      join_entries_not_Nil [OF False assms(1)] by (simp add: parse_policy_def)
qed

section \<open>\<open>RealmRequiredCredentialsCtrl\<close>\<close>

text \<open>
  The realm is edited as in the other forms; the policy is a list beside it that has its own copy and
  its own deep watch, which writes the policy string into the realm.
\<close>

record credentials =
  cr_form :: form
  cr_policy :: policy
  cr_oldPolicy :: policy

definition policy_val :: "policy \<Rightarrow> jsval" where
  "policy_val ps = Arr (map (\<lambda>(n, v). Obj [(''name'', Str n), (''value'', v)]) ps)"

definition RealmRequiredCredentialsCtrl :: "fields \<Rightarrow> js_error + credentials" where
  "RealmRequiredCredentialsCtrl realm =
     (case parse_policy (getf realm ''passwordPolicy'') of
        Inl e \<Rightarrow> Inl e
      | Inr ps \<Rightarrow> Inr \<lparr>cr_form = \<lparr>fm_scope = realm, fm_old = realm, fm_changed = False\<rparr>,
          cr_policy = ps, cr_oldPolicy = ps\<rparr>)"

definition watch_policy :: "conv \<Rightarrow> credentials \<Rightarrow> credentials" where
  "watch_policy cv c =
     (if \<not> equals (policy_val (cr_policy c)) (policy_val (cr_oldPolicy c))
      then c\<lparr>cr_form := (cr_form c)\<lparr>
          fm_scope := setf ''passwordPolicy'' (policy_string cv (cr_policy c)) (fm_scope (cr_form c)),
          fm_changed := True\<rparr>\<rparr>
      else c)"

text \<open>
  An edit of the list and the digest after it: the watch on the list runs when the list differs
  from what it was at the last digest, then the watch on the realm.
\<close>

definition edit_policy :: "conv \<Rightarrow> policy \<Rightarrow> credentials \<Rightarrow> credentials" where
  "edit_policy cv ps c =
     (let c' = (if \<not> equals (policy_val ps) (policy_val (cr_policy c)) then watch_policy cv (c\<lparr>cr_policy := ps\<rparr>)
                else c\<lparr>cr_policy := ps\<rparr>)
      in c'\<lparr>cr_form := watch_scope (cr_form c')\<rparr>)"

definition edit_credentials :: "fields \<Rightarrow> credentials \<Rightarrow> credentials" where
  "edit_credentials r c = c\<lparr>cr_form := edit_form r (cr_form c)\<rparr>"

definition addPolicy :: "conv \<Rightarrow> string \<times> jsval \<Rightarrow> credentials \<Rightarrow> credentials" where
  "addPolicy cv e c = edit_policy cv (cr_policy c @ [e]) c"

definition removePolicy :: "conv \<Rightarrow> nat \<Rightarrow> credentials \<Rightarrow> credentials" where
  "removePolicy cv i c = edit_policy cv (take i (cr_policy c) @ drop (Suc i) (cr_policy c)) c"

definition save_credentials :: "credentials \<Rightarrow> credentials \<times> ceffect list" where
  "save_credentials c =
     (c\<lparr>cr_form := (cr_form c)\<lparr>fm_changed := False\<rparr>\<rparr>,
      [Ask (Rest ''Realm'' ''update'' [] (Obj (fm_scope (cr_form c))))])"

definition credentials_saved :: "string \<Rightarrow> credentials \<Rightarrow> credentials \<times> ceffect list" where
  "credentials_saved realm c =
     (c\<lparr>cr_form := (cr_form c)\<lparr>fm_old := fm_scope (cr_form c)\<rparr>, cr_oldPolicy := cr_policy c\<rparr>,
      [GoTo (''/realms/'' @ realm @ ''/required-credentials''),
       Success ''Your changes have been saved to the realm.''])"

definition reset_credentials :: "credentials \<Rightarrow> credentials" where
  "reset_credentials c = c\<lparr>cr_form := reset_form (cr_form c), cr_policy := cr_oldPolicy c\<rparr>"

definition policy_ok :: "policy \<Rightarrow> bool" where
  "policy_ok ps \<longleftrightarrow> (\<forall>e \<in> set ps. distinct_fields (snd e))"

lemma equals_policy_refl: "policy_ok ps \<Longrightarrow> equals (policy_val ps) (policy_val ps)"
  by (rule equals_refl) (auto simp: policy_val_def policy_ok_def list_all_iff)

text \<open>What is saved is not always what the form shows: when the policy is changed and then changed back
  to what it was when the form was opened, the form shows that policy, but the realm keeps the
  string of the one in between, and saving sends it.\<close>

theorem policy_stale:
  assumes "RealmRequiredCredentialsCtrl realm = Inr c" and "policy_ok (cr_policy c)"
    and "\<not> equals (policy_val ps) (policy_val (cr_policy c))"
    and "\<not> equals (policy_val (cr_policy c)) (policy_val ps)"
  shows "\<exists>c2 b. c2 = edit_policy cv (cr_policy c) (edit_policy cv ps c)
    \<and> cr_policy c2 = cr_policy c \<and> fm_changed (cr_form c2)
    \<and> snd (save_credentials c2) = [Ask (Rest ''Realm'' ''update'' [] (Obj b))]
    \<and> getf b ''passwordPolicy'' = policy_string cv ps"
proof -
  have c: "cr_oldPolicy c = cr_policy c"
    using assms(1) by (auto simp: RealmRequiredCredentialsCtrl_def split: sum.splits)
  then show ?thesis
    using assms(3,4) equals_policy_refl [OF assms(2)]
    by (simp add: edit_policy_def watch_policy_def save_credentials_def Let_def)
qed

theorem policy_stale_witness:
  "\<exists>b. snd (save_credentials (edit_policy \<lparr>to_number = (\<lambda>s. None), to_string = (\<lambda>r. decimal (nat \<lfloor>r\<rfloor>))\<rparr> []
         (edit_policy \<lparr>to_number = (\<lambda>s. None), to_string = (\<lambda>r. decimal (nat \<lfloor>r\<rfloor>))\<rparr> [(''length'', Num 8)]
           \<lparr>cr_form = \<lparr>fm_scope = [(''realm'', Str ''demo'')], fm_old = [(''realm'', Str ''demo'')],
              fm_changed = False\<rparr>, cr_policy = [], cr_oldPolicy = []\<rparr>)))
       = [Ask (Rest ''Realm'' ''update'' [] (Obj b))]
     \<and> getf b ''passwordPolicy'' = Str ''length(8)''"
proof -
  let ?cv = "\<lparr>to_number = (\<lambda>s. None), to_string = (\<lambda>r. decimal (nat \<lfloor>r\<rfloor>))\<rparr>"
  have "RealmRequiredCredentialsCtrl [(''realm'', Str ''demo'')] =
      Inr \<lparr>cr_form = \<lparr>fm_scope = [(''realm'', Str ''demo'')], fm_old = [(''realm'', Str ''demo'')],
              fm_changed = False\<rparr>, cr_policy = [], cr_oldPolicy = []\<rparr>"
    by (simp add: RealmRequiredCredentialsCtrl_def parse_policy_def)
  moreover have "policy_string ?cv [(''length'', Num 8)] = Str ''length(8)''"
    by (simp add: policy_string_def entry_string_def str_def decimal.simps hexd_def)
  ultimately show ?thesis
    using policy_stale [of "[(''realm'', Str ''demo'')]" _ "[(''length'', Num 8)]" ?cv]
    by (simp add: policy_ok_def policy_val_def)
qed

theorem policy_roundtrip_witness:
  "parse_policy (Str ''hashIterations(50) and digits'') = Inr [(''hashIterations'', Num 50), (''digits'', NaN)]"
proof -
  let ?cv = "\<lparr>to_number = (\<lambda>s. None), to_string = (\<lambda>r. decimal (nat \<lfloor>r\<rfloor>))\<rparr>"
  let ?ps = "[(''hashIterations'', Num 50), (''digits'', NaN)]"
  have "decimal_conv ?cv" by (simp add: decimal_conv_def)
  moreover have "\<exists>n. 0 < n \<and> (50::rat) = of_nat n" by (rule exI [of _ 50]) simp
  then have "\<forall>e \<in> set ?ps. entry_ok e" by (simp add: entry_ok_def word_char_def)
  moreover have "policy_string ?cv ?ps = Str ''hashIterations(50) and digits''"
    by (simp add: policy_string_def entry_string_def str_def decimal.simps hexd_def)
  ultimately show ?thesis using policy_roundtrip [of ?ps ?cv] by simp
qed

end
