(* ===== verification/Admin_Pager.thy ===== *)
theory Admin_Pager
  imports Admin_Policy
begin

text \<open>
  The paged lists of the console: the users of a realm (\<open>UserListCtrl\<close>), its events
  (\<open>RealmEventsCtrl\<close>) and the sessions of an application (\<open>ApplicationSessionsCtrl\<close>).  Each keeps a
  query with the offset \<open>first\<close> and the size \<open>max\<close> of the page and asks for the page after each move.
\<close>

section \<open>Numbers in a query\<close>

text \<open>\<open>parseInt\<close> with its optional sign and hexadecimal prefix.\<close>

definition white :: "char \<Rightarrow> bool" where
  "white c \<longleftrightarrow> byte c \<in> {9, 10, 11, 12, 13, 32}"

fun number_value :: "nat \<Rightarrow> nat \<Rightarrow> string \<Rightarrow> nat" where
  "number_value b n [] = n"
| "number_value b n (c # cs) = number_value b (b * n + (case hexval c of None \<Rightarrow> 0 | Some d \<Rightarrow> d)) cs"

definition parseInt_str :: "string \<Rightarrow> rat option" where
  "parseInt_str s =
     (let t = dropWhile white s;
          neg = (take 1 t = ''-'');
          u = (if take 1 t = ''-'' \<or> take 1 t = ''+'' then drop 1 t else t);
          hex = (take 2 u = ''0x'' \<or> take 2 u = ''0X'');
          ds = (if hex then takeWhile (\<lambda>c. hexval c \<noteq> None) (drop 2 u) else takeWhile digit u);
          n = of_nat (number_value (if hex then 16 else 10) 0 ds)
      in if ds = [] then None else Some (if neg then - n else n))"

definition parseInt :: "conv \<Rightarrow> jsval \<Rightarrow> jsval" where
  "parseInt cv v = of_num (parseInt_str (str cv v))"

text \<open>\<open>a - b\<close>, and \<open>a + b\<close> of two numbers.\<close>

definition minus_js :: "conv \<Rightarrow> jsval \<Rightarrow> jsval \<Rightarrow> jsval" where
  "minus_js cv a b = of_num (case (num cv a, num cv b) of (Some x, Some y) \<Rightarrow> Some (x - y) | _ \<Rightarrow> None)"

definition plus_js :: "conv \<Rightarrow> jsval \<Rightarrow> jsval \<Rightarrow> jsval" where
  "plus_js cv a b =
     (case a of
        Str s \<Rightarrow> Str (s @ str cv b)
      | _ \<Rightarrow> of_num (case (num cv a, num cv b) of (Some x, Some y) \<Rightarrow> Some (x + y) | _ \<Rightarrow> None))"

definition negative :: "conv \<Rightarrow> jsval \<Rightarrow> bool" where
  "negative cv v = (case num cv v of None \<Rightarrow> False | Some x \<Rightarrow> x < 0)"

definition clamp_first :: "conv \<Rightarrow> fields \<Rightarrow> fields" where
  "clamp_first cv q = (if negative cv (getf q ''first'') then setf ''first'' (Num 0) q else q)"

section \<open>\<open>UserListCtrl\<close>\<close>

record user_list =
  ul_query :: fields
  ul_searchLoaded :: bool
  ul_lastSearch :: jsval

definition UserListCtrl :: "jsval \<Rightarrow> user_list" where
  "UserListCtrl realm = \<lparr>ul_query = [(''realm'', realm), (''max'', Num 5), (''first'', Num 0)],
     ul_searchLoaded = False, ul_lastSearch = Undefined\<rparr>"

definition users_searchQuery :: "user_list \<Rightarrow> user_list \<times> ceffect list" where
  "users_searchQuery s =
     (s\<lparr>ul_searchLoaded := False\<rparr>, [Ask (Rest ''User'' ''query'' (ul_query s) Undefined)])"

definition users_loaded :: "user_list \<Rightarrow> user_list" where
  "users_loaded s = s\<lparr>ul_searchLoaded := True, ul_lastSearch := getf (ul_query s) ''search''\<rparr>"

definition users_firstPage :: "user_list \<Rightarrow> user_list \<times> ceffect list" where
  "users_firstPage s = users_searchQuery (s\<lparr>ul_query := setf ''first'' (Num 0) (ul_query s)\<rparr>)"

definition users_previousPage :: "conv \<Rightarrow> user_list \<Rightarrow> user_list \<times> ceffect list" where
  "users_previousPage cv s =
     (let q = ul_query s;
          q' = setf ''first'' (minus_js cv (getf q ''first'') (parseInt cv (getf q ''max''))) q
      in users_searchQuery (s\<lparr>ul_query := clamp_first cv q'\<rparr>))"

definition users_nextPage :: "conv \<Rightarrow> user_list \<Rightarrow> user_list \<times> ceffect list" where
  "users_nextPage cv s =
     (let q = ul_query s
      in users_searchQuery (s\<lparr>ul_query :=
           setf ''first'' (plus_js cv (getf q ''first'') (parseInt cv (getf q ''max''))) q\<rparr>))"

section \<open>\<open>RealmEventsCtrl\<close>\<close>

text \<open>\<open>update\<close> drops the fields of the filter that are empty strings before it asks.\<close>

definition events_update :: "fields \<Rightarrow> fields \<times> ceffect list" where
  "events_update q =
     (let q' = filter (\<lambda>x. snd x \<noteq> Str []) q in (q', [Ask (Rest ''RealmEvents'' ''query'' q' Undefined)]))"

definition RealmEventsCtrl :: "jsval \<Rightarrow> fields \<times> ceffect list" where
  "RealmEventsCtrl realm = events_update [(''id'', realm), (''max'', Num 5), (''first'', Num 0)]"

definition events_firstPage :: "conv \<Rightarrow> fields \<Rightarrow> fields \<times> ceffect list" where
  "events_firstPage cv q = events_update (clamp_first cv (setf ''first'' (Num 0) q))"

definition events_previousPage :: "conv \<Rightarrow> fields \<Rightarrow> fields \<times> ceffect list" where
  "events_previousPage cv q =
     events_update (clamp_first cv
       (setf ''first'' (minus_js cv (getf q ''first'') (parseInt cv (getf q ''max''))) q))"

definition events_nextPage :: "conv \<Rightarrow> fields \<Rightarrow> fields \<times> ceffect list" where
  "events_nextPage cv q =
     events_update (setf ''first'' (plus_js cv (getf q ''first'') (parseInt cv (getf q ''max''))) q)"

section \<open>\<open>ApplicationSessionsCtrl\<close>\<close>

definition sessions_query :: "jsval \<Rightarrow> jsval \<Rightarrow> fields" where
  "sessions_query realm application =
     [(''realm'', realm), (''application'', application), (''max'', Num 5), (''first'', Num 0)]"

definition sessions_loadUsers :: "fields \<Rightarrow> fields \<times> ceffect list" where
  "sessions_loadUsers q = (q, [Ask (Rest ''ApplicationUserSessions'' ''query'' q Undefined)])"

definition sessions_firstPage :: "conv \<Rightarrow> fields \<Rightarrow> fields \<times> ceffect list" where
  "sessions_firstPage cv q = sessions_loadUsers (clamp_first cv (setf ''first'' (Num 0) q))"

definition sessions_previousPage :: "conv \<Rightarrow> fields \<Rightarrow> fields \<times> ceffect list" where
  "sessions_previousPage cv q =
     sessions_loadUsers (clamp_first cv
       (setf ''first'' (minus_js cv (getf q ''first'') (parseInt cv (getf q ''max''))) q))"

definition sessions_nextPage :: "conv \<Rightarrow> fields \<Rightarrow> fields \<times> ceffect list" where
  "sessions_nextPage cv q =
     sessions_loadUsers (setf ''first'' (plus_js cv (getf q ''first'') (parseInt cv (getf q ''max''))) q)"

section \<open>The contract of a paged list\<close>

datatype move = First | Previous | Next

text \<open>The specification: the number of the page that is shown.\<close>

fun page_move :: "move \<Rightarrow> nat \<Rightarrow> nat" where
  "page_move First k = 0"
| "page_move Previous k = k - 1"
| "page_move Next k = Suc k"

definition at_page :: "conv \<Rightarrow> nat \<Rightarrow> fields \<Rightarrow> nat \<Rightarrow> bool" where
  "at_page cv n q k \<longleftrightarrow> parseInt cv (getf q ''max'') = Num (of_nat n) \<and> getf q ''first'' = Num (of_nat (k * n))"

locale paged_list =
  fixes cv :: conv
    and query_of :: "'s \<Rightarrow> fields"
    and move_op :: "move \<Rightarrow> 's \<Rightarrow> 's \<times> ceffect list"
    and service :: string
  assumes move_first: "getf (query_of (fst (move_op First s))) ''first'' = Num 0"
    and move_next: "getf (query_of s) ''first'' = Num x \<Longrightarrow> parseInt cv (getf (query_of s) ''max'') = Num n \<Longrightarrow>
      getf (query_of (fst (move_op Next s))) ''first'' = Num (x + n)"
    and move_previous: "getf (query_of s) ''first'' = Num x \<Longrightarrow> parseInt cv (getf (query_of s) ''max'') = Num n \<Longrightarrow>
      getf (query_of (fst (move_op Previous s))) ''first'' = Num (max 0 (x - n))"
    and move_max: "parseInt cv (getf (query_of s) ''max'') = Num n \<Longrightarrow>
      parseInt cv (getf (query_of (fst (move_op m s))) ''max'') = Num n"
    and move_asks: "snd (move_op m s) = [Ask (Rest service ''query'' (query_of (fst (move_op m s))) Undefined)]"
begin

lemma move_refines:
  assumes "at_page cv n (query_of s) k"
  shows "at_page cv n (query_of (fst (move_op m s))) (page_move m k)"
proof (cases m)
  case First
  then show ?thesis using assms move_first move_max by (simp add: at_page_def)
next
  case Previous
  have "max 0 (of_nat (k * n) - of_nat n) = (of_nat ((k - 1) * n) :: rat)"
    by (cases k) (simp_all add: algebra_simps)
  then show ?thesis
    using Previous assms move_previous [of s "of_nat (k * n)" "of_nat n"] move_max by (simp add: at_page_def)
next
  case Next
  then show ?thesis
    using assms move_next [of s "of_nat (k * n)" "of_nat n"] move_max by (simp add: at_page_def algebra_simps)
qed

lemma moves_refine:
  "at_page cv n (query_of s) k \<Longrightarrow> at_page cv n (query_of (fold (\<lambda>m s. fst (move_op m s)) ms s)) (fold page_move ms k)"
  by (induction ms arbitrary: s k) (simp_all add: move_refines)

end

fun users_move :: "conv \<Rightarrow> move \<Rightarrow> user_list \<Rightarrow> user_list \<times> ceffect list" where
  "users_move cv First s = users_firstPage s"
| "users_move cv Previous s = users_previousPage cv s"
| "users_move cv Next s = users_nextPage cv s"

fun events_move :: "conv \<Rightarrow> move \<Rightarrow> fields \<Rightarrow> fields \<times> ceffect list" where
  "events_move cv First q = events_firstPage cv q"
| "events_move cv Previous q = events_previousPage cv q"
| "events_move cv Next q = events_nextPage cv q"

fun sessions_move :: "conv \<Rightarrow> move \<Rightarrow> fields \<Rightarrow> fields \<times> ceffect list" where
  "sessions_move cv First q = sessions_firstPage cv q"
| "sessions_move cv Previous q = sessions_previousPage cv q"
| "sessions_move cv Next q = sessions_nextPage cv q"

lemma clamp_simps [simp]:
  "getf (clamp_first cv q) k = (if k = ''first'' \<and> negative cv (getf q ''first'') then Num 0 else getf q k)"
  by (simp add: clamp_first_def)

lemma getf_filter_empty:
  "getf q k \<noteq> Str [] \<Longrightarrow> getf (filter (\<lambda>x. snd x \<noteq> Str []) q) k = getf q k"
proof (induction q)
  case (Cons a q)
  then show ?case by (cases a) (auto simp: getf_def split: if_splits)
qed simp

lemma parseInt_empty [simp]: "parseInt cv (Str []) = NaN"
  by (simp add: parseInt_def parseInt_str_def Let_def)

lemma parseInt_filter: "parseInt cv (getf q k) = Num n \<Longrightarrow>
    parseInt cv (getf (filter (\<lambda>x. snd x \<noteq> Str []) q) k) = Num n"
  by (cases "getf q k = Str []") (simp_all add: getf_filter_empty)

lemma of_num_not_Str [simp]: "of_num x \<noteq> Str t"
  by (cases x) simp_all

lemmas page_defs = users_searchQuery_def users_firstPage_def users_previousPage_def users_nextPage_def
  events_update_def events_firstPage_def events_previousPage_def events_nextPage_def
  sessions_loadUsers_def sessions_firstPage_def sessions_previousPage_def sessions_nextPage_def
  negative_def minus_js_def plus_js_def Let_def

lemma users_asks:
  "snd (users_move cv m s) = [Ask (Rest ''User'' ''query'' (ul_query (fst (users_move cv m s))) Undefined)]"
  by (cases m) (simp_all add: page_defs)

lemma users_max: "parseInt cv (getf (ul_query s) ''max'') = Num n \<Longrightarrow>
    parseInt cv (getf (ul_query (fst (users_move cv m s))) ''max'') = Num n"
  by (cases m) (simp_all add: page_defs)

interpretation users: paged_list cv ul_query "users_move cv" "''User''" for cv
  by unfold_locales (simp_all add: users_asks users_max, simp_all add: page_defs max_def)

lemma sessions_asks:
  "snd (sessions_move cv m q) = [Ask (Rest ''ApplicationUserSessions'' ''query'' (fst (sessions_move cv m q)) Undefined)]"
  by (cases m) (simp_all add: page_defs)

lemma sessions_max: "parseInt cv (getf q ''max'') = Num n \<Longrightarrow>
    parseInt cv (getf (fst (sessions_move cv m q)) ''max'') = Num n"
  by (cases m) (simp_all add: page_defs)

interpretation sessions: paged_list cv "\<lambda>q. q" "sessions_move cv" "''ApplicationUserSessions''" for cv
  by unfold_locales (simp_all add: sessions_asks sessions_max, simp_all add: page_defs max_def)

lemma events_asks:
  "snd (events_move cv m q) = [Ask (Rest ''RealmEvents'' ''query'' (fst (events_move cv m q)) Undefined)]"
  by (cases m) (simp_all add: page_defs)

lemma events_max: "parseInt cv (getf q ''max'') = Num n \<Longrightarrow>
    parseInt cv (getf (fst (events_move cv m q)) ''max'') = Num n"
  by (cases m) (simp_all add: page_defs parseInt_filter)

interpretation events: paged_list cv "\<lambda>q. q" "events_move cv" "''RealmEvents''" for cv
  by unfold_locales (simp_all add: events_asks events_max,
      simp_all add: page_defs getf_filter_empty max_def)

text \<open>C28. In each paged list the query stands at a whole page after any sequence of moves, namely the page
  that is reached by counting up and down from 0, as long as the size of the page stays the same, and
  each move asks once for the page it moved to.\<close>

theorem pages_refine:
  assumes "at_page cv n (ul_query u) k" and "at_page cv n e k" and "at_page cv n q k"
  shows "at_page cv n (ul_query (fold (\<lambda>m s. fst (users_move cv m s)) ms u)) (fold page_move ms k)
    \<and> at_page cv n (fold (\<lambda>m s. fst (events_move cv m s)) ms e) (fold page_move ms k)
    \<and> at_page cv n (fold (\<lambda>m s. fst (sessions_move cv m s)) ms q) (fold page_move ms k)
    \<and> snd (users_move cv m u) = [Ask (Rest ''User'' ''query'' (ul_query (fst (users_move cv m u))) Undefined)]
    \<and> snd (events_move cv m e) = [Ask (Rest ''RealmEvents'' ''query'' (fst (events_move cv m e)) Undefined)]
    \<and> snd (sessions_move cv m q) =
        [Ask (Rest ''ApplicationUserSessions'' ''query'' (fst (sessions_move cv m q)) Undefined)]"
  by (intro conjI users.moves_refine events.moves_refine sessions.moves_refine
    users_asks events_asks sessions_asks assms)

definition pager_conv :: conv where
  "pager_conv = \<lparr>to_number = (\<lambda>s. None), to_string = (\<lambda>r. decimal (nat \<lfloor>r\<rfloor>))\<rparr>"

lemma parseInt_5: "parseInt pager_conv (Num 5) = Num (of_nat 5)"
  by (simp add: parseInt_def pager_conv_def str_def parseInt_str_def decimal.simps hexd_def Let_def white_def
    digit_def hexval_def)

theorem pages_refine_witness:
  "at_page pager_conv 5 (fold (\<lambda>m s. fst (events_move pager_conv m s)) [Next, Next, Previous, Previous, Previous, Next]
      (fst (RealmEventsCtrl (Str ''demo'')))) 1"
proof -
  have "at_page pager_conv 5 (ul_query (UserListCtrl (Str ''demo''))) 0"
    by (simp add: at_page_def UserListCtrl_def parseInt_5)
  moreover have "at_page pager_conv 5 (fst (RealmEventsCtrl (Str ''demo''))) 0"
    by (simp add: at_page_def RealmEventsCtrl_def events_update_def Let_def parseInt_5)
  moreover have "at_page pager_conv 5 (sessions_query (Str ''demo'') (Str ''app'')) 0"
    by (simp add: at_page_def sessions_query_def parseInt_5)
  ultimately show ?thesis
    using pages_refine [of pager_conv 5 "UserListCtrl (Str ''demo'')" 0 "fst (RealmEventsCtrl (Str ''demo''))"
        "sessions_query (Str ''demo'') (Str ''app'')" "[Next, Next, Previous, Previous, Previous, Next]"]
    by (simp add: at_page_def)
qed

end
