(* ===== verification/Admin_Time.thy ===== *)
theory Admin_Time
  imports Admin_Base
begin

text \<open>
  Durations in the console: the \<open>TimeUnit\<close> service of \<open>services.js\<close> and the controllers of
  \<open>controllers/realm.js\<close> that show the durations of a realm in a unit of the reader's choice
  (\<open>RealmTokenDetailCtrl\<close>, \<open>RealmBruteForceCtrl\<close>, \<open>RealmEventsConfigCtrl\<close>).
\<close>

section \<open>The service\<close>

definition autoUnit :: "conv \<Rightarrow> jsval \<Rightarrow> string" where
  "autoUnit cv t =
     (if \<not> truthy t then ''Hours''
      else case num cv t of
        None \<Rightarrow> ''Seconds''
      | Some time \<Rightarrow>
          (let (unit, time) =
             (if js_mod time 60 = 0 then (''Minutes'', time / 60) else (''Seconds'', time));
             (unit, time) =
             (if js_mod time 60 = 0 then (''Hours'', time / 60) else (unit, time));
             (unit, time) =
             (if js_mod time 24 = 0 then (''Days'', time / 24) else (unit, time))
           in unit))"

definition invalid_unit :: "conv \<Rightarrow> jsval \<Rightarrow> js_error" where
  "invalid_unit cv unit = Thrown (''invalid unit '' @ str cv unit)"

definition times :: "conv \<Rightarrow> rat \<Rightarrow> jsval \<Rightarrow> jsval" where
  "times cv m t = of_num (map_option (\<lambda>x. x * m) (num cv t))"

definition ceil_div :: "conv \<Rightarrow> rat \<Rightarrow> jsval \<Rightarrow> jsval" where
  "ceil_div cv m t = of_num (map_option (\<lambda>x. of_int \<lceil>x / m\<rceil>) (num cv t))"

definition toSeconds :: "conv \<Rightarrow> jsval \<Rightarrow> jsval \<Rightarrow> js_error + jsval" where
  "toSeconds cv t unit =
     (if unit = Str ''Seconds'' then Inr t
      else if unit = Str ''Minutes'' then Inr (times cv 60 t)
      else if unit = Str ''Hours'' then Inr (times cv 3600 t)
      else if unit = Str ''Days'' then Inr (times cv 86400 t)
      else Inl (invalid_unit cv unit))"

definition toUnit :: "conv \<Rightarrow> jsval \<Rightarrow> jsval \<Rightarrow> js_error + jsval" where
  "toUnit cv t unit =
     (if unit = Str ''Seconds'' then Inr t
      else if unit = Str ''Minutes'' then Inr (ceil_div cv 60 t)
      else if unit = Str ''Hours'' then Inr (ceil_div cv 3600 t)
      else if unit = Str ''Days'' then Inr (ceil_div cv 86400 t)
      else Inl (invalid_unit cv unit))"

definition convert :: "conv \<Rightarrow> jsval \<Rightarrow> jsval \<Rightarrow> jsval \<Rightarrow> js_error + jsval" where
  "convert cv t from to =
     (case toSeconds cv t from of Inl e \<Rightarrow> Inl e | Inr seconds \<Rightarrow> toUnit cv seconds to)"

section \<open>What the service computes\<close>

definition seconds_in :: "string \<Rightarrow> int option" where
  "seconds_in u = (if u = ''Seconds'' then Some 1 else if u = ''Minutes'' then Some 60
     else if u = ''Hours'' then Some 3600 else if u = ''Days'' then Some 86400 else None)"

definition ceiling_div :: "int \<Rightarrow> int \<Rightarrow> int" where
  "ceiling_div t s = - ((- t) div s)"

lemma ceiling_of_int_div: "\<lceil>(of_int t :: rat) / of_int s\<rceil> = ceiling_div t s"
proof -
  have "\<lceil>(of_int t :: rat) / of_int s\<rceil> = - \<lfloor>(of_int (- t) :: rat) / of_int s\<rfloor>"
    by (simp add: ceiling_def)
  also have "\<lfloor>(of_int (- t) :: rat) / of_int s\<rfloor> = (- t) div s"
    by (rule floor_divide_of_int_eq)
  finally show ?thesis by (simp add: ceiling_div_def)
qed

lemma ceiling_div_1 [simp]: "ceiling_div t 1 = t"
  by (simp add: ceiling_div_def)

lemma ceiling_div_mult [simp]: "0 < s \<Longrightarrow> ceiling_div (t * s) s = t"
  using nonzero_mult_div_cancel_right [of s "- t"] by (simp add: ceiling_div_def)

lemma ceiling_div_bounds:
  assumes "0 < s"
  shows "t \<le> ceiling_div t s * s" and "ceiling_div t s * s < t + s"
proof -
  have "(- t) div s * s + (- t) mod s = - t" by simp
  moreover have "0 \<le> (- t) mod s" "(- t) mod s < s" using assms by simp_all
  ultimately have "t \<le> - ((- t) div s * s) \<and> - ((- t) div s * s) < t + s" by linarith
  then show "t \<le> ceiling_div t s * s" "ceiling_div t s * s < t + s"
    by (simp_all add: ceiling_div_def)
qed

lemma seconds_in_cases:
  assumes "seconds_in u = Some s"
  obtains "u = ''Seconds''" "s = 1" | "u = ''Minutes''" "s = 60" | "u = ''Hours''" "s = 3600"
    | "u = ''Days''" "s = 86400"
  using assms by (auto simp: seconds_in_def split: if_splits)

lemma seconds_in_pos: "seconds_in u = Some s \<Longrightarrow> 0 < s"
  by (auto elim: seconds_in_cases)

lemma toSeconds_int:
  "seconds_in u = Some s \<Longrightarrow> toSeconds cv (Num (of_int t)) (Str u) = Inr (Num (of_int (t * s)))"
  by (erule seconds_in_cases) (simp_all add: toSeconds_def times_def)

lemma toUnit_int:
  "seconds_in u = Some s \<Longrightarrow> toUnit cv (Num (of_int t)) (Str u) = Inr (Num (of_int (ceiling_div t s)))"
  using ceiling_of_int_div [of t 60] ceiling_of_int_div [of t 3600] ceiling_of_int_div [of t 86400]
  by (erule_tac seconds_in_cases) (simp_all add: toUnit_def ceil_div_def)

lemma convert_int:
  assumes "seconds_in u = Some s" and "seconds_in u' = Some s'"
  shows "convert cv (Num (of_int t)) (Str u) (Str u') = Inr (Num (of_int (ceiling_div (t * s) s')))"
  unfolding convert_def by (simp only: toSeconds_int [OF assms(1)] toUnit_int [OF assms(2)] sum.case)

lemma convert_same: "seconds_in u = Some s \<Longrightarrow>
    convert cv (Num (of_int t)) (Str u) (Str u) = Inr (Num (of_int t))"
  using convert_int [of u s u s] seconds_in_pos [of u s] by simp

lemma autoUnit_valid: "\<exists>s. seconds_in (autoUnit cv t) = Some s"
  by (simp add: autoUnit_def seconds_in_def Let_def split: option.split prod.split)

text \<open>
  The unit that is picked for a whole number of seconds.  The last test divides by 24 whatever the
  unit so far is, so 24 seconds and 24 minutes are taken for days.
\<close>

definition auto_unit :: "int \<Rightarrow> string" where
  "auto_unit t =
     (if t = 0 then ''Hours''
      else if t mod 60 \<noteq> 0 then (if t mod 24 = 0 then ''Days'' else ''Seconds'')
      else if t div 60 mod 60 \<noteq> 0 then (if t div 60 mod 24 = 0 then ''Days'' else ''Minutes'')
      else if t div 3600 mod 24 = 0 then ''Days'' else ''Hours'')"

lemma of_int_div_60: "t mod 60 = 0 \<Longrightarrow> (of_int t :: rat) / 60 = of_int (t div 60)"
  by (metis mod_0_imp_dvd of_int_div of_int_numeral)

lemma autoUnit_int: "autoUnit cv (Num (of_int t)) = auto_unit t"
proof (cases "t = 0")
  case True
  then show ?thesis by (simp add: autoUnit_def auto_unit_def)
next
  case nz: False
  show ?thesis
  proof (cases "t mod 60 = 0")
    case False
    then show ?thesis using nz by (simp add: autoUnit_def auto_unit_def)
  next
    case m: True
    show ?thesis
    proof (cases "t div 60 mod 60 = 0")
      case False
      then show ?thesis using nz m by (simp add: autoUnit_def auto_unit_def of_int_div_60)
    next
      case True
      then show ?thesis using nz m of_int_div_60 [OF True]
        by (simp add: autoUnit_def auto_unit_def of_int_div_60 zdiv_zmult2_eq [of 60 t 60, simplified])
    qed
  qed
qed

section \<open>Showing a duration and storing it\<close>

text \<open>
  What a controller does for each duration it shows: it picks a unit, shows the duration in it,
  converts what is shown whenever another unit is picked, and converts back to seconds when the
  form is saved.
\<close>

definition shown_in :: "conv \<Rightarrow> string \<Rightarrow> string \<Rightarrow> string \<Rightarrow> fields \<Rightarrow> js_error + fields" where
  "shown_in cv src shown unit r =
     (let r' = setf unit (Str (autoUnit cv (getf r src))) r
      in case toUnit cv (getf r' src) (getf r' unit) of
           Inl e \<Rightarrow> Inl e
         | Inr v \<Rightarrow> Inr (setf shown v r'))"

definition pick_unit :: "conv \<Rightarrow> string \<Rightarrow> string \<Rightarrow> jsval \<Rightarrow> fields \<Rightarrow> js_error + fields" where
  "pick_unit cv shown unit to r =
     (case convert cv (getf r shown) (getf r unit) to of
        Inl e \<Rightarrow> Inl e
      | Inr v \<Rightarrow> Inr (setf shown v (setf unit to r)))"

definition store_seconds :: "conv \<Rightarrow> fields \<Rightarrow> string \<Rightarrow> string \<Rightarrow> string \<Rightarrow> fields \<Rightarrow> js_error + fields" where
  "store_seconds cv scope dst shown unit r =
     (case toSeconds cv (getf scope shown) (getf scope unit) of
        Inl e \<Rightarrow> Inl e
      | Inr v \<Rightarrow> Inr (setf dst v r))"

text \<open>The first digest calls the watch of a unit with the unit as both its values.\<close>

definition repick :: "conv \<Rightarrow> string \<Rightarrow> string \<Rightarrow> fields \<Rightarrow> js_error + fields" where
  "repick cv shown unit r = pick_unit cv shown unit (getf r unit) r"

fun each :: "('a \<Rightarrow> fields \<Rightarrow> js_error + fields) \<Rightarrow> 'a list \<Rightarrow> fields \<Rightarrow> js_error + fields" where
  "each f [] r = Inr r"
| "each f (x # xs) r = (case f x r of Inl e \<Rightarrow> Inl e | Inr r' \<Rightarrow> each f xs r')"

section \<open>\<open>RealmTokenDetailCtrl\<close>\<close>

definition token_lifespans :: "string list" where
  "token_lifespans = [''accessTokenLifespan'', ''ssoSessionIdleTimeout'', ''ssoSessionMaxLifespan'',
     ''accessCodeLifespan'', ''accessCodeLifespanUserAction'']"

definition lifespan_unit :: "string \<Rightarrow> string" where
  "lifespan_unit f = f @ ''Unit''"

definition token_show :: "conv \<Rightarrow> fields \<Rightarrow> js_error + fields" where
  "token_show cv realm = each (\<lambda>f. shown_in cv f f (lifespan_unit f)) token_lifespans realm"

definition RealmTokenDetailCtrl :: "conv \<Rightarrow> fields \<Rightarrow> js_error + form" where
  "RealmTokenDetailCtrl cv realm =
     (case token_show cv realm of
        Inl e \<Rightarrow> Inl e
      | Inr r \<Rightarrow>
          (case each (\<lambda>f. repick cv f (lifespan_unit f)) token_lifespans r of
             Inl e \<Rightarrow> Inl e
           | Inr r' \<Rightarrow> Inr (watch_scope \<lparr>fm_scope = r', fm_old = r, fm_changed = False\<rparr>)))"

text \<open>A unit is picked: its watch converts what is shown, then the watch on the realm runs.\<close>

definition token_pick :: "conv \<Rightarrow> string \<Rightarrow> jsval \<Rightarrow> form \<Rightarrow> js_error + form" where
  "token_pick cv f to fm =
     (case pick_unit cv f (lifespan_unit f) to (fm_scope fm) of
        Inl e \<Rightarrow> Inl e
      | Inr r \<Rightarrow> Inr (edit_form r fm))"

definition token_body :: "conv \<Rightarrow> fields \<Rightarrow> js_error + fields" where
  "token_body cv scope =
     each (\<lambda>f. store_seconds cv scope f f (lifespan_unit f)) token_lifespans
       (fold (\<lambda>f. delf (lifespan_unit f)) token_lifespans scope)"

definition token_save :: "conv \<Rightarrow> form \<Rightarrow> js_error + ceffect list" where
  "token_save cv fm =
     (case token_body cv (fm_scope fm) of
        Inl e \<Rightarrow> Inl e
      | Inr b \<Rightarrow> Inr [Ask (Rest ''Realm'' ''update'' [] (Obj b))])"

definition token_saved :: "ceffect list" where
  "token_saved = [Reload, Success ''The changes have been saved to the realm.'']"

definition token_reset :: "ceffect list" where
  "token_reset = [Reload]"

section \<open>\<open>RealmBruteForceCtrl\<close>\<close>

definition brute_durations :: "string list" where
  "brute_durations = [''waitIncrement'', ''minimumQuickLoginWait'', ''maxFailureWait'', ''maxDeltaTime'']"

definition seconds_field :: "string \<Rightarrow> string" where
  "seconds_field f = f @ ''Seconds''"

definition brute_show :: "conv \<Rightarrow> fields \<Rightarrow> js_error + fields" where
  "brute_show cv realm =
     each (\<lambda>f. shown_in cv (seconds_field f) f (lifespan_unit f)) brute_durations realm"

definition RealmBruteForceCtrl :: "conv \<Rightarrow> fields \<Rightarrow> js_error + form" where
  "RealmBruteForceCtrl cv realm =
     (case brute_show cv realm of
        Inl e \<Rightarrow> Inl e
      | Inr r \<Rightarrow>
          (case each (\<lambda>f. repick cv f (lifespan_unit f)) brute_durations r of
             Inl e \<Rightarrow> Inl e
           | Inr r' \<Rightarrow> Inr (watch_scope \<lparr>fm_scope = r', fm_old = r, fm_changed = False\<rparr>)))"

definition brute_pick :: "conv \<Rightarrow> string \<Rightarrow> jsval \<Rightarrow> form \<Rightarrow> js_error + form" where
  "brute_pick cv f to fm =
     (case pick_unit cv f (lifespan_unit f) to (fm_scope fm) of
        Inl e \<Rightarrow> Inl e
      | Inr r \<Rightarrow> Inr (edit_form r fm))"

definition brute_body :: "conv \<Rightarrow> fields \<Rightarrow> js_error + fields" where
  "brute_body cv scope =
     each (\<lambda>f. store_seconds cv scope (seconds_field f) f (lifespan_unit f)) brute_durations
       (fold (\<lambda>f r. delf f (delf (lifespan_unit f) r)) brute_durations scope)"

definition brute_save :: "conv \<Rightarrow> form \<Rightarrow> js_error + form \<times> ceffect list" where
  "brute_save cv fm =
     (case brute_body cv (fm_scope fm) of
        Inl e \<Rightarrow> Inl e
      | Inr b \<Rightarrow> Inr (fm\<lparr>fm_changed := False\<rparr>, [Ask (Rest ''Realm'' ''update'' [] (Obj b))]))"

definition brute_saved :: "string \<Rightarrow> ceffect list" where
  "brute_saved realm = [GoTo (''/realms/'' @ realm @ ''/defense/brute-force''),
     Success ''Your changes have been saved to the realm.'']"

section \<open>\<open>RealmEventsConfigCtrl\<close>\<close>

definition RealmEventsConfigCtrl :: "conv \<Rightarrow> fields \<Rightarrow> js_error + form" where
  "RealmEventsConfigCtrl cv config =
     (case shown_in cv ''eventsExpiration'' ''eventsExpiration'' ''expirationUnit'' config of
        Inl e \<Rightarrow> Inl e
      | Inr r \<Rightarrow>
          (if truthy (getf r ''eventsExpiration'') then
             (case repick cv ''eventsExpiration'' ''expirationUnit'' r of
                Inl e \<Rightarrow> Inl e
              | Inr r' \<Rightarrow> Inr (watch_scope \<lparr>fm_scope = r', fm_old = r, fm_changed = False\<rparr>))
           else Inr (watch_scope \<lparr>fm_scope = r, fm_old = r, fm_changed = False\<rparr>)))"

definition events_pick :: "conv \<Rightarrow> jsval \<Rightarrow> form \<Rightarrow> js_error + form" where
  "events_pick cv to fm =
     (if truthy (getf (fm_scope fm) ''eventsExpiration'') then
        (case pick_unit cv ''eventsExpiration'' ''expirationUnit'' to (fm_scope fm) of
           Inl e \<Rightarrow> Inl e
         | Inr r \<Rightarrow> Inr (edit_form r fm))
      else Inr (edit_form (setf ''expirationUnit'' to (fm_scope fm)) fm))"

definition events_save :: "conv \<Rightarrow> string \<Rightarrow> form \<Rightarrow> js_error + form \<times> ceffect list" where
  "events_save cv realm fm =
     (case store_seconds cv (fm_scope fm) ''eventsExpiration'' ''eventsExpiration'' ''expirationUnit''
        (delf ''expirationUnit'' (fm_scope fm)) of
        Inl e \<Rightarrow> Inl e
      | Inr b \<Rightarrow> Inr (fm\<lparr>fm_changed := False\<rparr>,
          [Ask (Rest ''RealmEventsConfig'' ''update'' [(''id'', Str realm)] (Obj b))]))"

definition events_saved :: "string \<Rightarrow> ceffect list" where
  "events_saved realm = [GoTo (''/realms/'' @ realm @ ''/events-settings''),
     Success ''Your changes have been saved to the realm.'']"

definition clearEvents :: "string \<Rightarrow> ceffect list" where
  "clearEvents realm = [Confirm ''confirmDelete'' realm ''events'']"

definition clear_confirmed :: "string \<Rightarrow> ceffect list" where
  "clear_confirmed realm = [Ask (Rest ''RealmEvents'' ''remove'' [(''id'', Str realm)] Undefined)]"

definition events_cleared :: "ceffect list" where
  "events_cleared = [Success ''The events has been cleared.'']"

section \<open>Loading and saving\<close>

definition displayed :: "conv \<Rightarrow> jsval \<Rightarrow> jsval" where
  "displayed cv t = (case toUnit cv t (Str (autoUnit cv t)) of Inl e \<Rightarrow> Undefined | Inr v \<Rightarrow> v)"

lemma displayed_distinct: "distinct_fields t \<Longrightarrow> distinct_fields (displayed cv t)"
  by (auto simp: displayed_def toUnit_def ceil_div_def of_num_def split: option.split)

lemma str_distinct: "distinct_fields (Str s)"
  by simp

lemma displayed_int:
  "displayed cv (Num (of_int t)) = Num (of_int (ceiling_div t (the (seconds_in (auto_unit t)))))"
proof -
  obtain s where s: "seconds_in (auto_unit t) = Some s"
    using autoUnit_valid [of cv "Num (of_int t)"] by (auto simp: autoUnit_int)
  show ?thesis by (simp add: displayed_def autoUnit_int toUnit_int [OF s] s)
qed

definition unit_seconds :: "int \<Rightarrow> int" where
  "unit_seconds t = the (seconds_in (auto_unit t))"

text \<open>The duration that is stored when the form is saved as it was loaded.\<close>

definition reload :: "int \<Rightarrow> int" where
  "reload t = ceiling_div t (unit_seconds t) * unit_seconds t"

definition misread :: "int \<Rightarrow> bool" where
  "misread t \<longleftrightarrow> t mod 60 \<noteq> 0 \<and> t mod 24 = 0
     \<or> t mod 60 = 0 \<and> t div 60 mod 60 \<noteq> 0 \<and> t div 60 mod 24 = 0"

lemma auto_unit_seconds: "seconds_in (auto_unit t) = Some (unit_seconds t)"
  using autoUnit_valid [of undefined "Num (of_int t)"] by (auto simp: unit_seconds_def autoUnit_int)

lemma unit_seconds_pos: "0 < unit_seconds t"
  by (rule seconds_in_pos [OF auto_unit_seconds])

lemma ceiling_div_exact_iff: "0 < s \<Longrightarrow> ceiling_div t s * s = t \<longleftrightarrow> t mod s = 0"
  by (metis ceiling_div_mult dvd_eq_mod_eq_0 dvd_mult_div_cancel dvd_triv_right mult.commute)

lemma unit_seconds_cases:
  "unit_seconds t =
     (if t = 0 then 3600
      else if t mod 60 \<noteq> 0 then (if t mod 24 = 0 then 86400 else 1)
      else if t div 60 mod 60 \<noteq> 0 then (if t div 60 mod 24 = 0 then 86400 else 60)
      else if t div 3600 mod 24 = 0 then 86400 else 3600)"
  by (simp add: unit_seconds_def auto_unit_def seconds_in_def)

lemma mod_mult_iff:
  fixes t a b :: int
  assumes "0 < a" and "0 < b"
  shows "t mod (a * b) = 0 \<longleftrightarrow> t mod a = 0 \<and> t div a mod b = 0"
proof -
  have eq: "t mod (a * b) = a * (t div a mod b) + t mod a"
    using assms by (simp add: zmod_zmult2_eq)
  have nn: "0 \<le> a * (t div a mod b)" "0 \<le> t mod a" using assms by simp_all
  show ?thesis
  proof
    assume "t mod (a * b) = 0"
    then have "a * (t div a mod b) = 0" "t mod a = 0" using eq nn by linarith+
    then show "t mod a = 0 \<and> t div a mod b = 0" using assms by simp
  qed (simp add: eq)
qed

lemma hours_iff: "t mod (3600::int) = 0 \<longleftrightarrow> t mod 60 = 0 \<and> t div 60 mod 60 = 0"
  using mod_mult_iff [of 60 60 t] by simp

lemma days_iff: "t mod (86400::int) = 0 \<longleftrightarrow> t mod 3600 = 0 \<and> t div 3600 mod 24 = 0"
  using mod_mult_iff [of 3600 24 t] by simp

lemma misread_iff: "t mod unit_seconds t = 0 \<longleftrightarrow> \<not> misread t"
proof (cases "t = 0")
  case True
  then show ?thesis by (simp add: misread_def unit_seconds_cases)
next
  case False
  have "t mod 86400 = 0 \<longleftrightarrow> t mod 60 = 0 \<and> t div 60 mod 60 = 0 \<and> t div 3600 mod 24 = 0"
    by (simp only: days_iff hours_iff conj_assoc)
  then show ?thesis using False
    by (simp only: unit_seconds_cases misread_def hours_iff mod_by_1 if_False split: if_split) argo
qed

lemma reload_exact_iff: "reload t = t \<longleftrightarrow> \<not> misread t"
  by (simp add: reload_def ceiling_div_exact_iff unit_seconds_pos misread_iff)

lemma reload_bounds: "t \<le> reload t" "reload t < t + unit_seconds t"
  unfolding reload_def by (rule ceiling_div_bounds [OF unit_seconds_pos])+

section \<open>Several durations in one form\<close>

text \<open>
  The fields a form works with: each duration is loaded from one field, shown in another (or the
  same) and has a field for its unit.
\<close>

locale durations =
  fixes names :: "string list"
    and src :: "string \<Rightarrow> string"
    and unit :: "string \<Rightarrow> string"
  assumes names_distinct: "distinct names"
    and src_inj: "x \<in> set names \<Longrightarrow> y \<in> set names \<Longrightarrow> src x = src y \<Longrightarrow> x = y"
    and unit_inj: "x \<in> set names \<Longrightarrow> y \<in> set names \<Longrightarrow> unit x = unit y \<Longrightarrow> x = y"
    and src_shown: "x \<in> set names \<Longrightarrow> y \<in> set names \<Longrightarrow> src x = y \<Longrightarrow> x = y"
    and unit_src: "x \<in> set names \<Longrightarrow> y \<in> set names \<Longrightarrow> unit x \<noteq> src y"
    and unit_shown: "x \<in> set names \<Longrightarrow> y \<in> set names \<Longrightarrow> unit x \<noteq> y"
begin

lemma show_fields:
  assumes "set xs \<subseteq> set names" and "distinct xs"
  shows "\<exists>R. each (\<lambda>x. shown_in cv (src x) x (unit x)) xs r = Inr R
    \<and> (\<forall>x \<in> set xs. getf R x = displayed cv (getf r (src x))
         \<and> getf R (unit x) = Str (autoUnit cv (getf r (src x))))
    \<and> (\<forall>k. k \<notin> set xs \<union> unit ` set xs \<longrightarrow> getf R k = getf r k)
    \<and> (distinct_fields (Obj r) \<longrightarrow> distinct_fields (Obj R))"
  using assms
proof (induction xs arbitrary: r)
  case Nil
  then show ?case by simp
next
  case (Cons x xs)
  let ?r = "setf x (displayed cv (getf r (src x))) (setf (unit x) (Str (autoUnit cv (getf r (src x)))) r)"
  have x: "x \<in> set names" using Cons.prems by simp
  have "toUnit cv (getf r (src x)) (Str (autoUnit cv (getf r (src x))))
      = Inr (displayed cv (getf r (src x)))"
    using autoUnit_valid [of cv "getf r (src x)"]
    by (auto elim!: seconds_in_cases simp: displayed_def toUnit_def)
  then have step: "shown_in cv (src x) x (unit x) r = Inr ?r"
    using unit_src [OF x x] by (simp add: shown_in_def Let_def)
  obtain R where R: "each (\<lambda>x. shown_in cv (src x) x (unit x)) xs ?r = Inr R"
    "\<forall>y \<in> set xs. getf R y = displayed cv (getf ?r (src y))
         \<and> getf R (unit y) = Str (autoUnit cv (getf ?r (src y)))"
    "\<forall>k. k \<notin> set xs \<union> unit ` set xs \<longrightarrow> getf R k = getf ?r k"
    "distinct_fields (Obj ?r) \<longrightarrow> distinct_fields (Obj R)"
    using Cons.IH [of ?r] Cons.prems by auto
  have other: "getf ?r (src y) = getf r (src y)" if "y \<in> set xs" for y
  proof -
    have "y \<in> set names" "y \<noteq> x" using that Cons.prems by auto
    then show ?thesis using x src_shown unit_src by fastforce
  qed
  have "y \<in> set names \<and> y \<noteq> x" if "y \<in> set xs" for y using that Cons.prems by auto
  then have "x \<notin> set xs \<union> unit ` set xs" "unit x \<notin> set xs \<union> unit ` set xs"
    using x unit_shown unit_inj by blast+
  then have "getf R x = displayed cv (getf r (src x))"
    "getf R (unit x) = Str (autoUnit cv (getf r (src x)))"
    using R(3) unit_shown [OF x x] by auto
  moreover have "distinct_fields (Obj r) \<longrightarrow> distinct_fields (Obj R)"
    using R(4) distinct_fields_setf distinct_fields_getf displayed_distinct str_distinct by metis
  ultimately show ?case using R(1-3) other by (auto simp: step)
qed

lemma store_fields:
  assumes "set xs \<subseteq> set names" and "distinct xs"
    and "\<forall>x \<in> set xs. toSeconds cv (getf scope x) (getf scope (unit x)) = Inr (v x)"
  shows "\<exists>B. each (\<lambda>x. store_seconds cv scope (src x) x (unit x)) xs b = Inr B
    \<and> (\<forall>x \<in> set xs. getf B (src x) = v x)
    \<and> (\<forall>k. k \<notin> src ` set xs \<longrightarrow> getf B k = getf b k)"
  using assms
proof (induction xs arbitrary: b)
  case Nil
  then show ?case by simp
next
  case (Cons x xs)
  have step: "store_seconds cv scope (src x) x (unit x) b = Inr (setf (src x) (v x) b)"
    using Cons.prems by (simp add: store_seconds_def)
  obtain B where B: "each (\<lambda>x. store_seconds cv scope (src x) x (unit x)) xs (setf (src x) (v x) b) = Inr B"
    "\<forall>y \<in> set xs. getf B (src y) = v y"
    "\<forall>k. k \<notin> src ` set xs \<longrightarrow> getf B k = getf (setf (src x) (v x) b) k"
    using Cons.IH [of "setf (src x) (v x) b"] Cons.prems by auto
  have "y \<in> set names \<and> y \<noteq> x" if "y \<in> set xs" for y using that Cons.prems by auto
  then have "src x \<notin> src ` set xs" using Cons.prems(1) src_inj by auto
  then show ?case using B by (auto simp: step)
qed

end

interpretation token: durations token_lifespans "\<lambda>f. f" lifespan_unit
  by unfold_locales (auto simp: token_lifespans_def lifespan_unit_def)

interpretation brute: durations brute_durations seconds_field lifespan_unit
  by unfold_locales (auto simp: brute_durations_def lifespan_unit_def seconds_field_def)

lemma each_id: "(\<And>x. x \<in> set xs \<Longrightarrow> f x r = Inr r) \<Longrightarrow> each f xs r = Inr r"
  by (induction xs) simp_all

lemma repick_id:
  assumes "getf r shown = Num (of_int n)" and "getf r unit = Str u" and "seconds_in u = Some s"
  shows "repick cv shown unit r = Inr r"
proof -
  have "setf unit (Str u) r = r" "setf shown (Num (of_int n)) r = r"
    using assms by (simp_all add: setf_same)
  then show ?thesis using assms by (simp add: repick_def pick_unit_def convert_same)
qed

lemma fold_delf: "getf (fold (\<lambda>f. delf (g f)) xs r) k = (if k \<in> g ` set xs then Undefined else getf r k)"
  by (induction xs arbitrary: r) auto

lemma fold_delf2: "getf (fold (\<lambda>f r. delf f (delf (g f) r)) xs r) k
    = (if k \<in> set xs \<union> g ` set xs then Undefined else getf r k)"
  by (induction xs arbitrary: r) auto

text \<open>C20. A realm with whole lifespans that is opened and saved unchanged: the form does not show as
  changed, the request carries the realm's other fields as they were and no unit fields, and each
  lifespan is sent back as it was except when it is a multiple of 24 seconds (but not of a minute)
  or of 24 minutes (but not of an hour): those are taken for days and rounded up.\<close>

theorem token_form_roundtrip:
  assumes "\<forall>f \<in> set token_lifespans. getf realm f = Num (of_int (t f))"
    and "distinct_fields (Obj realm)"
  shows "\<exists>fm b. RealmTokenDetailCtrl cv realm = Inr fm \<and> \<not> fm_changed fm
    \<and> token_save cv fm = Inr [Ask (Rest ''Realm'' ''update'' [] (Obj b))]
    \<and> (\<forall>f \<in> set token_lifespans. getf b (lifespan_unit f) = Undefined
         \<and> (\<exists>n. getf b f = Num (of_int n) \<and> t f \<le> n \<and> n < t f + 86400
              \<and> (n = t f \<longleftrightarrow> \<not> (t f mod 60 \<noteq> 0 \<and> t f mod 24 = 0
                   \<or> t f mod 60 = 0 \<and> t f div 60 mod 60 \<noteq> 0 \<and> t f div 60 mod 24 = 0))))
    \<and> (\<forall>k. k \<notin> set token_lifespans \<union> lifespan_unit ` set token_lifespans \<longrightarrow> getf b k = getf realm k)"
proof -
  let ?n = "\<lambda>f. ceiling_div (t f) (unit_seconds (t f))"
  obtain R where R: "token_show cv realm = Inr R" "distinct_fields (Obj R)"
    "\<forall>f \<in> set token_lifespans. getf R f = Num (of_int (?n f))
       \<and> getf R (lifespan_unit f) = Str (auto_unit (t f))"
    "\<forall>k. k \<notin> set token_lifespans \<union> lifespan_unit ` set token_lifespans \<longrightarrow> getf R k = getf realm k"
    using token.show_fields [of token_lifespans cv realm] token.names_distinct assms
    by (auto simp: token_show_def displayed_int autoUnit_int unit_seconds_def)
  have "each (\<lambda>f. repick cv f (lifespan_unit f)) token_lifespans R = Inr R"
    using R(3) by (blast intro: each_id repick_id auto_unit_seconds)
  then have load: "RealmTokenDetailCtrl cv realm
      = Inr (watch_scope \<lparr>fm_scope = R, fm_old = R, fm_changed = False\<rparr>)"
    using R(1) by (simp add: RealmTokenDetailCtrl_def)
  have "toSeconds cv (getf R f) (getf R (lifespan_unit f)) = Inr (Num (of_int (reload (t f))))"
    if "f \<in> set token_lifespans" for f
    using R(3) that toSeconds_int [OF auto_unit_seconds] by (simp add: reload_def)
  then obtain B where B: "token_body cv R = Inr B"
    "\<forall>f \<in> set token_lifespans. getf B f = Num (of_int (reload (t f)))"
    "\<forall>k. k \<notin> set token_lifespans \<longrightarrow> getf B k =
       getf (fold (\<lambda>f. delf (lifespan_unit f)) token_lifespans R) k"
    using token.store_fields [of token_lifespans cv R "\<lambda>f. Num (of_int (reload (t f)))"
        "fold (\<lambda>f. delf (lifespan_unit f)) token_lifespans R"] token.names_distinct
    by (auto simp: token_body_def)
  have unit: "getf B (lifespan_unit f) = Undefined" if "f \<in> set token_lifespans" for f
    using B(3) token.unit_shown that by (force simp: fold_delf)
  have unit_le: "unit_seconds x \<le> 86400" for x by (simp add: unit_seconds_cases)
  have "reload x < x + 86400" for x using reload_bounds(2) [of x] unit_le [of x] by linarith
  then have "\<exists>n. getf B f = Num (of_int n) \<and> t f \<le> n \<and> n < t f + 86400 \<and> (n = t f \<longleftrightarrow> \<not> misread (t f))"
    if "f \<in> set token_lifespans" for f
    using B(2) that reload_bounds(1) reload_exact_iff by blast
  then show ?thesis unfolding misread_def
    using load B(1,3) R(2,4) unit by (auto simp: token_save_def fold_delf equals_refl)
qed

text \<open>The brute force form, opened on a realm with whole durations and saved unchanged, sends the
  same fields as the realm had, without the fields the form adds: a duration is never sent shorter
  than it was, and it is sent unchanged unless it is mistaken for days.\<close>

theorem brute_form_roundtrip:
  assumes "\<forall>f \<in> set brute_durations. getf realm (seconds_field f) = Num (of_int (t f))
       \<and> getf realm f = Undefined \<and> getf realm (lifespan_unit f) = Undefined"
    and "distinct_fields (Obj realm)"
  shows "\<exists>fm fm' b. RealmBruteForceCtrl cv realm = Inr fm \<and> \<not> fm_changed fm
    \<and> brute_save cv fm = Inr (fm', [Ask (Rest ''Realm'' ''update'' [] (Obj b))])
    \<and> (\<forall>f \<in> set brute_durations. \<exists>n. getf b (seconds_field f) = Num (of_int n) \<and> t f \<le> n
         \<and> (n = t f \<longleftrightarrow> \<not> misread (t f)))
    \<and> (\<forall>k. k \<notin> seconds_field ` set brute_durations \<longrightarrow> getf b k = getf realm k)"
proof -
  let ?n = "\<lambda>f. ceiling_div (t f) (unit_seconds (t f))"
  obtain R where R: "brute_show cv realm = Inr R" "distinct_fields (Obj R)"
    "\<forall>f \<in> set brute_durations. getf R f = Num (of_int (?n f))
       \<and> getf R (lifespan_unit f) = Str (auto_unit (t f))"
    "\<forall>k. k \<notin> set brute_durations \<union> lifespan_unit ` set brute_durations \<longrightarrow> getf R k = getf realm k"
    using brute.show_fields [of brute_durations cv realm] brute.names_distinct assms
    by (auto simp: brute_show_def displayed_int autoUnit_int unit_seconds_def)
  let ?b = "fold (\<lambda>f r. delf f (delf (lifespan_unit f) r)) brute_durations R"
  have b: "getf ?b k = (if k \<in> set brute_durations \<union> lifespan_unit ` set brute_durations
      then Undefined else getf R k)" for k
    by (rule fold_delf2)
  have "each (\<lambda>f. repick cv f (lifespan_unit f)) brute_durations R = Inr R"
    using R(3) by (blast intro: each_id repick_id auto_unit_seconds)
  then have load: "RealmBruteForceCtrl cv realm
      = Inr (watch_scope \<lparr>fm_scope = R, fm_old = R, fm_changed = False\<rparr>)"
    using R(1) by (simp add: RealmBruteForceCtrl_def)
  have "toSeconds cv (getf R f) (getf R (lifespan_unit f)) = Inr (Num (of_int (reload (t f))))"
    if "f \<in> set brute_durations" for f
    using R(3) that toSeconds_int [OF auto_unit_seconds] by (simp add: reload_def)
  then obtain B where B: "brute_body cv R = Inr B"
    "\<forall>f \<in> set brute_durations. getf B (seconds_field f) = Num (of_int (reload (t f)))"
    "\<forall>k. k \<notin> seconds_field ` set brute_durations \<longrightarrow> getf B k = getf ?b k"
    using brute.store_fields [of brute_durations cv R "\<lambda>f. Num (of_int (reload (t f)))" ?b]
      brute.names_distinct by (auto simp: brute_body_def)
  have "getf ?b k = getf realm k" for k using b [of k] R(4) assms(1) by auto
  then have rest: "getf B k = getf realm k" if "k \<notin> seconds_field ` set brute_durations" for k
    using B(3) that by simp
  have "\<exists>n. getf B (seconds_field f) = Num (of_int n) \<and> t f \<le> n \<and> (n = t f \<longleftrightarrow> \<not> misread (t f))"
    if "f \<in> set brute_durations" for f
    using B(2) that reload_bounds(1) reload_exact_iff by blast
  then show ?thesis using load B(1) R(2) rest by (auto simp: brute_save_def equals_refl)
qed

text \<open>Picking another unit for a lifespan shows the least whole number of that unit that is not
  shorter, so what is saved is never less than before and less than one unit more, and exactly the
  same when the new unit divides it.\<close>

theorem token_pick_bounds:
  assumes "getf (fm_scope fm) f = Num (of_int n)" and "getf (fm_scope fm) (lifespan_unit f) = Str u"
    and "seconds_in u = Some s" and "seconds_in u' = Some s'"
  shows "\<exists>fm' n'. token_pick cv f (Str u') fm = Inr fm' \<and> getf (fm_scope fm') f = Num (of_int n')
    \<and> toSeconds cv (getf (fm_scope fm') f) (getf (fm_scope fm') (lifespan_unit f)) = Inr (Num (of_int (n' * s')))
    \<and> n * s \<le> n' * s' \<and> n' * s' < n * s + s' \<and> (s' dvd n * s \<longrightarrow> n' * s' = n * s)
    \<and> (\<not> equals (Obj (fm_scope fm')) (Obj (fm_old fm')) \<longrightarrow> fm_changed fm')"
proof -
  let ?n = "ceiling_div (n * s) s'"
  have "lifespan_unit f \<noteq> f" by (simp add: lifespan_unit_def)
  moreover have "0 < s'" using assms(4) by (rule seconds_in_pos)
  ultimately show ?thesis
    using assms convert_int [OF assms(3,4), of cv n] toSeconds_int [OF assms(4), of cv ?n]
      ceiling_div_bounds [of s' "n * s"] ceiling_div_exact_iff [of s' "n * s"]
    by (auto simp: token_pick_def pick_unit_def edit_form_def dvd_eq_mod_eq_0)
qed

section \<open>On concrete realms\<close>

definition demo_conv :: conv where
  "demo_conv = \<lparr>to_number = (\<lambda>s. None), to_string = (\<lambda>r. ''1'')\<rparr>"

definition demo_lifespans :: "string \<Rightarrow> int" where
  "demo_lifespans f = (if f = ''accessTokenLifespan'' then 300
     else if f = ''accessCodeLifespan'' then 1440 else 36000)"

definition demo_realm :: fields where
  "demo_realm = map (\<lambda>f. (f, Num (of_int (demo_lifespans f)))) token_lifespans"

theorem token_form_roundtrip_witness:
  "\<exists>fm b. RealmTokenDetailCtrl demo_conv demo_realm = Inr fm
    \<and> token_save demo_conv fm = Inr [Ask (Rest ''Realm'' ''update'' [] (Obj b))]
    \<and> getf b ''accessTokenLifespan'' = Num 300 \<and> getf b ''accessCodeLifespan'' \<noteq> Num 1440"
proof -
  have *: "\<forall>f \<in> set token_lifespans. getf demo_realm f = Num (of_int (demo_lifespans f))"
    "distinct_fields (Obj demo_realm)"
    by (simp_all add: demo_realm_def token_lifespans_def)
  have l: "''accessTokenLifespan'' \<in> set token_lifespans" "''accessCodeLifespan'' \<in> set token_lifespans"
    "demo_lifespans ''accessTokenLifespan'' = 300" "demo_lifespans ''accessCodeLifespan'' = 1440"
    by (simp_all add: token_lifespans_def demo_lifespans_def)
  show ?thesis
    using token_form_roundtrip [OF *, of demo_conv]
  proof (elim exE conjE, goal_cases)
    case (1 fm b)
    obtain m n where "getf b ''accessTokenLifespan'' = Num (of_int m)" "m = 300"
      "getf b ''accessCodeLifespan'' = Num (of_int n)" "n \<noteq> 1440"
      using bspec [OF 1(4) l(1)] bspec [OF 1(4) l(2)] l(3,4) by auto
    moreover have "(of_int n :: rat) \<noteq> 1440" using \<open>n \<noteq> 1440\<close> of_int_eq_iff [of n 1440] by simp
    ultimately show ?case using 1(1,3) by auto
  qed
qed

theorem token_pick_bounds_witness:
  "\<exists>fm'. token_pick demo_conv ''accessCodeLifespan'' (Str ''Hours'')
      \<lparr>fm_scope = [(''accessCodeLifespan'', Num 90), (''accessCodeLifespanUnit'', Str ''Minutes'')],
       fm_old = [], fm_changed = False\<rparr> = Inr fm'
    \<and> (\<exists>n. getf (fm_scope fm') ''accessCodeLifespan'' = Num (of_int n) \<and> 5400 \<le> n * 3600 \<and> n * 3600 < 9000)"
  using token_pick_bounds [of "\<lparr>fm_scope = [(''accessCodeLifespan'', Num 90), (''accessCodeLifespanUnit'', Str ''Minutes'')],
       fm_old = [], fm_changed = False\<rparr>" "''accessCodeLifespan''" 90 "''Minutes''" 60 "''Hours''" 3600 demo_conv]
  by (force simp: lifespan_unit_def seconds_in_def)

definition demo_guard :: fields where
  "demo_guard = (''bruteForceProtected'', Bool True) #
     map (\<lambda>f. (seconds_field f, Num 900)) brute_durations"

theorem brute_form_roundtrip_witness:
  "\<exists>fm fm' b. RealmBruteForceCtrl demo_conv demo_guard = Inr fm
    \<and> brute_save demo_conv fm = Inr (fm', [Ask (Rest ''Realm'' ''update'' [] (Obj b))])
    \<and> getf b ''bruteForceProtected'' = Bool True"
proof -
  have *: "\<forall>f \<in> set brute_durations. getf demo_guard (seconds_field f) = Num (of_int 900)
       \<and> getf demo_guard f = Undefined \<and> getf demo_guard (lifespan_unit f) = Undefined"
    "distinct_fields (Obj demo_guard)"
    "''bruteForceProtected'' \<notin> seconds_field ` set brute_durations"
    "getf demo_guard ''bruteForceProtected'' = Bool True"
    by (simp_all add: demo_guard_def brute_durations_def seconds_field_def lifespan_unit_def)
  show ?thesis
    using brute_form_roundtrip [OF *(1,2), of demo_conv]
  proof (elim exE conjE, goal_cases)
    case (1 fm fm' b)
    then show ?case using *(3,4) by auto
  qed
qed

end
