(* ===== verification/Admin_Forms.thy ===== *)
theory Admin_Forms
  imports Admin_Access Admin_Pager Admin_Time
begin

text \<open>
  The pages of a realm that edit it as a whole (\<open>genericRealmUpdate\<close>, \<open>RealmDetailCtrl\<close>,
  \<open>RealmSocialCtrl\<close>, \<open>RealmSMTPSettingsCtrl\<close>) and those that only send commands
  (\<open>RealmKeysDetailCtrl\<close>, \<open>RealmSessionStatsCtrl\<close>, \<open>RealmRevocationCtrl\<close>), of \<open>controllers/realm.js\<close>.
\<close>

section \<open>\<open>genericRealmUpdate\<close>\<close>

record realm_page =
  rp_form :: form
  rp_social :: jsval
  rp_registrationAllowed :: jsval

definition clean_form :: "fields \<Rightarrow> form" where
  "clean_form r = \<lparr>fm_scope = r, fm_old = r, fm_changed = False\<rparr>"

definition page_of :: "fields \<Rightarrow> realm_page" where
  "page_of realm = \<lparr>rp_form = clean_form realm, rp_social = getf realm ''social'',
     rp_registrationAllowed = getf realm ''registrationAllowed''\<rparr>"

definition genericRealmUpdate :: "fields \<Rightarrow> realm_page" where
  "genericRealmUpdate realm = page_of realm"

definition edit_page :: "fields \<Rightarrow> realm_page \<Rightarrow> realm_page" where
  "edit_page r p = p\<lparr>rp_form := edit_form r (rp_form p)\<rparr>"

definition reset_page :: "realm_page \<Rightarrow> realm_page" where
  "reset_page p = p\<lparr>rp_form := reset_form (rp_form p)\<rparr>"

text \<open>
  \<open>save\<close> sends a copy of the realm; its answer asks for the realms, and the answer to that query takes what the
  form shows by then as \<open>oldCopy\<close>, once the saved realm is among them.
\<close>

definition generic_save :: "realm_page \<Rightarrow> realm_page \<times> ceffect list" where
  "generic_save p =
     (p\<lparr>rp_form := (rp_form p)\<lparr>fm_changed := False\<rparr>\<rparr>,
      [Ask (Rest ''Realm'' ''update'' [(''id'', getf (fm_old (rp_form p)) ''realm'')] (Obj (fm_scope (rp_form p))))])"

definition show_flags :: "realm_page \<Rightarrow> realm_page" where
  "show_flags p = p\<lparr>rp_social := getf (fm_scope (rp_form p)) ''social'',
     rp_registrationAllowed := getf (fm_scope (rp_form p)) ''registrationAllowed''\<rparr>"

definition generic_saved :: "string \<Rightarrow> realm_page \<Rightarrow> realm_page \<times> ceffect list" where
  "generic_saved url p =
     (show_flags p,
      [Ask (Rest ''Realm'' ''query'' [] Undefined), GoTo url,
       Success ''Your changes have been saved to the realm.''])"

definition generic_listed :: "fields \<Rightarrow> fields list \<Rightarrow> realm_page \<times> session \<Rightarrow> realm_page \<times> session" where
  "generic_listed copy realms = (\<lambda>(p, s).
     (if realm_name copy \<in> set (map realm_name realms)
      then p\<lparr>rp_form := (rp_form p)\<lparr>fm_old := fm_scope (rp_form p)\<rparr>\<rparr> else p,
      s\<lparr>ss_realms := realms, ss_realm := last_named (realm_name copy) realms (ss_realm s)\<rparr>))"

definition realm_url :: "conv \<Rightarrow> fields \<Rightarrow> string \<Rightarrow> string" where
  "realm_url cv realm sub = ''/realms/'' @ str cv (realm_name realm) @ sub"

definition DefenseHeadersCtrl :: "conv \<Rightarrow> fields \<Rightarrow> realm_page \<times> string" where
  "DefenseHeadersCtrl cv realm = (genericRealmUpdate realm, realm_url cv realm ''/defense/headers'')"

definition RealmLoginSettingsCtrl :: "conv \<Rightarrow> fields \<Rightarrow> realm_page \<times> string" where
  "RealmLoginSettingsCtrl cv realm = (genericRealmUpdate realm, realm_url cv realm ''/login-settings'')"

definition RealmThemeCtrl :: "conv \<Rightarrow> fields \<Rightarrow> realm_page \<times> string" where
  "RealmThemeCtrl cv realm = (genericRealmUpdate realm, realm_url cv realm ''/theme-settings'')"

definition RealmCacheCtrl :: "conv \<Rightarrow> fields \<Rightarrow> realm_page \<times> string" where
  "RealmCacheCtrl cv realm = (genericRealmUpdate realm, realm_url cv realm ''/cache-settings'')"

section \<open>\<open>RealmDetailCtrl\<close>\<close>

text \<open>The flag \<open>changed\<close> starts as the field \<open>create\<close>, which this controller does not set.\<close>

definition RealmDetailCtrl :: "fields \<Rightarrow> session \<Rightarrow> realm_page \<times> session" where
  "RealmDetailCtrl realm s =
     (if \<not> truthy (realm_name realm)
      then (page_of [(''enabled'', Bool True), (''sslRequired'', Str ''external'')], s)
      else (page_of realm, detail_current realm s))"

definition detail_save :: "bool \<Rightarrow> realm_page \<Rightarrow> realm_page \<times> ceffect list" where
  "detail_save create p =
     (if create then (p, [Ask (Rest ''Realm'' ''save'' [] (Obj (fm_scope (rp_form p))))])
      else generic_save p)"

definition detail_created :: "ceffect list" where
  "detail_created = [Ask (Rest ''Realm'' ''query'' [] Undefined)]"

definition detail_created_listed :: "conv \<Rightarrow> fields \<Rightarrow> fields list \<Rightarrow> realm_page \<times> session
    \<Rightarrow> (realm_page \<times> session) \<times> ceffect list" where
  "detail_created_listed cv copy realms = (\<lambda>(p, s).
     ((show_flags p, s\<lparr>ss_realms := realms, ss_realm := last_named (realm_name copy) realms (ss_realm s)\<rparr>),
      [GoTo (realm_url cv copy []), Success ''The realm has been created.'']))"

definition detail_saved :: "conv \<Rightarrow> fields \<Rightarrow> realm_page \<Rightarrow> realm_page \<times> ceffect list" where
  "detail_saved cv copy p = generic_saved (realm_url cv copy []) p"

definition detail_remove :: "conv \<Rightarrow> realm_page \<Rightarrow> ceffect list" where
  "detail_remove cv p = [Confirm ''confirmDelete'' (str cv (realm_name (fm_scope (rp_form p)))) ''realm'']"

definition detail_remove_confirmed :: "realm_page \<Rightarrow> ceffect list" where
  "detail_remove_confirmed p =
     [Ask (Rest ''Realm'' ''remove'' [(''id'', realm_name (fm_scope (rp_form p)))] Undefined)]"

definition detail_removed :: "session \<Rightarrow> session \<times> ceffect list" where
  "detail_removed s = (s\<lparr>ss_realms := []\<rparr>,
     [Ask (Rest ''Realm'' ''query'' [] Undefined), Success ''The realm has been deleted.'', GoTo ''/''])"

section \<open>\<open>RealmSocialCtrl\<close>\<close>

definition configured_providers :: "jsval \<Rightarrow> string list" where
  "configured_providers providers =
     concat (map (\<lambda>(k, v). case js_split (CHR ''.'') k of
                             [i, j] \<Rightarrow> if j = ''key'' then [i] else []
                           | _ \<Rightarrow> []) (fields_of providers))"

definition addProvider :: "string \<Rightarrow> form \<Rightarrow> form" where
  "addProvider pId f =
     (let r = (if \<not> truthy (getf (fm_scope f) ''socialProviders'')
               then setf ''socialProviders'' (Obj []) (fm_scope f) else fm_scope f);
          ps = fields_of (getf r ''socialProviders'')
      in edit_form (setf ''socialProviders''
           (Obj (setf (pId @ ''.secret'') (Str []) (setf (pId @ ''.key'') (Str []) ps))) r) f)"

definition removeProvider :: "string \<Rightarrow> form \<Rightarrow> js_error + form" where
  "removeProvider pId f =
     (case getf (fm_scope f) ''socialProviders'' of
        Obj ps \<Rightarrow> Inr (edit_form (setf ''socialProviders''
          (Obj (delf (pId @ ''.secret'') (delf (pId @ ''.key'') ps))) (fm_scope f)) f)
      | Undefined \<Rightarrow> Inl TypeError
      | Null \<Rightarrow> Inl TypeError
      | _ \<Rightarrow> Inr f)"

definition social_save :: "form \<Rightarrow> form \<times> ceffect list" where
  "social_save f = (f\<lparr>fm_changed := False\<rparr>,
     [Ask (Rest ''Realm'' ''update'' [] (Obj (setf ''social'' (Bool True) (fm_scope f))))])"

definition social_saved :: "conv \<Rightarrow> fields \<Rightarrow> fields \<Rightarrow> form \<Rightarrow> form \<times> ceffect list" where
  "social_saved cv realm copy f = (f\<lparr>fm_old := copy\<rparr>,
     [GoTo (realm_url cv realm ''/social-settings''), Success ''The changes have been saved to the realm.''])"

section \<open>\<open>RealmSMTPSettingsCtrl\<close>\<close>

definition booleanSmtpAtts :: "string list" where
  "booleanSmtpAtts = [''auth'', ''ssl'', ''starttls'']"

definition type_att :: "string \<times> jsval \<Rightarrow> string \<times> jsval" where
  "type_att = (\<lambda>(k, v).
     (k, if k \<notin> set booleanSmtpAtts then v
         else if v = Str ''true'' then Bool True else if v = Str ''false'' then Bool False else v))"

definition typeObject :: "conv \<Rightarrow> fields \<Rightarrow> fields" where
  "typeObject cv obj =
     (let obj' = map type_att obj in setf ''port'' (parseInt cv (getf obj' ''port'')) obj')"

definition detype_att :: "string \<times> jsval \<Rightarrow> string \<times> jsval" where
  "detype_att = (\<lambda>(k, v).
     (k, if k \<notin> set booleanSmtpAtts then v
         else if v = Bool True then Str ''true'' else if v = Bool False then Str ''false'' else v))"

definition detypeObject :: "conv \<Rightarrow> fields \<Rightarrow> js_error + fields" where
  "detypeObject cv obj =
     (let obj' = map detype_att obj; port = getf obj' ''port''
      in if port = Undefined \<or> port = Null then Inl TypeError else Inr (setf ''port'' (Str (str cv port)) obj'))"

definition RealmSMTPSettingsCtrl :: "conv \<Rightarrow> fields \<Rightarrow> form" where
  "RealmSMTPSettingsCtrl cv realm =
     clean_form (case getf realm ''smtpServer'' of
                   Obj obj \<Rightarrow> setf ''smtpServer'' (Obj (typeObject cv obj)) realm
                 | _ \<Rightarrow> realm)"

definition smtp_save :: "conv \<Rightarrow> form \<Rightarrow> js_error + form \<times> ceffect list" where
  "smtp_save cv f =
     (case getf (fm_scope f) ''smtpServer'' of
        Obj obj \<Rightarrow>
          (case detypeObject cv obj of
             Inl e \<Rightarrow> Inl e
           | Inr obj' \<Rightarrow> Inr (f\<lparr>fm_changed := False\<rparr>,
               [Ask (Rest ''Realm'' ''update'' [] (Obj (setf ''smtpServer'' (Obj obj') (fm_scope f))))]))
      | _ \<Rightarrow> Inl TypeError)"

definition smtp_saved :: "conv \<Rightarrow> fields \<Rightarrow> ceffect list" where
  "smtp_saved cv realm =
     [GoTo (realm_url cv realm ''/smtp-settings''), Success ''Your changes have been saved to the realm.'']"

section \<open>\<open>RealmKeysDetailCtrl\<close>, \<open>RealmSessionStatsCtrl\<close>, \<open>RealmRevocationCtrl\<close>\<close>

definition keys_generate :: "conv \<Rightarrow> fields \<Rightarrow> ceffect list" where
  "keys_generate cv realm = [Confirm ''confirmGenerateKeys'' (str cv (realm_name realm)) ''realm'']"

definition keys_confirmed :: "fields \<Rightarrow> ceffect list" where
  "keys_confirmed realm = [Ask (Rest ''Realm'' ''update'' []
     (Obj [(''realm'', realm_name realm), (''publicKey'', Str ''GENERATE'')]))]"

definition keys_generated :: "fields \<Rightarrow> ceffect list" where
  "keys_generated realm = [Success ''New keys generated for realm.'',
     Ask (Rest ''Realm'' ''get'' [(''id'', realm_name realm)] Undefined)]"

definition realm_logoutAll :: "fields \<Rightarrow> ceffect list" where
  "realm_logoutAll realm = [Ask (Rest ''RealmLogoutAll'' ''save'' [] (Obj [(''realm'', realm_name realm)]))]"

definition realm_logged_out :: "fields \<Rightarrow> ceffect list" where
  "realm_logged_out realm = [Success ''Logged out all users'',
     Ask (Rest ''RealmApplicationSessionStats'' ''get'' [(''realm'', realm_name realm)] Undefined)]"

definition stats_updated :: "jsval \<Rightarrow> jsval \<Rightarrow> jsval \<times> ceffect list" where
  "stats_updated updated stats = (updated, [Success ''Logged out all users''])"

text \<open>\<open>v == 0\<close>; the text or the date that is shown; the time in milliseconds is a parameter.\<close>

datatype not_before = NoneSet | DateOf jsval

definition equals_zero :: "conv \<Rightarrow> jsval \<Rightarrow> bool" where
  "equals_zero cv v \<longleftrightarrow> v \<noteq> Null \<and> num cv v = Some 0"

definition setNotBefore :: "conv \<Rightarrow> fields \<Rightarrow> not_before" where
  "setNotBefore cv r =
     (if equals_zero cv (getf r ''notBefore'') then NoneSet else DateOf (times cv 1000 (getf r ''notBefore'')))"

record revocation =
  rv_subject :: fields
  rv_notBefore :: not_before

definition RealmRevocationCtrl :: "conv \<Rightarrow> fields \<Rightarrow> revocation" where
  "RealmRevocationCtrl cv realm = \<lparr>rv_subject = realm, rv_notBefore = setNotBefore cv realm\<rparr>"

definition revocation_loaded :: "conv \<Rightarrow> fields \<Rightarrow> revocation \<Rightarrow> revocation" where
  "revocation_loaded cv updated s = s\<lparr>rv_subject := updated, rv_notBefore := setNotBefore cv updated\<rparr>"

definition revocation_reset :: "fields \<Rightarrow> ceffect list" where
  "revocation_reset realm = [Ask (Rest ''Realm'' ''get'' [(''id'', realm_name realm)] Undefined)]"

definition revocation_clear :: "fields \<Rightarrow> ceffect list" where
  "revocation_clear realm = [Ask (Rest ''Realm'' ''update'' []
     (Obj [(''realm'', realm_name realm), (''notBefore'', Num 0)]))]"

definition revocation_cleared :: "fields \<Rightarrow> revocation \<Rightarrow> revocation \<times> ceffect list" where
  "revocation_cleared realm s =
     (s\<lparr>rv_notBefore := NoneSet\<rparr>, Success ''Not Before cleared for realm.'' # revocation_reset realm)"

definition revocation_now :: "rat \<Rightarrow> fields \<Rightarrow> ceffect list" where
  "revocation_now ms realm = [Ask (Rest ''Realm'' ''update'' []
     (Obj [(''realm'', realm_name realm), (''notBefore'', Num (ms / 1000))]))]"

definition revocation_set :: "fields \<Rightarrow> ceffect list" where
  "revocation_set realm = Success ''Not Before cleared for realm.'' # revocation_reset realm"

definition pushRevocation :: "fields \<Rightarrow> ceffect list" where
  "pushRevocation realm = [Ask (Rest ''RealmPushRevocation'' ''save'' [] (Obj [(''realm'', realm_name realm)]))]"

definition revocation_pushed :: "ceffect list" where
  "revocation_pushed = [Success ''Push sent for realm.'']"

section \<open>Saving a realm\<close>

text \<open>C37. What the form of a realm shows when the list of realms comes back becomes what \<open>reset\<close> restores: without
  an edit in between that is the realm that was sent, and an edit made after the button was pressed is
  from then on treated as saved although it was not sent.\<close>

theorem saved_edit_lost:
  assumes "realm_name (fm_scope (rp_form p)) \<in> set (map realm_name realms)"
  shows "let copy = fm_scope (rp_form p);
             waiting = fst (generic_saved url (fst (generic_save p)));
             page = fst (generic_listed copy realms (waiting, s));
             edited = fst (generic_listed copy realms (edit_page r waiting, s))
         in snd (generic_save p) = [Ask (Rest ''Realm'' ''update''
              [(''id'', getf (fm_old (rp_form p)) ''realm'')] (Obj copy))]
            \<and> rp_form page = \<lparr>fm_scope = copy, fm_old = copy, fm_changed = False\<rparr>
            \<and> rp_form (reset_page edited) = \<lparr>fm_scope = r, fm_old = r, fm_changed = False\<rparr>"
  using assms by (simp add: generic_saved_def generic_save_def generic_listed_def edit_page_def edit_form_def
    reset_page_def reset_form_def show_flags_def Let_def)

definition demo_realm_fields :: fields where
  "demo_realm_fields = [(''realm'', Str ''demo''), (''social'', Bool False)]"

theorem saved_edit_lost_witness:
  "rp_form (reset_page (fst (generic_listed demo_realm_fields [demo_realm_fields]
      (edit_page [(''realm'', Str ''other'')]
        (fst (generic_saved [] (fst (generic_save (genericRealmUpdate demo_realm_fields))))),
       \<lparr>ss_realms = [], ss_realm = None, ss_user = Null, ss_loggedIn = True\<rparr>))))
   = \<lparr>fm_scope = [(''realm'', Str ''other'')], fm_old = [(''realm'', Str ''other'')], fm_changed = False\<rparr>"
proof -
  have "fm_scope (rp_form (genericRealmUpdate demo_realm_fields)) = demo_realm_fields"
    by (simp add: genericRealmUpdate_def page_of_def clean_form_def)
  then show ?thesis
    using saved_edit_lost [of "genericRealmUpdate demo_realm_fields" "[demo_realm_fields]" "[]"
        "\<lparr>ss_realms = [], ss_realm = None, ss_user = Null, ss_loggedIn = True\<rparr>" "[(''realm'', Str ''other'')]"]
    by (simp add: Let_def)
qed

section \<open>The mail server of a realm\<close>

lemma parseInt_decimal: "parseInt cv (Str (decimal n)) = Num (of_nat n)"
proof -
  have digits: "\<forall>c \<in> set (decimal n). digit c" using decimal_digits by blast
  obtain c cs where cs: "decimal n = c # cs" by (cases "decimal n") simp_all
  then have c: "digit c" using digits by simp
  have digits_val: "number_value 10 m s = digits_value m s" if "\<forall>c \<in> set s. digit c" for m s
    using that by (induction s arbitrary: m) (auto simp: digit_def hexval_def Let_def)
  have digs: "takeWhile digit (decimal n) = decimal n" using digits by (simp add: takeWhile_eq_all_conv)
  have "dropWhile white (decimal n) = decimal n" "take 1 (decimal n) \<noteq> ''-''" "take 1 (decimal n) \<noteq> ''+''"
    using c cs by (auto simp: digit_def white_def)
  moreover have "take 2 (decimal n) \<noteq> ''0x''" "take 2 (decimal n) \<noteq> ''0X''"
    using digits cs by (cases cs; auto simp: digit_def)+
  ultimately show ?thesis
    using digits_val [OF digits]
    by (simp add: parseInt_def parseInt_str_def Let_def digits_value_decimal digs)
qed

lemma parseInt_undefined: "parseInt cv Undefined = NaN"
  by (simp add: parseInt_def str_def parseInt_str_def Let_def white_def digit_def)

lemma getf_map_att: "(\<And>k v. fst (f (k, v)) = k) \<Longrightarrow> f (k, Undefined) = (k, Undefined) \<Longrightarrow>
    getf (map f r) k = snd (f (k, getf r k))"
proof (induction r)
  case (Cons a r)
  obtain j v where a: "a = (j, v)" by (cases a)
  moreover obtain w where "f (j, v) = (j, w)" using Cons.prems(1) [of j v] by (cases "f (j, v)") auto
  ultimately show ?case using Cons by auto
qed simp

lemma getf_type_att: "getf (map type_att r) k =
    (if k \<notin> set booleanSmtpAtts then getf r k
     else if getf r k = Str ''true'' then Bool True else if getf r k = Str ''false'' then Bool False else getf r k)"
  by (subst getf_map_att) (simp_all add: type_att_def)

lemma getf_detype_att: "getf (map detype_att r) k =
    (if k \<notin> set booleanSmtpAtts then getf r k
     else if getf r k = Bool True then Str ''true'' else if getf r k = Bool False then Str ''false'' else getf r k)"
  by (subst getf_map_att) (simp_all add: detype_att_def)

lemma port_not_boolean [simp]: "''port'' \<notin> set booleanSmtpAtts"
  by (simp add: booleanSmtpAtts_def)

lemma smtp_fields:
  assumes "getf obj ''port'' = Str (decimal n) \<and> to_string cv (of_nat n) = decimal n \<or> getf obj ''port'' = Undefined"
    and "\<And>k b. k \<in> set booleanSmtpAtts \<Longrightarrow> getf obj k \<noteq> Bool b"
  shows "\<exists>obj'. detypeObject cv (typeObject cv obj) = Inr obj'
    \<and> (\<forall>k. getf obj' k = (if k = ''port'' \<and> getf obj k = Undefined then Str ''NaN'' else getf obj k))"
proof -
  let ?port = "getf (typeObject cv obj) ''port''"
  have port: "?port = (if getf obj ''port'' = Undefined then NaN else Num (of_nat n))"
    using assms(1) by (auto simp: typeObject_def Let_def getf_type_att parseInt_decimal parseInt_undefined)
  have "getf (setf ''port'' (Str (str cv ?port)) (map detype_att (typeObject cv obj))) k
      = (if k = ''port'' \<and> getf obj k = Undefined then Str ''NaN'' else getf obj k)" for k
  proof (cases "k = ''port''")
    case True
    then show ?thesis using assms(1) port by (auto simp: str_def)
  next
    case False
    then have "getf (typeObject cv obj) k = getf (map type_att obj) k" by (simp add: typeObject_def Let_def)
    then show ?thesis using False assms(2) [of k] by (auto simp: getf_type_att getf_detype_att)
  qed
  then show ?thesis
    using port by (simp add: detypeObject_def Let_def getf_detype_att)
qed

text \<open>Saving the mail server settings as they were opened sends the realm with the same settings, provided the
  port is a decimal number and the three switches are strings; a server without a port is sent with the
  port \<open>NaN\<close>, and a realm without a mail server cannot be saved at all.\<close>

theorem smtp_roundtrip:
  assumes "getf obj ''port'' = Str (decimal n) \<and> to_string cv (of_nat n) = decimal n \<or> getf obj ''port'' = Undefined"
    and "\<And>k b. k \<in> set booleanSmtpAtts \<Longrightarrow> getf obj k \<noteq> Bool b"
  shows "(getf realm ''smtpServer'' = Obj obj \<longrightarrow> (\<exists>f body obj'.
      smtp_save cv (RealmSMTPSettingsCtrl cv realm) = Inr (f, [Ask (Rest ''Realm'' ''update'' [] (Obj body))])
      \<and> getf body ''smtpServer'' = Obj obj'
      \<and> (\<forall>k. getf obj' k = (if k = ''port'' \<and> getf obj k = Undefined then Str ''NaN'' else getf obj k))
      \<and> (\<forall>k. k \<noteq> ''smtpServer'' \<longrightarrow> getf body k = getf realm k)))
    \<and> (getf realm ''smtpServer'' = Undefined \<longrightarrow>
      smtp_save cv (RealmSMTPSettingsCtrl cv realm) = Inl TypeError)"
proof -
  obtain obj' where "detypeObject cv (typeObject cv obj) = Inr obj'"
    "\<forall>k. getf obj' k = (if k = ''port'' \<and> getf obj k = Undefined then Str ''NaN'' else getf obj k)"
    using smtp_fields [OF assms] by blast
  then show ?thesis by (auto simp: smtp_save_def RealmSMTPSettingsCtrl_def clean_form_def)
qed

theorem smtp_roundtrip_witness:
  "\<exists>f body obj'. smtp_save pager_conv (RealmSMTPSettingsCtrl pager_conv
        [(''realm'', Str ''demo''), (''smtpServer'', Obj [(''port'', Str ''25''), (''ssl'', Str ''true'')])])
      = Inr (f, [Ask (Rest ''Realm'' ''update'' [] (Obj body))])
    \<and> getf body ''smtpServer'' = Obj obj' \<and> getf obj' ''port'' = Str ''25'' \<and> getf obj' ''ssl'' = Str ''true''"
proof -
  have 25: "decimal 25 = ''25''" by (simp add: decimal.simps hexd_def)
  then have 1: "getf [(''port'', Str ''25''), (''ssl'', Str ''true'')] ''port'' = Str (decimal 25)
      \<and> to_string pager_conv (of_nat 25) = decimal 25
      \<or> getf [(''port'', Str ''25''), (''ssl'', Str ''true'')] ''port'' = Undefined"
    by (simp add: pager_conv_def)
  have 2: "getf [(''port'', Str ''25''), (''ssl'', Str ''true'')] k \<noteq> Bool b" if "k \<in> set booleanSmtpAtts" for k b
    by simp
  show ?thesis
    using smtp_roundtrip [OF 1 2, of "[(''realm'', Str ''demo''), (''smtpServer'', Obj [(''port'', Str ''25''), (''ssl'', Str ''true'')])]"]
    by fastforce
qed

end
