(* ===== verification/Admin_Clients.thy ===== *)
theory Admin_Clients
  imports Admin_Forms
begin

text \<open>
  The pages of an application (\<open>controllers/applications.js\<close>) and of an OAuth client
  (\<open>controllers/oauth-clients.js\<close>): settings, credentials, claims, installation and revocation.
\<close>

section \<open>Credentials and claims\<close>

text \<open>The realm and the name of the application or client whose page it is.\<close>

record client_env =
  ce_realm :: string
  ce_name :: jsval

definition app_client_params :: "client_env \<Rightarrow> fields" where
  "app_client_params en = [(''realm'', Str (ce_realm en)), (''application'', ce_name en)]"

definition ApplicationCredentialsCtrl :: "client_env \<Rightarrow> ceffect list" where
  "ApplicationCredentialsCtrl en = [Ask (Rest ''ApplicationCredentials'' ''get'' (app_client_params en) Undefined)]"

definition app_changePassword :: "client_env \<Rightarrow> ceffect list" where
  "app_changePassword en = [Ask (Rest ''ApplicationCredentials'' ''update'' [] (Obj (app_client_params en)))]"

definition app_password_changed :: "fields option \<Rightarrow> jsval \<times> ceffect list" where
  "app_password_changed secret =
     (case secret of
        Some v \<Rightarrow> (getf v ''value'', [Success ''The secret has been changed.''])
      | None \<Rightarrow> (Str ''error'', [Failure ''The secret was not changed due to a problem.'']))"

definition ApplicationClaimsCtrl :: "fields \<Rightarrow> form" where
  "ApplicationClaimsCtrl claims = clean_form claims"

definition app_claims_save :: "client_env \<Rightarrow> form \<Rightarrow> ceffect list" where
  "app_claims_save en f = [Ask (Rest ''ApplicationClaims'' ''update'' (app_client_params en) (Obj (fm_scope f)))]"

definition app_claims_saved :: "form \<Rightarrow> form \<times> ceffect list" where
  "app_claims_saved f = (clean_form (fm_scope f), [Success ''Your claim changes have been saved.''])"

definition app_claims_reset :: "conv \<Rightarrow> client_env \<Rightarrow> ceffect list" where
  "app_claims_reset cv en = [GoTo (''/realms/'' @ ce_realm en @ ''/applications/'' @ str cv (ce_name en) @ ''/claims'')]"

definition oauth_client_params :: "client_env \<Rightarrow> fields" where
  "oauth_client_params en = [(''realm'', Str (ce_realm en)), (''oauth'', ce_name en)]"

definition OAuthClientCredentialsCtrl :: "client_env \<Rightarrow> ceffect list" where
  "OAuthClientCredentialsCtrl en = [Ask (Rest ''OAuthClientCredentials'' ''get'' (oauth_client_params en) Undefined)]"

definition oauth_changePassword :: "client_env \<Rightarrow> ceffect list" where
  "oauth_changePassword en = [Ask (Rest ''OAuthClientCredentials'' ''update'' [] (Obj (oauth_client_params en)))]"

definition oauth_password_changed :: "fields option \<Rightarrow> jsval \<times> ceffect list" where
  "oauth_password_changed secret =
     (case secret of
        Some v \<Rightarrow> (getf v ''value'', [Success ''The secret has been changed.''])
      | None \<Rightarrow> (Str ''error'', [Failure ''The secret was not changed due to a problem.'']))"

definition OAuthClientClaimsCtrl :: "fields \<Rightarrow> form" where
  "OAuthClientClaimsCtrl claims = clean_form claims"

definition oauth_claims_save :: "client_env \<Rightarrow> form \<Rightarrow> ceffect list" where
  "oauth_claims_save en f = [Ask (Rest ''OAuthClientClaims'' ''update'' (oauth_client_params en) (Obj (fm_scope f)))]"

definition oauth_claims_saved :: "form \<Rightarrow> form \<times> ceffect list" where
  "oauth_claims_saved f = (clean_form (fm_scope f), [Success ''Your claim changes have been saved.''])"

definition oauth_claims_reset :: "conv \<Rightarrow> client_env \<Rightarrow> ceffect list" where
  "oauth_claims_reset cv en = [GoTo (''/realms/'' @ ce_realm en @ ''/oauth-clients/'' @ str cv (ce_name en) @ ''/claims'')]"

section \<open>\<open>ApplicationInstallationCtrl\<close>, \<open>OAuthClientInstallationCtrl\<close>\<close>

text \<open>
  \<open>s.replace(pattern, replacement)\<close>: the first occurrence, with the dollar patterns of the replacement.
\<close>

fun expand :: "string \<Rightarrow> string \<Rightarrow> string \<Rightarrow> string \<Rightarrow> string" where
  "expand before found behind (c # d # r) =
     (if c = CHR ''$'' \<and> d = CHR ''$'' then CHR ''$'' # expand before found behind r
      else if c = CHR ''$'' \<and> d = CHR ''&'' then found @ expand before found behind r
      else if c = CHR ''$'' \<and> d = CHR ''`'' then before @ expand before found behind r
      else if c = CHR ''$'' \<and> byte d = 39 then behind @ expand before found behind r
      else c # expand before found behind (d # r))"
| "expand before found behind r = r"

definition js_replace :: "string \<Rightarrow> string \<Rightarrow> string \<Rightarrow> string" where
  "js_replace pat rep s =
     (let i = js_indexOf pat s in
      if i < 0 then s
      else (let before = take (nat i) s; behind = drop (nat i + length pat) s
            in before @ expand before pat behind rep @ behind))"

definition installation_url :: "string \<Rightarrow> string \<Rightarrow> string \<Rightarrow> string" where
  "installation_url auth realm application = js_replace '':application'' application (js_replace '':realm'' realm
     (auth @ ''/admin/realms/:realm/applications/:application/installation/json''))"

definition installation_jboss_url :: "string \<Rightarrow> string \<Rightarrow> string \<Rightarrow> string" where
  "installation_jboss_url auth realm application = js_replace '':application'' application (js_replace '':realm'' realm
     (auth @ ''/admin/realms/:realm/applications/:application/installation/jboss''))"

definition oauth_installation_url :: "string \<Rightarrow> string \<Rightarrow> string \<Rightarrow> string" where
  "oauth_installation_url auth realm oauth = js_replace '':oauth'' oauth (js_replace '':realm'' realm
     (auth @ ''/admin/realms/:realm/oauth-clients/:oauth/installation''))"

record installation =
  il_installation :: jsval
  il_configFormat :: jsval
  il_type :: string

definition configFormats :: "string list" where
  "configFormats = [''keycloak.json'', ''Wildfly/JBoss Subsystem XML'']"

definition ApplicationInstallationCtrl :: installation where
  "ApplicationInstallationCtrl = \<lparr>il_installation = Null, il_configFormat = Null, il_type = []\<rparr>"

definition changeFormat :: "string \<Rightarrow> string \<Rightarrow> string \<Rightarrow> installation \<Rightarrow> ceffect list" where
  "changeFormat auth realm application s =
     (if il_configFormat s = Str (configFormats ! 0)
      then [Ask (Http ''GET'' (installation_url auth realm application) Undefined)]
      else if il_configFormat s = Str (configFormats ! 1)
      then [Ask (Http ''GET'' (installation_jboss_url auth realm application) Undefined)] else [])"

text \<open>The answer: \<open>pretty\<close> is \<open>angular.toJson\<close> of the parsed data with indentation.\<close>

definition json_loaded :: "(jsval \<Rightarrow> jsval) \<Rightarrow> jsval \<Rightarrow> installation \<Rightarrow> installation" where
  "json_loaded pretty data s = s\<lparr>il_installation := pretty data, il_type := ''application/json''\<rparr>"

definition xml_loaded :: "jsval \<Rightarrow> installation \<Rightarrow> installation" where
  "xml_loaded data s = s\<lparr>il_installation := data, il_type := ''text/xml''\<rparr>"

text \<open>\<open>download\<close>: contents, type and name of the file; the name is the same for both formats.\<close>

definition download :: "installation \<Rightarrow> jsval \<times> string \<times> string" where
  "download s = (il_installation s, il_type s, ''keycloak.json'')"

section \<open>\<open>ApplicationDetailCtrl\<close>\<close>

text \<open>The form keeps \<open>$scope.application\<close> and, as its old copy, the argument \<open>application\<close>.\<close>

record client_page =
  cl_form :: form
  cl_create :: bool
  cl_accessType :: jsval
  cl_newWebOrigin :: jsval
  cl_newRedirectUri :: jsval

definition scope_of :: "client_page \<Rightarrow> fields" where
  "scope_of p = fm_scope (cl_form p)"

definition edit_client :: "fields \<Rightarrow> client_page \<Rightarrow> client_page" where
  "edit_client r p = p\<lparr>cl_form := edit_form r (cl_form p)\<rparr>"

definition new_client :: fields where
  "new_client = [(''enabled'', Bool True), (''webOrigins'', Arr []), (''redirectUris'', Arr [])]"

definition accessTypes :: "string list" where
  "accessTypes = [''confidential'', ''public'', ''bearer-only'']"

definition app_access_type :: "fields \<Rightarrow> string" where
  "app_access_type app =
     (if truthy (getf app ''bearerOnly'') then accessTypes ! 2
      else if truthy (getf app ''publicClient'') then accessTypes ! 1 else accessTypes ! 0)"

definition ApplicationDetailCtrl :: "fields \<Rightarrow> client_page" where
  "ApplicationDetailCtrl app =
     (let create = (\<not> truthy (getf app ''name''))
      in \<lparr>cl_form = watch_scope \<lparr>fm_scope = (if create then new_client else app), fm_old = app, fm_changed = False\<rparr>,
          cl_create = create,
          cl_accessType = Str (if create then accessTypes ! 0 else app_access_type app),
          cl_newWebOrigin = Undefined, cl_newRedirectUri = Undefined\<rparr>)"

definition app_changeAccessType :: "client_page \<Rightarrow> client_page" where
  "app_changeAccessType p =
     (if cl_accessType p = Str ''confidential''
      then edit_client (setf ''publicClient'' (Bool False) (setf ''bearerOnly'' (Bool False) (scope_of p))) p
      else if cl_accessType p = Str ''public''
      then edit_client (setf ''publicClient'' (Bool True) (setf ''bearerOnly'' (Bool False) (scope_of p))) p
      else if cl_accessType p = Str ''bearer-only''
      then edit_client (setf ''publicClient'' (Bool False) (setf ''bearerOnly'' (Bool True) (scope_of p))) p
      else p)"

definition app_pick_access :: "string \<Rightarrow> client_page \<Rightarrow> client_page" where
  "app_pick_access t p = app_changeAccessType (p\<lparr>cl_accessType := Str t\<rparr>)"

text \<open>\<open>splice(index, 1)\<close> and \<open>push\<close> on a field that must be an array.\<close>

definition app_deleteWebOrigin :: "nat \<Rightarrow> client_page \<Rightarrow> js_error + client_page" where
  "app_deleteWebOrigin i p =
     (case getf (scope_of p) ''webOrigins'' of
        Arr xs \<Rightarrow> Inr (edit_client (setf ''webOrigins'' (Arr (take i xs @ drop (Suc i) xs)) (scope_of p)) p)
      | _ \<Rightarrow> Inl TypeError)"

definition app_addWebOrigin :: "client_page \<Rightarrow> js_error + client_page" where
  "app_addWebOrigin p =
     (case getf (scope_of p) ''webOrigins'' of
        Arr xs \<Rightarrow> Inr ((edit_client (setf ''webOrigins'' (Arr (xs @ [cl_newWebOrigin p])) (scope_of p)) p)
                       \<lparr>cl_newWebOrigin := Str []\<rparr>)
      | _ \<Rightarrow> Inl TypeError)"

definition app_deleteRedirectUri :: "nat \<Rightarrow> client_page \<Rightarrow> js_error + client_page" where
  "app_deleteRedirectUri i p =
     (case getf (scope_of p) ''redirectUris'' of
        Arr xs \<Rightarrow> Inr (edit_client (setf ''redirectUris'' (Arr (take i xs @ drop (Suc i) xs)) (scope_of p)) p)
      | _ \<Rightarrow> Inl TypeError)"

definition app_addRedirectUri :: "client_page \<Rightarrow> js_error + client_page" where
  "app_addRedirectUri p =
     (case getf (scope_of p) ''redirectUris'' of
        Arr xs \<Rightarrow> Inr ((edit_client (setf ''redirectUris'' (Arr (xs @ [cl_newRedirectUri p])) (scope_of p)) p)
                       \<lparr>cl_newRedirectUri := Str []\<rparr>)
      | _ \<Rightarrow> Inl TypeError)"

definition none_given :: "jsval \<Rightarrow> bool" where
  "none_given v \<longleftrightarrow> \<not> truthy v \<or> v = Arr []"

text \<open>
  \<open>save\<close>: an application that logs users in needs a redirect uri.  When it is new and has no web origins, they
  become \<open>null\<close>, in the scope itself, so that the server puts in its defaults; the length of \<open>null\<close> is a
  \<open>TypeError\<close>.
\<close>

definition app_save :: "string \<Rightarrow> client_page \<Rightarrow> js_error + client_page \<times> ceffect list" where
  "app_save realm p =
     (if \<not> truthy (getf (scope_of p) ''bearerOnly'') \<and> none_given (getf (scope_of p) ''redirectUris'')
      then Inr (p, [Failure ''You must specify at least one redirect uri''])
      else if cl_create p
      then (let origins = getf (scope_of p) ''webOrigins''
            in if origins = Undefined \<or> origins = Null then Inl TypeError
               else (let p' = (if origins = Arr [] \<or> origins = Str []
                               then edit_client (setf ''webOrigins'' Null (scope_of p)) p else p)
                     in Inr (p', [Ask (Rest ''Application'' ''save''
                          [(''realm'', Str realm), (''application'', Str [])] (Obj (scope_of p')))])))
      else Inr (p, [Ask (Rest ''Application'' ''update''
             [(''realm'', Str realm), (''application'', getf (fm_old (cl_form p)) ''name'')] (Obj (scope_of p)))]))"

definition app_created :: "string \<Rightarrow> string \<Rightarrow> client_page \<Rightarrow> client_page \<times> ceffect list" where
  "app_created realm location p =
     (p\<lparr>cl_form := (cl_form p)\<lparr>fm_changed := False\<rparr>\<rparr>,
      [GoTo (''/realms/'' @ realm @ ''/applications/'' @ after_last_slash location),
       Success ''The application has been created.''])"

definition app_updated :: "conv \<Rightarrow> string \<Rightarrow> client_page \<Rightarrow> client_page \<times> ceffect list" where
  "app_updated cv realm p =
     (p\<lparr>cl_form := clean_form (scope_of p)\<rparr>,
      [GoTo (''/realms/'' @ realm @ ''/applications/'' @ str cv (getf (scope_of p) ''name'')),
       Success ''Your changes have been saved to the application.''])"

definition app_reset :: "client_page \<Rightarrow> client_page" where
  "app_reset p = p\<lparr>cl_form := reset_form (cl_form p)\<rparr>"

definition app_cancel :: "string \<Rightarrow> ceffect list" where
  "app_cancel realm = [GoTo (''/realms/'' @ realm @ ''/applications'')]"

definition app_remove :: "conv \<Rightarrow> client_page \<Rightarrow> ceffect list" where
  "app_remove cv p = [Confirm ''confirmDelete'' (str cv (getf (scope_of p) ''name'')) ''application'']"

definition app_remove_confirmed :: "string \<Rightarrow> client_page \<Rightarrow> ceffect list" where
  "app_remove_confirmed realm p = [Ask (Rest ''Application'' ''remove''
     [(''realm'', Str realm), (''application'', getf (scope_of p) ''name'')] (Obj (scope_of p)))]"

definition app_removed :: "string \<Rightarrow> ceffect list" where
  "app_removed realm = [GoTo (''/realms/'' @ realm @ ''/applications''), Success ''The application has been deleted.'']"

section \<open>\<open>OAuthClientDetailCtrl\<close>\<close>

definition OAuthClientDetailCtrl :: "fields \<Rightarrow> client_page" where
  "OAuthClientDetailCtrl oauth =
     (let create = (\<not> truthy (getf oauth ''id''))
      in \<lparr>cl_form = watch_scope \<lparr>fm_scope = (if create then new_client else oauth), fm_old = oauth, fm_changed = False\<rparr>,
          cl_create = create,
          cl_accessType = Str (if \<not> create \<and> truthy (getf oauth ''publicClient'') then ''public'' else ''confidential''),
          cl_newWebOrigin = Undefined, cl_newRedirectUri = Undefined\<rparr>)"

definition oauth_changeAccessType :: "client_page \<Rightarrow> client_page" where
  "oauth_changeAccessType p =
     (if cl_accessType p = Str ''confidential'' then edit_client (setf ''publicClient'' (Bool False) (scope_of p)) p
      else if cl_accessType p = Str ''public'' then edit_client (setf ''publicClient'' (Bool True) (scope_of p)) p
      else p)"

definition oauth_pick_access :: "string \<Rightarrow> client_page \<Rightarrow> client_page" where
  "oauth_pick_access t p = oauth_changeAccessType (p\<lparr>cl_accessType := Str t\<rparr>)"

text \<open>\<open>splice(index, 1)\<close> and \<open>push\<close> on a field that must be an array.\<close>

definition oauth_deleteWebOrigin :: "nat \<Rightarrow> client_page \<Rightarrow> js_error + client_page" where
  "oauth_deleteWebOrigin i p =
     (case getf (scope_of p) ''webOrigins'' of
        Arr xs \<Rightarrow> Inr (edit_client (setf ''webOrigins'' (Arr (take i xs @ drop (Suc i) xs)) (scope_of p)) p)
      | _ \<Rightarrow> Inl TypeError)"

definition oauth_addWebOrigin :: "client_page \<Rightarrow> js_error + client_page" where
  "oauth_addWebOrigin p =
     (case getf (scope_of p) ''webOrigins'' of
        Arr xs \<Rightarrow> Inr ((edit_client (setf ''webOrigins'' (Arr (xs @ [cl_newWebOrigin p])) (scope_of p)) p)
                       \<lparr>cl_newWebOrigin := Str []\<rparr>)
      | _ \<Rightarrow> Inl TypeError)"

definition oauth_deleteRedirectUri :: "nat \<Rightarrow> client_page \<Rightarrow> js_error + client_page" where
  "oauth_deleteRedirectUri i p =
     (case getf (scope_of p) ''redirectUris'' of
        Arr xs \<Rightarrow> Inr (edit_client (setf ''redirectUris'' (Arr (take i xs @ drop (Suc i) xs)) (scope_of p)) p)
      | _ \<Rightarrow> Inl TypeError)"

definition oauth_addRedirectUri :: "client_page \<Rightarrow> js_error + client_page" where
  "oauth_addRedirectUri p =
     (case getf (scope_of p) ''redirectUris'' of
        Arr xs \<Rightarrow> Inr ((edit_client (setf ''redirectUris'' (Arr (xs @ [cl_newRedirectUri p])) (scope_of p)) p)
                       \<lparr>cl_newRedirectUri := Str []\<rparr>)
      | _ \<Rightarrow> Inl TypeError)"

definition oauth_save :: "string \<Rightarrow> client_page \<Rightarrow> ceffect list" where
  "oauth_save realm p =
     (if \<not> truthy (getf (scope_of p) ''directGrantsOnly'') \<and> none_given (getf (scope_of p) ''redirectUris'')
      then [Failure ''You must specify at least one redirect uri'']
      else if cl_create p then [Ask (Rest ''OAuthClient'' ''save'' [(''realm'', Str realm)] (Obj (scope_of p)))]
      else [Ask (Rest ''OAuthClient'' ''update''
             [(''realm'', Str realm), (''oauth'', getf (fm_old (cl_form p)) ''name'')] (Obj (scope_of p)))])"

definition oauth_created :: "string \<Rightarrow> string \<Rightarrow> client_page \<Rightarrow> client_page \<times> ceffect list" where
  "oauth_created realm location p =
     (p\<lparr>cl_form := (cl_form p)\<lparr>fm_changed := False\<rparr>\<rparr>,
      [GoTo (''/realms/'' @ realm @ ''/oauth-clients/'' @ after_last_slash location),
       Success ''The oauth client has been created.''])"

definition oauth_updated :: "conv \<Rightarrow> string \<Rightarrow> client_page \<Rightarrow> client_page \<times> ceffect list" where
  "oauth_updated cv realm p =
     (p\<lparr>cl_form := clean_form (scope_of p)\<rparr>,
      [GoTo (''/realms/'' @ realm @ ''/oauth-clients/'' @ str cv (getf (scope_of p) ''name'')),
       Success ''Your changes have been saved to the oauth client.''])"

definition oauth_reset :: "client_page \<Rightarrow> client_page" where
  "oauth_reset p = p\<lparr>cl_form := reset_form (cl_form p)\<rparr>"

definition oauth_cancel :: "string \<Rightarrow> ceffect list" where
  "oauth_cancel realm = [GoTo (''/realms/'' @ realm @ ''/oauth-clients'')]"

definition oauth_remove :: "conv \<Rightarrow> client_page \<Rightarrow> ceffect list" where
  "oauth_remove cv p = [Confirm ''confirmDelete'' (str cv (getf (scope_of p) ''name'')) ''oauth'']"

definition oauth_remove_confirmed :: "string \<Rightarrow> client_page \<Rightarrow> ceffect list" where
  "oauth_remove_confirmed realm p = [Ask (Rest ''OAuthClient'' ''remove''
     [(''realm'', Str realm), (''oauth'', getf (scope_of p) ''name'')] (Obj (scope_of p)))]"

definition oauth_removed :: "string \<Rightarrow> ceffect list" where
  "oauth_removed realm = [GoTo (''/realms/'' @ realm @ ''/oauth-clients''), Success ''The oauth client has been deleted.'']"

section \<open>\<open>ApplicationRevocationCtrl\<close>, \<open>OAuthClientRevocationCtrl\<close>\<close>

definition ApplicationRevocationCtrl :: "conv \<Rightarrow> fields \<Rightarrow> revocation" where
  "ApplicationRevocationCtrl cv subject = \<lparr>rv_subject = subject, rv_notBefore = setNotBefore cv subject\<rparr>"

definition app_rev_refresh :: "string \<Rightarrow> revocation \<Rightarrow> ceffect list" where
  "app_rev_refresh realm s = [Ask (Rest ''Application'' ''get''
     [(''realm'', Str realm), (''application'', getf (rv_subject s) ''name'')] Undefined)]"

definition app_rev_update :: "string \<Rightarrow> jsval \<Rightarrow> revocation \<Rightarrow> ceffect list" where
  "app_rev_update realm name s = [Ask (Rest ''Application'' ''update''
     [(''realm'', Str realm), (''application'', name)] (Obj (rv_subject s)))]"

definition app_rev_clear :: "string \<Rightarrow> jsval \<Rightarrow> revocation \<Rightarrow> revocation \<times> ceffect list" where
  "app_rev_clear realm name s =
     (let s' = s\<lparr>rv_subject := setf ''notBefore'' (Num 0) (rv_subject s)\<rparr> in (s', app_rev_update realm name s'))"

definition app_rev_cleared :: "string \<Rightarrow> revocation \<Rightarrow> revocation \<times> ceffect list" where
  "app_rev_cleared realm s = (s\<lparr>rv_notBefore := NoneSet\<rparr>,
     Success ''Not Before cleared for application.'' # app_rev_refresh realm s)"

definition app_rev_now :: "rat \<Rightarrow> string \<Rightarrow> revocation \<Rightarrow> revocation \<times> ceffect list" where
  "app_rev_now ms realm s =
     (let s' = s\<lparr>rv_subject := setf ''notBefore'' (Num (ms / 1000)) (rv_subject s)\<rparr>
      in (s', app_rev_update realm (getf (rv_subject s) ''name'') s'))"

definition app_rev_set :: "string \<Rightarrow> revocation \<Rightarrow> ceffect list" where
  "app_rev_set realm s = Success ''Not Before cleared for application.'' # app_rev_refresh realm s"

definition app_rev_loaded :: "conv \<Rightarrow> fields \<Rightarrow> revocation \<Rightarrow> revocation" where
  "app_rev_loaded cv updated s = s\<lparr>rv_subject := updated, rv_notBefore := setNotBefore cv updated\<rparr>"

definition app_pushRevocation :: "string \<Rightarrow> revocation \<Rightarrow> ceffect list" where
  "app_pushRevocation realm s = [Ask (Rest ''ApplicationPushRevocation'' ''save'' []
     (Obj [(''realm'', Str realm), (''application'', getf (rv_subject s) ''name'')]))]"

definition app_revocation_pushed :: "ceffect list" where
  "app_revocation_pushed = [Success ''Push sent for application.'']"

definition OAuthClientRevocationCtrl :: "conv \<Rightarrow> fields \<Rightarrow> revocation" where
  "OAuthClientRevocationCtrl cv subject = \<lparr>rv_subject = subject, rv_notBefore = setNotBefore cv subject\<rparr>"

definition oauth_rev_refresh :: "string \<Rightarrow> revocation \<Rightarrow> ceffect list" where
  "oauth_rev_refresh realm s = [Ask (Rest ''OAuthClient'' ''get''
     [(''realm'', Str realm), (''oauth'', getf (rv_subject s) ''name'')] Undefined)]"

definition oauth_rev_update :: "string \<Rightarrow> jsval \<Rightarrow> revocation \<Rightarrow> ceffect list" where
  "oauth_rev_update realm name s = [Ask (Rest ''OAuthClient'' ''update''
     [(''realm'', Str realm), (''oauth'', name)] (Obj (rv_subject s)))]"

definition oauth_rev_clear :: "string \<Rightarrow> jsval \<Rightarrow> revocation \<Rightarrow> revocation \<times> ceffect list" where
  "oauth_rev_clear realm name s =
     (let s' = s\<lparr>rv_subject := setf ''notBefore'' (Num 0) (rv_subject s)\<rparr> in (s', oauth_rev_update realm name s'))"

definition oauth_rev_cleared :: "string \<Rightarrow> revocation \<Rightarrow> revocation \<times> ceffect list" where
  "oauth_rev_cleared realm s = (s\<lparr>rv_notBefore := NoneSet\<rparr>,
     Success ''Not Before cleared for application.'' # oauth_rev_refresh realm s)"

definition oauth_rev_now :: "rat \<Rightarrow> string \<Rightarrow> revocation \<Rightarrow> revocation \<times> ceffect list" where
  "oauth_rev_now ms realm s =
     (let s' = s\<lparr>rv_subject := setf ''notBefore'' (Num (ms / 1000)) (rv_subject s)\<rparr>
      in (s', oauth_rev_update realm (getf (rv_subject s) ''name'') s'))"

definition oauth_rev_set :: "string \<Rightarrow> revocation \<Rightarrow> ceffect list" where
  "oauth_rev_set realm s = Success ''Not Before cleared for application.'' # oauth_rev_refresh realm s"

definition oauth_rev_loaded :: "conv \<Rightarrow> fields \<Rightarrow> revocation \<Rightarrow> revocation" where
  "oauth_rev_loaded cv updated s = s\<lparr>rv_subject := updated, rv_notBefore := setNotBefore cv updated\<rparr>"

section \<open>The type of access\<close>

lemma app_pick_fields:
  "t \<in> set accessTypes \<Longrightarrow> app_access_type (scope_of (app_pick_access t p)) = t"
  "t \<in> set accessTypes \<Longrightarrow> getf (scope_of (app_pick_access t p)) ''name'' = getf (scope_of p) ''name''"
  by (auto simp: app_pick_access_def app_changeAccessType_def accessTypes_def app_access_type_def edit_client_def
    edit_form_def scope_of_def)

text \<open>C38. The type of access that is picked for an application is the one its page shows when the saved
  application is opened again; the same holds for an OAuth client and its two types; but resetting
  the page brings back the stored settings and leaves the picked type on display.\<close>

theorem access_type_roundtrip:
  assumes "truthy (getf (scope_of p) ''name'')" and "t \<in> set accessTypes"
    and "truthy (getf (scope_of q) ''id'')" and "u \<in> {''confidential'', ''public''}"
  shows "cl_accessType (ApplicationDetailCtrl (scope_of (app_pick_access t p))) = Str t
    \<and> cl_accessType (OAuthClientDetailCtrl (scope_of (oauth_pick_access u q))) = Str u
    \<and> scope_of (app_reset (app_pick_access t p)) = fm_old (cl_form p)
    \<and> cl_accessType (app_reset (app_pick_access t p)) = Str t"
proof (intro conjI)
  show "cl_accessType (ApplicationDetailCtrl (scope_of (app_pick_access t p))) = Str t"
    using assms(1) app_pick_fields [OF assms(2), of p] by (simp add: ApplicationDetailCtrl_def)
  show "cl_accessType (OAuthClientDetailCtrl (scope_of (oauth_pick_access u q))) = Str u"
    using assms(3,4) by (auto simp: OAuthClientDetailCtrl_def oauth_pick_access_def oauth_changeAccessType_def
      scope_of_def edit_client_def edit_form_def)
  show "scope_of (app_reset (app_pick_access t p)) = fm_old (cl_form p)"
    and "cl_accessType (app_reset (app_pick_access t p)) = Str t"
    by (simp_all add: app_pick_access_def app_changeAccessType_def app_reset_def reset_form_def scope_of_def
      edit_client_def edit_form_def)
qed

theorem access_type_roundtrip_witness:
  "cl_accessType (ApplicationDetailCtrl (scope_of (app_pick_access ''public''
      (ApplicationDetailCtrl [(''name'', Str ''shop''), (''bearerOnly'', Bool True)])))) = Str ''public''"
proof -
  have "scope_of (ApplicationDetailCtrl [(''name'', Str ''shop''), (''bearerOnly'', Bool True)])
      = [(''name'', Str ''shop''), (''bearerOnly'', Bool True)]"
    by (simp add: ApplicationDetailCtrl_def scope_of_def)
  moreover have "scope_of (OAuthClientDetailCtrl [(''id'', Str ''c'')]) = [(''id'', Str ''c'')]"
    by (simp add: OAuthClientDetailCtrl_def scope_of_def)
  ultimately show ?thesis
    using access_type_roundtrip [of "ApplicationDetailCtrl [(''name'', Str ''shop''), (''bearerOnly'', Bool True)]"
        "''public''" "OAuthClientDetailCtrl [(''id'', Str ''c'')]" "''public''"]
    by (simp add: accessTypes_def)
qed

section \<open>Creating an application\<close>

text \<open>Saving a new application with a redirect uri and no web origins sends it with the origins left to the
  server, but the page keeps them as \<open>null\<close>: if the server refuses the application, the next save fails
  with a \<open>TypeError\<close> and so does adding an origin, while an OAuth client can be sent again.\<close>

theorem create_retry_throws:
  assumes "cl_create p" and "getf (scope_of p) ''webOrigins'' = Arr []"
    and "getf (scope_of p) ''redirectUris'' = Arr (u # us)"
  shows "\<exists>p'. app_save realm p = Inr (p', [Ask (Rest ''Application'' ''save''
            [(''realm'', Str realm), (''application'', Str [])] (Obj (setf ''webOrigins'' Null (scope_of p))))])
      \<and> app_save realm p' = Inl TypeError \<and> app_addWebOrigin p' = Inl TypeError
      \<and> oauth_save realm p = [Ask (Rest ''OAuthClient'' ''save'' [(''realm'', Str realm)] (Obj (scope_of p)))]"
  using assms by (simp add: app_save_def oauth_save_def none_given_def app_addWebOrigin_def edit_client_def
    edit_form_def scope_of_def Let_def)

theorem create_retry_throws_witness:
  "\<exists>p'. app_addRedirectUri (ApplicationDetailCtrl [] \<lparr>cl_newRedirectUri := Str ''http://a/*''\<rparr>) = Inr p'
    \<and> (\<exists>p''. app_save ''demo'' p' = Inr (p'', [Ask (Rest ''Application'' ''save''
          [(''realm'', Str ''demo''), (''application'', Str [])] (Obj (setf ''webOrigins'' Null (scope_of p'))))])
        \<and> app_save ''demo'' p'' = Inl TypeError)"
proof -
  obtain p' where p': "app_addRedirectUri (ApplicationDetailCtrl [] \<lparr>cl_newRedirectUri := Str ''http://a/*''\<rparr>) = Inr p'"
    "cl_create p'" "getf (scope_of p') ''webOrigins'' = Arr []"
    "getf (scope_of p') ''redirectUris'' = Arr [Str ''http://a/*'']"
    by (simp add: app_addRedirectUri_def ApplicationDetailCtrl_def new_client_def scope_of_def edit_client_def edit_form_def)
  then show ?thesis using create_retry_throws [OF p'(2-4), of "''demo''"] by blast
qed

end
