(* ===== verification/Admin_Users.thy ===== *)
theory Admin_Users
  imports Admin_Forms
begin

text \<open>
  The pages of a user (\<open>UserDetailCtrl\<close>, \<open>UserCredentialsCtrl\<close>, \<open>UserSessionsCtrl\<close>) and of the user
  federation providers (\<open>UserFederationCtrl\<close>, \<open>GenericUserFederationCtrl\<close>, \<open>LDAPCtrl\<close>), of
  \<open>controllers/users.js\<close>.
\<close>

section \<open>\<open>UserDetailCtrl\<close>\<close>

text \<open>The form keeps \<open>$scope.user\<close> and, as its old copy, the argument \<open>user\<close>.\<close>

record user_page =
  up_form :: form
  up_create :: bool
  up_federationLinkName :: jsval
  up_federationLink :: jsval

definition UserDetailCtrl :: "string \<Rightarrow> fields \<Rightarrow> user_page \<times> ceffect list" where
  "UserDetailCtrl realm user =
     (let create = (\<not> truthy (getf user ''username''));
          shown = (if create then setf ''enabled'' (Bool True) user else user);
          link = getf user ''federationLink''
      in (\<lparr>up_form = watch_scope \<lparr>fm_scope = shown, fm_old = user, fm_changed = False\<rparr>, up_create = create,
           up_federationLinkName = Undefined, up_federationLink = Undefined\<rparr>,
          if \<not> create \<and> truthy link
          then [Ask (Rest ''UserFederationInstances'' ''get'' [(''realm'', Str realm), (''instance'', link)] Undefined)]
          else []))"

definition user_link_loaded :: "conv \<Rightarrow> string \<Rightarrow> fields \<Rightarrow> user_page \<Rightarrow> user_page" where
  "user_link_loaded cv realm link p = p\<lparr>up_federationLinkName := getf link ''displayName'',
     up_federationLink := Str (''#/realms/'' @ realm @ ''/user-federation/providers/''
       @ str cv (getf link ''providerName'') @ ''/'' @ str cv (getf link ''id''))\<rparr>"

definition user_save :: "string \<Rightarrow> user_page \<Rightarrow> ceffect list" where
  "user_save realm p =
     (let u = fm_scope (up_form p) in
      if up_create p then [Ask (Rest ''User'' ''save'' [(''realm'', Str realm)] (Obj u))]
      else [Ask (Rest ''User'' ''update'' [(''realm'', Str realm), (''userId'', getf u ''username'')] (Obj u))])"

definition user_created :: "conv \<Rightarrow> string \<Rightarrow> user_page \<Rightarrow> user_page \<times> ceffect list" where
  "user_created cv realm p =
     (p\<lparr>up_form := clean_form (fm_scope (up_form p))\<rparr>,
      [GoTo (''/realms/'' @ realm @ ''/users/'' @ str cv (getf (fm_scope (up_form p)) ''username'')),
       Success ''The user has been created.''])"

definition user_updated :: "user_page \<Rightarrow> user_page \<times> ceffect list" where
  "user_updated p = (p\<lparr>up_form := clean_form (fm_scope (up_form p))\<rparr>,
     [Success ''Your changes have been saved to the user.''])"

definition user_reset :: "user_page \<Rightarrow> user_page" where
  "user_reset p = p\<lparr>up_form := reset_form (up_form p)\<rparr>"

definition user_cancel :: "string \<Rightarrow> ceffect list" where
  "user_cancel realm = [GoTo (''/realms/'' @ realm @ ''/users'')]"

definition user_remove :: "conv \<Rightarrow> user_page \<Rightarrow> ceffect list" where
  "user_remove cv p = [Confirm ''confirmDelete'' (str cv (getf (fm_scope (up_form p)) ''username'')) ''user'']"

definition user_remove_confirmed :: "string \<Rightarrow> user_page \<Rightarrow> ceffect list" where
  "user_remove_confirmed realm p = [Ask (Rest ''User'' ''remove''
     [(''realm'', Str realm), (''userId'', getf (fm_scope (up_form p)) ''username'')] (Obj (fm_scope (up_form p))))]"

definition user_removed :: "string \<Rightarrow> bool \<Rightarrow> ceffect list" where
  "user_removed realm ok =
     (if ok then [GoTo (''/realms/'' @ realm @ ''/users''), Success ''The user has been deleted.'']
      else [Failure ''User couldn't be deleted''])"

section \<open>\<open>UserCredentialsCtrl\<close>\<close>

record credentials_page =
  cp_user :: fields
  cp_saved :: fields
  cp_temporaryPassword :: jsval
  cp_isTotp :: jsval
  cp_password :: jsval
  cp_confirmPassword :: jsval
  cp_pwdChange :: bool
  cp_userChange :: bool

definition totp_of :: "fields \<Rightarrow> jsval" where
  "totp_of user = (if truthy (getf user ''totp'') then getf user ''totp'' else Bool False)"

definition UserCredentialsCtrl :: "fields \<Rightarrow> credentials_page" where
  "UserCredentialsCtrl user = \<lparr>cp_user = user, cp_saved = user, cp_temporaryPassword = Bool True,
     cp_isTotp = totp_of user, cp_password = Undefined, cp_confirmPassword = Undefined,
     cp_pwdChange = False, cp_userChange = False\<rparr>"

text \<open>The two watches, which run in every digest.\<close>

definition watch_user :: "credentials_page \<Rightarrow> credentials_page" where
  "watch_user p = p\<lparr>cp_userChange := (\<not> equals (Obj (cp_user p)) (Obj (cp_saved p)))\<rparr>"

definition watch_password :: "credentials_page \<Rightarrow> credentials_page" where
  "watch_password p = p\<lparr>cp_pwdChange := truthy (cp_password p)\<rparr>"

definition type_password :: "jsval \<Rightarrow> credentials_page \<Rightarrow> credentials_page" where
  "type_password v p = watch_password (p\<lparr>cp_password := v\<rparr>)"

definition type_confirmation :: "jsval \<Rightarrow> credentials_page \<Rightarrow> credentials_page" where
  "type_confirmation v p = p\<lparr>cp_confirmPassword := v\<rparr>"

definition resetPassword :: "credentials_page \<Rightarrow> ceffect list" where
  "resetPassword p =
     (if cp_pwdChange p \<and> cp_password p \<noteq> cp_confirmPassword p
      then [Failure ''Password and confirmation does not match.'']
      else [Confirm ''confirm'' ''Change password'' ''Are you sure you want to change the users password?''])"

definition user_params_of :: "string \<Rightarrow> credentials_page \<Rightarrow> fields" where
  "user_params_of realm p = [(''realm'', Str realm), (''userId'', getf (cp_saved p) ''username'')]"

definition resetPassword_confirmed :: "string \<Rightarrow> credentials_page \<Rightarrow> ceffect list" where
  "resetPassword_confirmed realm p = [Ask (Rest ''UserCredentials.resetPassword'' ''update'' (user_params_of realm p)
     (Obj [(''type'', Str ''password''), (''value'', cp_password p), (''temporary'', cp_temporaryPassword p)]))]"

definition password_dropped :: "credentials_page \<Rightarrow> credentials_page" where
  "password_dropped p = watch_password (p\<lparr>cp_password := Null, cp_confirmPassword := Null\<rparr>)"

definition password_reset :: "bool \<Rightarrow> credentials_page \<Rightarrow> credentials_page \<times> ceffect list" where
  "password_reset ok p =
     (if ok then (password_dropped p, [Success ''The password has been reset''])
      else (p, [Failure ''Failed to reset user password'']))"

definition removeTotp :: "ceffect list" where
  "removeTotp = [Confirm ''confirm'' ''Remove totp'' ''Are you sure you want to remove the users totp configuration?'']"

definition removeTotp_confirmed :: "string \<Rightarrow> credentials_page \<Rightarrow> ceffect list" where
  "removeTotp_confirmed realm p =
     [Ask (Rest ''UserCredentials.removeTotp'' ''update'' (user_params_of realm p) (Obj []))]"

definition totp_removed :: "bool \<Rightarrow> credentials_page \<Rightarrow> credentials_page \<times> ceffect list" where
  "totp_removed ok p =
     (if ok then (watch_user (p\<lparr>cp_user := setf ''totp'' (Bool False) (cp_user p)\<rparr>),
                  [Success ''The users totp configuration has been removed''])
      else (p, [Failure ''Failed to remove the users totp configuration'']))"

definition resetPasswordEmail :: "ceffect list" where
  "resetPasswordEmail = [Confirm ''confirm'' ''Reset password email''
     ''Are you sure you want to send password reset email to user?'']"

definition email_confirmed :: "string \<Rightarrow> credentials_page \<Rightarrow> ceffect list" where
  "email_confirmed realm p =
     [Ask (Rest ''UserCredentials.resetPasswordEmail'' ''update'' (user_params_of realm p) (Obj []))]"

definition email_sent :: "bool \<Rightarrow> ceffect list" where
  "email_sent ok = (if ok then [Success ''Password reset email sent to user'']
     else [Failure ''Failed to send password reset mail to user''])"

definition credentials_reset :: "credentials_page \<Rightarrow> credentials_page" where
  "credentials_reset p = p\<lparr>cp_password := Str [], cp_confirmPassword := Str [], cp_user := cp_saved p,
     cp_isTotp := totp_of (cp_saved p), cp_pwdChange := False, cp_userChange := False\<rparr>"

section \<open>\<open>UserSessionsCtrl\<close>, \<open>UserFederationCtrl\<close>\<close>

definition user_logoutAll :: "string \<Rightarrow> jsval \<Rightarrow> ceffect list" where
  "user_logoutAll realm user = [Ask (Rest ''UserLogout'' ''save'' [] (Obj [(''realm'', Str realm), (''user'', user)]))]"

definition ask_sessions :: "string \<Rightarrow> jsval \<Rightarrow> ceffect" where
  "ask_sessions realm user = Ask (Rest ''UserSessions'' ''query'' [(''realm'', Str realm), (''user'', user)] Undefined)"

definition user_logged_out :: "string \<Rightarrow> jsval \<Rightarrow> ceffect list" where
  "user_logged_out realm user = [Success ''Logged out user in all applications'', ask_sessions realm user]"

definition logoutSession :: "string \<Rightarrow> jsval \<Rightarrow> ceffect list" where
  "logoutSession realm session =
     [Ask (Rest ''UserSessionLogout'' ''delete'' [(''realm'', Str realm), (''session'', session)] Undefined)]"

definition session_logged_out :: "string \<Rightarrow> jsval \<Rightarrow> ceffect list" where
  "session_logged_out realm user = [ask_sessions realm user]"

definition sessions_updated :: "jsval list \<Rightarrow> jsval list \<times> ceffect list" where
  "sessions_updated updated = (updated, [Success ''Logged out session''])"

definition UserFederationCtrl :: "string \<Rightarrow> ceffect list" where
  "UserFederationCtrl realm =
     [Ask (Rest ''UserFederationProviders'' ''query'' [(''realm'', Str realm)] Undefined),
      Ask (Rest ''UserFederationInstances'' ''query'' [(''realm'', Str realm)] Undefined)]"

definition federation_addProvider :: "conv \<Rightarrow> string \<Rightarrow> fields \<Rightarrow> ceffect list" where
  "federation_addProvider cv realm provider =
     [GoTo (''/create/user-federation/'' @ realm @ ''/providers/'' @ str cv (getf provider ''id''))]"

section \<open>What the provider pages share\<close>

text \<open>
  \<open>a == b\<close> on primitive values.  A watch calls its listener when the value is not identical to the last one.
\<close>

definition nothing :: "jsval \<Rightarrow> bool" where
  "nothing v \<longleftrightarrow> v = Undefined \<or> v = Null"

definition loose_eq :: "conv \<Rightarrow> jsval \<Rightarrow> jsval \<Rightarrow> bool" where
  "loose_eq cv a b \<longleftrightarrow>
     (if nothing a \<or> nothing b then nothing a \<and> nothing b
      else case (a, b) of (Str s, Str t) \<Rightarrow> s = t | _ \<Rightarrow> num cv a \<noteq> None \<and> num cv a = num cv b)"

text \<open>\<open>x && x > 0\<close>, and \<open>x && x == "true"\<close>.\<close>

definition positive :: "conv \<Rightarrow> jsval \<Rightarrow> jsval" where
  "positive cv v = (if truthy v then Bool (case num cv v of None \<Rightarrow> False | Some x \<Rightarrow> 0 < x) else v)"

definition is_true :: "jsval \<Rightarrow> jsval" where
  "is_true v = (if truthy v then Bool (v = Str ''true'') else v)"

section \<open>\<open>GenericUserFederationCtrl\<close>\<close>

text \<open>\<open>fe_saved\<close> is the argument \<open>instance\<close>, into which \<open>initFederationSettings\<close> writes when it is new.\<close>

record federation =
  fe_instance :: fields
  fe_saved :: fields
  fe_create :: bool
  fe_changed :: bool
  fe_fullSync :: jsval
  fe_changedSync :: jsval
  fe_factory :: jsval

definition generic_init :: "conv \<Rightarrow> federation \<Rightarrow> federation" where
  "generic_init cv p =
     (if fe_create p
      then p\<lparr>fe_saved := setf ''priority'' (Num 0) (setf ''config'' (Obj [])
               (setf ''providerName'' (fe_factory p) (fe_saved p))),
             fe_fullSync := Bool False, fe_changedSync := Bool False, fe_changed := False\<rparr>
      else p\<lparr>fe_fullSync := positive cv (getf (fe_saved p) ''fullSyncPeriod''),
             fe_changedSync := positive cv (getf (fe_saved p) ''changedSyncPeriod''), fe_changed := False\<rparr>)"

definition generic_watch_full :: "conv \<Rightarrow> jsval \<Rightarrow> federation \<Rightarrow> federation" where
  "generic_watch_full cv old p =
     (if fe_fullSync p = old \<or> loose_eq cv old (fe_fullSync p) then p
      else p\<lparr>fe_instance := setf ''fullSyncPeriod'' (Num (if truthy (fe_fullSync p) then 604800 else -1))
               (fe_instance p), fe_changed := True\<rparr>)"

definition generic_watch_changed :: "conv \<Rightarrow> jsval \<Rightarrow> federation \<Rightarrow> federation" where
  "generic_watch_changed cv old p =
     (if fe_changedSync p = old \<or> loose_eq cv old (fe_changedSync p) then p
      else p\<lparr>fe_instance := setf ''changedSyncPeriod'' (Num (if truthy (fe_changedSync p) then 86400 else -1))
               (fe_instance p), fe_changed := True\<rparr>)"

definition generic_watch :: "federation \<Rightarrow> federation" where
  "generic_watch p =
     (if \<not> equals (Obj (fe_instance p)) (Obj (fe_saved p)) then p\<lparr>fe_changed := True\<rparr> else p)"

definition generic_digest :: "conv \<Rightarrow> jsval \<Rightarrow> jsval \<Rightarrow> federation \<Rightarrow> federation" where
  "generic_digest cv full chg p = generic_watch (generic_watch_changed cv chg (generic_watch_full cv full p))"

definition GenericUserFederationCtrl :: "conv \<Rightarrow> fields \<Rightarrow> fields \<Rightarrow> federation" where
  "GenericUserFederationCtrl cv inst factory =
     (let p = generic_init cv \<lparr>fe_instance = [], fe_saved = inst, fe_create = (\<not> truthy (getf inst ''providerName'')),
                fe_changed = False, fe_fullSync = Undefined, fe_changedSync = Undefined, fe_factory = getf factory ''id''\<rparr>
      in generic_watch (p\<lparr>fe_instance := fe_saved p\<rparr>))"

text \<open>A switch, or an edit of the settings, and the digest after it.\<close>

definition generic_switch_full :: "conv \<Rightarrow> bool \<Rightarrow> federation \<Rightarrow> federation" where
  "generic_switch_full cv b p = generic_digest cv (fe_fullSync p) (fe_changedSync p) (p\<lparr>fe_fullSync := Bool b\<rparr>)"

definition generic_switch_changed :: "conv \<Rightarrow> bool \<Rightarrow> federation \<Rightarrow> federation" where
  "generic_switch_changed cv b p = generic_digest cv (fe_fullSync p) (fe_changedSync p) (p\<lparr>fe_changedSync := Bool b\<rparr>)"

definition generic_edit :: "conv \<Rightarrow> fields \<Rightarrow> federation \<Rightarrow> federation" where
  "generic_edit cv r p = generic_digest cv (fe_fullSync p) (fe_changedSync p) (p\<lparr>fe_instance := r\<rparr>)"

text \<open>\<open>reset\<close> and the digest after it, in which the watches see the switches change back.\<close>

definition generic_reset :: "conv \<Rightarrow> federation \<Rightarrow> federation" where
  "generic_reset cv p =
     (let p' = generic_init cv p
      in generic_digest cv (fe_fullSync p) (fe_changedSync p) (p'\<lparr>fe_instance := fe_saved p'\<rparr>))"

definition generic_provider_save :: "string \<Rightarrow> federation \<Rightarrow> federation \<times> ceffect list" where
  "generic_provider_save realm p =
     (p\<lparr>fe_changed := False\<rparr>,
      if fe_create p
      then [Ask (Rest ''UserFederationInstances'' ''save'' [(''realm'', Str realm)] (Obj (fe_instance p)))]
      else [Ask (Rest ''UserFederationInstances'' ''update''
              [(''realm'', Str realm), (''instance'', getf (fe_saved p) ''id'')] (Obj (fe_instance p)))])"

definition generic_provider_saved :: "string \<Rightarrow> federation \<Rightarrow> federation \<times> ceffect list" where
  "generic_provider_saved realm p = (p\<lparr>fe_changed := False\<rparr>,
     [GoTo (''/realms/'' @ realm @ ''/user-federation''),
      Success (if fe_create p then ''The provider has been created.'' else ''The provider has been updated.'')])"

definition generic_provider_cancel :: "string \<Rightarrow> ceffect list" where
  "generic_provider_cancel realm = [GoTo (''/realms/'' @ realm @ ''/user-federation'')]"

definition generic_provider_remove :: "ceffect list" where
  "generic_provider_remove = [Confirm ''confirm'' ''Delete'' ''Are you sure you want to permanently delete this provider?  All imported users will also be deleted.'']"

definition generic_provider_remove_confirmed :: "string \<Rightarrow> federation \<Rightarrow> ceffect list" where
  "generic_provider_remove_confirmed realm p = [Ask (Rest ''UserFederationInstances'' ''remove''
     [(''realm'', Str realm), (''instance'', getf (fe_instance p) ''id'')] (Obj (fe_instance p)))]"

definition generic_provider_removed :: "string \<Rightarrow> ceffect list" where
  "generic_provider_removed realm = [GoTo (''/realms/'' @ realm @ ''/user-federation''), Success ''The provider has been deleted.'']"

definition generic_provider_triggerSync :: "string \<Rightarrow> string \<Rightarrow> federation \<Rightarrow> ceffect list" where
  "generic_provider_triggerSync sync realm p = [Ask (Rest ''UserFederationSync'' ''get''
     [(''action'', Str sync), (''realm'', Str realm), (''provider'', getf (fe_instance p) ''id'')] Undefined)]"

definition generic_provider_triggerFullSync :: "string \<Rightarrow> federation \<Rightarrow> ceffect list" where
  "generic_provider_triggerFullSync = generic_provider_triggerSync ''triggerFullSync''"

definition generic_provider_triggerChangedUsersSync :: "string \<Rightarrow> federation \<Rightarrow> ceffect list" where
  "generic_provider_triggerChangedUsersSync = generic_provider_triggerSync ''triggerChangedUsersSync''"

definition generic_provider_synced :: "bool \<Rightarrow> ceffect list" where
  "generic_provider_synced ok = (if ok then [Success ''Sync of users finished successfully''] else [Failure ''Error during sync of users''])"

section \<open>\<open>LDAPCtrl\<close>\<close>

text \<open>
  \<open>ld_flags\<close> holds the four switches that stand for strings in the configuration.  The configuration is an
  object whenever an existing provider is opened; reading it otherwise is a \<open>TypeError\<close>.
\<close>

record ldap =
  ld_instance :: fields
  ld_saved :: fields
  ld_create :: bool
  ld_changed :: bool
  ld_fullSync :: jsval
  ld_changedSync :: jsval
  ld_flags :: fields
  ld_lastVendor :: jsval

definition ldap_flags :: "string list" where
  "ldap_flags = [''syncRegistrations'', ''userAccountControlsAfterPasswordUpdate'', ''connectionPooling'', ''pagination'']"

definition DEFAULT_BATCH_SIZE :: jsval where
  "DEFAULT_BATCH_SIZE = Str ''1000''"

definition config_of :: "fields \<Rightarrow> fields" where
  "config_of inst = fields_of (getf inst ''config'')"

definition set_config :: "string \<Rightarrow> jsval \<Rightarrow> fields \<Rightarrow> fields" where
  "set_config k v inst = setf ''config'' (Obj (setf k v (config_of inst))) inst"

definition new_config :: fields where
  "new_config = [(''userAccountControlsAfterPasswordUpdate'', Str ''true''), (''connectionPooling'', Str ''true''),
     (''pagination'', Str ''true''), (''batchSizeForSync'', DEFAULT_BATCH_SIZE)]"

definition ldap_init :: "conv \<Rightarrow> ldap \<Rightarrow> ldap" where
  "ldap_init cv p =
     (let p' =
        (if ld_create p
         then p\<lparr>ld_saved := setf ''priority'' (Num 0) (setf ''config'' (Obj new_config)
                  (setf ''providerName'' (Str ''ldap'') (ld_saved p))),
                ld_flags := [(''syncRegistrations'', Bool False), (''userAccountControlsAfterPasswordUpdate'', Bool True),
                             (''connectionPooling'', Bool True), (''pagination'', Bool True)],
                ld_fullSync := Bool False, ld_changedSync := Bool False\<rparr>
         else p\<lparr>ld_flags := map (\<lambda>k. (k, is_true (getf (config_of (ld_saved p)) k))) ldap_flags,
                ld_saved := (if truthy (getf (config_of (ld_saved p)) ''batchSizeForSync'') then ld_saved p
                             else set_config ''batchSizeForSync'' DEFAULT_BATCH_SIZE (ld_saved p)),
                ld_fullSync := positive cv (getf (ld_saved p) ''fullSyncPeriod''),
                ld_changedSync := positive cv (getf (ld_saved p) ''changedSyncPeriod'')\<rparr>)
      in p'\<lparr>ld_changed := False, ld_lastVendor := getf (config_of (ld_saved p')) ''vendor''\<rparr>)"

text \<open>\<open>watchBooleanProperty\<close>: the listener runs in the first digest and whenever the switch changes.\<close>

definition watchBooleanProperty :: "string \<Rightarrow> ldap \<Rightarrow> ldap" where
  "watchBooleanProperty k p = p\<lparr>ld_instance :=
     set_config k (Str (if truthy (getf (ld_flags p) k) then ''true'' else ''false'')) (ld_instance p)\<rparr>"

definition watch_flags :: "fields \<Rightarrow> ldap \<Rightarrow> ldap" where
  "watch_flags old p =
     fold (\<lambda>k p. if getf (ld_flags p) k = getf old k then p else watchBooleanProperty k p) ldap_flags p"

definition ldap_watch_full :: "conv \<Rightarrow> jsval \<Rightarrow> ldap \<Rightarrow> ldap" where
  "ldap_watch_full cv old p =
     (if ld_fullSync p = old \<or> loose_eq cv old (ld_fullSync p) then p
      else p\<lparr>ld_instance := setf ''fullSyncPeriod'' (Num (if truthy (ld_fullSync p) then 604800 else -1))
               (ld_instance p), ld_changed := True\<rparr>)"

definition ldap_watch_changed :: "conv \<Rightarrow> jsval \<Rightarrow> ldap \<Rightarrow> ldap" where
  "ldap_watch_changed cv old p =
     (if ld_changedSync p = old \<or> loose_eq cv old (ld_changedSync p) then p
      else p\<lparr>ld_instance := setf ''changedSyncPeriod'' (Num (if truthy (ld_changedSync p) then 86400 else -1))
               (ld_instance p), ld_changed := True\<rparr>)"

definition ldap_watch :: "ldap \<Rightarrow> ldap" where
  "ldap_watch p =
     (let p1 = (if \<not> equals (Obj (ld_instance p)) (Obj (ld_saved p)) then p\<lparr>ld_changed := True\<rparr> else p);
          vendor = getf (config_of (ld_instance p1)) ''vendor''
      in if equals vendor (ld_lastVendor p1) then p1
         else p1\<lparr>ld_lastVendor := vendor,
           ld_instance :=
             (if vendor = Str ''ad''
              then set_config ''userObjectClasses'' (Str ''person, organizationalPerson, user'')
                     (set_config ''usernameLDAPAttribute'' (Str ''cn'') (ld_instance p1))
              else set_config ''userObjectClasses'' (Str ''inetOrgPerson, organizationalPerson'')
                     (set_config ''usernameLDAPAttribute'' (Str ''uid'') (ld_instance p1)))\<rparr>)"

definition ldap_digest_from :: "conv \<Rightarrow> fields \<Rightarrow> jsval \<Rightarrow> jsval \<Rightarrow> ldap \<Rightarrow> ldap" where
  "ldap_digest_from cv flags full chg p =
     (let p' = ldap_watch (ldap_watch_changed cv chg (ldap_watch_full cv full (watch_flags flags p)))
      in if ld_instance p' = ld_instance p then p' else ldap_watch p')"

definition ldap_digest :: "conv \<Rightarrow> jsval \<Rightarrow> jsval \<Rightarrow> ldap \<Rightarrow> ldap" where
  "ldap_digest cv full chg p = ldap_digest_from cv (ld_flags p) full chg p"

text \<open>The page as it is after its first digest, in which every switch is written into the configuration.\<close>

definition LDAPCtrl :: "conv \<Rightarrow> fields \<Rightarrow> ldap" where
  "LDAPCtrl cv inst =
     (let p = ldap_init cv \<lparr>ld_instance = [], ld_saved = inst, ld_create = (\<not> truthy (getf inst ''providerName'')),
                ld_changed = False, ld_fullSync = Undefined, ld_changedSync = Undefined, ld_flags = [],
                ld_lastVendor = Undefined\<rparr>
      in ldap_watch (fold watchBooleanProperty ldap_flags (p\<lparr>ld_instance := ld_saved p\<rparr>)))"

definition ldap_switch_flag :: "conv \<Rightarrow> string \<Rightarrow> bool \<Rightarrow> ldap \<Rightarrow> ldap" where
  "ldap_switch_flag cv k b p = ldap_digest_from cv (ld_flags p) (ld_fullSync p) (ld_changedSync p)
     (p\<lparr>ld_flags := setf k (Bool b) (ld_flags p)\<rparr>)"

text \<open>A switch, or an edit of the settings, and the digest after it.\<close>

definition ldap_switch_full :: "conv \<Rightarrow> bool \<Rightarrow> ldap \<Rightarrow> ldap" where
  "ldap_switch_full cv b p = ldap_digest cv (ld_fullSync p) (ld_changedSync p) (p\<lparr>ld_fullSync := Bool b\<rparr>)"

definition ldap_switch_changed :: "conv \<Rightarrow> bool \<Rightarrow> ldap \<Rightarrow> ldap" where
  "ldap_switch_changed cv b p = ldap_digest cv (ld_fullSync p) (ld_changedSync p) (p\<lparr>ld_changedSync := Bool b\<rparr>)"

definition ldap_edit :: "conv \<Rightarrow> fields \<Rightarrow> ldap \<Rightarrow> ldap" where
  "ldap_edit cv r p = ldap_digest cv (ld_fullSync p) (ld_changedSync p) (p\<lparr>ld_instance := r\<rparr>)"

text \<open>\<open>reset\<close> and the digest after it, in which the watches see the switches change back.\<close>

definition ldap_reset :: "conv \<Rightarrow> ldap \<Rightarrow> ldap" where
  "ldap_reset cv p =
     (let p' = ldap_init cv p
      in ldap_digest_from cv (ld_flags p) (ld_fullSync p) (ld_changedSync p) (p'\<lparr>ld_instance := ld_saved p'\<rparr>))"

text \<open>The size of a batch is sent as the number it starts with, and as the default when that is zero or missing.\<close>

definition batch_size :: "conv \<Rightarrow> jsval \<Rightarrow> jsval" where
  "batch_size cv v =
     (if \<not> truthy (parseInt cv v) then DEFAULT_BATCH_SIZE else Str (str cv (parseInt cv v)))"

definition ldap_provider_save :: "conv \<Rightarrow> string \<Rightarrow> ldap \<Rightarrow> ldap \<times> ceffect list" where
  "ldap_provider_save cv realm p =
     (let inst = set_config ''batchSizeForSync''
                   (batch_size cv (getf (config_of (ld_instance p)) ''batchSizeForSync'')) (ld_instance p)
      in (p\<lparr>ld_instance := inst, ld_changed := False\<rparr>,
          if ld_create p
          then [Ask (Rest ''UserFederationInstances'' ''save'' [(''realm'', Str realm)] (Obj inst))]
          else [Ask (Rest ''UserFederationInstances'' ''update''
                  [(''realm'', Str realm), (''instance'', getf (ld_saved p) ''id'')] (Obj inst))]))"

definition ldap_provider_saved :: "string \<Rightarrow> ldap \<Rightarrow> ldap \<times> ceffect list" where
  "ldap_provider_saved realm p = (p\<lparr>ld_changed := False\<rparr>,
     [GoTo (''/realms/'' @ realm @ ''/user-federation''),
      Success (if ld_create p then ''The provider has been created.'' else ''The provider has been updated.'')])"

definition ldap_provider_cancel :: "string \<Rightarrow> ceffect list" where
  "ldap_provider_cancel realm = [GoTo (''/realms/'' @ realm @ ''/user-federation'')]"

definition ldap_provider_remove :: "ceffect list" where
  "ldap_provider_remove = [Confirm ''confirm'' ''Delete'' ''Are you sure you want to permanently delete this provider?  All imported users will also be deleted.'']"

definition ldap_provider_remove_confirmed :: "string \<Rightarrow> ldap \<Rightarrow> ceffect list" where
  "ldap_provider_remove_confirmed realm p = [Ask (Rest ''UserFederationInstances'' ''remove''
     [(''realm'', Str realm), (''instance'', getf (ld_instance p) ''id'')] (Obj (ld_instance p)))]"

definition ldap_provider_removed :: "string \<Rightarrow> ceffect list" where
  "ldap_provider_removed realm = [GoTo (''/realms/'' @ realm @ ''/user-federation''), Success ''The provider has been deleted.'']"

definition ldap_provider_triggerSync :: "string \<Rightarrow> string \<Rightarrow> ldap \<Rightarrow> ceffect list" where
  "ldap_provider_triggerSync sync realm p = [Ask (Rest ''UserFederationSync'' ''get''
     [(''action'', Str sync), (''realm'', Str realm), (''provider'', getf (ld_instance p) ''id'')] Undefined)]"

definition ldap_provider_triggerFullSync :: "string \<Rightarrow> ldap \<Rightarrow> ceffect list" where
  "ldap_provider_triggerFullSync = ldap_provider_triggerSync ''triggerFullSync''"

definition ldap_provider_triggerChangedUsersSync :: "string \<Rightarrow> ldap \<Rightarrow> ceffect list" where
  "ldap_provider_triggerChangedUsersSync = ldap_provider_triggerSync ''triggerChangedUsersSync''"

definition ldap_provider_synced :: "bool \<Rightarrow> ceffect list" where
  "ldap_provider_synced ok = (if ok then [Success ''Sync of users finished successfully''] else [Failure ''Error during sync of users''])"

definition initConnectionTest :: "string \<Rightarrow> string \<Rightarrow> fields \<Rightarrow> fields" where
  "initConnectionTest test realm config = [(''action'', Str test), (''realm'', Str realm),
     (''connectionUrl'', getf config ''connectionUrl''), (''bindDn'', getf config ''bindDn''),
     (''bindCredential'', getf config ''bindCredential'')]"

definition testConnection :: "string \<Rightarrow> ldap \<Rightarrow> ceffect list" where
  "testConnection realm p = [Ask (Rest ''RealmLDAPConnectionTester'' ''get''
     (initConnectionTest ''testConnection'' realm (config_of (ld_instance p))) Undefined)]"

definition connection_tested :: "bool \<Rightarrow> ceffect list" where
  "connection_tested ok = (if ok then [Success ''LDAP connection successful.'']
     else [Failure ''Error when trying to connect to LDAP. See server.log for details.''])"

definition testAuthentication :: "string \<Rightarrow> ldap \<Rightarrow> ceffect list" where
  "testAuthentication realm p = [Ask (Rest ''RealmLDAPConnectionTester'' ''get''
     (initConnectionTest ''testAuthentication'' realm (config_of (ld_instance p))) Undefined)]"

definition authentication_tested :: "bool \<Rightarrow> ceffect list" where
  "authentication_tested ok = (if ok then [Success ''LDAP authentication successful.'']
     else [Failure ''LDAP authentication failed. See server.log for details''])"

section \<open>Resetting a provider\<close>

lemma generic_opened:
  assumes "truthy (getf inst ''providerName'')" and "distinct_fields (Obj inst)"
  shows "GenericUserFederationCtrl cv inst factory = \<lparr>fe_instance = inst, fe_saved = inst, fe_create = False,
    fe_changed = False, fe_fullSync = positive cv (getf inst ''fullSyncPeriod''),
    fe_changedSync = positive cv (getf inst ''changedSyncPeriod''), fe_factory = getf factory ''id''\<rparr>"
  using assms equals_refl [of "Obj inst"]
  by (simp add: GenericUserFederationCtrl_def generic_init_def generic_watch_def Let_def)

lemma loose_eq_Bool [simp]: "loose_eq cv (Bool a) (Bool b) \<longleftrightarrow> a = b"
  by (auto simp: loose_eq_def nothing_def num_def)

lemma positive_pos: "0 < x \<Longrightarrow> positive cv (Num x) = Bool True"
  by (simp add: positive_def)

lemma generic_watch_keeps [simp]:
  "fe_instance (generic_watch p) = fe_instance p" "fe_saved (generic_watch p) = fe_saved p"
  "fe_create (generic_watch p) = fe_create p" "fe_fullSync (generic_watch p) = fe_fullSync p"
  "fe_changedSync (generic_watch p) = fe_changedSync p"
  by (simp_all add: generic_watch_def)

lemma generic_edit_fields:
  "fe_saved (generic_edit cv r p) = fe_saved p" "fe_create (generic_edit cv r p) = fe_create p"
  "fe_fullSync (generic_edit cv r p) = fe_fullSync p" "fe_changedSync (generic_edit cv r p) = fe_changedSync p"
  by (simp_all add: generic_edit_def generic_digest_def generic_watch_full_def generic_watch_changed_def)

lemma generic_switch_fields:
  "fe_saved (generic_switch_full cv b p) = fe_saved p" "fe_create (generic_switch_full cv b p) = fe_create p"
  "fe_fullSync (generic_switch_full cv b p) = Bool b" "fe_changedSync (generic_switch_full cv b p) = fe_changedSync p"
  by (simp_all add: generic_switch_full_def generic_digest_def generic_watch_full_def generic_watch_changed_def)

lemma generic_reset_simps:
  assumes "\<not> fe_create p" and "fe_changedSync p = positive cv (getf (fe_saved p) ''changedSyncPeriod'')"
    and "positive cv (getf (fe_saved p) ''fullSyncPeriod'') = Bool True"
    and "equals (Obj (fe_saved p)) (Obj (fe_saved p))"
  shows "fe_fullSync p = Bool True \<Longrightarrow> fe_instance (generic_reset cv p) = fe_saved p"
    and "fe_fullSync p = Bool True \<Longrightarrow> \<not> fe_changed (generic_reset cv p)"
    and "fe_fullSync p = Bool False \<Longrightarrow>
      fe_instance (generic_reset cv p) = setf ''fullSyncPeriod'' (Num 604800) (fe_saved p)"
    and "fe_fullSync p = Bool False \<Longrightarrow> fe_changed (generic_reset cv p)"
proof -
  have chg: "generic_watch_changed cv (fe_changedSync p) q = q" if "fe_changedSync q = fe_changedSync p" for q
    using that by (simp add: generic_watch_changed_def)
  have init: "generic_init cv p = p\<lparr>fe_fullSync := Bool True, fe_changedSync := fe_changedSync p, fe_changed := False\<rparr>"
    using assms by (simp add: generic_init_def)
  show "fe_fullSync p = Bool True \<Longrightarrow> fe_instance (generic_reset cv p) = fe_saved p"
    "fe_fullSync p = Bool True \<Longrightarrow> \<not> fe_changed (generic_reset cv p)"
    using assms(4) by (simp_all add: generic_reset_def init generic_digest_def chg generic_watch_full_def generic_watch_def)
  show "fe_fullSync p = Bool False \<Longrightarrow>
      fe_instance (generic_reset cv p) = setf ''fullSyncPeriod'' (Num 604800) (fe_saved p)"
    "fe_fullSync p = Bool False \<Longrightarrow> fe_changed (generic_reset cv p)"
    by (simp_all add: generic_reset_def init generic_digest_def chg generic_watch_full_def, simp add: generic_watch_def)
qed

text \<open>Resetting the page of an existing federation provider undoes every edit of its settings, but not the
  switch of the periodic synchronisation: once it was turned off, resetting turns it on again with
  the default period of a week instead of the stored one, and the page shows as changed.\<close>

theorem federation_reset_period:
  assumes "truthy (getf inst ''providerName'')" and "distinct_fields (Obj inst)"
    and "getf inst ''fullSyncPeriod'' = Num x" and "0 < x"
  shows "let p = GenericUserFederationCtrl cv inst factory;
             edited = generic_reset cv (generic_edit cv r p);
             switched = generic_reset cv (generic_switch_full cv False p)
    in fe_instance edited = inst \<and> \<not> fe_changed edited
      \<and> fe_instance switched = setf ''fullSyncPeriod'' (Num 604800) inst \<and> fe_changed switched"
proof -
  have "equals (Obj inst) (Obj inst)" by (rule equals_refl [OF assms(2)])
  moreover have "positive cv (getf inst ''fullSyncPeriod'') = Bool True"
    using assms(3) positive_pos [OF assms(4)] by simp
  ultimately show ?thesis
    unfolding Let_def
    by (intro conjI)
      (simp_all add: generic_reset_simps generic_opened [OF assms(1,2)] generic_edit_fields generic_switch_fields)
qed

definition demo_provider :: fields where
  "demo_provider = [(''id'', Str ''p''), (''providerName'', Str ''other''), (''fullSyncPeriod'', Num 3600)]"

theorem federation_reset_period_witness:
  "getf (fe_instance (generic_reset pager_conv (generic_switch_full pager_conv False
     (GenericUserFederationCtrl pager_conv demo_provider [])))) ''fullSyncPeriod'' = Num 604800"
proof -
  have "truthy (getf demo_provider ''providerName'')" "distinct_fields (Obj demo_provider)"
    "getf demo_provider ''fullSyncPeriod'' = Num 3600"
    by (simp_all add: demo_provider_def)
  then show ?thesis
    using federation_reset_period [of demo_provider 3600 pager_conv "[]" "[]"] by (simp add: Let_def)
qed

section \<open>Saving an LDAP provider\<close>

lemma config_of_set_config [simp]: "config_of (set_config k v inst) = setf k v (config_of inst)"
  by (simp add: config_of_def set_config_def)

lemma getf_set_config [simp]: "j \<noteq> ''config'' \<Longrightarrow> getf (set_config k v inst) j = getf inst j"
  by (simp add: set_config_def)

lemma watchBoolean_keeps:
  "ld_saved (watchBooleanProperty k p) = ld_saved p" "ld_create (watchBooleanProperty k p) = ld_create p"
  "ld_flags (watchBooleanProperty k p) = ld_flags p" "ld_lastVendor (watchBooleanProperty k p) = ld_lastVendor p"
  by (simp_all add: watchBooleanProperty_def)

lemma watch_flags_keep:
  "ld_saved (fold watchBooleanProperty ks p) = ld_saved p \<and> ld_create (fold watchBooleanProperty ks p) = ld_create p
   \<and> ld_lastVendor (fold watchBooleanProperty ks p) = ld_lastVendor p
   \<and> (j \<noteq> ''config'' \<longrightarrow> getf (ld_instance (fold watchBooleanProperty ks p)) j = getf (ld_instance p) j)"
  by (induction ks arbitrary: p) (simp_all add: watchBoolean_keeps, simp add: watchBooleanProperty_def)

lemma watch_flags_config:
  "getf (config_of (ld_instance (fold watchBooleanProperty ks p))) j =
     (if j \<in> set ks then Str (if truthy (getf (ld_flags p) j) then ''true'' else ''false'')
      else getf (config_of (ld_instance p)) j)"
proof (induction ks arbitrary: p)
  case (Cons k ks)
  show ?case by (simp add: Cons watchBoolean_keeps) (simp add: watchBooleanProperty_def)
qed simp

lemma truthy_is_true: "truthy (is_true v) \<longleftrightarrow> v = Str ''true''"
  by (auto simp: is_true_def)

lemma flag_of_config: "k \<in> set ks \<Longrightarrow> getf (map (\<lambda>k. (k, is_true (getf c k))) ks) k = is_true (getf c k)"
  by (induction ks) auto

lemma ldap_opened:
  assumes "truthy (getf inst ''providerName'')" and "getf inst ''config'' = Obj config"
    and "distinct_fields (Obj config)" and "truthy (getf config ''batchSizeForSync'')"
  shows "\<not> ld_create (LDAPCtrl cv inst)" "ld_saved (LDAPCtrl cv inst) = inst"
    and "getf (config_of (ld_instance (LDAPCtrl cv inst))) k =
      (if k \<in> set ldap_flags then Str (if getf config k = Str ''true'' then ''true'' else ''false'') else getf config k)"
    and "j \<noteq> ''config'' \<Longrightarrow> getf (ld_instance (LDAPCtrl cv inst)) j = getf inst j"
proof -
  define p where "p = (ldap_init cv \<lparr>ld_instance = [], ld_saved = inst, ld_create = (\<not> truthy (getf inst ''providerName'')),
      ld_changed = False, ld_fullSync = Undefined, ld_changedSync = Undefined, ld_flags = [], ld_lastVendor = Undefined\<rparr>)
      \<lparr>ld_instance := inst\<rparr>"
  have config: "config_of inst = config" using assms(2) by (simp add: config_of_def)
  have p: "ld_instance p = inst" "ld_saved p = inst" "\<not> ld_create p" "ld_lastVendor p = getf config ''vendor''"
    "ld_flags p = map (\<lambda>k. (k, is_true (getf config k))) ldap_flags"
    using assms(1,4) config by (simp_all add: p_def ldap_init_def Let_def)
  define q where "q = fold watchBooleanProperty ldap_flags p"
  have q: "ld_saved q = inst" "\<not> ld_create q" "ld_lastVendor q = getf config ''vendor''"
    "\<And>j. j \<noteq> ''config'' \<Longrightarrow> getf (ld_instance q) j = getf inst j"
    using watch_flags_keep [of ldap_flags p] p by (simp_all add: q_def)
  have qc: "getf (config_of (ld_instance q)) k =
      (if k \<in> set ldap_flags then Str (if getf config k = Str ''true'' then ''true'' else ''false'') else getf config k)" for k
    using p config by (simp add: q_def watch_flags_config flag_of_config truthy_is_true)
  have "equals (getf (config_of (ld_instance q)) ''vendor'') (ld_lastVendor q)"
    using q(3) qc [of "''vendor''"] equals_refl [OF distinct_fields_getf [OF assms(3)]] by (simp add: ldap_flags_def)
  then have *: "ld_instance (ldap_watch q) = ld_instance q" "ld_saved (ldap_watch q) = ld_saved q"
    "ld_create (ldap_watch q) = ld_create q"
    by (auto simp: ldap_watch_def Let_def)
  have "LDAPCtrl cv inst = ldap_watch q"
    using p(2) by (simp add: LDAPCtrl_def q_def p_def Let_def)
  then show "\<not> ld_create (LDAPCtrl cv inst)" "ld_saved (LDAPCtrl cv inst) = inst"
    and "getf (config_of (ld_instance (LDAPCtrl cv inst))) k =
      (if k \<in> set ldap_flags then Str (if getf config k = Str ''true'' then ''true'' else ''false'') else getf config k)"
    and "j \<noteq> ''config'' \<Longrightarrow> getf (ld_instance (LDAPCtrl cv inst)) j = getf inst j"
    using * q qc by simp_all
qed

text \<open>C31. Saving an existing LDAP provider as it was opened sends it with its settings, the four switches as
  the strings \<open>true\<close> or \<open>false\<close> and a positive decimal batch size as it was.\<close>

theorem ldap_save_roundtrip:
  assumes "truthy (getf inst ''providerName'')" and "getf inst ''config'' = Obj config"
    and "distinct_fields (Obj config)" and "getf config ''batchSizeForSync'' = Str (decimal n)" and "0 < n"
    and "to_string cv (of_nat n) = decimal n"
  shows "\<exists>body c. snd (ldap_provider_save cv realm (LDAPCtrl cv inst)) =
      [Ask (Rest ''UserFederationInstances'' ''update'' [(''realm'', Str realm), (''instance'', getf inst ''id'')] (Obj body))]
    \<and> getf body ''config'' = Obj c
    \<and> (\<forall>k. getf c k = (if k \<in> set ldap_flags then Str (if getf config k = Str ''true'' then ''true'' else ''false'')
                      else getf config k))
    \<and> (\<forall>k. k \<noteq> ''config'' \<longrightarrow> getf body k = getf inst k)"
proof -
  have truthy: "truthy (getf config ''batchSizeForSync'')" using assms(4) by simp
  note opened = ldap_opened [OF assms(1-3) truthy, where cv = cv]
  have "batch_size cv (Str (decimal n)) = Str (decimal n)"
    using assms(5,6) by (simp add: batch_size_def parseInt_decimal str_def)
  then have "getf (config_of (set_config ''batchSizeForSync''
      (batch_size cv (getf (config_of (ld_instance (LDAPCtrl cv inst))) ''batchSizeForSync'')) (ld_instance (LDAPCtrl cv inst)))) k
      = (if k \<in> set ldap_flags then Str (if getf config k = Str ''true'' then ''true'' else ''false'') else getf config k)" for k
    using assms(4) by (simp add: opened(3)) (simp add: ldap_flags_def)
  moreover have "getf (set_config k v r) ''config'' = Obj (config_of (set_config k v r))" for k v r
    by (simp add: set_config_def config_of_def)
  ultimately show ?thesis
    using opened(1,2,4) by (simp add: ldap_provider_save_def Let_def)
qed

definition demo_ldap :: fields where
  "demo_ldap = [(''id'', Str ''l''), (''providerName'', Str ''ldap''),
     (''config'', Obj [(''batchSizeForSync'', Str ''50''), (''pagination'', Str ''true'')])]"

theorem ldap_save_roundtrip_witness:
  "\<exists>body c. snd (ldap_provider_save pager_conv ''demo'' (LDAPCtrl pager_conv demo_ldap)) =
      [Ask (Rest ''UserFederationInstances'' ''update'' [(''realm'', Str ''demo''), (''instance'', Str ''l'')] (Obj body))]
    \<and> getf body ''config'' = Obj c \<and> getf c ''pagination'' = Str ''true'' \<and> getf c ''connectionPooling'' = Str ''false''"
proof -
  have 50: "decimal 50 = ''50''" by (simp add: decimal.simps hexd_def)
  let ?config = "[(''batchSizeForSync'', Str ''50''), (''pagination'', Str ''true'')]"
  have 1: "truthy (getf demo_ldap ''providerName'')" "getf demo_ldap ''config'' = Obj ?config"
    "getf demo_ldap ''id'' = Str ''l''" by (simp_all add: demo_ldap_def)
  have 2: "distinct_fields (Obj ?config)" "getf ?config ''batchSizeForSync'' = Str (decimal 50)"
    "to_string pager_conv (of_nat 50) = decimal 50"
    by (simp_all add: 50 pager_conv_def)
  obtain body c where *: "snd (ldap_provider_save pager_conv ''demo'' (LDAPCtrl pager_conv demo_ldap)) =
      [Ask (Rest ''UserFederationInstances'' ''update'' [(''realm'', Str ''demo''), (''instance'', getf demo_ldap ''id'')] (Obj body))]"
    "getf body ''config'' = Obj c"
    "\<forall>k. getf c k = (if k \<in> set ldap_flags then Str (if getf ?config k = Str ''true'' then ''true'' else ''false'')
                      else getf ?config k)"
    using ldap_save_roundtrip [OF 1(1,2) 2(1,2) _ 2(3), of "''demo''"] by auto
  then have "getf c ''pagination'' = Str ''true''" "getf c ''connectionPooling'' = Str ''false''"
    by (simp_all add: ldap_flags_def)
  then show ?thesis using * 1(3) by auto
qed

end
