(* ===== verification/Admin_Filters.thy ===== *)
theory Admin_Filters
  imports Admin_Users
begin

text \<open>
  What the templates of the console rely on: the filters \<open>remove\<close> and \<open>capitalize\<close>, the directives
  \<open>kcSave\<close>, \<open>kcReset\<close>, \<open>kcEnter\<close> and \<open>kcReadOnly\<close> of \<open>app.js\<close>, and the texts of the dialogs of \<open>services.js\<close>.
\<close>

section \<open>Filters\<close>

text \<open>
  \<open>remove\<close> leaves out the elements that equal one to be removed, by value or in one attribute; without an
  attribute the lists are lists of strings.
\<close>

definition removes :: "conv \<Rightarrow> string option \<Rightarrow> jsval \<Rightarrow> jsval \<Rightarrow> bool" where
  "removes cv attribute r e \<longleftrightarrow>
     (if truthy_str attribute
      then loose_eq cv (getf (fields_of r) (the attribute)) (getf (fields_of e) (the attribute))
      else loose_eq cv r e)"

definition items_of :: "jsval \<Rightarrow> jsval list" where
  "items_of v = (case v of Arr xs \<Rightarrow> xs | Str s \<Rightarrow> map (\<lambda>c. Str [c]) s | _ \<Rightarrow> [])"

definition remove_filter :: "conv \<Rightarrow> jsval \<Rightarrow> jsval \<Rightarrow> string option \<Rightarrow> jsval" where
  "remove_filter cv v r attribute =
     (if \<not> truthy v \<or> \<not> truthy r then v
      else Arr (filter (\<lambda>e. \<not> nothing e \<and>
             \<not> list_ex (\<lambda>x. removes cv attribute x e) (case r of Arr rs \<Rightarrow> rs | _ \<Rightarrow> [r])) (items_of v)))"

text \<open>\<open>capitalize\<close>: the first letter in upper case, and a blank before each later capital.\<close>

definition capital :: "char \<Rightarrow> bool" where
  "capital c \<longleftrightarrow> 65 \<le> byte c \<and> byte c \<le> 90"

definition upper :: "char \<Rightarrow> char" where
  "upper c = (if 97 \<le> byte c \<and> byte c \<le> 122 then char_of (byte c - 32) else c)"

definition capitalize :: "jsval \<Rightarrow> js_error + jsval" where
  "capitalize v =
     (if \<not> truthy v then Inr Undefined
      else case v of
        Str s \<Rightarrow> Inr (Str (map upper (take 1 s) @ concat (map (\<lambda>c. if capital c then [CHR '' '', c] else [c]) (drop 1 s))))
      | _ \<Rightarrow> Inl TypeError)"

text \<open>What the page of the credentials offers: the policies that are not chosen yet.\<close>

definition policy_objects :: "policy \<Rightarrow> jsval" where
  "policy_objects ps = Arr (map (\<lambda>(n, v). Obj [(''name'', Str n), (''value'', v)]) ps)"

definition offered :: "conv \<Rightarrow> policy \<Rightarrow> jsval" where
  "offered cv chosen = remove_filter cv (policy_objects allPolicies) (policy_objects chosen) (Some ''name'')"

section \<open>Buttons\<close>

text \<open>\<open>kcSave\<close> and \<open>kcReset\<close>: the form around the button has a name; \<open>valid\<close> is its state.\<close>

definition kcSave :: "bool \<Rightarrow> bool \<Rightarrow> 's \<Rightarrow> ('s \<Rightarrow> 's \<times> ceffect list) \<Rightarrow> 's \<times> ceffect list" where
  "kcSave named valid s save =
     (if \<not> named then (s, [])
      else if valid then save s
      else (s, [Failure ''Missing or invalid field(s). Please verify the fields in red.'']))"

definition kcReset :: "bool \<Rightarrow> 's \<Rightarrow> ('s \<Rightarrow> 's) \<Rightarrow> 's" where
  "kcReset named s reset = (if named then reset s else s)"

definition kcEnter :: "nat \<Rightarrow> 's \<Rightarrow> ('s \<Rightarrow> 's \<times> ceffect list) \<Rightarrow> 's \<times> ceffect list" where
  "kcEnter which s act = (if which = 13 then act s else (s, []))"

section \<open>Dialogs\<close>

record dialog =
  dl_title :: string
  dl_message :: string
  dl_ok :: string
  dl_cancel :: string

definition type_title :: "string \<Rightarrow> string" where
  "type_title type = map upper (take 1 type) @ drop 1 type"

definition confirmDelete :: "(string \<Rightarrow> string) \<Rightarrow> string \<Rightarrow> string \<Rightarrow> dialog" where
  "confirmDelete escapeHtml name type =
     \<lparr>dl_title = ''Delete '' @ escapeHtml (type_title type),
      dl_message = ''Are you sure you want to permanently delete the '' @ type @ '' '' @ name @ ''?'',
      dl_ok = ''Delete'', dl_cancel = ''Cancel''\<rparr>"

definition confirmGenerateKeys :: "string \<Rightarrow> dialog" where
  "confirmGenerateKeys name =
     \<lparr>dl_title = ''Generate new keys for realm'',
      dl_message = ''Are you sure you want to permanently generate new keys for '' @ name @ ''?'',
      dl_ok = ''Generate Keys'', dl_cancel = ''Cancel''\<rparr>"

definition confirm :: "string \<Rightarrow> string \<Rightarrow> dialog" where
  "confirm title message = \<lparr>dl_title = title, dl_message = message, dl_ok = title, dl_cancel = ''Cancel''\<rparr>"

section \<open>\<open>kcReadOnly\<close>\<close>

text \<open>
  The directive remembers which controls it has disabled, by the name of the tag and the position of the
  control among those of its tag, in one object that all pages share.  When it enables a control it
  deletes the position from that object, and not the key.
\<close>

type_synonym controls = "(string \<times> bool list) list"

definition control_tags :: "string list" where
  "control_tags = [''INPUT'', ''BUTTON'', ''SELECT'', ''TEXTAREA'']"

definition control_key :: "string \<Rightarrow> nat \<Rightarrow> string" where
  "control_key tag i = tag @ decimal i"

fun disable_all :: "string \<Rightarrow> nat \<Rightarrow> bool list \<Rightarrow> string list \<Rightarrow> bool list \<times> string list" where
  "disable_all tag i [] disabled = ([], disabled)"
| "disable_all tag i (d # ds) disabled =
     (let (ds', disabled') = disable_all tag (Suc i) ds (if d then disabled else control_key tag i # disabled)
      in (True # ds', disabled'))"

fun enable_all :: "string \<Rightarrow> nat \<Rightarrow> bool list \<Rightarrow> string list \<Rightarrow> bool list \<times> string list" where
  "enable_all tag i [] disabled = ([], disabled)"
| "enable_all tag i (d # ds) disabled =
     (let on = control_key tag i \<in> set disabled;
          (ds', disabled') = enable_all tag (Suc i) ds (if on then removeAll (decimal i) disabled else disabled)
      in ((if on then False else d) # ds', disabled'))"

fun each_tag :: "(string \<Rightarrow> bool list \<Rightarrow> string list \<Rightarrow> bool list \<times> string list) \<Rightarrow> controls \<Rightarrow> string list
    \<Rightarrow> controls \<times> string list" where
  "each_tag f [] disabled = ([], disabled)"
| "each_tag f ((tag, ds) # cs) disabled =
     (let (ds', disabled') = f tag ds disabled; (cs', disabled'') = each_tag f cs disabled'
      in ((tag, ds') # cs', disabled''))"

definition kcReadOnly :: "bool \<Rightarrow> controls \<Rightarrow> string list \<Rightarrow> controls \<times> string list" where
  "kcReadOnly readOnly cs disabled =
     each_tag (\<lambda>tag. if readOnly then disable_all tag 0 else enable_all tag 0) cs disabled"

text \<open>Keys: the tag names hold no digits.\<close>

lemma decimal_inj: "decimal m = decimal n \<Longrightarrow> m = n"
  by (metis digits_value_decimal)

lemma tag_no_digit: "t \<in> set control_tags \<Longrightarrow> c \<in> set t \<Longrightarrow> \<not> digit c"
  by (auto simp: control_tags_def digit_def)

lemma key_split: "t \<in> set control_tags \<Longrightarrow> takeWhile (\<lambda>c. \<not> digit c) (control_key t i) = t"
proof -
  assume t: "t \<in> set control_tags"
  obtain c cs where "decimal i = c # cs" by (cases "decimal i") simp_all
  then show ?thesis
    using tag_no_digit [OF t] decimal_digits [of c i] by (simp add: control_key_def takeWhile_append)
qed

lemma key_inj: "t \<in> set control_tags \<Longrightarrow> u \<in> set control_tags \<Longrightarrow>
    control_key t i = control_key u j \<longleftrightarrow> t = u \<and> i = j"
  by (metis key_split control_key_def same_append_eq decimal_inj)

lemma key_not_decimal: "t \<in> set control_tags \<Longrightarrow> control_key t i \<noteq> decimal j"
proof
  assume t: "t \<in> set control_tags" and eq: "control_key t i = decimal j"
  then obtain c cs where "t = c # cs" by (auto simp: control_tags_def)
  then show False
    using tag_no_digit [OF t, of c] decimal_digits [of c j] eq [symmetric] by (simp add: control_key_def)
qed

definition keys_only :: "string list \<Rightarrow> bool" where
  "keys_only disabled \<longleftrightarrow> (\<forall>k \<in> set disabled. \<exists>t \<in> set control_tags. \<exists>i. k = control_key t i)"

lemma disable_all_flags: "fst (disable_all t i ds st) = replicate (length ds) True"
  by (induction ds arbitrary: i st) (simp_all add: Let_def case_prod_beta)

lemma disable_all_keys: "k \<in> set (snd (disable_all t i ds st)) \<longleftrightarrow>
    k \<in> set st \<or> (\<exists>j < length ds. \<not> ds ! j \<and> k = control_key t (i + j))"
proof (induction ds arbitrary: i st)
  case (Cons d ds)
  show ?case
    using Cons [of "Suc i" "if d then st else control_key t i # st"]
    by (auto simp: Let_def Ex_less_Suc2 case_prod_beta)
qed simp

lemma enable_all_result:
  assumes "keys_only st"
  shows "snd (enable_all t i ds st) = st"
    and "fst (enable_all t i ds st) = map (\<lambda>j. if control_key t (i + j) \<in> set st then False else ds ! j) [0..<length ds]"
proof -
  have "enable_all t i ds st =
      (map (\<lambda>j. if control_key t (i + j) \<in> set st then False else ds ! j) [0..<length ds], st)"
  proof (induction ds arbitrary: i)
    case (Cons d ds)
    have "removeAll (decimal i) st = st"
      using assms key_not_decimal unfolding keys_only_def by (metis removeAll_id)
    then show ?case
      by (auto simp: Let_def Cons upt_conv_Cons simp del: upt_Suc simp flip: map_Suc_upt split: if_splits)
  qed simp
  then show "snd (enable_all t i ds st) = st"
    and "fst (enable_all t i ds st) = map (\<lambda>j. if control_key t (i + j) \<in> set st then False else ds ! j) [0..<length ds]"
    by simp_all
qed

lemma each_disable:
  "each_tag (\<lambda>tag. disable_all tag 0) cs st = (map (\<lambda>(t, ds). (t, replicate (length ds) True)) cs,
     snd (each_tag (\<lambda>tag. disable_all tag 0) cs st))"
proof (induction cs arbitrary: st)
  case (Cons c cs)
  obtain t ds where c: "c = (t, ds)" by (cases c)
  show ?case
    using Cons [of "snd (disable_all t 0 ds st)"] by (simp add: c Let_def case_prod_beta disable_all_flags prod_eq_iff)
qed simp

lemma each_disable_keys: "k \<in> set (snd (each_tag (\<lambda>tag. disable_all tag 0) cs st)) \<longleftrightarrow>
    k \<in> set st \<or> (\<exists>(t, ds) \<in> set cs. \<exists>j < length ds. \<not> ds ! j \<and> k = control_key t j)"
proof (induction cs arbitrary: st)
  case (Cons c cs)
  obtain t ds where c: "c = (t, ds)" by (cases c)
  have "snd (each_tag (\<lambda>tag. disable_all tag 0) (c # cs) st)
      = snd (each_tag (\<lambda>tag. disable_all tag 0) cs (snd (disable_all t 0 ds st)))"
    by (simp add: c Let_def case_prod_beta)
  then show ?case
    unfolding Cons disable_all_keys by (simp add: Cons disable_all_keys c disj_assoc)
qed simp

lemma each_enable: "keys_only st \<Longrightarrow> each_tag (\<lambda>tag. enable_all tag 0) cs st =
    (map (\<lambda>(t, ds). (t, map (\<lambda>j. if control_key t j \<in> set st then False else ds ! j) [0..<length ds])) cs, st)"
proof (induction cs)
  case (Cons c cs)
  obtain t ds where c: "c = (t, ds)" by (cases c)
  have "enable_all t 0 ds st = (map (\<lambda>j. if control_key t j \<in> set st then False else ds ! j) [0..<length ds], st)"
    using enable_all_result [OF Cons.prems, of t 0 ds] by (simp add: prod_eq_iff)
  then show ?case using Cons by (simp add: c)
qed simp

text \<open>A form that becomes read-only and then editable again has the controls it had before, provided none of
  them was remembered earlier; but what was remembered is never forgotten: on any page shown later a
  control at such a position is enabled as soon as that page is editable, even if it was disabled.\<close>

theorem read_only_restores:
  assumes "distinct (map fst cs)" and "set (map fst cs) \<subseteq> set control_tags" and "keys_only st"
    and "\<forall>(t, ds) \<in> set cs. \<forall>j < length ds. control_key t j \<notin> set st"
  shows "let (cs1, st1) = kcReadOnly True cs st; (cs2, st2) = kcReadOnly False cs1 st1
    in cs2 = cs \<and> st2 = st1
      \<and> (\<forall>t ds. (t, ds) \<in> set cs \<longrightarrow> (\<forall>j < length ds. \<not> ds ! j \<longrightarrow>
          (\<forall>flags. j < length flags \<longrightarrow> \<not> snd (hd (fst (kcReadOnly False [(t, flags)] st2))) ! j)))"
proof -
  define st1 where "st1 = snd (each_tag (\<lambda>tag. disable_all tag 0) cs st)"
  have keys: "k \<in> set st1 \<longleftrightarrow> k \<in> set st \<or> (\<exists>(t, ds) \<in> set cs. \<exists>j < length ds. \<not> ds ! j \<and> k = control_key t j)" for k
    by (simp add: st1_def each_disable_keys)
  have only: "keys_only st1"
  proof (unfold keys_only_def, rule ballI)
    fix k assume "k \<in> set st1"
    then consider "k \<in> set st" | t ds j where "(t, ds) \<in> set cs" "k = control_key t j" unfolding keys by blast
    then show "\<exists>t \<in> set control_tags. \<exists>i. k = control_key t i"
    proof cases
      case 1
      then show ?thesis using assms(3) by (simp add: keys_only_def)
    next
      case 2
      then have "t \<in> set control_tags" using assms(2) by force
      then show ?thesis using 2(2) by blast
    qed
  qed
  have flag: "control_key t j \<in> set st1 \<longleftrightarrow> \<not> ds ! j" if "(t, ds) \<in> set cs" "j < length ds" for t ds j
  proof
    have t: "t \<in> set control_tags" using that(1) assms(2) by force
    assume "control_key t j \<in> set st1"
    moreover have "control_key t j \<notin> set st" using assms(4) that by blast
    ultimately obtain u es i where u: "(u, es) \<in> set cs" "\<not> es ! i" "control_key t j = control_key u i"
      unfolding keys by blast
    moreover have "u \<in> set control_tags" using u(1) assms(2) by force
    ultimately have "u = t" "i = j" using key_inj [OF t] by metis+
    moreover have "es = ds" using u(1) that(1) assms(1) \<open>u = t\<close> by (metis eq_key_imp_eq_value)
    ultimately show "\<not> ds ! j" using u(2) by simp
  next
    assume "\<not> ds ! j"
    then show "control_key t j \<in> set st1" unfolding keys using that by blast
  qed
  have "map (\<lambda>(t, ds). (t, map (\<lambda>j. if control_key t j \<in> set st1 then False else ds ! j) [0..<length ds]))
      (map (\<lambda>(t, ds). (t, replicate (length ds) True)) cs) = map id cs"
  proof (unfold map_map, rule map_cong)
    fix c assume c: "c \<in> set cs"
    obtain t ds where t: "c = (t, ds)" by (cases c)
    have "map (\<lambda>j. if control_key t j \<in> set st1 then False else replicate (length ds) True ! j) [0..<length ds] = ds"
      using flag c t by (intro nth_equalityI) auto
    then show "((\<lambda>(t, ds). (t, map (\<lambda>j. if control_key t j \<in> set st1 then False else ds ! j) [0..<length ds]))
        \<circ> (\<lambda>(t, ds). (t, replicate (length ds) True))) c = id c"
      by (simp add: t)
  qed simp
  then have undo: "kcReadOnly False (map (\<lambda>(t, ds). (t, replicate (length ds) True)) cs) st1 = (cs, st1)"
    by (simp add: kcReadOnly_def each_enable [OF only])
  have forth: "kcReadOnly True cs st = (map (\<lambda>(t, ds). (t, replicate (length ds) True)) cs, st1)"
    using each_disable [of cs st] by (simp add: kcReadOnly_def st1_def)
  have "\<not> snd (hd (fst (kcReadOnly False [(t, flags)] st1))) ! j"
    if "(t, ds) \<in> set cs" "j < length ds" "\<not> ds ! j" "j < length flags" for t ds j flags
    using that flag each_enable [OF only, of "[(t, flags)]"] by (simp add: kcReadOnly_def)
  then show ?thesis unfolding Let_def forth prod.case undo by blast
qed

theorem read_only_restores_witness:
  "let (cs1, st1) = kcReadOnly True [(''INPUT'', [False, True])] []; (cs2, st2) = kcReadOnly False cs1 st1
   in cs2 = [(''INPUT'', [False, True])] \<and> st2 = st1"
  using read_only_restores [of "[(''INPUT'', [False, True])]" "[]"]
  by (simp add: control_tags_def keys_only_def split: prod.splits)

end
