(* ===== verification/Admin_Roles.thy ===== *)
theory Admin_Roles
  imports Admin_Rest "HOL-Library.Multiset"
begin

text \<open>
  Pages with two lists of roles, the available and the assigned ones, between which the buttons move
  what is selected: the composite roles of a role (\<open>roleControl\<close> of \<open>services.js\<close>, used by
  \<open>RoleDetailCtrl\<close> of \<open>controllers/realm.js\<close> and \<open>ApplicationRoleDetailCtrl\<close> of
  \<open>controllers/applications.js\<close>), and the default roles of a realm (\<open>RealmDefaultRolesCtrl\<close>).
\<close>

section \<open>Two lists\<close>

text \<open>
  Roles are objects, and \<open>indexOf\<close> finds an object by its identity: a role carries the address of its
  object, so that two roles are equal exactly when they are the same object.  The loop of the buttons:
  what is still in the one list is spliced out of it and pushed to the other.
\<close>

record role_obj =
  ro_addr :: nat
  ro_fields :: fields

definition role_id :: "role_obj \<Rightarrow> jsval" where
  "role_id r = getf (ro_fields r) ''id''"

definition role_array :: "role_obj list \<Rightarrow> jsval" where
  "role_array rs = Arr (map (\<lambda>r. Obj (ro_fields r)) rs)"

fun move_roles :: "'a list \<Rightarrow> 'a list \<Rightarrow> 'a list \<Rightarrow> 'a list \<times> 'a list" where
  "move_roles [] src dst = (src, dst)"
| "move_roles (r # rs) src dst =
     (if r \<in> set src then move_roles rs (remove1 r src) (dst @ [r]) else move_roles rs src dst)"

text \<open>The loops that take roles out of a list by their id.\<close>

fun remove_id :: "jsval \<Rightarrow> role_obj list \<Rightarrow> role_obj list" where
  "remove_id v [] = []"
| "remove_id v (r # rs) = (if role_id r = v then rs else r # remove_id v rs)"

fun remove_mapped :: "role_obj list \<Rightarrow> role_obj list \<Rightarrow> role_obj list" where
  "remove_mapped [] roles = roles"
| "remove_mapped (m # ms) roles = remove_mapped ms (remove_id (role_id m) roles)"

text \<open>The contract of the two lists: a step that is legal only moves roles.\<close>

locale dual_list =
  fixes left :: "'s \<Rightarrow> 'r list"
    and right :: "'s \<Rightarrow> 'r list"
    and step :: "'e \<Rightarrow> 's \<Rightarrow> 's"
    and legal :: "'e \<Rightarrow> 's \<Rightarrow> bool"
  assumes step_moves: "legal e s \<Longrightarrow>
    mset (left (step e s)) + mset (right (step e s)) = mset (left s) + mset (right s)"
begin

fun legal_run :: "'e list \<Rightarrow> 's \<Rightarrow> bool" where
  "legal_run [] s = True"
| "legal_run (e # es) s = (legal e s \<and> legal_run es (step e s))"

lemma run_conserves: "legal_run es s \<Longrightarrow>
    mset (left (fold step es s)) + mset (right (fold step es s)) = mset (left s) + mset (right s)"
  by (induction es arbitrary: s) (simp_all add: step_moves)

lemma run_distinct: "legal_run es s \<Longrightarrow> distinct (left s @ right s) \<Longrightarrow>
    distinct (left (fold step es s) @ right (fold step es s))"
  using run_conserves [of es s]
    mset_eq_imp_distinct_iff [of "left s @ right s" "left (fold step es s) @ right (fold step es s)"]
  by (simp only: mset_append)

lemma legal_runI: "(\<And>e s. e \<in> set es \<Longrightarrow> legal e s) \<Longrightarrow> legal_run es s"
  by (induction es arbitrary: s) simp_all

end

lemma distinct_subset_mset:
  assumes "distinct xs" and "set xs \<subseteq> set_mset M"
  shows "mset xs \<subseteq># M"
proof (rule mset_subset_eqI)
  fix v
  show "count (mset xs) v \<le> count M v"
    using assms distinct_count_atmost_1 [of xs] count_greater_eq_one_iff [of M v] by (auto simp: le_Suc_eq)
qed

lemma in_diff_other: "x \<noteq> y \<Longrightarrow> x \<in># M - {#y#} \<longleftrightarrow> x \<in># M"
  by (auto simp: in_diff_count)

lemma move_roles_mset:
  "move_roles sel src dst = (src', dst') \<Longrightarrow> mset src' + mset dst' = mset src + mset dst"
proof (induction sel arbitrary: src dst)
  case (Cons r sel)
  show ?case
  proof (cases "r \<in> set src")
    case True
    then have "mset src = add_mset r (mset (remove1 r src))" by simp
    then show ?thesis using Cons True by auto
  qed (use Cons in auto)
qed simp

lemma move_roles_all:
  "distinct sel \<Longrightarrow> set sel \<subseteq> set src \<Longrightarrow> snd (move_roles sel src dst) = dst @ sel"
proof (induction sel arbitrary: src dst)
  case (Cons r sel)
  then have "set sel \<subseteq> set (remove1 r src)" by (metis in_set_remove1 insert_subset distinct.simps(2) list.set(2) subset_eq)
  then show ?case using Cons by simp
qed simp

lemma mset_remove_id: "image_mset role_id (mset (remove_id v rs)) = image_mset role_id (mset rs) - {#v#}"
  by (induction rs) auto

lemma mset_remove_mapped: "image_mset role_id (mset (remove_mapped ms rs))
    = image_mset role_id (mset rs) - image_mset role_id (mset ms)"
  by (induction ms arbitrary: rs) (simp_all add: mset_remove_id)

section \<open>\<open>roleControl\<close>\<close>

text \<open>
  \<open>selectRealmRoles\<close> is a field of its own: the handler of \<open>addRealmRole\<close> empties it where it means
  \<open>selectedRealmRoles\<close>.  \<open>rk_saved\<close> is the argument \<open>role\<close> of \<open>roleControl\<close>.
\<close>

record role_ctrl =
  rk_role :: fields
  rk_saved :: fields
  rk_changed :: bool
  rk_compositeSwitchDisabled :: bool
  rk_realmRoles :: "role_obj list"
  rk_selectedRealmRoles :: "role_obj list"
  rk_selectRealmRoles :: "role_obj list"
  rk_realmMappings :: "role_obj list"
  rk_selectedRealmMappings :: "role_obj list"
  rk_applicationRoles :: "role_obj list"
  rk_selectedApplicationRoles :: "role_obj list"
  rk_applicationMappings :: "role_obj list"
  rk_selectedApplicationMappings :: "role_obj list"
  rk_compositeApp :: "fields option"

record role_env =
  re_auth :: string
  re_realm :: string
  re_id :: string

definition by_id_url :: "role_env \<Rightarrow> string" where
  "by_id_url en = re_auth en @ ''/admin/realms/'' @ re_realm en @ ''/roles-by-id/'' @ re_id en @ ''/composites''"

definition watch_role :: "role_ctrl \<Rightarrow> role_ctrl" where
  "watch_role s =
     (if \<not> equals (Obj (rk_role s)) (Obj (rk_saved s)) then s\<lparr>rk_changed := True\<rparr> else s)"

definition role_update :: "role_env \<Rightarrow> role_ctrl \<Rightarrow> ceffect list" where
  "role_update en s = [Ask (Rest ''RoleById'' ''update''
     [(''realm'', Str (re_realm en)), (''role'', getf (rk_saved s) ''id'')] (Obj (rk_role s)))]"

definition role_updated :: "role_ctrl \<Rightarrow> role_ctrl \<times> ceffect list" where
  "role_updated s = (s\<lparr>rk_changed := False, rk_saved := rk_role s\<rparr>,
     [Success ''Your changes have been saved to the role.''])"

definition role_reset :: "role_ctrl \<Rightarrow> role_ctrl" where
  "role_reset s = s\<lparr>rk_role := rk_saved s, rk_changed := False\<rparr>"

text \<open>The page of an existing role: it takes the role itself out of the roles and asks for its composites.\<close>

definition roleControl :: "role_env \<Rightarrow> fields \<Rightarrow> role_obj list \<Rightarrow> bool \<Rightarrow> role_ctrl \<times> ceffect list" where
  "roleControl en role roles changed =
     (let s = \<lparr>rk_role = role, rk_saved = role, rk_changed = changed, rk_compositeSwitchDisabled = False,
               rk_realmRoles = [], rk_selectedRealmRoles = [], rk_selectRealmRoles = [], rk_realmMappings = [],
               rk_selectedRealmMappings = [], rk_applicationRoles = [], rk_selectedApplicationRoles = [],
               rk_applicationMappings = [], rk_selectedApplicationMappings = [], rk_compositeApp = None\<rparr>
      in if \<not> truthy (getf role ''id'') then (s, [])
         else (s\<lparr>rk_compositeSwitchDisabled := truthy (getf role ''composite''),
                 rk_realmRoles := remove_id (getf role ''id'') roles\<rparr>,
               [Ask (Rest ''RoleRealmComposites'' ''query''
                  [(''realm'', Str (re_realm en)), (''role'', getf role ''id'')] Undefined)]))"

definition realm_composites_loaded :: "role_obj list \<Rightarrow> role_ctrl \<Rightarrow> role_ctrl" where
  "realm_composites_loaded ms s =
     s\<lparr>rk_realmMappings := ms, rk_realmRoles := remove_mapped ms (rk_realmRoles s)\<rparr>"

text \<open>Each button sends what is selected; its answer moves what is selected when it arrives.\<close>

definition addRealmRole :: "role_env \<Rightarrow> role_ctrl \<Rightarrow> role_ctrl \<times> ceffect list" where
  "addRealmRole en s =
     (s\<lparr>rk_compositeSwitchDisabled := True\<rparr>,
      [Ask (Http ''POST'' (by_id_url en) (role_array (rk_selectedRealmRoles s)))])"

definition realmRole_added :: "role_ctrl \<Rightarrow> role_ctrl" where
  "realmRole_added s =
     (let (roles, maps) = move_roles (rk_selectedRealmRoles s) (rk_realmRoles s) (rk_realmMappings s)
      in s\<lparr>rk_realmRoles := roles, rk_realmMappings := maps, rk_selectRealmRoles := []\<rparr>)"

definition deleteRealmRole :: "role_env \<Rightarrow> role_ctrl \<Rightarrow> role_ctrl \<times> ceffect list" where
  "deleteRealmRole en s =
     (s\<lparr>rk_compositeSwitchDisabled := True\<rparr>,
      [Ask (Http ''DELETE'' (by_id_url en) (role_array (rk_selectedRealmMappings s)))])"

definition realmRole_deleted :: "role_ctrl \<Rightarrow> role_ctrl" where
  "realmRole_deleted s =
     (let (maps, roles) = move_roles (rk_selectedRealmMappings s) (rk_realmMappings s) (rk_realmRoles s)
      in s\<lparr>rk_realmRoles := roles, rk_realmMappings := maps, rk_selectedRealmMappings := []\<rparr>)"

definition addApplicationRole :: "role_env \<Rightarrow> role_ctrl \<Rightarrow> role_ctrl \<times> ceffect list" where
  "addApplicationRole en s =
     (s\<lparr>rk_compositeSwitchDisabled := True\<rparr>,
      [Ask (Http ''POST'' (by_id_url en) (role_array (rk_selectedApplicationRoles s)))])"

definition applicationRole_added :: "role_ctrl \<Rightarrow> role_ctrl" where
  "applicationRole_added s =
     (let (roles, maps) =
        move_roles (rk_selectedApplicationRoles s) (rk_applicationRoles s) (rk_applicationMappings s)
      in s\<lparr>rk_applicationRoles := roles, rk_applicationMappings := maps, rk_selectedApplicationRoles := []\<rparr>)"

definition deleteApplicationRole :: "role_env \<Rightarrow> role_ctrl \<Rightarrow> role_ctrl \<times> ceffect list" where
  "deleteApplicationRole en s =
     (s\<lparr>rk_compositeSwitchDisabled := True\<rparr>,
      [Ask (Http ''DELETE'' (by_id_url en) (role_array (rk_selectedApplicationMappings s)))])"

definition applicationRole_deleted :: "role_ctrl \<Rightarrow> role_ctrl" where
  "applicationRole_deleted s =
     (let (maps, roles) =
        move_roles (rk_selectedApplicationMappings s) (rk_applicationMappings s) (rk_applicationRoles s)
      in s\<lparr>rk_applicationRoles := roles, rk_applicationMappings := maps, rk_selectedApplicationMappings := []\<rparr>)"

text \<open>
  The application that is picked.  The loop that is to take the role itself out of the roles of the
  application compares the role object with the id: an object equals a string only if the string is the
  one every object converts to, and then the misspelt \<open>indexof\<close> is not a function.
\<close>

definition changeApplication :: "role_env \<Rightarrow> role_ctrl \<Rightarrow> js_error + role_ctrl \<times> ceffect list" where
  "changeApplication en s =
     (case rk_compositeApp s of
        None \<Rightarrow> Inl TypeError
      | Some app \<Rightarrow> Inr (s\<lparr>rk_applicationRoles := []\<rparr>,
          [Ask (Rest ''ApplicationRole'' ''query''
             [(''realm'', Str (re_realm en)), (''application'', getf app ''name'')] Undefined)]))"

text \<open>
  The array that a query returns is filled when its answer comes, and then the callback runs, on the arrays that the
  page has by then: those of a later query when the answer is an old one.
\<close>

definition application_roles_called :: "role_env \<Rightarrow> role_ctrl \<Rightarrow> (role_ctrl \<times> ceffect list) \<times> js_error option" where
  "application_roles_called en s =
     (case rk_compositeApp s of
        None \<Rightarrow> ((s, []), Some TypeError)
      | Some app \<Rightarrow>
          ((s\<lparr>rk_applicationMappings := []\<rparr>,
            [Ask (Rest ''RoleApplicationComposites'' ''query''
               [(''realm'', Str (re_realm en)), (''role'', getf (rk_saved s) ''id''),
                (''application'', getf app ''name'')] Undefined)]),
           if rk_applicationRoles s \<noteq> [] \<and> getf (rk_saved s) ''id'' = Str ''[object Object]'' then Some TypeError else None))"

definition application_roles_loaded :: "role_env \<Rightarrow> role_obj list \<Rightarrow> role_ctrl
    \<Rightarrow> (role_ctrl \<times> ceffect list) \<times> js_error option" where
  "application_roles_loaded en roles s = application_roles_called en (s\<lparr>rk_applicationRoles := roles\<rparr>)"

definition application_composites_called :: "role_ctrl \<Rightarrow> role_ctrl" where
  "application_composites_called s =
     s\<lparr>rk_applicationRoles := remove_mapped (rk_applicationMappings s) (rk_applicationRoles s)\<rparr>"

definition application_composites_loaded :: "role_obj list \<Rightarrow> role_ctrl \<Rightarrow> role_ctrl" where
  "application_composites_loaded ms s = application_composites_called (s\<lparr>rk_applicationMappings := ms\<rparr>)"

subsection \<open>Histories of the page\<close>

text \<open>What the user picks and presses, and the answers, the last four for queries that are the latest or not.\<close>

datatype role_event =
    RealmCompositesLoaded "role_obj list"
  | PickRealmRoles "role_obj list"
  | PickRealmMappings "role_obj list"
  | PickApplicationRoles "role_obj list"
  | PickApplicationMappings "role_obj list"
  | AddRealmRole
  | RealmRoleAdded
  | DeleteRealmRole
  | RealmRoleDeleted
  | AddApplicationRole
  | ApplicationRoleAdded
  | DeleteApplicationRole
  | ApplicationRoleDeleted
  | EditRole fields
  | RoleUpdated
  | ResetRole
  | PickApplication "fields option"
  | ChangeApplication
  | ApplicationRolesLoaded "role_obj list"
  | ApplicationCompositesLoaded "role_obj list"
  | OldApplicationRoles
  | OldApplicationComposites

fun role_step :: "role_env \<Rightarrow> role_event \<Rightarrow> role_ctrl \<Rightarrow> role_ctrl" where
  "role_step en (RealmCompositesLoaded ms) s = realm_composites_loaded ms s"
| "role_step en (PickRealmRoles rs) s = s\<lparr>rk_selectedRealmRoles := rs\<rparr>"
| "role_step en (PickRealmMappings rs) s = s\<lparr>rk_selectedRealmMappings := rs\<rparr>"
| "role_step en (PickApplicationRoles rs) s = s\<lparr>rk_selectedApplicationRoles := rs\<rparr>"
| "role_step en (PickApplicationMappings rs) s = s\<lparr>rk_selectedApplicationMappings := rs\<rparr>"
| "role_step en AddRealmRole s = fst (addRealmRole en s)"
| "role_step en RealmRoleAdded s = realmRole_added s"
| "role_step en DeleteRealmRole s = fst (deleteRealmRole en s)"
| "role_step en RealmRoleDeleted s = realmRole_deleted s"
| "role_step en AddApplicationRole s = fst (addApplicationRole en s)"
| "role_step en ApplicationRoleAdded s = applicationRole_added s"
| "role_step en DeleteApplicationRole s = fst (deleteApplicationRole en s)"
| "role_step en ApplicationRoleDeleted s = applicationRole_deleted s"
| "role_step en (EditRole r) s = watch_role (s\<lparr>rk_role := r\<rparr>)"
| "role_step en RoleUpdated s = fst (role_updated s)"
| "role_step en ResetRole s = role_reset s"
| "role_step en (PickApplication app) s = s\<lparr>rk_compositeApp := app\<rparr>"
| "role_step en ChangeApplication s = (case changeApplication en s of Inl e \<Rightarrow> s | Inr (s', es) \<Rightarrow> s')"
| "role_step en (ApplicationRolesLoaded roles) s = fst (fst (application_roles_loaded en roles s))"
| "role_step en (ApplicationCompositesLoaded ms) s = application_composites_loaded ms s"
| "role_step en OldApplicationRoles s = fst (fst (application_roles_called en s))"
| "role_step en OldApplicationComposites s = application_composites_called s"

lemmas role_step_defs = addRealmRole_def realmRole_added_def deleteRealmRole_def realmRole_deleted_def
  addApplicationRole_def applicationRole_added_def deleteApplicationRole_def applicationRole_deleted_def
  watch_role_def role_updated_def role_reset_def changeApplication_def application_roles_loaded_def
  application_roles_called_def application_composites_loaded_def application_composites_called_def

text \<open>The events that fill one pair of lists anew.\<close>

definition realm_load :: "role_event \<Rightarrow> bool" where
  "realm_load e = (case e of RealmCompositesLoaded ms \<Rightarrow> True | _ \<Rightarrow> False)"

definition app_load :: "role_event \<Rightarrow> bool" where
  "app_load e = (case e of
     ChangeApplication \<Rightarrow> True | ApplicationRolesLoaded roles \<Rightarrow> True | ApplicationCompositesLoaded ms \<Rightarrow> True
   | OldApplicationRoles \<Rightarrow> True | OldApplicationComposites \<Rightarrow> True | _ \<Rightarrow> False)"

interpretation composites: dual_list rk_realmRoles rk_realmMappings "role_step en" "\<lambda>e s. \<not> realm_load e" for en
proof
  fix e s
  show "\<not> realm_load e \<Longrightarrow> mset (rk_realmRoles (role_step en e s)) + mset (rk_realmMappings (role_step en e s))
      = mset (rk_realmRoles s) + mset (rk_realmMappings s)"
    by (cases e) (auto simp: role_step_defs realm_load_def add.commute dest!: move_roles_mset
      split: prod.splits option.splits sum.splits)
qed

interpretation app_composites: dual_list rk_applicationRoles rk_applicationMappings "role_step en" "\<lambda>e s. \<not> app_load e" for en
proof
  fix e s
  show "\<not> app_load e \<Longrightarrow>
      mset (rk_applicationRoles (role_step en e s)) + mset (rk_applicationMappings (role_step en e s))
      = mset (rk_applicationRoles s) + mset (rk_applicationMappings s)"
    by (cases e) (auto simp: role_step_defs app_load_def realm_composites_loaded_def add.commute dest!: move_roles_mset
      split: prod.splits)
qed

text \<open>
  What an answer with the assigned roles does to two lists without a role twice: nothing is lost but what was assigned
  before the answer and is not in it.
\<close>

definition ids :: "role_obj list \<Rightarrow> jsval set" where
  "ids rs = role_id ` set rs"

lemma ids_simps [simp]:
  "ids [] = {}" "ids (r # rs) = insert (role_id r) (ids rs)" "ids (rs @ rs') = ids rs \<union> ids rs'"
  by (auto simp: ids_def)

lemma distinct_ids [simp]:
  "distinct (map role_id (r # rs)) \<longleftrightarrow> role_id r \<notin> ids rs \<and> distinct (map role_id rs)"
  "distinct (map role_id (rs @ rs')) \<longleftrightarrow>
     distinct (map role_id rs) \<and> distinct (map role_id rs') \<and> ids rs \<inter> ids rs' = {}"
  by (auto simp: ids_def)

lemma ids_remove_id: "distinct (map role_id rs) \<Longrightarrow>
    ids (remove_id v rs) = ids rs - {v} \<and> distinct (map role_id (remove_id v rs))"
  by (induction rs) (auto simp del: list.map map_append)

lemma ids_remove_mapped: "distinct (map role_id rs) \<Longrightarrow>
    ids (remove_mapped ms rs) = ids rs - ids ms \<and> distinct (map role_id (remove_mapped ms rs))"
proof (induction ms arbitrary: rs)
  case (Cons m ms)
  then show ?case using ids_remove_id [of rs "role_id m"] by auto
qed simp

lemma answer_ids:
  assumes "distinct (map role_id (left @ right))" and "distinct (map role_id ms)" and "ids ms \<subseteq> ids (left @ right)"
  shows "distinct (map role_id (remove_mapped ms left @ ms))"
    and "ids (remove_mapped ms left @ ms) = ids (left @ right) - (ids right - ids ms)"
proof -
  have d: "distinct (map role_id left)" "ids left \<inter> ids right = {}"
    using assms(1) unfolding distinct_ids by blast+
  then have l: "ids (remove_mapped ms left) = ids left - ids ms" "distinct (map role_id (remove_mapped ms left))"
    using ids_remove_mapped by blast+
  show "distinct (map role_id (remove_mapped ms left @ ms))"
    unfolding distinct_ids using l assms(2) by blast
  show "ids (remove_mapped ms left @ ms) = ids (left @ right) - (ids right - ids ms)"
    using l(1) assms(3) d(2) unfolding ids_simps by blast
qed

lemma same_ids: "mset xs = mset ys \<Longrightarrow> ids xs = ids ys \<and> (distinct (map role_id xs) \<longleftrightarrow> distinct (map role_id ys))"
  unfolding ids_def by (metis mset_eq_setD mset_map mset_eq_imp_distinct_iff)

lemma opened_lists:
  assumes "truthy (getf role ''id'')" and "distinct (map role_id roles)"
  shows "rk_realmRoles (fst (roleControl en role roles c)) = remove_id (getf role ''id'') roles"
    and "rk_realmMappings (fst (roleControl en role roles c)) = []"
  using assms by (simp_all add: roleControl_def Let_def)

text \<open>The realm's lists before the answer to the query for the composites, and after it.\<close>

lemma realm_lists:
  assumes "\<forall>e \<in> set es. \<not> realm_load e"
  shows "mset (rk_realmRoles (fold (role_step en) es s) @ rk_realmMappings (fold (role_step en) es s))
    = mset (rk_realmRoles s @ rk_realmMappings s)"
  unfolding mset_append by (rule composites.run_conserves [OF composites.legal_runI]) (use assms in blast)

lemma app_lists:
  assumes "\<forall>e \<in> set es. \<not> app_load e"
  shows "mset (rk_applicationRoles (fold (role_step en) es s) @ rk_applicationMappings (fold (role_step en) es s))
    = mset (rk_applicationRoles s @ rk_applicationMappings s)"
  unfolding mset_append by (rule app_composites.run_conserves [OF app_composites.legal_runI]) (use assms in blast)

lemma realm_roles_kept:
  assumes "truthy (getf role ''id'')" and "distinct (map role_id roles)" and "distinct (map role_id ms)"
    and "ids ms \<subseteq> ids roles - {getf role ''id''}" and "\<forall>e \<in> set (es @ es'). \<not> realm_load e"
    and "s1 = fold (role_step en) es (fst (roleControl en role roles c))"
    and "s2 = fold (role_step en) es' (role_step en (RealmCompositesLoaded ms) s1)"
  shows "distinct (map role_id (rk_realmRoles s1 @ rk_realmMappings s1))
      \<and> ids (rk_realmRoles s1 @ rk_realmMappings s1) = ids roles - {getf role ''id''}
      \<and> distinct (map role_id (rk_realmRoles s2 @ rk_realmMappings s2))
      \<and> ids (rk_realmRoles s2 @ rk_realmMappings s2)
          = ids roles - {getf role ''id''} - (ids (rk_realmMappings s1) - ids ms)"
proof -
  have "mset (rk_realmRoles s1 @ rk_realmMappings s1) = mset (remove_id (getf role ''id'') roles)"
    using realm_lists [of es en "fst (roleControl en role roles c)"] assms(5) opened_lists [OF assms(1,2), of en c]
    by (simp add: assms(6))
  from same_ids [OF this] have l1: "distinct (map role_id (rk_realmRoles s1 @ rk_realmMappings s1))"
      "ids (rk_realmRoles s1 @ rk_realmMappings s1) = ids roles - {getf role ''id''}"
    using ids_remove_id [OF assms(2), of "getf role ''id''"] by simp_all
  have "mset (rk_realmRoles s2 @ rk_realmMappings s2) = mset (remove_mapped ms (rk_realmRoles s1) @ ms)"
    using realm_lists [of es' en "role_step en (RealmCompositesLoaded ms) s1"] assms(5)
    by (simp add: assms(7) realm_composites_loaded_def)
  from same_ids [OF this] show ?thesis
    using answer_ids [OF l1(1) assms(3)] l1 assms(4) by simp
qed

lemma app_roles_kept:
  assumes "rk_compositeApp s \<noteq> None" and "distinct (map role_id roles)" and "distinct (map role_id ms)"
    and "ids ms \<subseteq> ids roles" and "\<forall>e \<in> set (es @ es'). \<not> app_load e"
    and "s1 = fold (role_step en) es (role_step en (ApplicationRolesLoaded roles) s)"
    and "s2 = fold (role_step en) es' (role_step en (ApplicationCompositesLoaded ms) s1)"
  shows "mset (rk_applicationRoles s1 @ rk_applicationMappings s1) = mset roles
      \<and> distinct (map role_id (rk_applicationRoles s2 @ rk_applicationMappings s2))
      \<and> ids (rk_applicationRoles s2 @ rk_applicationMappings s2)
          = ids roles - (ids (rk_applicationMappings s1) - ids ms)"
proof -
  have l1: "mset (rk_applicationRoles s1 @ rk_applicationMappings s1) = mset roles"
    using app_lists [of es en "role_step en (ApplicationRolesLoaded roles) s"] assms(1,5)
    by (auto simp: assms(6) application_roles_loaded_def application_roles_called_def)
  have d: "distinct (map role_id (rk_applicationRoles s1 @ rk_applicationMappings s1))"
      "ids (rk_applicationRoles s1 @ rk_applicationMappings s1) = ids roles"
    using same_ids [OF l1] assms(2) by simp_all
  have "mset (rk_applicationRoles s2 @ rk_applicationMappings s2) = mset (remove_mapped ms (rk_applicationRoles s1) @ ms)"
    using app_lists [of es' en "role_step en (ApplicationCompositesLoaded ms) s1"] assms(5)
    by (simp add: assms(7) application_composites_loaded_def application_composites_called_def)
  from same_ids [OF this] show ?thesis
    using answer_ids [OF d(1) assms(3)] d assms(4) l1 by simp
qed

text \<open>C21. On the page of an existing role every realm role except the role itself is in exactly one of the two lists,
  whatever is picked, sent, answered (late, or more than once), edited or reset, and whatever application is chosen,
  before and after the composites of the role arrive; the one exception is that their answer drops the roles that were
  added before it and that it does not name.  The same holds of the roles of the application that is shown, from the
  answer with its roles on, and of the answer with its composites, as long as no other application is asked for.\<close>

theorem roles_conserved:
  assumes "truthy (getf role ''id'')" and "distinct (map role_id roles)" and "distinct (map role_id ms)"
    and "ids ms \<subseteq> ids roles - {getf role ''id''}" and "\<forall>e \<in> set (es @ es'). \<not> realm_load e"
  shows "(let s1 = fold (role_step en) es (fst (roleControl en role roles c));
        s2 = fold (role_step en) es' (role_step en (RealmCompositesLoaded ms) s1)
      in distinct (map role_id (rk_realmRoles s1 @ rk_realmMappings s1))
        \<and> ids (rk_realmRoles s1 @ rk_realmMappings s1) = ids roles - {getf role ''id''}
        \<and> distinct (map role_id (rk_realmRoles s2 @ rk_realmMappings s2))
        \<and> ids (rk_realmRoles s2 @ rk_realmMappings s2)
            = ids roles - {getf role ''id''} - (ids (rk_realmMappings s1) - ids ms))
    \<and> (\<forall>s aroles ams as as'. rk_compositeApp s \<noteq> None \<and> distinct (map role_id aroles) \<and> distinct (map role_id ams)
        \<and> ids ams \<subseteq> ids aroles \<and> (\<forall>e \<in> set (as @ as'). \<not> app_load e) \<longrightarrow>
      (let s1 = fold (role_step en) as (role_step en (ApplicationRolesLoaded aroles) s);
         s2 = fold (role_step en) as' (role_step en (ApplicationCompositesLoaded ams) s1)
       in mset (rk_applicationRoles s1 @ rk_applicationMappings s1) = mset aroles
         \<and> distinct (map role_id (rk_applicationRoles s2 @ rk_applicationMappings s2))
         \<and> ids (rk_applicationRoles s2 @ rk_applicationMappings s2)
             = ids aroles - (ids (rk_applicationMappings s1) - ids ams)))"
proof (rule conjI, unfold Let_def)
  let ?s1 = "fold (role_step en) es (fst (roleControl en role roles c))"
  show "distinct (map role_id (rk_realmRoles ?s1 @ rk_realmMappings ?s1))
      \<and> ids (rk_realmRoles ?s1 @ rk_realmMappings ?s1) = ids roles - {getf role ''id''}
      \<and> distinct (map role_id
          (rk_realmRoles (fold (role_step en) es' (role_step en (RealmCompositesLoaded ms) ?s1))
           @ rk_realmMappings (fold (role_step en) es' (role_step en (RealmCompositesLoaded ms) ?s1))))
      \<and> ids (rk_realmRoles (fold (role_step en) es' (role_step en (RealmCompositesLoaded ms) ?s1))
           @ rk_realmMappings (fold (role_step en) es' (role_step en (RealmCompositesLoaded ms) ?s1)))
          = ids roles - {getf role ''id''} - (ids (rk_realmMappings ?s1) - ids ms)"
    by (rule realm_roles_kept [OF assms refl refl])
qed (intro allI impI, elim conjE, rule app_roles_kept [OF _ _ _ _ _ refl refl], assumption+)

definition demo_role :: "nat \<Rightarrow> string \<Rightarrow> role_obj" where
  "demo_role n i = \<lparr>ro_addr = n, ro_fields = [(''id'', Str i)]\<rparr>"

definition demo_role_env :: role_env where
  "demo_role_env = \<lparr>re_auth = [], re_realm = ''demo'', re_id = ''a''\<rparr>"

text \<open>The role c is added before the composites arrive, and is lost.\<close>

theorem roles_conserved_witness:
  "let s1 = fold (role_step demo_role_env) [PickRealmRoles [demo_role 3 ''c''], AddRealmRole, RealmRoleAdded]
        (fst (roleControl demo_role_env [(''id'', Str ''a'')] [demo_role 1 ''a'', demo_role 2 ''b'', demo_role 3 ''c''] False));
      s2 = fold (role_step demo_role_env) [ChangeApplication, RealmRoleAdded] (role_step demo_role_env (RealmCompositesLoaded [demo_role 4 ''b'']) s1)
   in ids (rk_realmRoles s1 @ rk_realmMappings s1) = {Str ''b'', Str ''c''}
     \<and> ids (rk_realmRoles s2 @ rk_realmMappings s2) = {Str ''b''}"
proof -
  let ?roles = "[demo_role 1 ''a'', demo_role 2 ''b'', demo_role 3 ''c'']"
  let ?s0 = "fst (roleControl demo_role_env [(''id'', Str ''a'')] ?roles False)"
  let ?s1 = "fold (role_step demo_role_env) [PickRealmRoles [demo_role 3 ''c''], AddRealmRole, RealmRoleAdded] ?s0"
  let ?s2 = "fold (role_step demo_role_env) [ChangeApplication, RealmRoleAdded]
    (role_step demo_role_env (RealmCompositesLoaded [demo_role 4 ''b'']) ?s1)"
  have i: "ids [demo_role 4 ''b''] = {Str ''b''}" "ids ?roles = {Str ''a'', Str ''b'', Str ''c''}"
    by (auto simp: ids_def role_id_def demo_role_def)
  have maps: "ids (rk_realmMappings ?s1) = {Str ''c''}"
    by (simp add: roleControl_def Let_def demo_role_def role_id_def role_step_defs ids_def)
  have "ids (rk_realmRoles ?s1 @ rk_realmMappings ?s1) = ids ?roles - {Str ''a''}
      \<and> ids (rk_realmRoles ?s2 @ rk_realmMappings ?s2) = ids ?roles - {Str ''a''} - (ids (rk_realmMappings ?s1) - ids [demo_role 4 ''b''])"
    using roles_conserved [of "[(''id'', Str ''a'')]" ?roles "[demo_role 4 ''b'']" "[PickRealmRoles [demo_role 3 ''c''], AddRealmRole, RealmRoleAdded]"
        "[ChangeApplication, RealmRoleAdded]" demo_role_env False]
    unfolding Let_def by (simp add: demo_role_def role_id_def realm_load_def ids_def)
  then have "ids (rk_realmRoles ?s1 @ rk_realmMappings ?s1) = {Str ''b'', Str ''c''}
      \<and> ids (rk_realmRoles ?s2 @ rk_realmMappings ?s2) = {Str ''b''}"
    unfolding maps i by auto
  then show ?thesis unfolding Let_def .
qed

section \<open>\<open>RoleDetailCtrl\<close>, \<open>ApplicationRoleDetailCtrl\<close>\<close>

text \<open>Creating a role: the name is cut from the location of the answer.\<close>

definition after_slash :: "string \<Rightarrow> string" where
  "after_slash l = rev (takeWhile (\<lambda>c. c \<noteq> CHR ''/'') (rev l))"

definition RoleDetailCtrl :: "role_env \<Rightarrow> fields \<Rightarrow> role_obj list \<Rightarrow> role_ctrl \<times> ceffect list" where
  "RoleDetailCtrl en role roles = roleControl en role roles (\<not> truthy (getf role ''name''))"

definition role_save :: "role_env \<Rightarrow> bool \<Rightarrow> role_ctrl \<Rightarrow> ceffect list" where
  "role_save en create s =
     (if create then [Ask (Rest ''Role'' ''save'' [(''realm'', Str (re_realm en))] (Obj (rk_role s)))]
      else role_update en s)"

definition role_created :: "role_env \<Rightarrow> string \<Rightarrow> role_ctrl \<Rightarrow> role_ctrl \<times> ceffect list" where
  "role_created en location s = (s\<lparr>rk_changed := False\<rparr>,
     [GoTo (''/realms/'' @ re_realm en @ ''/roles/'' @ after_slash location), Success ''The role has been created.''])"

definition role_remove :: "conv \<Rightarrow> role_ctrl \<Rightarrow> ceffect list" where
  "role_remove cv s = [Confirm ''confirmDelete'' (str cv (getf (rk_role s) ''name'')) ''role'']"

definition role_remove_confirmed :: "role_env \<Rightarrow> role_ctrl \<Rightarrow> ceffect list" where
  "role_remove_confirmed en s = [Ask (Rest ''Role'' ''remove''
     [(''realm'', Str (re_realm en)), (''role'', getf (rk_role s) ''name'')] (Obj (rk_role s)))]"

definition role_removed :: "role_env \<Rightarrow> ceffect list" where
  "role_removed en = [GoTo (''/realms/'' @ re_realm en @ ''/roles''), Success ''The role has been deleted.'']"

definition role_cancel :: "role_env \<Rightarrow> ceffect list" where
  "role_cancel en = [GoTo (''/realms/'' @ re_realm en @ ''/roles'')]"

definition app_roles_path :: "role_env \<Rightarrow> string \<Rightarrow> string" where
  "app_roles_path en app = ''/realms/'' @ re_realm en @ ''/applications/'' @ app @ ''/roles''"

definition ApplicationRoleDetailCtrl :: "role_env \<Rightarrow> fields \<Rightarrow> role_obj list \<Rightarrow> role_ctrl \<times> ceffect list" where
  "ApplicationRoleDetailCtrl en role roles = roleControl en role roles (\<not> truthy (getf role ''name''))"

definition app_role_save :: "role_env \<Rightarrow> string \<Rightarrow> bool \<Rightarrow> role_ctrl \<Rightarrow> ceffect list" where
  "app_role_save en app create s =
     (if create then [Ask (Rest ''ApplicationRole'' ''save''
        [(''realm'', Str (re_realm en)), (''application'', Str app)] (Obj (rk_role s)))]
      else role_update en s)"

definition app_role_created :: "role_env \<Rightarrow> string \<Rightarrow> string \<Rightarrow> role_ctrl \<Rightarrow> role_ctrl \<times> ceffect list" where
  "app_role_created en app location s = (s\<lparr>rk_changed := False\<rparr>,
     [GoTo (app_roles_path en app @ ''/'' @ after_slash location), Success ''The role has been created.''])"

definition app_role_remove_confirmed :: "role_env \<Rightarrow> string \<Rightarrow> role_ctrl \<Rightarrow> ceffect list" where
  "app_role_remove_confirmed en app s = [Ask (Rest ''ApplicationRole'' ''remove''
     [(''realm'', Str (re_realm en)), (''application'', Str app), (''role'', getf (rk_role s) ''name'')]
     (Obj (rk_role s)))]"

definition app_role_removed :: "role_env \<Rightarrow> string \<Rightarrow> ceffect list" where
  "app_role_removed en app = [GoTo (app_roles_path en app), Success ''The role has been deleted.'']"

definition app_role_cancel :: "role_env \<Rightarrow> string \<Rightarrow> ceffect list" where
  "app_role_cancel en app = [GoTo (app_roles_path en app)]"

end
