(* ===== verification/Admin_Defaults.thy ===== *)
theory Admin_Defaults
  imports Admin_Roles
begin

text \<open>
  The default roles of a realm and of its applications: \<open>RealmDefaultRolesCtrl\<close> of
  \<open>controllers/realm.js\<close>.  Here roles are names, and the whole realm or application is sent
  after each move.
\<close>

section \<open>\<open>RealmDefaultRolesCtrl\<close>\<close>

text \<open>
  \<open>dr_defaults\<close> is the array \<open>realm.defaultRoles\<close>, \<open>dr_realm\<close> the other fields of the realm; the picked
  application is an entry of \<open>dr_apps\<close>, whose array \<open>defaultRoles\<close> is changed in place.
\<close>

record default_roles =
  dr_realm :: fields
  dr_defaults :: "jsval list"
  dr_available :: "jsval list"
  dr_selected :: "jsval list"
  dr_selectedDef :: "jsval list"
  dr_apps :: "fields list"
  dr_application :: "nat option"
  dr_availableApp :: "jsval list option"
  dr_selectedApp :: "jsval list"
  dr_selectedAppDef :: "jsval list"

definition default_names :: "fields \<Rightarrow> jsval list option" where
  "default_names r = (case getf r ''defaultRoles'' of Arr xs \<Rightarrow> Some xs | _ \<Rightarrow> None)"

fun index_named :: "string \<Rightarrow> nat \<Rightarrow> fields list \<Rightarrow> nat option" where
  "index_named n i [] = None"
| "index_named n i (a # as) = (if getf a ''name'' = Str n then Some i else index_named n (Suc i) as)"

definition not_default :: "jsval list \<Rightarrow> fields list \<Rightarrow> jsval list" where
  "not_default defaults roles = filter (\<lambda>n. n \<notin> set defaults) (map (\<lambda>r. getf r ''name'') roles)"

definition RealmDefaultRolesCtrl :: "fields \<Rightarrow> fields list \<Rightarrow> fields list \<Rightarrow> default_roles" where
  "RealmDefaultRolesCtrl realm applications roles =
     (let defaults = (case default_names realm of None \<Rightarrow> [] | Some xs \<Rightarrow> xs)
      in \<lparr>dr_realm = realm, dr_defaults = defaults, dr_available = not_default defaults roles,
          dr_selected = [], dr_selectedDef = [], dr_apps = applications,
          dr_application = index_named ''account'' 0 applications, dr_availableApp = Some [],
          dr_selectedApp = [], dr_selectedAppDef = []\<rparr>)"

definition realm_body :: "default_roles \<Rightarrow> jsval" where
  "realm_body s = Obj (setf ''defaultRoles'' (Arr (dr_defaults s)) (dr_realm s))"

definition update_realm :: "default_roles \<Rightarrow> ceffect list" where
  "update_realm s = [Ask (Rest ''Realm'' ''update'' [] (realm_body s))]"

definition realm_defaults_updated :: "ceffect list" where
  "realm_defaults_updated = [Success ''Realm default roles updated.'']"

text \<open>The loop of \<open>addRealmDefaultRole\<close> and \<open>deleteRealmDefaultRole\<close>: what is selected is pushed in any case.\<close>

fun push_roles :: "jsval list \<Rightarrow> jsval list \<Rightarrow> jsval list \<Rightarrow> jsval list \<times> jsval list" where
  "push_roles [] src dst = (src, dst)"
| "push_roles (r # rs) src dst = push_roles rs (remove1 r src) (dst @ [r])"

definition addRealmDefaultRole :: "default_roles \<Rightarrow> default_roles \<times> ceffect list" where
  "addRealmDefaultRole s =
     (let (available, defaults) = push_roles (dr_selected s) (dr_available s) (dr_defaults s);
          s' = s\<lparr>dr_available := available, dr_defaults := defaults\<rparr>
      in (s', update_realm s'))"

definition deleteRealmDefaultRole :: "default_roles \<Rightarrow> default_roles \<times> ceffect list" where
  "deleteRealmDefaultRole s =
     (let (defaults, available) = push_roles (dr_selectedDef s) (dr_defaults s) (dr_available s);
          s' = s\<lparr>dr_available := available, dr_defaults := defaults\<rparr>
      in (s', update_realm s'))"

subsection \<open>The roles of an application\<close>

definition picked_app :: "default_roles \<Rightarrow> fields option" where
  "picked_app s = (case dr_application s of None \<Rightarrow> None | Some i \<Rightarrow> Some (dr_apps s ! i))"

definition store_app :: "fields \<Rightarrow> default_roles \<Rightarrow> default_roles" where
  "store_app a s = (case dr_application s of None \<Rightarrow> s | Some i \<Rightarrow> s\<lparr>dr_apps := (dr_apps s)[i := a]\<rparr>)"

definition defaults_changeApplication :: "default_roles \<Rightarrow> default_roles \<times> ceffect list" where
  "defaults_changeApplication s =
     (let s' = s\<lparr>dr_selectedApp := [], dr_selectedAppDef := []\<rparr>
      in case picked_app s of
           None \<Rightarrow> (s'\<lparr>dr_availableApp := None\<rparr>, [])
         | Some a \<Rightarrow> (s', [Ask (Rest ''ApplicationRole'' ''query''
             [(''realm'', getf (dr_realm s) ''realm''), (''application'', getf a ''name'')] Undefined)]))"

text \<open>The answer reads the application that is picked when it arrives.\<close>

definition app_roles_loaded :: "fields list \<Rightarrow> default_roles \<Rightarrow> js_error + default_roles" where
  "app_roles_loaded roles s =
     (case picked_app s of
        None \<Rightarrow> Inl TypeError
      | Some a \<Rightarrow>
          (let a' = (case default_names a of None \<Rightarrow> setf ''defaultRoles'' (Arr []) a | Some xs \<Rightarrow> a)
           in Inr ((store_app a' s)\<lparr>dr_availableApp :=
                Some (not_default (case default_names a' of None \<Rightarrow> [] | Some xs \<Rightarrow> xs) roles)\<rparr>)))"

fun add_app_roles :: "jsval list \<Rightarrow> jsval list \<Rightarrow> jsval list \<Rightarrow> jsval list \<times> jsval list" where
  "add_app_roles [] src dst = (src, dst)"
| "add_app_roles (r # rs) src dst =
     add_app_roles rs (remove1 r src) (if r \<in> set dst then dst else dst @ [r])"

definition update_app :: "fields \<Rightarrow> default_roles \<Rightarrow> ceffect list" where
  "update_app a s = [Ask (Rest ''Application'' ''update''
     [(''realm'', getf (dr_realm s) ''realm''), (''application'', getf a ''name'')] (Obj a))]"

definition app_defaults_updated :: "ceffect list" where
  "app_defaults_updated = [Success ''Your changes have been saved to the application.'']"

definition addAppDefaultRole :: "default_roles \<Rightarrow> js_error + default_roles \<times> ceffect list" where
  "addAppDefaultRole s =
     (case picked_app s of
        None \<Rightarrow> Inl TypeError
      | Some a \<Rightarrow>
          if dr_selectedApp s = [] then Inr (s, update_app a s)
          else (case (default_names a, dr_availableApp s) of
             (Some defaults, Some available) \<Rightarrow>
               (let (available', defaults') = add_app_roles (dr_selectedApp s) available defaults;
                    a' = setf ''defaultRoles'' (Arr defaults') a
                in Inr ((store_app a' s)\<lparr>dr_availableApp := Some available'\<rparr>, update_app a' s))
           | _ \<Rightarrow> Inl TypeError))"

definition rmAppDefaultRole :: "default_roles \<Rightarrow> js_error + default_roles \<times> ceffect list" where
  "rmAppDefaultRole s =
     (case picked_app s of
        None \<Rightarrow> Inl TypeError
      | Some a \<Rightarrow>
          if dr_selectedAppDef s = [] then Inr (s, update_app a s)
          else (case (default_names a, dr_availableApp s) of
             (Some defaults, Some available) \<Rightarrow>
               (let (defaults', available') = add_app_roles (dr_selectedAppDef s) defaults available;
                    a' = setf ''defaultRoles'' (Arr defaults') a
                in Inr ((store_app a' s)\<lparr>dr_availableApp := Some available'\<rparr>, update_app a' s))
           | _ \<Rightarrow> Inl TypeError))"

section \<open>Moves between the lists of the realm\<close>

datatype default_event =
    PickAvailable "jsval list"
  | PickDefaults "jsval list"
  | AddDefault
  | DeleteDefault

fun default_step :: "default_event \<Rightarrow> default_roles \<Rightarrow> default_roles" where
  "default_step (PickAvailable rs) s = s\<lparr>dr_selected := rs\<rparr>"
| "default_step (PickDefaults rs) s = s\<lparr>dr_selectedDef := rs\<rparr>"
| "default_step AddDefault s = fst (addRealmDefaultRole s)"
| "default_step DeleteDefault s = fst (deleteRealmDefaultRole s)"

text \<open>A press of a button is legal when what is selected is in the list it is taken from.\<close>

fun shown_selection :: "default_event \<Rightarrow> default_roles \<Rightarrow> bool" where
  "shown_selection AddDefault s \<longleftrightarrow> distinct (dr_selected s) \<and> set (dr_selected s) \<subseteq> set (dr_available s)"
| "shown_selection DeleteDefault s \<longleftrightarrow> distinct (dr_selectedDef s) \<and> set (dr_selectedDef s) \<subseteq> set (dr_defaults s)"
| "shown_selection e s \<longleftrightarrow> True"

lemma push_roles_mset: "mset (fst (push_roles sel src dst)) = mset src - mset sel
    \<and> snd (push_roles sel src dst) = dst @ sel"
  by (induction sel arbitrary: src dst) (simp_all add: diff_add_mset_swap)

lemma push_roles_conserves:
  assumes "distinct sel" and "set sel \<subseteq> set src" and "push_roles sel src dst = (src', dst')"
  shows "mset src' + mset dst' = mset src + mset dst"
proof -
  have "mset sel \<subseteq># mset src"
    using assms(1,2) by (simp add: distinct_subset_mset)
  then show ?thesis
    using push_roles_mset [of sel src dst] assms(3) subset_mset.diff_add [of "mset sel" "mset src"]
    by (simp add: add.commute add.left_commute)
qed

interpretation defaults: dual_list dr_available dr_defaults default_step shown_selection
proof
  fix e s
  assume "shown_selection e s"
  then show "mset (dr_available (default_step e s)) + mset (dr_defaults (default_step e s))
      = mset (dr_available s) + mset (dr_defaults s)"
    by (cases e) (auto simp: addRealmDefaultRole_def deleteRealmDefaultRole_def Let_def add.commute
      dest: push_roles_conserves split: prod.splits)
qed

fun shown_run :: "default_event list \<Rightarrow> default_roles \<Rightarrow> bool" where
  "shown_run [] s = True"
| "shown_run (e # es) s = (shown_selection e s \<and> shown_run es (default_step e s))"

lemma shown_run_legal: "shown_run es s \<Longrightarrow> defaults.legal_run es s"
  by (induction es arbitrary: s) simp_all

text \<open>As long as a button is pressed only while what is selected is in the list it is taken from, every
  role is in exactly one of the two lists of default roles; but the page keeps the selection after a
  press, and a second press stores the selected roles a second time and sends the realm with them.\<close>

theorem default_roles_pressed:
  assumes "shown_run es s" and "distinct (dr_available s @ dr_defaults s)"
  shows "mset (dr_available (fold default_step es s) @ dr_defaults (fold default_step es s))
      = mset (dr_available s @ dr_defaults s)
    \<and> distinct (dr_available (fold default_step es s) @ dr_defaults (fold default_step es s))
    \<and> (\<forall>t. dr_selected (fst (addRealmDefaultRole t)) = dr_selected t
      \<and> snd (addRealmDefaultRole (fst (addRealmDefaultRole t))) =
          [Ask (Rest ''Realm'' ''update'' []
            (Obj (setf ''defaultRoles'' (Arr (dr_defaults t @ dr_selected t @ dr_selected t)) (dr_realm t))))])"
proof (intro conjI allI)
  show "mset (dr_available (fold default_step es s) @ dr_defaults (fold default_step es s))
      = mset (dr_available s @ dr_defaults s)"
    using defaults.run_conserves [OF shown_run_legal [OF assms(1)]] by simp
  show "distinct (dr_available (fold default_step es s) @ dr_defaults (fold default_step es s))"
    by (rule defaults.run_distinct [OF shown_run_legal [OF assms(1)] assms(2)])
  fix t :: default_roles
  obtain a d where 1: "push_roles (dr_selected t) (dr_available t) (dr_defaults t) = (a, d)" by fastforce
  obtain a' d' where 2: "push_roles (dr_selected t) a d = (a', d')" by fastforce
  have "d = dr_defaults t @ dr_selected t" "d' = d @ dr_selected t"
    using 1 2 push_roles_mset [of "dr_selected t"] by (metis snd_conv)+
  then show "dr_selected (fst (addRealmDefaultRole t)) = dr_selected t"
    and "snd (addRealmDefaultRole (fst (addRealmDefaultRole t))) =
          [Ask (Rest ''Realm'' ''update'' []
            (Obj (setf ''defaultRoles'' (Arr (dr_defaults t @ dr_selected t @ dr_selected t)) (dr_realm t))))]"
    using 1 2 by (simp_all add: addRealmDefaultRole_def update_realm_def realm_body_def)
qed

definition demo_defaults :: default_roles where
  "demo_defaults = RealmDefaultRolesCtrl [(''realm'', Str ''demo''), (''defaultRoles'', Arr [Str ''user''])] []
     [[(''name'', Str ''user'')], [(''name'', Str ''admin'')]]"

theorem default_roles_pressed_witness:
  "mset (dr_available (fold default_step [PickAvailable [Str ''admin''], AddDefault] demo_defaults)
      @ dr_defaults (fold default_step [PickAvailable [Str ''admin''], AddDefault] demo_defaults))
    = {#Str ''admin'', Str ''user''#}"
proof -
  have lists: "dr_available demo_defaults = [Str ''admin'']" "dr_defaults demo_defaults = [Str ''user'']"
    by (simp_all add: demo_defaults_def RealmDefaultRolesCtrl_def default_names_def not_default_def Let_def)
  then have "shown_run [PickAvailable [Str ''admin''], AddDefault] demo_defaults" by simp
  then show ?thesis
    using default_roles_pressed [of "[PickAvailable [Str ''admin''], AddDefault]" demo_defaults] lists by simp
qed

end
