(* ===== verification/Admin_Mappings.thy ===== *)
theory Admin_Mappings
  imports Admin_Rest
begin

text \<open>
  The role mappings of a user (\<open>UserRoleMappingCtrl\<close> of \<open>controllers/users.js\<close>) and the scope mappings of
  an application and of an OAuth client (\<open>ApplicationScopeMappingCtrl\<close>, \<open>OAuthClientScopeMappingCtrl\<close>).
  These pages do not move roles themselves: after each change they ask for the lists again.
\<close>

section \<open>Lists that are being fetched\<close>

text \<open>
  A query returns an empty array at once and fills that array when its answer comes.  A list of the page
  therefore remembers which query it belongs to: an answer to an older query fills an array that is no
  longer shown.
\<close>

record slot =
  sl_query :: "nat option"
  sl_items :: "jsval list"

definition plain_slot :: slot where
  "plain_slot = \<lparr>sl_query = None, sl_items = []\<rparr>"

definition query_slot :: "nat \<Rightarrow> slot" where
  "query_slot n = \<lparr>sl_query = Some n, sl_items = []\<rparr>"

definition fill_slot :: "nat \<Rightarrow> jsval list \<Rightarrow> slot \<Rightarrow> slot" where
  "fill_slot n xs sl = (if sl_query sl = Some n then sl\<lparr>sl_items := xs\<rparr> else sl)"

text \<open>
  The scope of the three pages.  \<open>mp_subject\<close> is the user, application or client of the page and \<open>mp_saved\<close>
  the argument of the controller; \<open>mp_target\<close> is the application picked for the lower lists;
  \<open>selectRealmRoles\<close> is what the user page empties where it means \<open>selectedRealmRoles\<close>.
\<close>

record mapping =
  mp_subject :: fields
  mp_saved :: fields
  mp_changed :: bool
  mp_realmRoles :: slot
  mp_realmMappings :: slot
  mp_realmComposite :: slot
  mp_appRoles :: "slot option"
  mp_appMappings :: "slot option"
  mp_appComposite :: "slot option"
  mp_selectedRealmRoles :: "jsval list"
  mp_selectedRealmMappings :: "jsval list"
  mp_selectedAppRoles :: "jsval list"
  mp_selectedAppMappings :: "jsval list"
  mp_selectRealmRoles :: "jsval list"
  mp_target :: "fields option"
  mp_next :: nat

record map_env =
  me_auth :: string
  me_realm :: string
  me_conv :: conv

definition empty_mapping :: "fields \<Rightarrow> mapping" where
  "empty_mapping subject =
     \<lparr>mp_subject = subject, mp_saved = subject, mp_changed = False, mp_realmRoles = plain_slot,
      mp_realmMappings = plain_slot, mp_realmComposite = plain_slot, mp_appRoles = Some plain_slot,
      mp_appMappings = Some plain_slot, mp_appComposite = Some plain_slot, mp_selectedRealmRoles = [],
      mp_selectedRealmMappings = [], mp_selectedAppRoles = [], mp_selectedAppMappings = [],
      mp_selectRealmRoles = [], mp_target = None, mp_next = 0\<rparr>"

definition query_answered :: "nat \<Rightarrow> jsval list \<Rightarrow> mapping \<Rightarrow> mapping" where
  "query_answered n xs s = s\<lparr>
     mp_realmRoles := fill_slot n xs (mp_realmRoles s), mp_realmMappings := fill_slot n xs (mp_realmMappings s),
     mp_realmComposite := fill_slot n xs (mp_realmComposite s),
     mp_appRoles := map_option (fill_slot n xs) (mp_appRoles s),
     mp_appMappings := map_option (fill_slot n xs) (mp_appMappings s),
     mp_appComposite := map_option (fill_slot n xs) (mp_appComposite s)\<rparr>"

type_synonym mapping_result = "mapping \<times> ceffect list"

text \<open>Doing one thing after another.\<close>

definition then_do :: "mapping_result \<Rightarrow> (mapping \<Rightarrow> mapping_result) \<Rightarrow> mapping_result" where
  "then_do r f = (let (s, es) = r; (s', es') = f s in (s', es @ es'))"

definition no_app_lists :: "mapping \<Rightarrow> mapping" where
  "no_app_lists s = s\<lparr>mp_appRoles := None, mp_appMappings := None, mp_appComposite := None\<rparr>"

section \<open>\<open>UserRoleMappingCtrl\<close>\<close>

definition user_params :: "map_env \<Rightarrow> mapping \<Rightarrow> fields" where
  "user_params en s = [(''realm'', Str (me_realm en)), (''userId'', getf (mp_saved s) ''username'')]"

definition user_app_params :: "map_env \<Rightarrow> fields \<Rightarrow> mapping \<Rightarrow> fields" where
  "user_app_params en a s = user_params en s @ [(''application'', getf a ''name'')]"

definition user_url :: "map_env \<Rightarrow> mapping \<Rightarrow> string" where
  "user_url en s = me_auth en @ ''/admin/realms/'' @ me_realm en @ ''/users/''
     @ str (me_conv en) (getf (mp_saved s) ''username'') @ ''/role-mappings/''"

definition user_realm_lists :: "map_env \<Rightarrow> mapping \<Rightarrow> mapping_result" where
  "user_realm_lists en s =
     (let n = mp_next s in
      (s\<lparr>mp_realmMappings := query_slot n, mp_realmRoles := query_slot (n + 1),
         mp_realmComposite := query_slot (n + 2), mp_next := n + 3\<rparr>,
       [Ask (Rest ''RealmRoleMapping'' ''query'' (user_params en s) Undefined),
        Ask (Rest ''AvailableRealmRoleMapping'' ''query'' (user_params en s) Undefined),
        Ask (Rest ''CompositeRealmRoleMapping'' ''query'' (user_params en s) Undefined)]))"

text \<open>The lists of the application, in the order in which the realm buttons and the picker ask for them.\<close>

definition user_app_lists :: "map_env \<Rightarrow> fields \<Rightarrow> mapping \<Rightarrow> mapping_result" where
  "user_app_lists en a s =
     (let n = mp_next s in
      (s\<lparr>mp_appComposite := Some (query_slot n), mp_appRoles := Some (query_slot (n + 1)),
         mp_appMappings := Some (query_slot (n + 2)), mp_next := n + 3\<rparr>,
       [Ask (Rest ''CompositeApplicationRoleMapping'' ''query'' (user_app_params en a s) Undefined),
        Ask (Rest ''AvailableApplicationRoleMapping'' ''query'' (user_app_params en a s) Undefined),
        Ask (Rest ''ApplicationRoleMapping'' ''query'' (user_app_params en a s) Undefined)]))"

definition UserRoleMappingCtrl :: "map_env \<Rightarrow> fields \<Rightarrow> mapping_result" where
  "UserRoleMappingCtrl en user = user_realm_lists en (empty_mapping user)"

definition user_addRealmRole :: "map_env \<Rightarrow> mapping \<Rightarrow> ceffect list" where
  "user_addRealmRole en s = [Ask (Http ''POST'' (user_url en s @ ''realm'') (Arr (mp_selectedRealmRoles s)))]"

definition user_deleteRealmRole :: "map_env \<Rightarrow> mapping \<Rightarrow> ceffect list" where
  "user_deleteRealmRole en s = [Ask (Http ''DELETE'' (user_url en s @ ''realm'') (Arr (mp_selectedRealmMappings s)))]"

text \<open>The answer to either: the selection to the left is not emptied.\<close>

definition user_realm_changed :: "map_env \<Rightarrow> mapping \<Rightarrow> mapping_result" where
  "user_realm_changed en s =
     then_do (then_do (user_realm_lists en s)
       (\<lambda>s. let s' = s\<lparr>mp_selectedRealmMappings := [], mp_selectRealmRoles := []\<rparr>
             in case mp_target s' of
                  None \<Rightarrow> (s', [])
                | Some a \<Rightarrow> then_do (user_app_lists en a s')
                    (\<lambda>s. (s\<lparr>mp_selectedAppRoles := [], mp_selectedAppMappings := []\<rparr>, []))))
       (\<lambda>s. (s, [Success ''Role mappings updated.'']))"

definition user_addApplicationRole :: "map_env \<Rightarrow> mapping \<Rightarrow> js_error + ceffect list" where
  "user_addApplicationRole en s =
     (case mp_target s of
        None \<Rightarrow> Inl TypeError
      | Some a \<Rightarrow> Inr [Ask (Http ''POST'' (user_url en s @ ''applications/'' @ str (me_conv en) (getf a ''name''))
          (Arr (mp_selectedAppRoles s)))])"

definition user_deleteApplicationRole :: "map_env \<Rightarrow> mapping \<Rightarrow> js_error + ceffect list" where
  "user_deleteApplicationRole en s =
     (case mp_target s of
        None \<Rightarrow> Inl TypeError
      | Some a \<Rightarrow> Inr [Ask (Http ''DELETE'' (user_url en s @ ''applications/'' @ str (me_conv en) (getf a ''name''))
          (Arr (mp_selectedAppMappings s)))])"

definition user_app_changed :: "map_env \<Rightarrow> mapping \<Rightarrow> js_error + mapping_result" where
  "user_app_changed en s =
     (case mp_target s of
        None \<Rightarrow> Inl TypeError
      | Some a \<Rightarrow>
          (let n = mp_next s in Inr
            (s\<lparr>mp_appMappings := Some (query_slot n), mp_appRoles := Some (query_slot (n + 1)),
               mp_appComposite := Some (query_slot (n + 2)), mp_next := n + 3,
               mp_selectedAppRoles := [], mp_selectedAppMappings := []\<rparr>,
             [Ask (Rest ''ApplicationRoleMapping'' ''query'' (user_app_params en a s) Undefined),
              Ask (Rest ''AvailableApplicationRoleMapping'' ''query'' (user_app_params en a s) Undefined),
              Ask (Rest ''CompositeApplicationRoleMapping'' ''query'' (user_app_params en a s) Undefined),
              Success ''Role mappings updated.''])))"

definition user_changeApplication :: "map_env \<Rightarrow> mapping \<Rightarrow> mapping_result" where
  "user_changeApplication en s =
     then_do (case mp_target s of None \<Rightarrow> (no_app_lists s, []) | Some a \<Rightarrow> user_app_lists en a s)
       (\<lambda>s. (s\<lparr>mp_selectedAppRoles := [], mp_selectedAppMappings := []\<rparr>, []))"

section \<open>What happens on a page of scope mappings\<close>

text \<open>A choice, an answer to the query of that number, or a button and the answer to its request.\<close>

datatype mapping_event =
    SelectRealmRoles "jsval list"
  | SelectRealmMappings "jsval list"
  | SelectAppRoles "jsval list"
  | SelectAppMappings "jsval list"
  | Answered nat "jsval list"
  | SetFullScope bool
  | FullScopeChanged
  | PickTarget "fields option"
  | AddRealmScope
  | DeleteRealmScope
  | RealmScopeChanged
  | AddAppScope
  | DeleteAppScope
  | AppScopeChanged

section \<open>\<open>ApplicationScopeMappingCtrl\<close>\<close>

definition scope_params :: "map_env \<Rightarrow> mapping \<Rightarrow> fields" where
  "scope_params en s = [(''realm'', Str (me_realm en)), (''application'', getf (mp_saved s) ''name'')]"

definition scope_target_params :: "map_env \<Rightarrow> fields \<Rightarrow> mapping \<Rightarrow> fields" where
  "scope_target_params en a s = scope_params en s @ [(''targetApp'', getf a ''name'')]"

definition scope_url :: "map_env \<Rightarrow> mapping \<Rightarrow> string" where
  "scope_url en s = me_auth en @ ''/admin/realms/'' @ me_realm en @ ''/applications/''
     @ str (me_conv en) (getf (mp_saved s) ''name'') @ ''/scope-mappings/''"

definition scope_realm_roles :: "map_env \<Rightarrow> mapping \<Rightarrow> mapping_result" where
  "scope_realm_roles en s =
     (let n = mp_next s in
      (s\<lparr>mp_realmRoles := query_slot n, mp_realmMappings := query_slot (n + 1),
         mp_realmComposite := query_slot (n + 2), mp_next := n + 3\<rparr>,
       [Ask (Rest ''ApplicationAvailableRealmScopeMapping'' ''query'' (scope_params en s) Undefined),
        Ask (Rest ''ApplicationRealmScopeMapping'' ''query'' (scope_params en s) Undefined),
        Ask (Rest ''ApplicationCompositeRealmScopeMapping'' ''query'' (scope_params en s) Undefined)]))"

definition scope_app_roles :: "map_env \<Rightarrow> mapping \<Rightarrow> mapping_result" where
  "scope_app_roles en s =
     (case mp_target s of
        None \<Rightarrow> (no_app_lists s, [])
      | Some a \<Rightarrow>
          (let n = mp_next s in
           (s\<lparr>mp_appRoles := Some (query_slot n), mp_appMappings := Some (query_slot (n + 1)),
              mp_appComposite := Some (query_slot (n + 2)), mp_next := n + 3\<rparr>,
            [Ask (Rest ''ApplicationAvailableApplicationScopeMapping'' ''query'' (scope_target_params en a s) Undefined),
             Ask (Rest ''ApplicationApplicationScopeMapping'' ''query'' (scope_target_params en a s) Undefined),
             Ask (Rest ''ApplicationCompositeApplicationScopeMapping'' ''query'' (scope_target_params en a s) Undefined)])))"

definition ApplicationScopeMappingCtrl :: "map_env \<Rightarrow> fields \<Rightarrow> mapping_result" where
  "ApplicationScopeMappingCtrl en subject = scope_realm_roles en (empty_mapping subject)"

definition scope_full_scope :: "map_env \<Rightarrow> mapping \<Rightarrow> ceffect list" where
  "scope_full_scope en s = [Ask (Rest ''Application'' ''update'' (scope_params en s) (Obj (mp_subject s)))]"

definition scope_full_scope_changed :: "map_env \<Rightarrow> mapping \<Rightarrow> mapping_result" where
  "scope_full_scope_changed en s =
     then_do (scope_realm_roles en (s\<lparr>mp_changed := False, mp_saved := mp_subject s\<rparr>))
       (\<lambda>s. (s, [Success ''Scope mappings updated.'']))"

definition scope_scope_updated :: "mapping \<Rightarrow> mapping_result" where
  "scope_scope_updated s = (s, [Success ''Scope mappings updated.''])"

text \<open>The events of the page and what they do.\<close>

fun scope_step :: "map_env \<Rightarrow> mapping_event \<Rightarrow> mapping \<Rightarrow> js_error + mapping_result" where
  "scope_step en (SelectRealmRoles xs) s = Inr (s\<lparr>mp_selectedRealmRoles := xs\<rparr>, [])"
| "scope_step en (SelectRealmMappings xs) s = Inr (s\<lparr>mp_selectedRealmMappings := xs\<rparr>, [])"
| "scope_step en (SelectAppRoles xs) s = Inr (s\<lparr>mp_selectedAppRoles := xs\<rparr>, [])"
| "scope_step en (SelectAppMappings xs) s = Inr (s\<lparr>mp_selectedAppMappings := xs\<rparr>, [])"
| "scope_step en (Answered n xs) s = Inr (query_answered n xs s, [])"
| "scope_step en (SetFullScope b) s =
     (let s' = s\<lparr>mp_subject := setf ''fullScopeAllowed'' (Bool b) (mp_subject s)\<rparr>
      in Inr (s', scope_full_scope en s'))"
| "scope_step en FullScopeChanged s = Inr (scope_full_scope_changed en s)"
| "scope_step en (PickTarget a) s = Inr (scope_app_roles en (s\<lparr>mp_target := a\<rparr>))"
| "scope_step en AddRealmScope s =
     Inr (s, [Ask (Http ''POST'' (scope_url en s @ ''realm'') (Arr (mp_selectedRealmRoles s)))])"
| "scope_step en DeleteRealmScope s =
     Inr (s, [Ask (Http ''DELETE'' (scope_url en s @ ''realm'') (Arr (mp_selectedRealmMappings s)))])"
| "scope_step en RealmScopeChanged s = Inr (then_do (scope_realm_roles en s) scope_scope_updated)"
| "scope_step en AddAppScope s =
     (case mp_target s of
        None \<Rightarrow> Inl TypeError
      | Some a \<Rightarrow> Inr (s, [Ask (Http ''POST'' (scope_url en s @ ''applications/'' @ str (me_conv en) (getf a ''name''))
          (Arr (mp_selectedAppRoles s)))]))"
| "scope_step en DeleteAppScope s =
     (case mp_target s of
        None \<Rightarrow> Inl TypeError
      | Some a \<Rightarrow> Inr (s, [Ask (Http ''DELETE'' (scope_url en s @ ''applications/'' @ str (me_conv en) (getf a ''name''))
          (Arr (mp_selectedAppMappings s)))]))"
| "scope_step en AppScopeChanged s = Inr (then_do (scope_app_roles en s) scope_scope_updated)"

section \<open>\<open>OAuthClientScopeMappingCtrl\<close>\<close>

definition oauth_params :: "map_env \<Rightarrow> mapping \<Rightarrow> fields" where
  "oauth_params en s = [(''realm'', Str (me_realm en)), (''oauth'', getf (mp_saved s) ''name'')]"

definition oauth_target_params :: "map_env \<Rightarrow> fields \<Rightarrow> mapping \<Rightarrow> fields" where
  "oauth_target_params en a s = oauth_params en s @ [(''targetApp'', getf a ''name'')]"

definition oauth_url :: "map_env \<Rightarrow> mapping \<Rightarrow> string" where
  "oauth_url en s = me_auth en @ ''/admin/realms/'' @ me_realm en @ ''/oauth-clients/''
     @ str (me_conv en) (getf (mp_saved s) ''name'') @ ''/scope-mappings/''"

definition oauth_realm_roles :: "map_env \<Rightarrow> mapping \<Rightarrow> mapping_result" where
  "oauth_realm_roles en s =
     (let n = mp_next s in
      (s\<lparr>mp_realmRoles := query_slot n, mp_realmMappings := query_slot (n + 1),
         mp_realmComposite := query_slot (n + 2), mp_next := n + 3\<rparr>,
       [Ask (Rest ''OAuthClientAvailableRealmScopeMapping'' ''query'' (oauth_params en s) Undefined),
        Ask (Rest ''OAuthClientRealmScopeMapping'' ''query'' (oauth_params en s) Undefined),
        Ask (Rest ''OAuthClientCompositeRealmScopeMapping'' ''query'' (oauth_params en s) Undefined)]))"

definition oauth_app_roles :: "map_env \<Rightarrow> mapping \<Rightarrow> mapping_result" where
  "oauth_app_roles en s =
     (case mp_target s of
        None \<Rightarrow> (no_app_lists s, [])
      | Some a \<Rightarrow>
          (let n = mp_next s in
           (s\<lparr>mp_appRoles := Some (query_slot n), mp_appMappings := Some (query_slot (n + 1)),
              mp_appComposite := Some (query_slot (n + 2)), mp_next := n + 3\<rparr>,
            [Ask (Rest ''OAuthClientAvailableApplicationScopeMapping'' ''query'' (oauth_target_params en a s) Undefined),
             Ask (Rest ''OAuthClientApplicationScopeMapping'' ''query'' (oauth_target_params en a s) Undefined),
             Ask (Rest ''OAuthClientCompositeApplicationScopeMapping'' ''query'' (oauth_target_params en a s) Undefined)])))"

definition OAuthClientScopeMappingCtrl :: "map_env \<Rightarrow> fields \<Rightarrow> mapping_result" where
  "OAuthClientScopeMappingCtrl en subject = oauth_realm_roles en (empty_mapping subject)"

definition oauth_full_scope :: "map_env \<Rightarrow> mapping \<Rightarrow> ceffect list" where
  "oauth_full_scope en s = [Ask (Rest ''OAuthClient'' ''update'' (oauth_params en s) (Obj (mp_subject s)))]"

definition oauth_full_scope_changed :: "map_env \<Rightarrow> mapping \<Rightarrow> mapping_result" where
  "oauth_full_scope_changed en s =
     (s\<lparr>mp_changed := False, mp_saved := mp_subject s\<rparr>, [Success ''Scope mappings updated.''])"

definition oauth_scope_updated :: "mapping \<Rightarrow> mapping_result" where
  "oauth_scope_updated s = (s, [Success ''Scope mappings updated.''])"

text \<open>The events of the page and what they do.\<close>

fun oauth_step :: "map_env \<Rightarrow> mapping_event \<Rightarrow> mapping \<Rightarrow> js_error + mapping_result" where
  "oauth_step en (SelectRealmRoles xs) s = Inr (s\<lparr>mp_selectedRealmRoles := xs\<rparr>, [])"
| "oauth_step en (SelectRealmMappings xs) s = Inr (s\<lparr>mp_selectedRealmMappings := xs\<rparr>, [])"
| "oauth_step en (SelectAppRoles xs) s = Inr (s\<lparr>mp_selectedAppRoles := xs\<rparr>, [])"
| "oauth_step en (SelectAppMappings xs) s = Inr (s\<lparr>mp_selectedAppMappings := xs\<rparr>, [])"
| "oauth_step en (Answered n xs) s = Inr (query_answered n xs s, [])"
| "oauth_step en (SetFullScope b) s =
     (let s' = s\<lparr>mp_subject := setf ''fullScopeAllowed'' (Bool b) (mp_subject s)\<rparr>
      in Inr (s', oauth_full_scope en s'))"
| "oauth_step en FullScopeChanged s = Inr (oauth_full_scope_changed en s)"
| "oauth_step en (PickTarget a) s = Inr (oauth_app_roles en (s\<lparr>mp_target := a\<rparr>))"
| "oauth_step en AddRealmScope s =
     Inr (s, [Ask (Http ''POST'' (oauth_url en s @ ''realm'') (Arr (mp_selectedRealmRoles s)))])"
| "oauth_step en DeleteRealmScope s =
     Inr (s, [Ask (Http ''DELETE'' (oauth_url en s @ ''realm'') (Arr (mp_selectedRealmMappings s)))])"
| "oauth_step en RealmScopeChanged s = Inr (then_do (oauth_realm_roles en s) oauth_scope_updated)"
| "oauth_step en AddAppScope s =
     (case mp_target s of
        None \<Rightarrow> Inl TypeError
      | Some a \<Rightarrow> Inr (s, [Ask (Http ''POST'' (oauth_url en s @ ''applications/'' @ str (me_conv en) (getf a ''name''))
          (Arr (mp_selectedAppRoles s)))]))"
| "oauth_step en DeleteAppScope s =
     (case mp_target s of
        None \<Rightarrow> Inl TypeError
      | Some a \<Rightarrow> Inr (s, [Ask (Http ''DELETE'' (oauth_url en s @ ''applications/'' @ str (me_conv en) (getf a ''name''))
          (Arr (mp_selectedAppMappings s)))]))"
| "oauth_step en AppScopeChanged s = Inr (then_do (oauth_app_roles en s) oauth_scope_updated)"

section \<open>The two pages compared\<close>

text \<open>The request of the client page that corresponds to one of the application page.\<close>

definition oauth_service :: "string \<Rightarrow> string" where
  "oauth_service sv = ''OAuthClient'' @ drop (length ''Application'') sv"

definition oauth_param :: "string \<times> jsval \<Rightarrow> string \<times> jsval" where
  "oauth_param p = (if fst p = ''application'' then (''oauth'', snd p) else p)"

fun as_oauth :: "map_env \<Rightarrow> mapping \<Rightarrow> ceffect \<Rightarrow> ceffect" where
  "as_oauth en s (Ask (Rest sv a ps b)) = Ask (Rest (oauth_service sv) a (map oauth_param ps) b)"
| "as_oauth en s (Ask (Http m url b)) = Ask (Http m (oauth_url en s @ drop (length (scope_url en s)) url) b)"
| "as_oauth en s ef = ef"

definition on_result :: "(ceffect \<Rightarrow> ceffect) \<Rightarrow> js_error + mapping_result \<Rightarrow> js_error + mapping_result" where
  "on_result f r = map_sum id (map_prod id (map f)) r"

definition after :: "mapping \<Rightarrow> js_error + mapping_result \<Rightarrow> mapping" where
  "after s r = (case r of Inl e \<Rightarrow> s | Inr (s', es) \<Rightarrow> s')"

lemma on_result_simps [simp]:
  "on_result f (Inl e) = Inl e" "on_result f (Inr (s, es)) = Inr (s, map f es)"
  by (simp_all add: on_result_def)

lemma after_on_result [simp]: "after s (on_result f r) = after s r"
  by (auto simp: after_def on_result_def split: sum.splits)

lemmas scope_defs = scope_params_def oauth_params_def scope_target_params_def oauth_target_params_def
  scope_realm_roles_def oauth_realm_roles_def scope_app_roles_def oauth_app_roles_def scope_full_scope_def
  oauth_full_scope_def scope_scope_updated_def oauth_scope_updated_def then_do_def Let_def
  oauth_service_def oauth_param_def

lemma oauth_step_scope:
  "ev \<noteq> FullScopeChanged \<Longrightarrow> oauth_step en ev s = on_result (as_oauth en s) (scope_step en ev s)"
  by (cases ev) (simp_all add: scope_defs split: option.splits)

text \<open>C29. The scope mappings of an OAuth client behave like those of an application: from the same state every
  event except the answer to a change of the full scope leads to the same state with the same requests,
  sent to the resources of the client; that answer is the exception, since only the application page
  then asks for the realm roles again.\<close>

theorem scope_pages_equiv:
  "oauth_step en ev s =
     (if ev = FullScopeChanged
      then Inr (s\<lparr>mp_changed := False, mp_saved := mp_subject s\<rparr>, [Success ''Scope mappings updated.''])
      else on_result (as_oauth en s) (scope_step en ev s))
   \<and> after s (scope_step en FullScopeChanged s)
     = (after s (oauth_step en FullScopeChanged s))\<lparr>mp_realmRoles := query_slot (mp_next s),
         mp_realmMappings := query_slot (mp_next s + 1), mp_realmComposite := query_slot (mp_next s + 2),
         mp_next := mp_next s + 3\<rparr>
   \<and> OAuthClientScopeMappingCtrl en subject
     = map_prod id (map (as_oauth en (empty_mapping subject))) (ApplicationScopeMappingCtrl en subject)"
  using oauth_step_scope [of ev en s]
  by (auto simp: after_def oauth_full_scope_changed_def scope_full_scope_changed_def
    OAuthClientScopeMappingCtrl_def ApplicationScopeMappingCtrl_def empty_mapping_def scope_defs)

end
