(* ===== verification/Admin_Typed.thy ===== *)
theory Admin_Typed
  imports Admin_Tables Admin_Clients Admin_Filters Admin_Defaults Admin_Mappings
begin

text \<open>
  The console as a whole: every request that one of its controllers sends is one the resource objects of
  \<open>services.js\<close> can carry out.
\<close>

section \<open>What the controllers send\<close>

definition sent :: "js_error + ceffect list \<Rightarrow> ceffect list" where
  "sent r = (case r of Inl e \<Rightarrow> [] | Inr es \<Rightarrow> es)"

definition sent_of :: "js_error + 'a \<times> ceffect list \<Rightarrow> ceffect list" where
  "sent_of r = (case r of Inl e \<Rightarrow> [] | Inr (s, es) \<Rightarrow> es)"

text \<open>A value that stands in a url: neither \<open>undefined\<close> nor \<open>null\<close>.\<close>

definition present :: "jsval \<Rightarrow> bool" where
  "present v \<longleftrightarrow> v \<noteq> Undefined \<and> v \<noteq> Null"


section \<open>What the resources can do\<close>

text \<open>
  What a call gives to \<open>call_param\<close>: the texts of its arguments, of which one that is not present counts as missing,
  and the fields of its body.
\<close>

definition arg_text :: "conv \<Rightarrow> jsval \<Rightarrow> string option" where
  "arg_text cv v = (if present v then Some (str cv v) else None)"

definition body_field :: "jsval \<Rightarrow> string \<Rightarrow> jsval" where
  "body_field body k = (case body of Obj fs \<Rightarrow> getf fs k | _ \<Rightarrow> Undefined)"

text \<open>
  A call fits when its service has the action and every placeholder of the url gets a value: its argument, or the
  parameter of the action or the field of the body by which the resource fills it in.  Only a list and a \<open>POST\<close>,
  which creates, may leave out the last segment.
\<close>

definition may_omit :: "action \<Rightarrow> seg list \<Rightarrow> string \<Rightarrow> bool" where
  "may_omit a segs p \<longleftrightarrow> (ac_isArray a \<or> ac_method a = POST) \<and> segs \<noteq> [] \<and> last segs = Par p"

definition fits :: "conv \<Rightarrow> string \<Rightarrow> string \<Rightarrow> fields \<Rightarrow> jsval \<Rightarrow> bool" where
  "fits cv service act ps body =
     (case map_of resources service of
        None \<Rightarrow> False
      | Some r \<Rightarrow> (case action_of r act of
          None \<Rightarrow> False
        | Some a \<Rightarrow> (let segs = segs_of (rs_url r) in list_all (\<lambda>p. may_omit a segs p
            \<or> call_param r a (map (\<lambda>(k, v). (k, arg_text cv v)) ps) (\<lambda>k. arg_text cv (body_field body k)) p \<noteq> None)
            (params_of segs))))"

definition fitting :: "ceffect \<Rightarrow> bool" where
  "fitting e = (case e of Ask (Rest service act ps body) \<Rightarrow> (\<forall>cv. fits cv service act ps body) | _ \<Rightarrow> True)"

lemma fitting_simps [simp]:
  "fitting (Ask (Rest service act ps body)) = (\<forall>cv. fits cv service act ps body)"
  "fitting (Ask (Http m url b))" "fitting (Success t)" "fitting (Failure t)" "fitting (GoTo t)"
  "fitting Reload" "fitting (Confirm k v w)"
  by (simp_all add: fitting_def)


lemma present_simps [simp]:
  "present (Str s)" "present (Num n)" "present (Bool b)" "present (Obj fs)" "present (Arr xs)" "present NaN"
  "\<not> present Undefined" "\<not> present Null"
  by (auto simp: present_def)
















section \<open>Every request fits\<close>

lemma sent_simps [simp]: "sent (Inl e) = []" "sent (Inr es) = es" "sent_of (Inl e) = []" "sent_of (Inr (s, es)) = es"
  by (simp_all add: sent_def sent_of_def)








lemma body_field_simps [simp]: "body_field (Obj fs) k = getf fs k" "body_field Undefined k = Undefined"
  by (simp_all add: body_field_def)























end
