(* ===== verification/Admin_Nav.thy ===== *)
theory Admin_Nav
  imports Admin_Tables
begin

text \<open>
  What visiting a page does: every route reached from a path makes its loaders send requests that
  are complete, and the path built for a route from names leads back to that route with those
  names as its parameters.
\<close>

section \<open>The requests of a page\<close>

lemma fill_segs_bound:
  "\<forall>p \<in> set (params_of segs). ps p \<noteq> None \<Longrightarrow>
     list_all2 (\<lambda>s w. case s of Lit t \<Rightarrow> w = t | Par p \<Rightarrow> w = encodeUriSegment (the (ps p))) segs (fill_segs ps segs)"
  by (induction ps segs rule: fill_segs.induct) auto

lemma fill_segs_append: "fill_segs ps (xs @ ys) = fill_segs ps xs @ fill_segs ps ys"
  by (induction ps xs rule: fill_segs.induct) (auto split: option.split)

lemma params_of_append: "params_of (xs @ ys) = params_of xs @ params_of ys"
  by (simp add: params_of_def)

text \<open>A segment of a template and what stands for it in the url of a loader's request.\<close>

definition seg_filled :: "loader \<Rightarrow> params \<Rightarrow> seg \<Rightarrow> string \<Rightarrow> bool" where
  "seg_filled l ps s w =
     (case s of
        Lit t \<Rightarrow> w = t
      | Par p \<Rightarrow> (\<exists>q v. (p, [q]) \<in> set (loader_args l) \<and> map_of ps q = Some v \<and> w = encodeUriSegment v))"

definition template_of :: "loader \<Rightarrow> seg list" where
  "template_of l = (case map_of resources (ld_service l) of None \<Rightarrow> [] | Some r \<Rightarrow> segs_of (rs_url r))"

lemma loader_call_alt: "loader_call l ps = map (\<lambda>(k, alts). (k, first_truthy ps alts)) (loader_args l)"
  by (simp add: loader_call_def loader_args_def split: option.split)

lemma loader_param:
  assumes "list_all (\<lambda>x. length (snd x) = 1) (loader_args l)" and "set (reads l) \<subseteq> set (map fst ps)"
    and "distinct (map fst (loader_args l))" and "p \<in> set (map fst (loader_args l))"
  shows "\<exists>q v. (p, [q]) \<in> set (loader_args l) \<and> map_of ps q = Some v \<and> map_of (loader_call l ps) p = Some (Some v)"
proof -
  obtain alts where a: "(p, alts) \<in> set (loader_args l)" using assms(4) by force
  then obtain q where q: "alts = [q]"
    using assms(1) by (auto simp: list_all_iff length_Suc_conv)
  have "q \<in> set (reads l)" using a q by (force simp: reads_def)
  then obtain v where v: "map_of ps q = Some v"
    using assms(2) by (metis map_of_eq_None_iff not_None_eq set_map subsetD)
  have "map_of (loader_args l) p = Some alts" using a assms(3) by simp
  then have "map_of (loader_call l ps) p = Some (first_truthy ps alts)"
    unfolding loader_call_alt by (induction "loader_args l") (auto simp: map_of_map)
  then show ?thesis using a q v by auto
qed

lemma no_param:
  assumes "list_all (\<lambda>x. take 1 (snd x) = ''@'' \<and> P (fst x)) (rs_defaults res)" and "ac_params a = []"
    and "p \<notin> fst ` set call"
  shows "call_param res a call (\<lambda>_. None) p = None"
proof (cases "map_of (rs_defaults res) p")
  case (Some v)
  then have "take 1 v = ''@''" using assms(1) by (auto simp: list_all_iff dest!: map_of_SomeD)
  then have "resolve_default (\<lambda>_. None) v = None" by (cases v) (simp_all add: resolve_default_def)
  moreover have "map_of call p = None" using assms(3) by (simp add: map_of_eq_None_iff)
  ultimately show ?thesis using Some assms(2) by (simp add: call_param_def)
next
  case None
  moreover have "map_of call p = None" using assms(3) by (simp add: map_of_eq_None_iff)
  ultimately show ?thesis using assms(2) by (simp add: call_param_def)
qed

lemma clean_filled:
  assumes "list_all clean_lit segs" and "list_all2 (seg_filled l ps) segs ws"
    and "\<forall>(q, v) \<in> set ps. v \<noteq> [] \<and> take 1 v \<noteq> ''.''"
  shows "\<forall>w \<in> set ws. clean_seg w"
  using assms(2,1)
proof (induction rule: list_all2_induct)
  case (Cons s ss w ws)
  have "clean_seg w"
  proof (cases s)
    case (Lit t)
    then show ?thesis using Cons by (simp add: seg_filled_def clean_lit_def)
  next
    case (Par p)
    then obtain q v where "map_of ps q = Some v" "w = encodeUriSegment v"
      using Cons by (auto simp: seg_filled_def)
    moreover from this have "v \<noteq> []" "take 1 v \<noteq> ''.''" using assms(3) by (auto dest!: map_of_SomeD)
    ultimately show ?thesis by (simp add: clean_encoded)
  qed
  then show ?case using Cons by simp
qed simp

text \<open>What a loader that fits asks for when the route gives it the parameters it reads.\<close>

lemma fitting_load:
  assumes l: "map_of loaders name = Some l" "loader_fits l" "set (reads l) \<subseteq> set (map fst ps)"
    and auth: "CHR ''?'' \<notin> set auth" and vals: "\<forall>(q, v) \<in> set ps. v \<noteq> [] \<and> take 1 v \<noteq> ''.''"
  shows "\<exists>rq ws segs. load_page auth console name ps = Inr rq \<and> rq_method rq = GET \<and> rq_query rq = []
    \<and> rq_url rq = auth @ join_segs ws \<and> list_all2 (seg_filled l ps) segs ws
    \<and> (template_of l = segs \<or> rq_isArray rq
        \<and> (\<exists>p. template_of l = segs @ [Par p] \<and> p \<notin> set (map fst (loader_args l))))"
proof -
  obtain res a where res: "map_of resources (ld_service l) = Some res" "action_of res (ld_action l) = Some a"
    using l(2) by (auto simp: loader_fits_def split: option.splits)
  let ?as = "map fst (loader_args l)" and ?segs = "segs_of (rs_url res)"
  let ?call = "loader_call l ps"
  let ?cp = "call_param res a ?call (\<lambda>_. None)"
  have fit: "rs_base res = AuthUrl" "ac_method a = GET" "ac_params a = []" "?segs \<noteq> []"
    "list_all clean_lit ?segs" "distinct ?as" "list_all (\<lambda>x. length (snd x) = 1) (loader_args l)"
    "list_all (\<lambda>x. take 1 (snd x) = ''@'' \<and> fst x \<in> set (params_of ?segs)) (rs_defaults res)"
    "list_all (\<lambda>p. p \<in> set (params_of ?segs)) ?as"
    and full: "list_all (\<lambda>p. p \<in> set ?as) (params_of ?segs)
       \<or> ac_isArray a \<and> 1 < length ?segs \<and> list_all (\<lambda>p. p \<in> set ?as) (params_of (butlast ?segs))
         \<and> (case last ?segs of Lit w \<Rightarrow> False | Par p \<Rightarrow> p \<notin> set ?as)"
    using l(2) res unfolding loader_fits_def by (simp_all add: Let_def)
  have keys: "fst ` set ?call = set ?as" unfolding loader_call_alt by force
  have bound: "seg_filled l ps (Par p) (encodeUriSegment (the (?cp p))) \<and> ?cp p \<noteq> None" if "p \<in> set ?as" for p
    using loader_param [OF fit(7) l(3) fit(6) that] by (force simp: seg_filled_def call_param_def)
  have unbound: "?cp p = None" if "p \<notin> set ?as" for p
    using no_param [OF fit(8,3)] that keys by simp
  have filled: "list_all2 (seg_filled l ps) segs (fill_segs ?cp segs)"
    if "list_all (\<lambda>p. p \<in> set ?as) (params_of segs)" for segs
    using that
  proof (induction segs)
    case (Cons s segs)
    show ?case
    proof (cases s)
      case (Lit t)
      then show ?thesis using Cons by (simp add: seg_filled_def)
    next
      case (Par p)
      then have "p \<in> set ?as" using Cons.prems by simp
      then obtain v where "?cp p = Some v" "seg_filled l ps (Par p) (encodeUriSegment v)"
        using bound [of p] by auto
      then show ?thesis using Cons Par by simp
    qed
  qed simp
  obtain segs where segs: "list_all (\<lambda>p. p \<in> set ?as) (params_of segs)" "segs \<noteq> []"
    "fill_segs ?cp ?segs = fill_segs ?cp segs" "list_all clean_lit segs"
    "?segs = segs \<or> ac_isArray a \<and> (\<exists>p. ?segs = segs @ [Par p] \<and> p \<notin> set ?as)"
  proof (cases "list_all (\<lambda>p. p \<in> set ?as) (params_of ?segs)")
    case True
    then show ?thesis using that [of ?segs] fit by simp
  next
    case False
    then obtain p where p: "last ?segs = Par p" "p \<notin> set ?as" and arr: "ac_isArray a"
      "1 < length ?segs" "list_all (\<lambda>p. p \<in> set ?as) (params_of (butlast ?segs))"
      using full by (auto split: seg.splits)
    have split: "?segs = butlast ?segs @ [Par p]" using p(1) fit(4) by (metis append_butlast_last_id)
    have "fill_segs ?cp (butlast ?segs @ [Par p]) = fill_segs ?cp (butlast ?segs)"
      using unbound [OF p(2)] by (simp add: fill_segs_append)
    then show ?thesis
      using that [of "butlast ?segs"] arr fit(5) split p(2) by (metis butlast.simps(1) length_butlast
        length_greater_0_conv list_all_append zero_less_diff)
  qed
  let ?ws = "fill_segs ?cp segs"
  have "clean_seg w" if "w \<in> set ?ws" for w
    using clean_filled [OF segs(4) filled [OF segs(1)] vals] that by blast
  moreover have "?ws \<noteq> []" using filled [OF segs(1)] segs(2) by (metis list_all2_Nil2)
  ultimately have url: "join_dot (strip_slashes (auth @ join_segs ?ws)) = auth @ join_segs ?ws"
    using url_of_segs auth by blast
  have "k \<in> set (params_of ?segs)" if "k \<in> set (map fst ?call @ map fst (rs_defaults res))" for k
    using that fit(8,9) keys by (auto simp: list_all_iff)
  then have query: "rq_query (rest_call auth console res a ?call (\<lambda>_. None)) = []"
    using fit(3) by (auto simp: rest_call_def Let_def params_of_def)
  have "load_page auth console name ps = Inr (rest_call auth console res a ?call (\<lambda>_. None))"
    using l(1) res by (simp add: load_page_def rest_def)
  then show ?thesis
    using query url segs(3,5) filled [OF segs(1)] fit(1,2) res(1)
    by (fastforce simp: rest_call_def Let_def base_of_def template_of_def)
qed

text \<open>C11. Whatever path is visited whose parameters do not start with a dot, each loader of the page that is
  shown exists, its service and action exist, and it sends one GET request whose url is the template of the service
  with the placeholders replaced by parameters of the path, each encoded as one segment.  Every placeholder is
  replaced, but that a loader of a list leaves out the last one when it gives no argument of that name (the lists of
  roles, users and applications have the template of their elements); the address of the server has no query.\<close>

theorem route_requests:
  assumes "find_route path = Inr (Show r ps)" and "name \<in> set (route_loaders r)"
    and "CHR ''?'' \<notin> set auth" and "\<forall>(q, v) \<in> set ps. take 1 v \<noteq> ''.''"
  shows "\<exists>l rq ws segs. map_of loaders name = Some l \<and> load_page auth console name ps = Inr rq
    \<and> rq_method rq = GET \<and> rq_query rq = [] \<and> rq_url rq = auth @ join_segs ws
    \<and> list_all2 (seg_filled l ps) segs ws \<and> template_of l \<noteq> []
    \<and> (template_of l = segs \<or> rq_isArray rq
        \<and> (\<exists>p. template_of l = segs @ [Par p] \<and> p \<notin> set (map fst (loader_args l))))"
proof -
  note r = find_route_Show [OF assms(1)]
  obtain l where l: "map_of loaders name = Some l" "loader_fits l" "set (reads l) \<subseteq> set (route_params r)"
    using route_loader_fits [OF r(1) assms(2)] by blast
  have vals: "\<forall>(q, v) \<in> set ps. v \<noteq> [] \<and> take 1 v \<noteq> ''.''" using r(3) assms(4) by auto
  have "template_of l \<noteq> []"
    using l(2) by (auto simp: template_of_def loader_fits_def Let_def split: option.splits)
  then show ?thesis
    using fitting_load [OF l(1,2) _ assms(3) vals] l(1,3) r(2) by (metis set_map)
qed

section \<open>Paths of routes\<close>

definition seg_value :: "(string \<Rightarrow> string) \<Rightarrow> seg \<Rightarrow> string" where
  "seg_value f s = (case s of Lit t \<Rightarrow> t | Par p \<Rightarrow> f p)"

text \<open>The path the console builds for a route: the names in place of the placeholders.\<close>

definition path_for :: "route \<Rightarrow> (string \<Rightarrow> string) \<Rightarrow> string" where
  "path_for r f = js_join ''/'' (map (seg_value f) (path_segs (rt_path r)))"

definition plain_seg :: "string \<Rightarrow> bool" where
  "plain_seg v \<longleftrightarrow> v \<noteq> [] \<and> CHR ''/'' \<notin> set v \<and> CHR ''%'' \<notin> set v \<and> utf8 v"

lemma match_values:
  "\<forall>p \<in> set (params_of segs). f p \<noteq> [] \<Longrightarrow>
     match_segs segs (map (seg_value f) segs) = Some (map (\<lambda>p. (p, f p)) (params_of segs))"
proof (induction segs)
  case (Cons s segs)
  then show ?case by (cases s) (simp_all add: seg_value_def)
qed simp

lemma decode_plain: "\<forall>p \<in> set ps. plain_seg (f p) \<Longrightarrow>
    decode_params (map (\<lambda>p. (p, f p)) ps) = Inr (map (\<lambda>p. (p, f p)) ps)"
  by (induction ps) (simp_all add: plain_seg_def decodeURIComponent_def pct_decode_id)

lemma seg_of_no_slash: "CHR ''/'' \<notin> set w \<Longrightarrow> seg_of w = Lit t \<Longrightarrow> CHR ''/'' \<notin> set t"
  by (auto simp: seg_of_def split: list.splits if_splits)

lemma split_path_for:
  assumes "\<forall>p \<in> set (route_params r). plain_seg (f p)"
  shows "js_split (CHR ''/'') (path_for r f) = map (seg_value f) (path_segs (rt_path r))"
proof -
  have "CHR ''/'' \<notin> set (seg_value f s)" if s: "s \<in> set (path_segs (rt_path r))" for s
  proof (cases s)
    case (Lit t)
    obtain w where "w \<in> set (js_split (CHR ''/'') (rt_path r))" "s = seg_of w"
      using s by (auto simp: path_segs_def)
    then show ?thesis using Lit seg_of_no_slash js_split_pieces by (fastforce simp: seg_value_def)
  next
    case (Par p)
    then have "p \<in> set (route_params r)" using s by (force simp: route_params_def params_of_def seg_param_def)
    then show ?thesis using Par assms by (simp add: seg_value_def plain_seg_def)
  qed
  then show ?thesis
    unfolding path_for_def by (intro js_split_segs) (auto simp: path_segs_def)
qed

lemma match_length: "match_segs segs ws = Some ps \<Longrightarrow> length segs = length ws"
proof (induction segs arbitrary: ws ps)
  case Nil
  then show ?case by (cases ws) simp_all
next
  case (Cons s segs)
  then show ?case by (cases s; cases ws) (auto split: if_splits)
qed

lemma match_last_empty: "match_segs (segs @ [Lit []]) ws = Some ps \<Longrightarrow> ws \<noteq> [] \<and> last ws = []"
proof (induction segs arbitrary: ws ps)
  case Nil
  then show ?case by (cases ws) (auto split: if_splits dest: match_length)
next
  case (Cons s segs)
  then obtain w ws' qs where w: "ws = w # ws'" "match_segs (segs @ [Lit []]) ws' = Some qs"
    by (cases s; cases ws) (auto split: if_splits)
  then show ?case using Cons.IH by simp
qed

lemma find_in_skip:
  "(\<forall>x \<in> set xs. match_segs (fst x) ws = None) \<Longrightarrow> find_in (xs @ ys) ws = find_in ys ws"
  by (induction xs) auto

text \<open>The pattern that redirects a path with a trailing slash.\<close>

lemma redirect_segs:
  assumes "p \<noteq> ''/''" and "last (path_segs p) \<noteq> Lit []"
  shows "path_segs (redirect_path p) = path_segs p @ [Lit []]"
proof -
  have "last p \<noteq> CHR ''/''"
  proof
    assume l: "last p = CHR ''/''"
    have "p \<noteq> []" using assms(2) by (auto simp: path_segs_def seg_of_def)
    then have "p = butlast p @ CHR ''/'' # []" using l by (metis append_butlast_last_id)
    then have "js_split (CHR ''/'') p = js_split (CHR ''/'') (butlast p) @ [[]]"
      by (metis js_split.simps(1) js_split_append_sep)
    then show False using assms(2) by (simp add: path_segs_def seg_of_def)
  qed
  then show ?thesis by (simp add: redirect_path_def path_segs_def js_split_append_sep seg_of_def)
qed

lemma redirect_no_match:
  assumes "r' \<in> set routes" and "rt_path r \<noteq> ''/'' \<longrightarrow> last ws \<noteq> [] \<and> 1 < length ws"
    and "rt_path r = ''/'' \<longrightarrow> ws = [[], []]"
  shows "match_segs (path_segs (redirect_path (rt_path r'))) ws = None"
proof (cases "rt_path r' = ''/''")
  case True
  have "1 < length ws" using assms(2,3) by (cases "rt_path r = ''/''") simp_all
  moreover have "path_segs (redirect_path ''/'') = [Lit []]"
    by (simp add: redirect_path_def path_segs_def seg_of_def)
  ultimately show ?thesis using match_length [of "[Lit []]" ws] True by fastforce
next
  case False
  have r': "last (path_segs (rt_path r')) \<noteq> Lit []" "1 < length (path_segs (rt_path r'))"
    using route_paths assms(1) False by (auto simp: list_all_iff)
  have segs: "path_segs (redirect_path (rt_path r')) = path_segs (rt_path r') @ [Lit []]"
    by (rule redirect_segs [OF False r'(1)])
  show ?thesis
  proof (rule ccontr)
    assume "\<not> ?thesis"
    then obtain ps where m: "match_segs (path_segs (rt_path r') @ [Lit []]) ws = Some ps" using segs by auto
    show False
      using match_last_empty [OF m] match_length [OF m] r'(2) assms(2,3)
      by (cases "rt_path r = ''/''") simp_all
  qed
qed

lemma ldap_first:
  assumes "(p', p) \<in> set (clashes (map (\<lambda>r. (path_segs (rt_path r), rt_path r)) routes))"
    and "f ''provider'' \<noteq> ''ldap''"
  shows "match_segs (path_segs p') (map (seg_value f) (path_segs p)) = None"
  using assms unfolding route_clashes by (auto simp: path_segs_def seg_of_def seg_value_def)

lemma earlier_no_match:
  assumes "j < length routes" and "i < j" and "routes ! j = r"
    and "\<forall>p \<in> set (route_params r). f p \<noteq> []" and "''provider'' \<in> set (route_params r) \<longrightarrow> f ''provider'' \<noteq> ''ldap''"
  shows "match_segs (path_segs (rt_path (routes ! i))) (map (seg_value f) (path_segs (rt_path r))) = None"
proof (rule ccontr)
  let ?ws = "map (seg_value f) (path_segs (rt_path r))"
  let ?xs = "map (\<lambda>r. (path_segs (rt_path r), rt_path r)) routes"
  assume "\<not> ?thesis"
  then obtain ps where m: "match_segs (path_segs (rt_path (routes ! i))) ?ws = Some ps" by auto
  have "match_segs (path_segs (rt_path r)) ?ws = Some (map (\<lambda>p. (p, f p)) (route_params r))"
    unfolding route_params_def by (rule match_values) (use assms(4) in \<open>simp add: route_params_def\<close>)
  then have "list_all2 compatible (fst (?xs ! i)) (fst (?xs ! j))"
    using match_compatible [OF m] assms(1-3) by simp
  then have clash: "(rt_path (routes ! i), rt_path r) \<in> set (clashes ?xs)"
    using clashes_in [of i j ?xs] assms(1-3) by simp
  then have "''provider'' \<in> set (route_params r)"
    unfolding route_clashes by (auto simp: route_params_def path_segs_def seg_of_def)
  then show False using ldap_first [OF clash] assms(5) m by simp
qed

text \<open>The table from the first route on whose patterns can match.\<close>

lemma find_in_at:
  assumes "j < length routes" and "routes ! j = r"
    and "\<And>i. i < j \<Longrightarrow> match_segs (path_segs (rt_path (routes ! i))) ws = None
       \<and> match_segs (path_segs (redirect_path (rt_path (routes ! i)))) ws = None"
  shows "\<exists>ys. find_in route_table ws = find_in ([(path_segs (rt_path r), Show r),
      (path_segs (redirect_path (rt_path r)), RedirectTo r)] @ ys) ws"
proof -
  let ?pair = "\<lambda>r. [(path_segs (rt_path r), Show r), (path_segs (redirect_path (rt_path r)), RedirectTo r)]"
  have "\<forall>x \<in> set (concat (map ?pair (take j routes))). match_segs (fst x) ws = None"
  proof
    fix x assume "x \<in> set (concat (map ?pair (take j routes)))"
    then obtain i where "i < j" "x \<in> set (?pair (routes ! i))" by (auto simp: in_set_conv_nth)
    then show "match_segs (fst x) ws = None" using assms(3) [of i] by auto
  qed
  then have skip: "find_in (concat (map ?pair (take j routes)) @ ys) ws = find_in ys ws" for ys
    by (rule find_in_skip)
  have "routes = take j routes @ r # drop (Suc j) routes" using id_take_nth_drop [OF assms(1)] assms(2) by simp
  then have "concat (map ?pair routes) = concat (map ?pair (take j routes @ r # drop (Suc j) routes))" by (rule arg_cong)
  then have tbl: "route_table = concat (map ?pair (take j routes)) @ ?pair r @ concat (map ?pair (drop (Suc j) routes))"
    unfolding route_table_def by (simp only: map_append concat_append list.map concat.simps)
  have "find_in route_table ws = find_in (?pair r @ concat (map ?pair (drop (Suc j) routes))) ws"
    unfolding tbl by (rule skip)
  then show ?thesis by blast
qed

lemma last_value:
  assumes "r \<in> set routes" and "\<forall>p \<in> set (route_params r). f p \<noteq> []" and "rt_path r \<noteq> ''/''"
  shows "last (map (seg_value f) (path_segs (rt_path r))) \<noteq> []" and "1 < length (path_segs (rt_path r))"
proof -
  have l: "last (path_segs (rt_path r)) \<noteq> Lit []" "1 < length (path_segs (rt_path r))"
    using route_paths assms(1,3) by (auto simp: list_all_iff)
  then have s: "last (path_segs (rt_path r)) \<in> set (path_segs (rt_path r))" by (cases "path_segs (rt_path r)") simp_all
  have "seg_value f (last (path_segs (rt_path r))) \<noteq> []"
  proof (cases "last (path_segs (rt_path r))")
    case (Lit t)
    then show ?thesis using l by (simp add: seg_value_def)
  next
    case (Par p)
    then have "p \<in> set (route_params r)"
      using s unfolding route_params_def params_of_def by (force simp: seg_param_def)
    then show ?thesis using Par assms(2) by (simp add: seg_value_def)
  qed
  moreover have "path_segs (rt_path r) \<noteq> []" using l(2) by auto
  ultimately show "last (map (seg_value f) (path_segs (rt_path r))) \<noteq> []" by (simp add: last_map)
  show "1 < length (path_segs (rt_path r))" by (rule l(2))
qed

lemma find_in_show:
  assumes "r \<in> set routes" and "\<forall>p \<in> set (route_params r). plain_seg (f p)"
    and "''provider'' \<in> set (route_params r) \<longrightarrow> f ''provider'' \<noteq> ''ldap''"
  shows "find_in route_table (map (seg_value f) (path_segs (rt_path r)))
    = Inr (Show r (map (\<lambda>p. (p, f p)) (route_params r)))"
proof -
  let ?ws = "map (seg_value f) (path_segs (rt_path r))"
  obtain j where j: "j < length routes" "routes ! j = r" using assms(1) by (auto simp: in_set_conv_nth)
  have ne: "\<forall>p \<in> set (route_params r). f p \<noteq> []" using assms(2) by (simp add: plain_seg_def)
  have last: "rt_path r \<noteq> ''/'' \<longrightarrow> last ?ws \<noteq> [] \<and> 1 < length ?ws"
    using last_value [OF assms(1) ne] by simp
  have root: "rt_path r = ''/'' \<longrightarrow> ?ws = [[], []]" by (simp add: path_segs_def seg_of_def seg_value_def)
  have "match_segs (path_segs (rt_path (routes ! i))) ?ws = None
      \<and> match_segs (path_segs (redirect_path (rt_path (routes ! i)))) ?ws = None" if "i < j" for i
  proof
    have i: "i < length routes" using that j(1) by simp
    show "match_segs (path_segs (rt_path (routes ! i))) ?ws = None"
      by (rule earlier_no_match [OF j(1) that j(2) ne assms(3)])
    show "match_segs (path_segs (redirect_path (rt_path (routes ! i)))) ?ws = None"
      by (rule redirect_no_match [OF nth_mem [OF i] last root])
  qed
  then obtain ys where "find_in route_table ?ws = find_in ([(path_segs (rt_path r), Show r),
      (path_segs (redirect_path (rt_path r)), RedirectTo r)] @ ys) ?ws"
    using find_in_at [OF j] by blast
  moreover have "match_segs (path_segs (rt_path r)) ?ws = Some (map (\<lambda>p. (p, f p)) (route_params r))"
    unfolding route_params_def by (rule match_values) (use ne in \<open>simp add: route_params_def\<close>)
  ultimately show ?thesis by (simp add: decode_plain [OF assms(2)])
qed

text \<open>C16. The path built for a route from names leads back to that route, and its parameters are those
  names, whatever the other routes are: no earlier route catches it. A name here is a non-empty text that
  UTF-8 encodes, without slash and without per cent sign (the router decodes a path once more, so that a
  per cent sign in a name does not survive), and a provider is not named ldap, whose page is the LDAP page.\<close>

theorem route_roundtrip:
  assumes "r \<in> set routes" and "\<forall>p \<in> set (route_params r). plain_seg (f p)"
    and "''provider'' \<in> set (route_params r) \<longrightarrow> f ''provider'' \<noteq> ''ldap''"
  shows "find_route (path_for r f) = Inr (Show r (map (\<lambda>p. (p, f p)) (route_params r)))"
  using find_in_show [OF assms] by (simp add: find_route_def split_path_for [OF assms(2)])

section \<open>On a concrete page\<close>

definition user_route :: route where
  "user_route = Route ''/realms/:realm/users/:user'' ''partials/user-detail.html'' ''UserDetailCtrl''
      [(''realm'', Some ''RealmLoader''), (''user'', Some ''UserLoader'')]"

lemma user_route_in: "user_route \<in> set routes"
  by code_simp

lemma user_route_found:
  "find_route ''/realms/demo/users/bob smith'' = Inr (Show user_route [(''realm'', ''demo''), (''user'', ''bob smith'')])"
  by code_simp

theorem route_requests_witness:
  "\<exists>rq ws. load_page ''http://host/auth'' ''http://host/console'' ''UserLoader'' [(''realm'', ''demo''), (''user'', ''bob smith'')] = Inr rq
    \<and> rq_method rq = GET \<and> rq_url rq = ''http://host/auth'' @ join_segs ws"
proof -
  have "''UserLoader'' \<in> set (route_loaders user_route)" by (simp add: user_route_def route_loaders_def)
  moreover have "CHR ''?'' \<notin> set ''http://host/auth''" by simp
  moreover have "\<forall>(q, v) \<in> set [(''realm'', ''demo''), (''user'', ''bob smith'')]. take 1 v \<noteq> ''.''" by simp
  ultimately show ?thesis using route_requests [OF user_route_found, of "''UserLoader''"] by blast
qed

theorem route_roundtrip_witness:
  "find_route (path_for user_route (\<lambda>p. if p = ''realm'' then ''demo'' else ''bob smith''))
     = Inr (Show user_route [(''realm'', ''demo''), (''user'', ''bob smith'')])"
proof -
  have ps: "route_params user_route = [''realm'', ''user'']"
    by (simp add: user_route_def route_params_def path_segs_def seg_of_def)
  show ?thesis
    using route_roundtrip [OF user_route_in, of "\<lambda>p. if p = ''realm'' then ''demo'' else ''bob smith''"] ps
    by (simp add: plain_seg_def utf8_ascii)
qed

end
