(* ===== verification/Admin_Views.thy ===== *)
theory Admin_Views
  imports Admin_Nav Admin_Access
begin

text \<open>
  The controllers that show what was loaded and do nothing else (\<open>controllers/realm.js\<close>, \<open>applications.js\<close>,
  \<open>oauth-clients.js\<close>, \<open>users.js\<close>), as the scope they make, and the watch that keeps the segments of the path in the
  scope, by which the menus mark the current page.  What they write to the console log is left out.
\<close>

section \<open>Scopes\<close>

definition path_watch :: "string \<Rightarrow> fields \<Rightarrow> fields" where
  "path_watch path scope = setf ''path'' (Arr (map Str (scope_path path))) scope"

definition RoleListCtrl :: "jsval \<Rightarrow> jsval \<Rightarrow> fields" where
  "RoleListCtrl realm roles = [(''realm'', realm), (''roles'', roles)]"

text \<open>The loop reads a field of every role.\<close>

definition ApplicationRoleListCtrl :: "jsval \<Rightarrow> jsval \<Rightarrow> jsval list \<Rightarrow> js_error + fields" where
  "ApplicationRoleListCtrl realm application roles =
     (if list_all (\<lambda>r. r \<noteq> Undefined \<and> r \<noteq> Null) roles
      then Inr [(''realm'', realm), (''roles'', Arr roles), (''application'', application)] else Inl TypeError)"

definition ApplicationListCtrl :: "jsval \<Rightarrow> jsval \<Rightarrow> fields" where
  "ApplicationListCtrl realm applications = [(''realm'', realm), (''applications'', applications)]"

definition OAuthClientListCtrl :: "jsval \<Rightarrow> jsval \<Rightarrow> fields" where
  "OAuthClientListCtrl realm oauthClients = [(''realm'', realm), (''oauthClients'', oauthClients)]"

definition UserSocialCtrl :: "jsval \<Rightarrow> jsval \<Rightarrow> jsval \<Rightarrow> fields" where
  "UserSocialCtrl realm user socialLinks = [(''realm'', realm), (''user'', user), (''socialLinks'', socialLinks)]"

definition OAuthClientInstallationCtrl :: "jsval \<Rightarrow> jsval \<Rightarrow> jsval \<Rightarrow> fields" where
  "OAuthClientInstallationCtrl realm oauth installation = [(''realm'', realm), (''oauth'', oauth), (''installation'', installation)]"

text \<open>Contents, type and name of the file that \<open>download\<close> saves; nothing sets \<open>$scope.type\<close> on this page.\<close>

definition oauth_download :: "fields \<Rightarrow> jsval \<times> jsval \<times> string" where
  "oauth_download scope = (getf scope ''installation'', getf scope ''type'', ''keycloak.json'')"

section \<open>The path in the scope\<close>

text \<open>On the page of a route the watch finds the fixed segments of the route and the names of the page.\<close>

lemma routes_start: "list_all (\<lambda>r. take 1 (path_segs (rt_path r)) = [Lit []] \<and> tl (path_segs (rt_path r)) \<noteq> []) routes"
  by code_simp

lemma path_watch_route:
  assumes "r \<in> set routes" and "\<forall>p \<in> set (route_params r). plain_seg (f p)"
  shows "getf (path_watch (path_for r f) scope) ''path'' = Arr (map (\<lambda>s. Str (seg_value f s)) (tl (path_segs (rt_path r))))"
proof -
  have segs: "path_segs (rt_path r) = Lit [] # tl (path_segs (rt_path r))"
    using routes_start assms(1) by (cases "path_segs (rt_path r)") (auto simp: list_all_iff)
  have split: "js_split (CHR ''/'') (path_for r f) = [] # map (seg_value f) (tl (path_segs (rt_path r)))"
    using split_path_for [OF assms(2)] arg_cong [OF segs, of "map (seg_value f)"] by (simp add: seg_value_def)
  have "js_split (CHR ''/'') (drop 1 (path_for r f)) = map (seg_value f) (tl (path_segs (rt_path r)))"
    using split routes_start assms(1) by (cases "path_for r f") (auto simp: list_all_iff split: if_splits list.splits)
  then show ?thesis by (simp add: path_watch_def scope_path_def)
qed

end
