(* ===== verification/Ng_Resource.thy ===== *)
theory Ng_Resource
  imports Admin_Rest
begin

text \<open>
  The library behind the REST interface, as the repository keeps it: \<open>$resource\<close> of
  \<open>angular-resource.js\<close> (how the arguments of a call are read, where its parameters come from,
  how the url template is filled in, what a response is turned into) and \<open>buildUrl\<close> of
  \<open>angular.js\<close>.  \<open>Ng_Rest\<close> compares it with the description in \<open>Admin_Rest\<close>.
  The replacements of regular expressions are the functions they compute, from left to right.
\<close>

section \<open>Escapes\<close>

text \<open>Replaces every escape of the byte \<open>n\<close>, in either case of its digits.\<close>

fun replace_escape :: "nat \<Rightarrow> string \<Rightarrow> string \<Rightarrow> string" where
  "replace_escape n w [] = []"
| "replace_escape n w (c # r) =
     (case r of
        h # l # r' \<Rightarrow>
          if c = CHR ''%'' \<and> hexval h = Some (n div 16) \<and> hexval l = Some (n mod 16)
          then w @ replace_escape n w r' else c # replace_escape n w r
      | _ \<Rightarrow> c # replace_escape n w r)"

definition encodeUriQuery :: "string \<Rightarrow> bool \<Rightarrow> string" where
  "encodeUriQuery val pctEncodeSpaces =
     replace_escape 32 (if pctEncodeSpaces then ''%20'' else ''+'')
       (replace_escape 44 '','' (replace_escape 36 ''$'' (replace_escape 58 '':'' (replace_escape 64 ''@''
         (encodeURIComponent val)))))"

definition uriSegment :: "string \<Rightarrow> string" where
  "uriSegment val =
     replace_escape 43 ''+'' (replace_escape 61 ''='' (replace_escape 38 ''&'' (encodeUriQuery val True)))"

section \<open>Fields read by a path\<close>

definition name_start :: "char \<Rightarrow> bool" where
  "name_start c \<longleftrightarrow> c = CHR ''$'' \<or> word_char c \<and> \<not> (48 \<le> byte c \<and> byte c \<le> 57)"

definition member_name :: "string \<Rightarrow> bool" where
  "member_name w = (case w of [] \<Rightarrow> False
     | c # cs \<Rightarrow> name_start c \<and> list_all (\<lambda>d. d = CHR ''$'' \<or> word_char d) cs)"

definition isValidDottedPath :: "string \<Rightarrow> bool" where
  "isValidDottedPath path \<longleftrightarrow> path \<noteq> [] \<and> path \<noteq> ''hasOwnProperty''
     \<and> list_all member_name (js_split (CHR ''.'') path)"

fun lookup_keys :: "jsval \<Rightarrow> string list \<Rightarrow> jsval" where
  "lookup_keys obj [] = obj"
| "lookup_keys obj (key # keys) =
     (if obj = Undefined then Undefined
      else lookup_keys (case getp obj key of Inl e \<Rightarrow> Undefined | Inr v \<Rightarrow> v) keys)"

definition lookupDottedPath :: "jsval \<Rightarrow> string \<Rightarrow> js_error + jsval" where
  "lookupDottedPath obj path =
     (if \<not> isValidDottedPath path then Inl (Thrown ''badmember'')
      else Inr (lookup_keys obj (js_split (CHR ''.'') path)))"

section \<open>Filling in a template\<close>

text \<open>\<open>:p\<close> at the beginning of \<open>s\<close>, with no more characters of a word after it.\<close>

definition ends_word :: "string \<Rightarrow> bool" where
  "ends_word s = (case s of [] \<Rightarrow> True | c # cs \<Rightarrow> \<not> word_char c)"

definition at_param :: "string \<Rightarrow> string \<Rightarrow> bool" where
  "at_param p s \<longleftrightarrow> take (Suc (length p)) s = CHR '':'' # p \<and> ends_word (drop (Suc (length p)) s)"

text \<open>Whether \<open>:p\<close> occurs without a backslash before it; \<open>prev\<close> is the character before \<open>s\<close>.\<close>

fun has_param :: "string \<Rightarrow> char \<Rightarrow> string \<Rightarrow> bool" where
  "has_param p prev [] = False"
| "has_param p prev (c # s) = (prev \<noteq> CHR 0x5C \<and> at_param p (c # s) \<or> has_param p c s)"

text \<open>\<open>url.split(/\W/)\<close>.\<close>

fun split_words :: "string \<Rightarrow> string list" where
  "split_words [] = [[]]"
| "split_words (c # s) =
     (if word_char c then (case split_words s of [] \<Rightarrow> [[c]] | w # ws \<Rightarrow> (c # w) # ws)
      else [] # split_words s)"

definition digits :: "string \<Rightarrow> bool" where
  "digits w \<longleftrightarrow> w \<noteq> [] \<and> list_all (\<lambda>c. 48 \<le> byte c \<and> byte c \<le> 57) w"

text \<open>The names of the placeholders, in the order of their first occurrence as a word.\<close>

definition url_params :: "string \<Rightarrow> string list" where
  "url_params url =
     rev (remdups (rev (filter (\<lambda>w. \<not> digits w \<and> w \<noteq> [] \<and> has_param w (CHR ''/'') url) (split_words url))))"

text \<open>The global replacements of \<open>:p\<close>; the character after it is consumed with it.\<close>

function replace_given :: "string \<Rightarrow> string \<Rightarrow> string \<Rightarrow> string" where
  "replace_given p val [] = []"
| "replace_given p val (c # s) =
     (if at_param p (c # s)
      then let t = drop (length p) s in val @ take 1 t @ replace_given p val (drop 1 t)
      else c # replace_given p val s)"
  by pat_completeness auto
termination by (relation "measure (\<lambda>(p, val, s). length s)") auto

function replace_missing :: "string \<Rightarrow> string \<Rightarrow> string" where
  "replace_missing p [] = []"
| "replace_missing p (c # s) =
     (if c = CHR ''/'' \<and> at_param p s
      then let t = drop (Suc (length p)) s
           in (if take 1 t = ''/'' then [] else ''/'') @ take 1 t @ replace_missing p (drop 1 t)
      else if at_param p (c # s)
      then let t = drop (length p) s in take 1 t @ replace_missing p (drop 1 t)
      else c # replace_missing p s)"
  by pat_completeness auto
termination by (relation "measure (\<lambda>(p, s). length s)") auto

text \<open>\<open>url.replace(/\\:/g, ':')\<close>, and the first \<open>/\.\<close>.\<close>

fun unescape_colons :: "string \<Rightarrow> string" where
  "unescape_colons [] = []"
| "unescape_colons (c # s) =
     (if c = CHR 0x5C \<and> take 1 s = '':'' then unescape_colons s else c # unescape_colons s)"

fun unescape_dot :: "string \<Rightarrow> string" where
  "unescape_dot [] = []"
| "unescape_dot (c # s) =
     (if c = CHR ''/'' \<and> take 2 s = [CHR 0x5C, CHR ''.''] then c # drop 1 s else c # unescape_dot s)"

definition fill_param :: "conv \<Rightarrow> fields \<Rightarrow> string \<Rightarrow> string \<Rightarrow> string" where
  "fill_param cv params p url =
     (let val = getf params p
      in if val = Undefined \<or> val = Null then replace_missing p url
         else replace_given p (uriSegment (str cv val)) url)"

definition fill_params :: "conv \<Rightarrow> fields \<Rightarrow> string list \<Rightarrow> string \<Rightarrow> string" where
  "fill_params cv params ps url = fold (fill_param cv params) ps url"

definition tidy_url :: "string \<Rightarrow> string" where
  "tidy_url url = unescape_dot (join_dot (let s = strip_slashes url in if s = [] then ''/'' else s))"

text \<open>
  \<open>Route.setUrlParams\<close> with \<open>self.defaults\<close> empty, as \<open>resourceFactory\<close> creates the route: the url,
  and the parameters that are left for the query.
\<close>

definition setUrlParams :: "conv \<Rightarrow> string \<Rightarrow> fields \<Rightarrow> js_error + (string \<times> fields)" where
  "setUrlParams cv template params =
     (if ''hasOwnProperty'' \<in> set (split_words template) then Inl (Thrown ''badname'')
      else let ps = url_params template
           in Inr (tidy_url (fill_params cv params ps (unescape_colons template)),
                filter (\<lambda>(key, v). key \<notin> set ps) params))"

section \<open>Calls\<close>

text \<open>\<open>angular.extend\<close> on objects.\<close>

definition ng_extend :: "fields \<Rightarrow> fields \<Rightarrow> fields" where
  "ng_extend dst obj = fold (\<lambda>(key, v) d. setf key v d) obj dst"

fun extract_ids :: "jsval \<Rightarrow> fields \<Rightarrow> js_error + fields" where
  "extract_ids data [] = Inr []"
| "extract_ids data ((key, v) # r) =
     (case (case v of Str (c # path) \<Rightarrow> if c = CHR ''@'' then lookupDottedPath data path else Inr v
            | _ \<Rightarrow> Inr v) of
        Inl e \<Rightarrow> Inl e
      | Inr x \<Rightarrow> (case extract_ids data r of Inl e \<Rightarrow> Inl e | Inr ids \<Rightarrow> Inr ((key, x) # ids)))"

definition texts :: "(string \<times> string) list \<Rightarrow> fields" where
  "texts ps = map (\<lambda>(k, v). (k, Str v)) ps"

definition extractParams :: "resource \<Rightarrow> action \<Rightarrow> jsval \<Rightarrow> js_error + fields" where
  "extractParams r a data = extract_ids data (ng_extend (ng_extend [] (texts (rs_defaults r))) (texts (ac_params a)))"

text \<open>The arguments of a call: values, or functions by number.\<close>

datatype arg = AVal jsval | AFun nat

record call_args =
  ca_params :: arg
  ca_data :: arg
  ca_success :: arg
  ca_error :: arg

definition no_args :: call_args where
  "no_args = \<lparr>ca_params = AVal (Obj []), ca_data = AVal Undefined, ca_success = AVal Undefined, ca_error = AVal Undefined\<rparr>"

definition isFunction :: "arg \<Rightarrow> bool" where
  "isFunction a = (case a of AVal v \<Rightarrow> False | AFun f \<Rightarrow> True)"

definition one_arg :: "bool \<Rightarrow> arg \<Rightarrow> call_args \<Rightarrow> call_args" where
  "one_arg hasBody a1 c =
     (if isFunction a1 then c\<lparr>ca_success := a1\<rparr> else if hasBody then c\<lparr>ca_data := a1\<rparr> else c\<lparr>ca_params := a1\<rparr>)"

text \<open>The cases of two to four arguments, with the missing ones \<open>undefined\<close>.\<close>

definition more_args :: "bool \<Rightarrow> arg \<Rightarrow> arg \<Rightarrow> arg \<Rightarrow> call_args \<Rightarrow> call_args" where
  "more_args hasBody a1 a2 a3 c =
     (if isFunction a2 then
        if isFunction a1 then c\<lparr>ca_success := a1, ca_error := a2\<rparr>
        else one_arg hasBody a1 (c\<lparr>ca_success := a2, ca_error := a3\<rparr>)
      else c\<lparr>ca_params := a1, ca_data := a2, ca_success := a3\<rparr>)"

fun read_args :: "bool \<Rightarrow> arg list \<Rightarrow> js_error + call_args" where
  "read_args hasBody [] = Inr no_args"
| "read_args hasBody [a1] = Inr (one_arg hasBody a1 no_args)"
| "read_args hasBody [a1, a2] = Inr (more_args hasBody a1 a2 (AVal Undefined) no_args)"
| "read_args hasBody [a1, a2, a3] = Inr (more_args hasBody a1 a2 a3 no_args)"
| "read_args hasBody [a1, a2, a3, a4] = Inr (more_args hasBody a1 a2 a3 (no_args\<lparr>ca_error := a4\<rparr>))"
| "read_args hasBody _ = Inl (Thrown ''badargs'')"

definition arg_fields :: "arg \<Rightarrow> fields" where
  "arg_fields a = (case a of AVal v \<Rightarrow> fields_of v | AFun f \<Rightarrow> [])"

definition arg_val :: "arg \<Rightarrow> jsval" where
  "arg_val a = (case a of AVal v \<Rightarrow> v | AFun f \<Rightarrow> Undefined)"

definition has_body :: "action \<Rightarrow> bool" where
  "has_body a \<longleftrightarrow> ac_method a \<in> {POST, PUT}"

record http_config =
  hc_method :: http_method
  hc_url :: string
  hc_params :: fields
  hc_data :: jsval

text \<open>The configuration given to \<open>$http\<close>, from parameters and data.\<close>

definition http_config_of :: "conv \<Rightarrow> string \<Rightarrow> resource \<Rightarrow> action \<Rightarrow> fields \<Rightarrow> jsval \<Rightarrow> js_error + http_config" where
  "http_config_of cv base r a params data =
     (case extractParams r a data of
        Inl e \<Rightarrow> Inl e
      | Inr ids \<Rightarrow>
          (case setUrlParams cv (base @ rs_url r) (ng_extend (ng_extend [] ids) params) of
             Inl e \<Rightarrow> Inl e
           | Inr (url, query) \<Rightarrow>
               Inr \<lparr>hc_method = ac_method a, hc_url = url, hc_params = query,
                    hc_data = (if has_body a then data else Undefined)\<rparr>))"

definition resource_call :: "conv \<Rightarrow> string \<Rightarrow> resource \<Rightarrow> action \<Rightarrow> arg list
    \<Rightarrow> js_error + (http_config \<times> call_args)" where
  "resource_call cv base r a args =
     (case read_args (has_body a) args of
        Inl e \<Rightarrow> Inl e
      | Inr c \<Rightarrow>
          (case http_config_of cv base r a (arg_fields (ca_params c)) (arg_val (ca_data c)) of
             Inl e \<Rightarrow> Inl e
           | Inr cfg \<Rightarrow> Inr (cfg, c)))"

text \<open>A method \<open>$name\<close> of a loaded object: the object itself is the data.\<close>

definition instance_call :: "conv \<Rightarrow> string \<Rightarrow> resource \<Rightarrow> action \<Rightarrow> fields \<Rightarrow> arg list
    \<Rightarrow> js_error + (http_config \<times> call_args)" where
  "instance_call cv base r a this args =
     (let arg = (\<lambda>i. if i < length args then args ! i else AVal Undefined);
          f = isFunction (arg 0);
          params = (if f then AVal (Obj []) else arg 0);
          success = (if f then arg 0 else arg 1);
          error = (if f then arg 1 else arg 2)
      in resource_call cv base r a [params, AVal (Obj this), success, error])"

section \<open>Responses\<close>

text \<open>The value a call returns at once and that the response fills in.\<close>

datatype resource_value = Item fields | Items "fields list"

fun index_fields :: "nat \<Rightarrow> (nat \<Rightarrow> string) \<Rightarrow> jsval list \<Rightarrow> fields" where
  "index_fields i dec [] = []"
| "index_fields i dec (v # vs) = (dec i, v) # index_fields (Suc i) dec vs"

definition own_fields :: "conv \<Rightarrow> jsval \<Rightarrow> fields" where
  "own_fields cv v =
     (let dec = (\<lambda>i. to_string cv (of_nat i))
      in case v of Obj r \<Rightarrow> r | Arr xs \<Rightarrow> index_fields 0 dec xs
         | Str s \<Rightarrow> index_fields 0 dec (map (\<lambda>c. Str [c]) s) | _ \<Rightarrow> [])"

definition shallowClearAndCopy :: "conv \<Rightarrow> jsval \<Rightarrow> fields" where
  "shallowClearAndCopy cv src = filter (\<lambda>(key, v). take 2 key \<noteq> ''$$'') (own_fields cv src)"

definition new_resource :: "conv \<Rightarrow> jsval \<Rightarrow> fields" where
  "new_resource cv v = shallowClearAndCopy cv (if truthy v then v else Obj [])"

definition call_value :: "conv \<Rightarrow> action \<Rightarrow> jsval \<Rightarrow> resource_value" where
  "call_value cv a data = (if ac_isArray a then Items [] else Item (new_resource cv data))"

definition response_value :: "conv \<Rightarrow> action \<Rightarrow> jsval \<Rightarrow> resource_value \<Rightarrow> js_error + resource_value" where
  "response_value cv a data value =
     (if \<not> truthy data then Inr value
      else case data of
          Arr xs \<Rightarrow> if ac_isArray a then Inr (Items (map (new_resource cv) xs)) else Inl (Thrown ''badcfg'')
        | _ \<Rightarrow> if ac_isArray a then Inl (Thrown ''badcfg'') else Inr (Item (shallowClearAndCopy cv data)))"

section \<open>The url that is sent\<close>

text \<open>Byte order is the order of \<open>sort()\<close> on ASCII keys.\<close>

fun key_le :: "string \<Rightarrow> string \<Rightarrow> bool" where
  "key_le [] t = True"
| "key_le (c # s) [] = False"
| "key_le (c # s) (d # t) = (byte c < byte d \<or> c = d \<and> key_le s t)"

fun insert_key :: "string \<Rightarrow> string list \<Rightarrow> string list" where
  "insert_key k [] = [k]"
| "insert_key k (j # js) = (if key_le k j then k # j # js else j # insert_key k js)"

definition sortedKeys :: "fields \<Rightarrow> string list" where
  "sortedKeys obj = foldr insert_key (map fst obj) []"

definition query_part :: "conv \<Rightarrow> (jsval \<Rightarrow> string) \<Rightarrow> string \<Rightarrow> jsval \<Rightarrow> string" where
  "query_part cv toJson key v =
     encodeUriQuery key False @ ''='' @
     encodeUriQuery (case v of Arr xs \<Rightarrow> toJson v | Obj r \<Rightarrow> toJson v | _ \<Rightarrow> str cv v) False"

definition query_parts :: "conv \<Rightarrow> (jsval \<Rightarrow> string) \<Rightarrow> fields \<Rightarrow> string \<Rightarrow> string list" where
  "query_parts cv toJson params key =
     (case getf params key of Undefined \<Rightarrow> [] | Null \<Rightarrow> []
      | Arr vs \<Rightarrow> map (query_part cv toJson key) vs | v \<Rightarrow> [query_part cv toJson key v])"

text \<open>No parameters at all is \<open>config.params\<close> left \<open>undefined\<close>.\<close>

definition buildUrl :: "conv \<Rightarrow> (jsval \<Rightarrow> string) \<Rightarrow> string \<Rightarrow> fields \<Rightarrow> string" where
  "buildUrl cv toJson url params =
     (if params = [] then url
      else url @ (if js_indexOf ''?'' url = -1 then ''?'' else ''&'')
        @ js_join ''&'' (concat (map (query_parts cv toJson params) (sortedKeys params))))"

end
