(* ===== verification/Ng_Rest.thy ===== *)
theory Ng_Rest
  imports Ng_Resource Admin_Tables
begin

text \<open>
  What \<open>$resource\<close> sends for the resource objects of the console is what \<open>Admin_Rest\<close> says: the
  replacements of the url template, one placeholder after the other, amount to filling its
  segments, as long as no value holds a colon.  The encodings agree without that condition.
\<close>

section \<open>Escapes\<close>

definition pct :: "char \<Rightarrow> string" where
  "pct c = [CHR ''%'', hexd (byte c div 16), hexd (byte c mod 16)]"

fun enc :: "(char \<Rightarrow> bool) \<Rightarrow> string \<Rightarrow> string" where
  "enc P [] = []"
| "enc P (c # s) = (if P c then [c] else pct c) @ enc P s"

lemma enc_cong: "(\<And>c. P c = Q c) \<Longrightarrow> enc P s = enc Q s"
  by (induction s) simp_all

lemma enc_URIComponent: "encodeURIComponent s = enc unreserved s"
  by (induction s) (simp_all add: pct_def)

lemma enc_UriSegment: "encodeUriSegment s = enc path_char s"
  by (induction s) (simp_all add: pct_def)

lemma replace_escape_other: "c \<noteq> CHR ''%'' \<Longrightarrow> replace_escape n w (c # r) = c # replace_escape n w r"
  by (auto split: list.split)

lemma hexd_not_pct: "n < 16 \<Longrightarrow> hexd n \<noteq> CHR ''%''"
  using hexd_unreserved [of n] by (auto simp: unreserved_def)

lemma byte_parts: "byte c div 16 = byte d div 16 \<Longrightarrow> byte c mod 16 = byte d mod 16 \<Longrightarrow> c = d"
  by (metis div_mult_mod_eq of_char_eq_iff)

lemma replace_escape_pct:
  "replace_escape (byte d) w (pct c @ r) = (if c = d then w else pct c) @ replace_escape (byte d) w r"
proof -
  have h: "byte c div 16 < 16" "byte c mod 16 < 16" by (simp_all add: byte_div_16)
  have "replace_escape (byte d) w (hexd (byte c div 16) # hexd (byte c mod 16) # r)
      = hexd (byte c div 16) # hexd (byte c mod 16) # replace_escape (byte d) w r"
    using h by (simp only: replace_escape_other hexd_not_pct not_False_eq_True)
  moreover have "c = d \<longleftrightarrow> byte c div 16 = byte d div 16 \<and> byte c mod 16 = byte d mod 16" using byte_parts by blast
  ultimately show ?thesis
    unfolding pct_def append_Cons append_Nil replace_escape.simps(2)
    by (simp add: hexval_hexd h del: replace_escape.simps)
qed

lemma replace_escape_enc:
  assumes "\<not> P (CHR ''%'')"
  shows "replace_escape (byte d) [d] (enc P s) = enc (\<lambda>c. P c \<or> c = d) s"
    and "replace_escape (byte d) (pct d) (enc P s) = enc P s \<or> P d"
proof -
  have plain: "replace_escape (byte d) w (c # r) = c # replace_escape (byte d) w r" if "P c" for w c r
    using that assms by (intro replace_escape_other) blast
  show "replace_escape (byte d) [d] (enc P s) = enc (\<lambda>c. P c \<or> c = d) s"
    by (induction s) (simp_all add: plain replace_escape_pct del: replace_escape.simps(2))
  show "replace_escape (byte d) (pct d) (enc P s) = enc P s \<or> P d"
    by (induction s) (auto simp: plain replace_escape_pct simp del: replace_escape.simps(2))
qed

lemma uriSegment_eq: "uriSegment s = encodeUriSegment s"
proof -
  note keep = replace_escape_enc(1)
  have space: "replace_escape 32 ''%20'' (enc P t) = enc P t" if "\<not> P (CHR ''%'')" "\<not> P (CHR '' '')" for P t
    using replace_escape_enc(2) [of P "CHR '' ''" t] that by (simp add: pct_def hexd_def)
  have "uriSegment s = enc (\<lambda>c. ((((((unreserved c \<or> c = CHR ''@'') \<or> c = CHR '':'') \<or> c = CHR ''$'') \<or> c = CHR '','')
      \<or> c = CHR ''&'') \<or> c = CHR ''='') \<or> c = CHR ''+'') s"
    using keep [of _ "CHR ''@''"] keep [of _ "CHR '':''"] keep [of _ "CHR ''$''"] keep [of _ "CHR '',''"]
      keep [of _ "CHR ''&''"] keep [of _ "CHR ''=''"] keep [of _ "CHR ''+''"]
    by (simp add: uriSegment_def encodeUriQuery_def enc_URIComponent space unreserved_def)
  also have "\<dots> = enc path_char s" by (rule enc_cong) (auto simp: path_char_def)
  finally show ?thesis by (simp add: enc_UriSegment)
qed

section \<open>Placeholders in a string\<close>

definition no_param_in :: "string \<Rightarrow> string \<Rightarrow> bool" where
  "no_param_in p s \<longleftrightarrow> (\<forall>i. \<not> at_param p (drop i s))"

definition word :: "string \<Rightarrow> bool" where
  "word w \<longleftrightarrow> w \<noteq> [] \<and> list_all word_char w"

lemma not_word_char [simp]: "\<not> word_char CHR '':''" "\<not> word_char CHR ''/''" "\<not> word_char CHR 0x5C"
  by (simp_all add: word_char_def)

lemma at_param_Cons: "at_param p (c # s) \<longleftrightarrow> c = CHR '':'' \<and> take (length p) s = p \<and> ends_word (drop (length p) s)"
  by (auto simp: at_param_def)

lemma at_param_Nil [simp]: "\<not> at_param p []"
  by (simp add: at_param_def)

lemma takeWhile_ends: "ends_word s \<Longrightarrow> takeWhile word_char s = []"
  by (cases s) (simp_all add: ends_word_def)

lemma at_param_takeWhile:
  assumes "list_all word_char p"
  shows "at_param p (CHR '':'' # t) \<longleftrightarrow> takeWhile word_char t = p"
proof
  assume "at_param p (CHR '':'' # t)"
  then have "t = p @ drop (length p) t" "ends_word (drop (length p) t)"
    by (simp_all add: at_param_Cons) (metis append_take_drop_id)
  then show "takeWhile word_char t = p"
    using assms takeWhile_ends by (metis append.right_neutral list_all_iff takeWhile_append2)
next
  assume "takeWhile word_char t = p"
  then have "t = p @ dropWhile word_char t" by (metis takeWhile_dropWhile_id)
  moreover have "ends_word (dropWhile word_char t)"
    by (auto simp: ends_word_def split: list.split dest: dropWhile_eq_Cons_conv [THEN iffD1])
  ultimately show "at_param p (CHR '':'' # t)" by (metis append_eq_conv_conj at_param_Cons)
qed

lemma takeWhile_word_chars: "list_all word_char q \<Longrightarrow> ends_word s \<Longrightarrow> takeWhile word_char (q @ s) = q"
  by (induction q) (simp_all add: takeWhile_ends)

lemma at_param_word: "word p \<Longrightarrow> word q \<Longrightarrow> ends_word s \<Longrightarrow> at_param p (CHR '':'' # q @ s) \<longleftrightarrow> p = q"
  by (auto simp: word_def at_param_takeWhile takeWhile_word_chars)

lemma no_param_Nil [simp]: "no_param_in p []"
  by (simp add: no_param_in_def)

lemma no_param_Cons: "no_param_in p (c # s) \<longleftrightarrow> \<not> at_param p (c # s) \<and> no_param_in p s"
  unfolding no_param_in_def by (metis drop0 drop_Suc_Cons not0_implies_Suc)

lemma no_param_plain: "CHR '':'' \<notin> set w \<Longrightarrow> no_param_in p (w @ s) \<longleftrightarrow> no_param_in p s"
  by (induction w) (auto simp: no_param_Cons at_param_Cons)

lemma word_no_colon: "word q \<Longrightarrow> CHR '':'' \<notin> set q"
  by (auto simp: word_def list_all_iff)

lemma no_param_par:
  "word p \<Longrightarrow> word q \<Longrightarrow> ends_word s \<Longrightarrow> no_param_in p (CHR '':'' # q @ s) \<longleftrightarrow> p \<noteq> q \<and> no_param_in p s"
  by (simp add: no_param_Cons at_param_word no_param_plain word_no_colon)

lemma no_param_drop: "no_param_in p s \<Longrightarrow> no_param_in p (drop n s)"
  by (auto simp: no_param_in_def)

lemma given_none: "no_param_in p s \<Longrightarrow> replace_given p val s = s"
  by (induction s) (simp_all add: no_param_Cons)

lemma missing_none: "no_param_in p s \<Longrightarrow> replace_missing p s = s"
proof (induction s)
  case (Cons c s)
  have "\<not> at_param p s" using Cons.prems by (cases s) (auto simp: no_param_Cons)
  then show ?case using Cons by (simp add: no_param_Cons)
qed simp

lemma given_plain: "CHR '':'' \<notin> set w \<Longrightarrow> replace_given p val (w @ s) = w @ replace_given p val s"
  by (induction w) (auto simp: at_param_Cons)

section \<open>The base of a url\<close>

text \<open>After a colon of the base comes no name: only a slash, or a port.\<close>

fun colons_plain :: "string \<Rightarrow> bool" where
  "colons_plain [] = True"
| "colons_plain (c # s) =
     ((c = CHR '':'' \<longrightarrow> takeWhile word_char s = [] \<or> digits (takeWhile word_char s)) \<and> colons_plain s)"

definition plain_base :: "string \<Rightarrow> bool" where
  "plain_base b \<longleftrightarrow> colons_plain b \<and> CHR 0x5C \<notin> set b \<and> (\<exists>c \<in> set b. c \<noteq> CHR ''/'')
     \<and> ''hasOwnProperty'' \<notin> set (split_words b)"

definition param_name :: "string \<Rightarrow> bool" where
  "param_name p \<longleftrightarrow> word p \<and> \<not> digits p"

lemma takeWhile_append_ends: "ends_word s \<Longrightarrow> takeWhile word_char (b @ s) = takeWhile word_char b"
  by (induction b) (simp_all add: takeWhile_ends)

lemma base_at_param:
  assumes "colons_plain b" and "param_name p" and "ends_word s"
  shows "at_param p (b @ s) \<longleftrightarrow> b = [] \<and> at_param p s"
proof (cases b)
  case (Cons c b')
  show ?thesis
  proof (cases "c = CHR '':''")
    case True
    then show ?thesis using assms Cons
      by (auto simp: param_name_def word_def at_param_takeWhile takeWhile_append_ends)
  qed (use Cons in \<open>simp add: at_param_Cons\<close>)
qed simp

lemma base_no_param:
  "colons_plain b \<Longrightarrow> param_name p \<Longrightarrow> ends_word s \<Longrightarrow> no_param_in p (b @ s) \<longleftrightarrow> no_param_in p s"
proof (induction b)
  case (Cons c b)
  then show ?case using base_at_param [of "c # b" p s] by (simp add: no_param_Cons)
qed simp

lemma base_given:
  "colons_plain b \<Longrightarrow> param_name p \<Longrightarrow> ends_word s \<Longrightarrow> replace_given p val (b @ s) = b @ replace_given p val s"
proof (induction b)
  case (Cons c b)
  then show ?case using base_at_param [of "c # b" p s] by simp
qed simp

lemma base_missing:
  "colons_plain b \<Longrightarrow> param_name p \<Longrightarrow> ends_word s \<Longrightarrow> \<not> at_param p s \<Longrightarrow>
     replace_missing p (b @ s) = b @ replace_missing p s"
proof (induction b)
  case (Cons c b)
  then show ?case using base_at_param [of "c # b" p s] base_at_param [of b p s] by simp
qed simp

lemma base_has_param:
  "colons_plain b \<Longrightarrow> param_name p \<Longrightarrow> ends_word s \<Longrightarrow> has_param p prev (b @ s) \<longleftrightarrow> has_param p (last (prev # b)) s"
proof (induction b arbitrary: prev)
  case (Cons c b)
  then show ?case using base_at_param [of "c # b" p s] by simp
qed simp

section \<open>A template while it is filled in\<close>

text \<open>
  \<open>\<sigma> p\<close>: not yet replaced, replaced by a text, or dropped; a last segment that is dropped leaves its
  slash.
\<close>

fun render :: "(string \<Rightarrow> string option option) \<Rightarrow> seg list \<Rightarrow> string" where
  "render \<sigma> [] = []"
| "render \<sigma> (Lit t # r) = CHR ''/'' # t @ render \<sigma> r"
| "render \<sigma> (Par p # r) =
     (case \<sigma> p of
        None \<Rightarrow> CHR ''/'' # CHR '':'' # p @ render \<sigma> r
      | Some (Some v) \<Rightarrow> CHR ''/'' # v @ render \<sigma> r
      | Some None \<Rightarrow> if r = [] then ''/'' else render \<sigma> r)"

definition plain_piece :: "seg \<Rightarrow> bool" where
  "plain_piece s = (case s of Lit t \<Rightarrow> CHR '':'' \<notin> set t \<and> CHR 0x5C \<notin> set t | Par p \<Rightarrow> param_name p)"

definition no_colons :: "(string \<Rightarrow> string option option) \<Rightarrow> bool" where
  "no_colons \<sigma> \<longleftrightarrow> (\<forall>p v. \<sigma> p = Some (Some v) \<longrightarrow> CHR '':'' \<notin> set v)"

lemma render_start: "render \<sigma> segs = [] \<and> segs = [] \<or> (\<exists>s. render \<sigma> segs = CHR ''/'' # s \<and> segs \<noteq> [])"
  by (induction \<sigma> segs rule: render.induct) (auto split: option.split)

lemma render_ends [simp]: "ends_word (render \<sigma> segs)" "\<not> at_param p (render \<sigma> segs)"
  using render_start [of \<sigma> segs] by (auto simp: ends_word_def at_param_Cons)

lemma render_no_param:
  assumes "param_name p"
  shows "no_colons \<sigma> \<Longrightarrow> list_all plain_piece segs \<Longrightarrow> \<sigma> p \<noteq> None \<or> p \<notin> set (params_of segs) \<Longrightarrow>
    no_param_in p (render \<sigma> segs)"
proof (induction \<sigma> segs rule: render.induct)
  case (2 \<sigma> t r)
  then show ?case using no_param_plain [of "CHR ''/'' # t" p "render \<sigma> r"] by (simp add: plain_piece_def)
next
  case (3 \<sigma> q r)
  show ?case
  proof (cases "\<sigma> q")
    case None
    then have q: "p \<noteq> q" "word q" "word p" "no_param_in p (render \<sigma> r)"
      using 3 assms(1) by (auto simp: plain_piece_def param_name_def)
    then have "no_param_in p (CHR '':'' # q @ render \<sigma> r)" by (simp add: no_param_par)
    then show ?thesis using None by (simp add: no_param_Cons at_param_Cons)
  next
    case (Some a)
    show ?thesis
    proof (cases a)
      case None
      then show ?thesis using Some 3 by (auto simp: no_param_Cons at_param_Cons)
    next
      case (Some v)
      then have "CHR '':'' \<notin> set v" using \<open>\<sigma> q = Some a\<close> 3 by (auto simp: no_colons_def)
      then show ?thesis
        using Some \<open>\<sigma> q = Some a\<close> 3 no_param_plain [of "CHR ''/'' # v" p "render \<sigma> r"] by auto
    qed
  qed
qed simp

lemma given_slash: "replace_given p val (render \<sigma> r) =
    take 1 (render \<sigma> r) @ replace_given p val (drop 1 (render \<sigma> r))"
  using render_start [of \<sigma> r] by (auto simp: at_param_Cons)

lemma render_given:
  assumes "param_name p" and "\<sigma> p = None" and "no_colons \<sigma>"
  shows "list_all plain_piece segs \<Longrightarrow>
    replace_given p val (render \<sigma> segs) = render (\<sigma>(p := Some (Some val))) segs"
  using assms
proof (induction \<sigma> segs rule: render.induct)
  case (2 \<sigma> t r)
  then show ?case using given_plain [of "CHR ''/'' # t" p val "render \<sigma> r"] by (simp add: plain_piece_def)
next
  case (3 \<sigma> q r)
  have wp: "word p" "word q" using 3 by (auto simp: plain_piece_def param_name_def)
  have slash: "replace_given p val (CHR ''/'' # s) = CHR ''/'' # replace_given p val s" for s
    by (simp add: at_param_Cons)
  show ?case
  proof (cases "q = p")
    case True
    have "at_param p (CHR '':'' # p @ render \<sigma> r)" using wp by (simp add: at_param_word)
    then have "replace_given p val (CHR '':'' # p @ render \<sigma> r) = val @ replace_given p val (render \<sigma> r)"
      using given_slash [of p val \<sigma> r] by (simp add: Let_def)
    then show ?thesis using True 3 slash by simp
  next
    case False
    have par: "replace_given p val (CHR '':'' # q @ s) = CHR '':'' # q @ replace_given p val s" if "ends_word s" for s
      using that wp False by (simp add: at_param_word given_plain word_no_colon)
    have plain: "replace_given p val (CHR ''/'' # v @ s) = CHR ''/'' # v @ replace_given p val s"
      if "CHR '':'' \<notin> set v" for v s using that given_plain [of "CHR ''/'' # v" p val s] by simp
    show ?thesis
    proof (cases "\<sigma> q")
      case None
      then show ?thesis using False 3 slash par by simp
    next
      case (Some a)
      then show ?thesis using False 3 slash plain by (cases a) (auto simp: no_colons_def)
    qed
  qed
qed simp

lemma render_cong: "(\<And>q. q \<in> set (params_of segs) \<Longrightarrow> \<sigma> q = \<tau> q) \<Longrightarrow> render \<sigma> segs = render \<tau> segs"
  by (induction \<sigma> segs rule: render.induct) (auto split: option.split)

lemma missing_slash: "no_param_in p s \<Longrightarrow> replace_missing p (drop 1 s) = drop 1 s"
  by (intro missing_none no_param_drop)

lemma render_missing:
  assumes "param_name p"
  shows "list_all plain_piece segs \<Longrightarrow> distinct (params_of segs) \<Longrightarrow> no_colons \<sigma> \<Longrightarrow> \<sigma> p = None \<Longrightarrow>
    replace_missing p (render \<sigma> segs) = render (\<sigma>(p := Some None)) segs"
proof (induction \<sigma> segs rule: render.induct)
  case (2 \<sigma> t r)
  have "replace_missing p (t @ render \<sigma> r) = t @ replace_missing p (render \<sigma> r) \<and> \<not> at_param p (t @ render \<sigma> r)"
    if "CHR '':'' \<notin> set t" for t
    using that by (induction t) (auto simp: at_param_Cons)
  then show ?case using 2 by (simp add: plain_piece_def at_param_Cons)
next
  case (3 \<sigma> q r)
  have wp: "word p" "word q" using 3 assms by (auto simp: plain_piece_def param_name_def)
  have skip: "replace_missing p (CHR ''/'' # v @ render \<sigma> r) = CHR ''/'' # v @ replace_missing p (render \<sigma> r)"
    if "CHR '':'' \<notin> set v" for v
  proof -
    have "replace_missing p (v @ render \<sigma> r) = v @ replace_missing p (render \<sigma> r) \<and> \<not> at_param p (v @ render \<sigma> r)"
      using that by (induction v) (auto simp: at_param_Cons)
    then show ?thesis by (simp add: at_param_Cons)
  qed
  show ?case
  proof (cases "q = p")
    case True
    have at: "at_param p (CHR '':'' # p @ render \<sigma> r)" using wp by (simp add: at_param_word)
    have none: "no_param_in p (render \<sigma> r)" using render_no_param [OF assms, of \<sigma> r] 3 True by simp
    have r: "render (\<sigma>(p := Some None)) r = render \<sigma> r" using 3 True by (intro render_cong) auto
    show ?thesis
    proof (cases "render \<sigma> r")
      case Nil
      then show ?thesis using True 3 at render_start [of \<sigma> r] by (simp add: Let_def)
    next
      case (Cons c s)
      then have "c = CHR ''/''" "r \<noteq> []" using render_start [of \<sigma> r] by auto
      then have "replace_missing p (CHR ''/'' # CHR '':'' # p @ render \<sigma> r) = render \<sigma> r"
        using at missing_slash [OF none] Cons by (simp add: Let_def)
      moreover have "\<sigma> p = None" using 3 by simp
      ultimately show ?thesis
        unfolding True using \<open>r \<noteq> []\<close> by (simp only: render.simps fun_upd_same option.case if_False r)
    qed
  next
    case False
    have par: "replace_missing p (CHR ''/'' # CHR '':'' # q @ render \<sigma> r) = CHR ''/'' # CHR '':'' # q @ replace_missing p (render \<sigma> r)"
    proof -
      have "replace_missing p (w @ render \<sigma> r) = w @ replace_missing p (render \<sigma> r) \<and> \<not> at_param p (w @ render \<sigma> r)"
        if "CHR '':'' \<notin> set w" for w
        using that by (induction w) (auto simp: at_param_Cons)
      then show ?thesis using False wp word_no_colon [OF wp(2)] by (simp add: at_param_word at_param_Cons [of p "CHR ''/''"])
    qed
    show ?thesis
    proof (cases "\<sigma> q")
      case None
      then show ?thesis using False 3 par by simp
    next
      case (Some a)
      then show ?thesis using False 3 skip by (cases a) (auto simp: no_colons_def at_param_Cons)
    qed
  qed
qed simp

section \<open>The names of a template\<close>

lemma render_has_param:
  assumes "param_name p"
  shows "list_all plain_piece segs \<Longrightarrow> has_param p prev (render (\<lambda>_. None) segs) \<longleftrightarrow> p \<in> set (params_of segs)"
proof (induction segs arbitrary: prev)
  case (Cons s r)
  have skip: "has_param p prev (w @ render \<tau> r) \<longleftrightarrow> has_param p (last (prev # w)) (render \<tau> r)"
    if "CHR '':'' \<notin> set w" for w prev \<tau>
    using that by (induction w arbitrary: prev) (auto simp: at_param_Cons)
  show ?case
  proof (cases s)
    case (Lit t)
    then show ?thesis using Cons skip [of "CHR ''/'' # t" prev] by (simp add: plain_piece_def)
  next
    case (Par q)
    then have w: "word p" "word q" using Cons.prems assms by (auto simp: plain_piece_def param_name_def)
    have "has_param p (CHR '':'') (q @ render (\<lambda>_. None) r) \<longleftrightarrow> p \<in> set (params_of r)"
      using skip [OF word_no_colon [OF w(2)]] Cons by simp
    then show ?thesis using Par w by (simp add: at_param_word at_param_Cons [of p "CHR ''/''"])
  qed
qed simp

lemma split_words_append: "\<not> word_char c \<Longrightarrow> split_words (s @ c # t) = split_words s @ split_words t"
proof (induction s)
  case (Cons x s)
  moreover have "split_words s \<noteq> []" by (cases s) (auto split: list.split)
  ultimately show ?case by (cases "split_words s") simp_all
qed simp

lemma split_words_word: "list_all word_char w \<Longrightarrow> split_words w = [w]"
  by (induction w) simp_all

lemma split_words_pieces: "w \<in> set (split_words s) \<Longrightarrow> list_all word_char w"
proof (induction s arbitrary: w)
  case (Cons c s)
  then show ?case by (cases "split_words s") (auto split: if_splits)
qed simp

lemma split_words_render: "split_words (w @ render \<sigma> segs) = split_words w @ (case render \<sigma> segs of [] \<Rightarrow> [] | c # s \<Rightarrow> split_words s)"
  using render_start [of \<sigma> segs] by (auto simp: split_words_append)

lemma render_words:
  "list_all plain_piece segs \<Longrightarrow> p \<in> set (params_of segs) \<Longrightarrow> p \<in> set (split_words (render (\<lambda>_. None) segs))"
proof (induction segs)
  case (Cons s r)
  have sub: "set (split_words (render (\<lambda>_. None) r)) \<subseteq> insert [] (set (split_words (w @ render (\<lambda>_. None) r)))" for w
    using render_start [of "\<lambda>_. None" r] by (auto simp: split_words_append)
  show ?case
  proof (cases s)
    case (Lit t)
    have "p \<noteq> []" using Cons.prems by (auto simp: params_of_def seg_param_def plain_piece_def param_name_def word_def list_all_iff
        split: seg.splits)
    then show ?thesis using Lit Cons sub [of t] by auto
  next
    case (Par q)
    have q: "list_all word_char q" "q \<noteq> []" using Par Cons.prems by (auto simp: plain_piece_def param_name_def word_def)
    have "q \<in> set (split_words (q @ render (\<lambda>_. None) r))"
      using q by (simp add: split_words_render split_words_word)
    moreover have "p \<noteq> []" using Cons.prems by (auto simp: params_of_def seg_param_def plain_piece_def param_name_def word_def list_all_iff
        split: seg.splits)
    ultimately show ?thesis using Par Cons sub [of q] by auto
  qed
qed simp

lemma plain_params: "list_all plain_piece segs \<Longrightarrow> p \<in> set (params_of segs) \<Longrightarrow> param_name p"
proof (induction segs)
  case (Cons s r)
  then show ?case by (cases s) (auto simp: plain_piece_def)
qed simp

lemma template_params:
  assumes "plain_base b" and "list_all plain_piece segs"
  shows "set (url_params (b @ render (\<lambda>_. None) segs)) = set (params_of segs)"
    and "distinct (url_params u)"
proof -
  let ?r = "render (\<lambda>_. None) segs"
  have has: "has_param p (CHR ''/'') (b @ ?r) \<longleftrightarrow> p \<in> set (params_of segs)" if "param_name p" for p
    using assms that render_has_param [OF that assms(2)] by (simp add: base_has_param plain_base_def)
  have "p \<in> set (split_words (b @ ?r))" if p: "p \<in> set (params_of segs)" for p
  proof -
    have "p \<noteq> []" using plain_params [OF assms(2) p] by (simp add: param_name_def word_def)
    then show ?thesis
      using render_words [OF assms(2) p] render_start [of "\<lambda>_. None" segs] p
      by (auto simp: split_words_render)
  qed
  then show "set (url_params (b @ ?r)) = set (params_of segs)"
    using has plain_params [OF assms(2)] split_words_pieces [of _ "b @ ?r"]
    by (auto simp: url_params_def param_name_def word_def)
  show "distinct (url_params u)" by (simp add: url_params_def)
qed

section \<open>The url of a call\<close>

definition plain_value :: "jsval \<Rightarrow> bool" where
  "plain_value v \<longleftrightarrow> v = Undefined \<or> v = Null \<or> (\<exists>s. v = Str s \<and> CHR '':'' \<notin> set s)"

definition text_of :: "jsval \<Rightarrow> string option" where
  "text_of v = (case v of Str s \<Rightarrow> Some s | _ \<Rightarrow> None)"

lemma text_of_simps [simp]: "text_of Undefined = None" "text_of Null = None" "text_of (Str s) = Some s"
  by (simp_all add: text_of_def)

lemma encoded_chars: "c \<in> set (encodeUriSegment s) \<Longrightarrow> c \<noteq> CHR 0x5C \<and> (c = CHR '':'' \<longrightarrow> c \<in> set s)"
proof (induction s)
  case (Cons d s)
  have "unreserved (hexd (byte d div 16))" "unreserved (hexd (byte d mod 16))"
    by (simp_all add: hexd_unreserved byte_div_16)
  then show ?case using Cons by (auto simp: path_char_def unreserved_def split: if_splits)
qed simp

definition filled :: "fields \<Rightarrow> string \<Rightarrow> string option" where
  "filled params p = map_option encodeUriSegment (text_of (getf params p))"

lemma fill_param_render:
  assumes "plain_base b" and "list_all plain_piece segs" and "distinct (params_of segs)" and "no_colons \<sigma>"
    and "param_name p" and "\<sigma> p = None" and "plain_value (getf params p)"
  shows "fill_param cv params p (b @ render \<sigma> segs) = b @ render (\<sigma>(p := Some (filled params p))) segs"
  using assms render_given [OF assms(5,6,4,2)] render_missing [OF assms(5,2,3,4,6)]
  by (auto simp: fill_param_def Let_def plain_value_def plain_base_def base_given base_missing filled_def uriSegment_eq)

lemma fill_params_render:
  assumes "plain_base b" and "list_all plain_piece segs" and "distinct (params_of segs)"
  shows "distinct ps \<Longrightarrow> \<forall>p \<in> set ps. param_name p \<and> \<sigma> p = None \<and> plain_value (getf params p) \<Longrightarrow> no_colons \<sigma> \<Longrightarrow>
    fill_params cv params ps (b @ render \<sigma> segs)
      = b @ render (\<lambda>q. if q \<in> set ps then Some (filled params q) else \<sigma> q) segs"
proof (induction ps arbitrary: \<sigma>)
  case (Cons p ps)
  let ?\<tau> = "\<sigma>(p := Some (filled params p))"
  have "no_colons ?\<tau>"
    using Cons.prems(2,3) encoded_chars [of "CHR '':''"]
    by (auto simp: no_colons_def filled_def plain_value_def)
  moreover have "\<forall>q \<in> set ps. param_name q \<and> ?\<tau> q = None \<and> plain_value (getf params q)"
    using Cons.prems(1,2) by auto
  moreover have "fill_param cv params p (b @ render \<sigma> segs) = b @ render ?\<tau> segs"
    using Cons.prems by (intro fill_param_render [OF assms]) auto
  moreover have "(\<lambda>q. if q \<in> set ps then Some (filled params q) else ?\<tau> q)
      = (\<lambda>q. if q \<in> set (p # ps) then Some (filled params q) else \<sigma> q)" by auto
  moreover have "fill_params cv params (p # ps) u = fill_params cv params ps (fill_param cv params p u)" for u
    by (simp add: fill_params_def)
  ultimately show ?case using Cons.IH [of ?\<tau>] Cons.prems(1) unfolding distinct.simps by metis
qed (simp add: fill_params_def)

lemma render_filled:
  assumes "\<And>p. p \<in> set (params_of segs) \<Longrightarrow> \<sigma> p = Some (map_option encodeUriSegment (g p))"
  shows "render \<sigma> segs = join_segs (fill_segs g segs) \<or> render \<sigma> segs = join_segs (fill_segs g segs) @ ''/''"
  using assms
proof (induction \<sigma> segs rule: render.induct)
  case (3 \<sigma> p r)
  then show ?case by (cases "g p"; cases "r = []") (auto simp: join_segs_Cons)
qed (auto simp: join_segs_Cons)

lemma strip_slash: "strip_slashes (s @ ''/'') = strip_slashes s"
  by (simp add: strip_slashes_def)

lemma unescape_none: "CHR 0x5C \<notin> set s \<Longrightarrow> unescape_dot s = s \<and> unescape_colons s = s"
proof (induction s)
  case (Cons c s)
  have "take 2 s \<noteq> [CHR 0x5C, CHR ''.'']" using Cons.prems by (cases s) auto
  then show ?case using Cons by auto
qed simp

lemma set_join_dot: "set (join_dot s) \<subseteq> set s"
  by (induction s) auto

lemma set_strip: "set (strip_slashes s) \<subseteq> set s"
  unfolding strip_slashes_def by (metis set_dropWhileD set_rev subsetI)

lemma strip_not_Nil: "\<exists>c \<in> set s. c \<noteq> CHR ''/'' \<Longrightarrow> strip_slashes s \<noteq> []"
  by (auto simp: strip_slashes_def dropWhile_eq_Nil_conv)

lemma render_no_backslash:
  assumes "list_all plain_piece segs"
    and "\<And>p v. \<sigma> p = Some (Some v) \<Longrightarrow> CHR 0x5C \<notin> set v"
  shows "CHR 0x5C \<notin> set (render \<sigma> segs)"
  using assms
proof (induction \<sigma> segs rule: render.induct)
  case (3 \<sigma> p r)
  have "CHR 0x5C \<notin> set p" using 3(4) by (auto simp: plain_piece_def param_name_def word_def list_all_iff)
  then show ?case using 3 by (auto split: option.split)
qed (auto simp: plain_piece_def)

theorem setUrlParams_fills:
  assumes "plain_base b" and "list_all plain_piece segs" and "distinct (params_of segs)"
    and "''hasOwnProperty'' \<notin> set (split_words (b @ render (\<lambda>_. None) segs))"
    and "\<forall>p \<in> set (params_of segs). plain_value (getf params p)"
  shows "setUrlParams cv (b @ render (\<lambda>_. None) segs) params
    = Inr (join_dot (strip_slashes (b @ join_segs (fill_segs (\<lambda>p. text_of (getf params p)) segs))),
           filter (\<lambda>(k, v). k \<notin> set (params_of segs)) params)"
proof -
  let ?t = "b @ render (\<lambda>_. None) segs"
  note ps = template_params [OF assms(1,2)]
  have "CHR 0x5C \<notin> set ?t" using assms(1) render_no_backslash [OF assms(2), of "\<lambda>_. None"] by (simp add: plain_base_def)
  then have "unescape_colons ?t = ?t" using unescape_none by blast
  let ?\<sigma> = "\<lambda>q. if q \<in> set (url_params ?t) then Some (filled params q) else None"
  have "fill_params cv params (url_params ?t) ?t = b @ render ?\<sigma> segs"
    using assms(5) plain_params [OF assms(2)] ps
    by (intro fill_params_render [OF assms(1-3)]) (auto simp: no_colons_def)
  moreover have "tidy_url (b @ render ?\<sigma> segs)
      = join_dot (strip_slashes (b @ join_segs (fill_segs (\<lambda>p. text_of (getf params p)) segs)))"
  proof -
    let ?u = "b @ render ?\<sigma> segs"
    have "CHR 0x5C \<notin> set (render ?\<sigma> segs)"
      using encoded_chars by (intro render_no_backslash [OF assms(2)]) (auto simp: filled_def split: if_splits)
    then have "CHR 0x5C \<notin> set (join_dot (strip_slashes ?u))"
      using assms(1) set_join_dot [of "strip_slashes ?u"] set_strip [of ?u] by (auto simp: plain_base_def)
    then have "unescape_dot (join_dot (strip_slashes ?u)) = join_dot (strip_slashes ?u)" using unescape_none by blast
    moreover have "strip_slashes ?u \<noteq> []" using assms(1) by (intro strip_not_Nil) (auto simp: plain_base_def)
    moreover have "strip_slashes ?u = strip_slashes (b @ join_segs (fill_segs (\<lambda>p. text_of (getf params p)) segs))"
      using render_filled [of segs ?\<sigma> "\<lambda>p. text_of (getf params p)"] ps(1)
        strip_slash [of "b @ join_segs (fill_segs (\<lambda>p. text_of (getf params p)) segs)"]
      by (auto simp: filled_def)
    ultimately show ?thesis by (simp add: tidy_url_def Let_def)
  qed
  ultimately show ?thesis
    using assms(4) \<open>unescape_colons ?t = ?t\<close> ps(1) by (simp add: setUrlParams_def Let_def)
qed

section \<open>The resource objects of the console\<close>

text \<open>What the comparison needs of a resource object: checked by evaluating the table.\<close>

definition default_ok :: "string \<Rightarrow> bool" where
  "default_ok v = (case v of [] \<Rightarrow> True
     | c # f \<Rightarrow> c \<noteq> CHR ''@'' \<and> CHR '':'' \<notin> set v \<or> c = CHR ''@'' \<and> isValidDottedPath f \<and> CHR ''.'' \<notin> set f)"

definition plain_resource :: "resource \<Rightarrow> bool" where
  "plain_resource r \<longleftrightarrow>
     (let segs = segs_of (rs_url r)
      in segs \<noteq> [] \<and> rs_url r = render (\<lambda>_. None) segs \<and> list_all plain_piece segs
         \<and> distinct (params_of segs) \<and> ''hasOwnProperty'' \<notin> set (split_words (rs_url r))
         \<and> distinct (map fst (rs_defaults r)) \<and> list_all (\<lambda>(k, v). default_ok v) (rs_defaults r)
         \<and> list_all (\<lambda>(n, a). distinct (map fst (ac_params a)) \<and> list_all (\<lambda>(k, v). default_ok v \<and> take 1 v \<noteq> ''@'') (ac_params a))
             (rs_actions r))"

text \<open>The same with the names looked up in a list, which is quick to evaluate.\<close>

definition known_names :: "string list" where
  "known_names = [''realm'', ''id'', ''userId'', ''application'', ''oauth'', ''user'', ''instance'', ''provider'',
     ''targetApp'', ''role'', ''session'']"

lemma known_names_ok: "list_all (\<lambda>p. param_name p \<and> isValidDottedPath p \<and> CHR ''.'' \<notin> set p) known_names"
  by code_simp

definition known_default :: "string \<Rightarrow> bool" where
  "known_default v \<longleftrightarrow> v = [] \<or> take 1 v = ''@'' \<and> tl v \<in> set known_names"

definition known_resource :: "resource \<Rightarrow> bool" where
  "known_resource r \<longleftrightarrow>
     (let segs = segs_of (rs_url r)
      in segs \<noteq> [] \<and> rs_url r = render (\<lambda>_. None) segs
         \<and> list_all (\<lambda>s. case s of Lit t \<Rightarrow> CHR '':'' \<notin> set t \<and> CHR 0x5C \<notin> set t \<and> CHR ''O'' \<notin> set t
              | Par p \<Rightarrow> p \<in> set known_names) segs
         \<and> distinct (params_of segs)
         \<and> distinct (map fst (rs_defaults r)) \<and> list_all (\<lambda>(k, v). known_default v) (rs_defaults r)
         \<and> list_all (\<lambda>(n, a). distinct (map fst (ac_params a)) \<and> list_all (\<lambda>(k, v). v = []) (ac_params a))
             (rs_actions r))"

lemma known_resources: "list_all (\<lambda>(n, r). known_resource r) resources"
  by code_simp

lemma word_subset: "w \<in> set (split_words s) \<Longrightarrow> set w \<subseteq> set s"
proof (induction s arbitrary: w)
  case (Cons c s)
  then show ?case by (cases "split_words s") (auto split: if_splits, fastforce+)
qed simp

lemma known_plain: "known_resource r \<Longrightarrow> plain_resource r"
proof -
  assume k: "known_resource r"
  let ?segs = "segs_of (rs_url r)"
  have name: "param_name p" "isValidDottedPath p" "CHR ''.'' \<notin> set p" if "p \<in> set known_names" for p
    using known_names_ok that by (auto simp: list_all_iff)
  have "list_all (\<lambda>s. case s of Lit t \<Rightarrow> CHR '':'' \<notin> set t \<and> CHR 0x5C \<notin> set t \<and> CHR ''O'' \<notin> set t
              | Par p \<Rightarrow> p \<in> set known_names) ?segs"
    using k unfolding known_resource_def Let_def by blast
  then have known: "case s of Lit t \<Rightarrow> CHR '':'' \<notin> set t \<and> CHR 0x5C \<notin> set t \<and> CHR ''O'' \<notin> set t
              | Par p \<Rightarrow> p \<in> set known_names" if "s \<in> set ?segs" for s
    using that by (simp add: list_all_iff)
  have pieces: "list_all plain_piece ?segs"
    unfolding list_all_iff
  proof
    fix s assume "s \<in> set ?segs"
    from known [OF this] show "plain_piece s" using name(1) by (simp add: plain_piece_def split: seg.splits)
  qed
  have "CHR ''O'' \<notin> set (render (\<lambda>_. None) segs)"
    if "\<forall>s \<in> set segs. case s of Lit t \<Rightarrow> CHR ''O'' \<notin> set t | Par p \<Rightarrow> CHR ''O'' \<notin> set p" for segs
    using that by (induction segs) (auto split: seg.splits)
  moreover have "CHR ''O'' \<notin> set p" if "p \<in> set known_names" for p
    using that by (auto simp: known_names_def)
  then have "case s of Lit t \<Rightarrow> CHR ''O'' \<notin> set t | Par p \<Rightarrow> CHR ''O'' \<notin> set p" if "s \<in> set ?segs" for s
    using known [OF that] by (cases s) simp_all
  ultimately have "CHR ''O'' \<notin> set (render (\<lambda>_. None) ?segs)" by blast
  moreover have url: "rs_url r = render (\<lambda>_. None) ?segs" using k unfolding known_resource_def Let_def by blast
  ultimately have "CHR ''O'' \<notin> set (rs_url r)" by metis
  then have words: "''hasOwnProperty'' \<notin> set (split_words (rs_url r))" using word_subset by fastforce
  have def_ok: "default_ok v" if "known_default v" for v
    using that name by (cases v) (auto simp: known_default_def default_ok_def)
  have parts: "?segs \<noteq> []" "distinct (params_of ?segs)" "distinct (map fst (rs_defaults r))"
      "list_all (\<lambda>(k, v). known_default v) (rs_defaults r)"
      "list_all (\<lambda>(n, a). distinct (map fst (ac_params a)) \<and> list_all (\<lambda>(k, v). v = []) (ac_params a)) (rs_actions r)"
    using k unfolding known_resource_def Let_def by blast+
  have "list_all (\<lambda>(k, v). default_ok v) (rs_defaults r)"
    using parts(4) def_ok by (auto simp: list_all_iff)
  moreover have "list_all (\<lambda>(n, a). distinct (map fst (ac_params a))
      \<and> list_all (\<lambda>(k, v). default_ok v \<and> take 1 v \<noteq> ''@'') (ac_params a)) (rs_actions r)"
    using parts(5) by (fastforce simp: list_all_iff default_ok_def)
  ultimately show ?thesis
    unfolding plain_resource_def Let_def by (intro conjI parts pieces words url)
qed

lemma plain_action:
  assumes "plain_resource r" and "action_of r name = Some a"
  shows "distinct (map fst (ac_params a))" and "list_all (\<lambda>(k, v). default_ok v) (ac_params a)"
    and "\<forall>(k, v) \<in> set (ac_params a). take 1 v \<noteq> ''@''"
proof -
  have "(name, a) \<in> set (rs_actions r @ default_actions)"
    using assms(2) unfolding action_of_def by (rule map_of_SomeD)
  then show "distinct (map fst (ac_params a))" "list_all (\<lambda>(k, v). default_ok v) (ac_params a)"
      "\<forall>(k, v) \<in> set (ac_params a). take 1 v \<noteq> ''@''"
    using assms(1) by (auto simp: plain_resource_def Let_def default_actions_def list_all_iff)
qed

text \<open>The value of a default: a text, or the field of the data that it names.\<close>

definition default_value :: "jsval \<Rightarrow> string \<Rightarrow> jsval" where
  "default_value data v =
     (case v of [] \<Rightarrow> Str [] | c # f \<Rightarrow> if c = CHR ''@'' then lookup_keys data [f] else Str v)"

lemma extract_texts:
  "list_all (\<lambda>(k, v). default_ok v) ps \<Longrightarrow>
     extract_ids data (texts ps) = Inr (map (\<lambda>(k, v). (k, default_value data v)) ps)"
proof (induction ps)
  case (Cons x ps)
  obtain k v where x: "x = (k, v)" by (cases x)
  then show ?case using Cons
    by (cases v) (auto simp: texts_def default_ok_def default_value_def lookupDottedPath_def js_split_no_sep)
qed (simp add: texts_def)

lemma fold_lookup:
  assumes "\<And>k v d j. f k v d j = (if j = k then g v else d j)" and "distinct (map fst xs)"
  shows "fold (\<lambda>(k, v) d. f k v d) xs d j = (case map_of xs j of None \<Rightarrow> d j | Some v \<Rightarrow> g v)"
  using assms(2)
proof (induction xs arbitrary: d)
  case (Cons x xs)
  obtain k v where x: "x = (k, v)" by (cases x)
  show ?case
  proof (cases "j = k")
    case True
    then have "map_of xs j = None" using Cons.prems x by (simp add: map_of_eq_None_iff)
    then show ?thesis using Cons x True assms(1) by simp
  qed (use Cons x assms(1) in simp)
qed simp

lemma getf_ng_extend:
  assumes "distinct (map fst xs)"
  shows "getf (ng_extend d xs) k = (case map_of xs k of None \<Rightarrow> getf d k | Some v \<Rightarrow> v)"
proof -
  have "getf (fold (\<lambda>(k, v) d. setf k v d) xs d) = fold (\<lambda>(k, v) d j. if j = k then v else d j) xs (getf d)"
  proof (induction xs arbitrary: d)
    case (Cons x xs)
    obtain k v where "x = (k, v)" by (cases x)
    moreover have "getf (setf k v d) = (\<lambda>j. if j = k then v else getf d j)" by auto
    ultimately show ?case using Cons [of "setf k v d"] by simp
  qed simp
  then show ?thesis
    using fold_lookup [of "\<lambda>k v d j. if j = k then v else d j" "\<lambda>v. v", OF _ assms] by (simp add: ng_extend_def)
qed

lemma getf_copy: "distinct (map fst xs) \<Longrightarrow> getf (ng_extend [] xs) k = getf xs k"
  by (simp add: getf_ng_extend) (simp add: getf_def split: option.split)

lemma distinct_ng_extend: "distinct (map fst d) \<Longrightarrow> distinct (map fst (ng_extend d xs))"
  by (induction xs arbitrary: d) (auto simp: ng_extend_def distinct_setf)

definition merge :: "(string \<times> string) list \<Rightarrow> (string \<times> string) list \<Rightarrow> (string \<times> string) list" where
  "merge ds xs = fold (\<lambda>(k, v) d. AList.update k v d) xs ds"

lemma extend_texts: "ng_extend (texts ds) (texts xs) = texts (merge ds xs)"
proof (induction xs arbitrary: ds)
  case (Cons x xs)
  obtain k v where x: "x = (k, v)" by (cases x)
  have "setf k (Str v) (texts ds) = texts (AList.update k v ds)"
    by (induction ds) (auto simp: texts_def setf_def)
  then show ?case using Cons [of "AList.update k v ds"] x by (simp add: ng_extend_def texts_def merge_def)
qed (simp add: ng_extend_def texts_def merge_def)

lemma map_of_merge:
  assumes "distinct (map fst xs)"
  shows "map_of (merge ds xs) k = map_of (xs @ ds) k"
proof -
  have "map_of (fold (\<lambda>(k, v) d. AList.update k v d) xs ds)
      = fold (\<lambda>(k, v) d j. if j = k then Some v else d j) xs (map_of ds)"
    by (induction xs arbitrary: ds) (auto simp: update_conv' fun_upd_def intro: arg_cong)
  then show ?thesis
    using fold_lookup [of "\<lambda>k v d j. if j = k then Some v else d j" Some, OF _ assms, of "map_of ds" k]
    by (auto simp: merge_def map_add_def split: option.split)
qed

lemma merge_all: "list_all P ds \<Longrightarrow> list_all P xs \<Longrightarrow> list_all P (merge ds xs)"
proof (induction xs arbitrary: ds)
  case (Cons x xs)
  obtain k v where x: "x = (k, v)" by (cases x)
  have "list_all P (AList.update k v ds)" if "P (k, v)" using Cons.prems(1) that by (induction ds) auto
  then show ?case using Cons x by (simp add: merge_def)
qed (simp add: merge_def)

lemma distinct_merge: "distinct (map fst ds) \<Longrightarrow> distinct (map fst (merge ds xs))"
  by (induction xs arbitrary: ds) (auto simp: merge_def distinct_update)

text \<open>The parameters that come from the defaults of a resource object and of its action.\<close>

lemma extractParams_fields:
  assumes "plain_resource r" and "action_of r name = Some a"
  shows "\<exists>ids. extractParams r a data = Inr ids \<and> distinct (map fst ids)
    \<and> (\<forall>k. getf ids k = (case map_of (ac_params a @ rs_defaults r) k of None \<Rightarrow> Undefined | Some v \<Rightarrow> default_value data v))"
proof -
  note act = plain_action [OF assms]
  have ds: "distinct (map fst (rs_defaults r))" "list_all (\<lambda>(k, v). default_ok v) (rs_defaults r)"
    using assms(1) by (simp_all add: plain_resource_def Let_def)
  let ?m = "merge (merge [] (rs_defaults r)) (ac_params a)"
  let ?ids = "map (\<lambda>(k, v). (k, default_value data v)) ?m"
  have "ng_extend (ng_extend [] (texts (rs_defaults r))) (texts (ac_params a)) = texts ?m"
    by (metis extend_texts texts_def list.simps(8))
  moreover have "list_all (\<lambda>(k, v). default_ok v) ?m" using act(2) ds(2) by (intro merge_all) simp_all
  ultimately have "extractParams r a data = Inr ?ids" by (simp add: extractParams_def extract_texts)
  moreover have "map fst ?ids = map fst ?m" by (simp add: case_prod_beta comp_def)
  then have "distinct (map fst ?ids)" unfolding \<open>map fst ?ids = map fst ?m\<close> by (simp add: distinct_merge)
  moreover have "map_of ?m k = map_of (ac_params a @ rs_defaults r) k" for k
    using map_of_merge [OF act(1)] map_of_merge [OF ds(1), of "[]"] by (simp add: map_add_def split: option.split)
  then have "getf ?ids k = (case map_of (ac_params a @ rs_defaults r) k of None \<Rightarrow> Undefined | Some v \<Rightarrow> default_value data v)" for k
    by (simp only: getf_def map_of_map) (simp del: map_of_append split: option.split)
  ultimately show ?thesis by blast
qed

text \<open>A call as \<open>Admin_Rest\<close> sees it: the parameters it gives, and those that its data has fields for.\<close>

definition call_fields :: "(string \<times> string option) list \<Rightarrow> fields" where
  "call_fields call = map (\<lambda>(k, v). (k, case v of None \<Rightarrow> Undefined | Some s \<Rightarrow> Str s)) call"

definition body_text :: "jsval \<Rightarrow> string \<Rightarrow> string option" where
  "body_text data f = text_of (lookup_keys data [f])"

lemma map_of_call_fields:
  "map_of (call_fields call) k = map_option (\<lambda>v. case v of None \<Rightarrow> Undefined | Some s \<Rightarrow> Str s) (map_of call k)"
  by (induction call) (auto simp: call_fields_def)

lemma call_value_text:
  assumes "distinct (map fst call)" and "distinct (map fst ids)"
    and "\<And>k. getf ids k = (case map_of (ac_params a @ rs_defaults r) k of None \<Rightarrow> Undefined | Some v \<Rightarrow> default_value data v)"
  shows "text_of (getf (ng_extend (ng_extend [] ids) (call_fields call)) k) = call_param r a call (body_text data) k"
proof -
  have d: "distinct (map fst (call_fields call))" using assms(1) by (simp add: call_fields_def comp_def case_prod_beta)
  have "getf (ng_extend (ng_extend [] ids) (call_fields call)) k
      = (case map_of (call_fields call) k of None \<Rightarrow> getf ids k | Some v \<Rightarrow> v)"
    by (simp add: getf_ng_extend [OF d] getf_copy [OF assms(2)] split: option.split)
  moreover have "text_of (default_value data v) = resolve_default (body_text data) v" for v
    by (simp add: default_value_def resolve_default_def body_text_def split: list.split)
  ultimately show ?thesis
    using assms(3) [of k] by (simp add: call_param_def map_of_call_fields del: map_of_append split: option.split)
qed

definition plain_call :: "resource \<Rightarrow> (string \<times> string option) list \<Rightarrow> jsval \<Rightarrow> bool" where
  "plain_call r call data \<longleftrightarrow> distinct (map fst call)
     \<and> (\<forall>(k, v) \<in> set call. case v of None \<Rightarrow> True | Some s \<Rightarrow> CHR '':'' \<notin> set s)
     \<and> (\<forall>(k, v) \<in> set (rs_defaults r). take 1 v = ''@'' \<longrightarrow> plain_value (lookup_keys data [tl v]))"

lemma call_value_plain:
  assumes "plain_call r call data" and "plain_resource r" and "action_of r name = Some a"
    and "\<And>k. getf ids k = (case map_of (ac_params a @ rs_defaults r) k of None \<Rightarrow> Undefined | Some v \<Rightarrow> default_value data v)"
    and "distinct (map fst ids)"
  shows "plain_value (getf (ng_extend (ng_extend [] ids) (call_fields call)) k)"
proof -
  have call: "distinct (map fst call)" "\<And>v. map_of call k = Some (Some v) \<Longrightarrow> CHR '':'' \<notin> set v"
    using assms(1) by (auto simp: plain_call_def dest!: map_of_SomeD)
  have d: "distinct (map fst (call_fields call))" using call(1) by (simp add: call_fields_def comp_def case_prod_beta)
  have eq: "getf (ng_extend (ng_extend [] ids) (call_fields call)) k
      = (case map_of (call_fields call) k of None \<Rightarrow> getf ids k | Some v \<Rightarrow> v)"
    by (simp add: getf_ng_extend [OF d] getf_copy [OF assms(5)] split: option.split)
  have def_plain: "plain_value (default_value data v)" if v: "map_of (ac_params a @ rs_defaults r) k = Some v" for v
  proof -
    have ok: "default_ok v"
      using v plain_action(2) [OF assms(2,3)] assms(2)
      by (auto simp: plain_resource_def Let_def list_all_iff map_add_Some_iff dest!: map_of_SomeD)
    show ?thesis
    proof (cases "take 1 v = ''@''")
      case True
      then obtain f where f: "v = CHR ''@'' # f" by (cases v) auto
      moreover have "(k, v) \<notin> set (ac_params a)" using plain_action(3) [OF assms(2,3)] True by auto
      ultimately have "(k, v) \<in> set (rs_defaults r)" using v by (auto simp: map_add_Some_iff dest!: map_of_SomeD)
      then show ?thesis using assms(1) f by (auto simp: plain_call_def default_value_def)
    next
      case False
      then show ?thesis using ok by (cases v) (auto simp: default_ok_def default_value_def plain_value_def)
    qed
  qed
  show ?thesis
    unfolding eq map_of_call_fields using call(2) assms(4) [of k] def_plain
    by (auto simp: plain_value_def split: option.split)
qed

lemma map_of_query:
  assumes "\<And>k. k \<notin> set keys \<Longrightarrow> ps k = None"
  shows "map_of [(k, v). k \<leftarrow> remdups keys, k \<notin> set names, v \<leftarrow> (case ps k of None \<Rightarrow> [] | Some v \<Rightarrow> [v])] k
    = (if k \<in> set names then None else ps k)"
proof -
  have "map_of [(k, v). k \<leftarrow> ks, k \<notin> set names, v \<leftarrow> (case ps k of None \<Rightarrow> [] | Some v \<Rightarrow> [v])] k
      = (if k \<in> set ks \<and> k \<notin> set names then ps k else None)" for ks
    by (induction ks) (auto split: option.split)
  then show ?thesis using assms by auto
qed

lemma call_param_none:
  "k \<notin> set (map fst call @ map fst (ac_params a) @ map fst (rs_defaults r)) \<Longrightarrow> call_param r a call body k = None"
proof -
  assume "k \<notin> set (map fst call @ map fst (ac_params a) @ map fst (rs_defaults r))"
  then have "map_of call k = None" "map_of (ac_params a) k = None" "map_of (rs_defaults r) k = None"
    by (simp_all add: map_of_eq_None_iff)
  then show ?thesis by (simp add: call_param_def map_add_def)
qed

lemma rest_call_query:
  "map_of (rq_query (rest_call auth console r a call body)) k
    = (if k \<in> set (params_of (segs_of (rs_url r))) then None else call_param r a call body k)"
proof -
  let ?keys = "map fst call @ map fst (ac_params a) @ map fst (rs_defaults r)"
  have "rq_query (rest_call auth console r a call body)
      = [(k, v). k \<leftarrow> remdups ?keys, k \<notin> set (params_of (segs_of (rs_url r))),
                 v \<leftarrow> (case call_param r a call body k of None \<Rightarrow> [] | Some v \<Rightarrow> [v])]"
    by (simp add: rest_call_def Let_def params_of_def)
  then show ?thesis using map_of_query [of ?keys "call_param r a call body" "params_of (segs_of (rs_url r))" k]
      call_param_none [of _ call a r body] by presburger
qed

lemma getf_filter: "getf (filter (\<lambda>(k, v). P k) xs) k = (if P k then getf xs k else Undefined)"
  by (induction xs) auto

lemma resource_name: "map_of resources service = Some r \<Longrightarrow> plain_resource r"
  using known_resources known_plain by (fastforce simp: list_all_iff dest!: map_of_SomeD)

text \<open>C10. For every resource object of the console and every action of it, the library sends the
  request that the description in \<open>Admin_Rest\<close> gives: the same method and url, and the same query
  parameters, for all values without a colon.\<close>

theorem resource_request_equiv:
  assumes "map_of resources service = Some r" and "action_of r name = Some a"
    and "plain_base (base_of auth console r)" and "plain_call r call data"
  shows "\<exists>cfg. http_config_of cv (base_of auth console r) r a (call_fields call) data = Inr cfg
    \<and> (let rq = rest_call auth console r a call (body_text data)
       in hc_method cfg = rq_method rq \<and> hc_url cfg = rq_url rq
          \<and> (\<forall>k. text_of (getf (hc_params cfg) k) = map_of (rq_query rq) k))"
proof -
  have r: "plain_resource r" by (rule resource_name [OF assms(1)])
  let ?segs = "segs_of (rs_url r)" and ?b = "base_of auth console r"
  have segs: "rs_url r = render (\<lambda>_. None) ?segs" "list_all plain_piece ?segs" "distinct (params_of ?segs)"
      "''hasOwnProperty'' \<notin> set (split_words (rs_url r))"
    using r by (simp_all add: plain_resource_def Let_def)
  obtain ids where ids: "extractParams r a data = Inr ids" "distinct (map fst ids)"
      "\<And>k. getf ids k = (case map_of (ac_params a @ rs_defaults r) k of None \<Rightarrow> Undefined | Some v \<Rightarrow> default_value data v)"
    using extractParams_fields [OF r assms(2)] by blast
  let ?params = "ng_extend (ng_extend [] ids) (call_fields call)"
  let ?ps = "call_param r a call (body_text data)"
  have valeq: "text_of (getf ?params k) = ?ps k" for k
    using call_value_text [OF _ ids(2,3)] assms(4) by (simp add: plain_call_def)
  have plain: "plain_value (getf ?params k)" for k
    by (rule call_value_plain [OF assms(4) r assms(2) ids(3,2)])
  have words: "''hasOwnProperty'' \<notin> set (split_words (?b @ render (\<lambda>_. None) ?segs))"
  proof -
    have "set (split_words (?b @ render (\<lambda>_. None) ?segs)) \<subseteq> set (split_words ?b) \<union> set (split_words (rs_url r))"
      using render_start [of "\<lambda>_. None" ?segs] segs(1) by (auto simp: split_words_append)
    then show ?thesis using assms(3) segs(4) by (auto simp: plain_base_def)
  qed
  have "setUrlParams cv (?b @ rs_url r) ?params
      = Inr (join_dot (strip_slashes (?b @ join_segs (fill_segs ?ps ?segs))),
             filter (\<lambda>(k, v). k \<notin> set (params_of ?segs)) ?params)"
    using setUrlParams_fills [OF assms(3) segs(2,3) words, of ?params cv] plain valeq segs(1) by simp
  moreover have "text_of (getf (filter (\<lambda>(k, v). k \<notin> set (params_of ?segs)) ?params) k)
      = map_of (rq_query (rest_call auth console r a call (body_text data))) k" for k
    unfolding getf_filter
    by (simp add: rest_call_query valeq)
  ultimately show ?thesis
    using ids(1) by (simp add: http_config_of_def rest_call_def Let_def)
qed

section \<open>On concrete calls\<close>

definition user_resource :: resource where
  "user_resource = \<lparr>rs_base = AuthUrl, rs_url = ''/admin/realms/:realm/users/:userId'',
     rs_defaults = [(''realm'', ''@realm''), (''userId'', ''@userId'')],
     rs_actions = [(''update'', \<lparr>ac_method = PUT, ac_params = [], ac_isArray = False\<rparr>)]\<rparr>"

definition user_get :: action where
  "user_get = \<lparr>ac_method = GET, ac_params = [], ac_isArray = False\<rparr>"

definition user_call :: "(string \<times> string option) list" where
  "user_call = [(''realm'', Some ''demo''), (''userId'', Some ''bob smith''), (''tab'', Some ''2'')]"

abbreviation auth_url :: string where
  "auth_url \<equiv> ''http://host:8080/auth''"

lemma user_call_facts:
  "map_of resources ''User'' = Some user_resource" "action_of user_resource ''get'' = Some user_get"
  "base_of auth_url [] user_resource = auth_url" "plain_base auth_url"
  by code_simp+

lemma user_call_plain: "plain_call user_resource user_call Undefined"
  by (simp add: plain_call_def user_call_def user_resource_def plain_value_def)

lemma user_call_request:
  "rq_url (rest_call auth_url [] user_resource user_get user_call (body_text Undefined))
     = ''http://host:8080/auth/admin/realms/demo/users/bob%20smith''"
  "rq_query (rest_call auth_url [] user_resource user_get user_call (body_text Undefined)) = [(''tab'', ''2'')]"
  by code_simp+

theorem resource_request_equiv_witness:
  "\<forall>cv. \<exists>cfg. http_config_of cv auth_url user_resource user_get (call_fields user_call) Undefined = Inr cfg
    \<and> hc_url cfg = ''http://host:8080/auth/admin/realms/demo/users/bob%20smith''
    \<and> text_of (getf (hc_params cfg) ''tab'') = Some ''2''"
proof
  fix cv
  show "\<exists>cfg. http_config_of cv auth_url user_resource user_get (call_fields user_call) Undefined = Inr cfg
    \<and> hc_url cfg = ''http://host:8080/auth/admin/realms/demo/users/bob%20smith''
    \<and> text_of (getf (hc_params cfg) ''tab'') = Some ''2''"
    using resource_request_equiv [OF user_call_facts(1,2) _ user_call_plain, of auth_url "[]" cv]
    unfolding user_call_facts(3) Let_def user_call_request using user_call_facts(4) by force
qed

text \<open>A value that looks like a placeholder is taken for one when the later parameters are filled in.\<close>

lemma value_as_placeholder:
  "setUrlParams cv ''/admin/realms/:realm/applications/:application''
      [(''realm'', Str '':application''), (''application'', Str ''shop'')]
   = Inr (''/admin/realms/shop/applications/shop'', [])"
  by code_simp

end
