(* ===== verification/Ng_Route.thy ===== *)
theory Ng_Route
  imports Ng_Rest Admin_Nav
begin

text \<open>
  The library behind the navigation, as the repository keeps it: \<open>$route\<close> of \<open>angular-route.js\<close>.
  \<open>when\<close> turns a path into a regular expression, \<open>parseRoute\<close> takes the first route whose expression
  matches, and a route for the other form of a trailing slash redirects to it.  For the route table of the
  console this is \<open>find_route\<close> of \<open>Admin_Routes\<close>.
\<close>

section \<open>Regular expressions of paths\<close>

text \<open>
  The expressions that \<open>pathRegExp\<close> builds: a character, the groups \<open>([^/]+)\<close> and \<open>(.+?)\<close>, and a part that
  may be absent.  A match is what the groups captured and what is left of the string; the matches of a part are
  listed in the order in which the engine tries them.
\<close>

datatype rx = Chr char | Capture bool | Opt "rx list"

fun rx_groups :: "rx \<Rightarrow> nat" where
  "rx_groups (Chr c) = 0"
| "rx_groups (Capture star) = 1"
| "rx_groups (Opt rs) = sum_list (map rx_groups rs)"

definition newline :: "char \<Rightarrow> bool" where
  "newline c \<longleftrightarrow> byte c \<in> {10, 13}"

definition cuts :: "nat list \<Rightarrow> string \<Rightarrow> (string option list \<times> string) list" where
  "cuts ks s = map (\<lambda>k. ([Some (take k s)], drop k s)) ks"

fun match_rx :: "rx \<Rightarrow> string \<Rightarrow> (string option list \<times> string) list"
  and match_rxs :: "rx list \<Rightarrow> string \<Rightarrow> (string option list \<times> string) list" where
  "match_rx (Chr c) s = (case s of [] \<Rightarrow> [] | d # r \<Rightarrow> if d = c then [([], r)] else [])"
| "match_rx (Capture star) s =
     (if star then cuts [1..<Suc (length (takeWhile (\<lambda>c. \<not> newline c) s))] s
      else cuts (rev [1..<Suc (length (takeWhile (\<lambda>c. c \<noteq> CHR ''/'') s))]) s)"
| "match_rx (Opt rs) s =
     filter (\<lambda>(caps, t). t \<noteq> s) (match_rxs rs s) @ [(replicate (sum_list (map rx_groups rs)) None, s)]"
| "match_rxs [] s = [([], s)]"
| "match_rxs (r # rs) s =
     concat (map (\<lambda>(caps, t). map (\<lambda>(caps', t'). (caps @ caps', t')) (match_rxs rs t)) (match_rx r s))"

text \<open>\<open>exec\<close> with the expression between \<open>^\<close> and \<open>$\<close>: the groups of the first match of the whole string.\<close>

definition full_matches :: "rx list \<Rightarrow> string \<Rightarrow> string option list list" where
  "full_matches pat s = map fst (filter (\<lambda>(caps, t). t = []) (match_rxs pat s))"

definition rx_exec :: "rx list \<Rightarrow> string \<Rightarrow> string option list option" where
  "rx_exec pat s = (case full_matches pat s of [] \<Rightarrow> None | caps # others \<Rightarrow> Some caps)"

section \<open>Routes\<close>

text \<open>
  A placeholder at the beginning of \<open>s\<close>: whether it has a slash before it, its name, the option after it and
  the rest.
\<close>

definition placeholder :: "string \<Rightarrow> (bool \<times> string \<times> char option \<times> string) option" where
  "placeholder s =
     (let slash = take 1 s = ''/''; t = (if slash then drop 1 s else s);
          key = takeWhile word_char (drop 1 t); r = dropWhile word_char (drop 1 t)
      in if take 1 t = '':'' \<and> key \<noteq> [] then
           (if take 1 r \<in> {''?'', ''*''} then Some (slash, key, Some (hd r), tl r) else Some (slash, key, None, r))
         else None)"

definition placeholder_rx :: "bool \<Rightarrow> char option \<Rightarrow> rx list" where
  "placeholder_rx slash option =
     (let sl = (if slash then [Chr (CHR ''/'')] else []); group = Capture (option = Some (CHR ''*''))
      in if option = Some (CHR ''?'') then [Opt (sl @ [Opt [group]])] else sl @ [group])"

lemma placeholder_shorter: "placeholder s = Some (slash, key, opt, r) \<Longrightarrow> length r < length s"
  using length_dropWhile_le [of word_char "drop 1 (drop 1 s)"] length_dropWhile_le [of word_char "drop 1 s"]
  by (cases s) (auto simp: placeholder_def Let_def split: if_splits)

text \<open>
  \<open>pathRegExp\<close>, for paths in which the characters of regular expressions that it does not escape
  (\<open>+ ? [ ] { } ^ |\<close> and the backslash) do not occur: the expression, and the names with whether they are
  optional.
\<close>

function pathRegExp :: "string \<Rightarrow> rx list \<times> (string \<times> bool) list" where
  "pathRegExp [] = ([], [])"
| "pathRegExp (c # s) =
     (case placeholder (c # s) of
        Some (slash, key, opt, r) \<Rightarrow>
          (let (rs, keys) = pathRegExp r
           in (placeholder_rx slash opt @ rs, (key, opt = Some (CHR ''?'')) # keys))
      | None \<Rightarrow> (let (rs, keys) = pathRegExp s in (Chr c # rs, keys)))"
  by pat_completeness auto
termination by (relation "measure length") (auto dest: placeholder_shorter)

text \<open>What a route leads to, and the object \<open>routes\<close>: routes by path, in the order of their insertion.\<close>

datatype target = Page route | Redirect string | Otherwise

record ng_route =
  nr_originalPath :: "string option"
  nr_regexp :: "rx list option"
  nr_keys :: "(string \<times> bool) list"
  nr_target :: target
  nr_reloadOnSearch :: bool

type_synonym ng_routes = "(string \<times> ng_route) list"

definition route_with :: "string \<Rightarrow> target \<Rightarrow> bool \<Rightarrow> ng_route" where
  "route_with path t reload = \<lparr>nr_originalPath = Some path, nr_regexp = Some (fst (pathRegExp path)), nr_keys = snd (pathRegExp path),
     nr_target = t, nr_reloadOnSearch = reload\<rparr>"

definition plain_route :: "target \<Rightarrow> ng_route" where
  "plain_route t = \<lparr>nr_originalPath = None, nr_regexp = None, nr_keys = [], nr_target = t, nr_reloadOnSearch = True\<rparr>"

definition when_route :: "string \<Rightarrow> target \<Rightarrow> ng_routes \<Rightarrow> ng_routes" where
  "when_route path t rs =
     (if path = [] then AList.update path (plain_route t) rs
      else AList.update (redirect_path path) (route_with (redirect_path path) (Redirect path) False)
             (AList.update path (route_with path t True) rs))"

definition otherwise_route :: "target \<Rightarrow> ng_routes \<Rightarrow> ng_routes" where
  "otherwise_route t rs = AList.update ''null'' (plain_route t) rs"

definition console_routes :: ng_routes where
  "console_routes = otherwise_route Otherwise (fold (\<lambda>r. when_route (rt_path r) (Page r)) routes [])"

section \<open>Matching a path\<close>

fun match_params :: "(string \<times> bool) list \<Rightarrow> string option list \<Rightarrow> params \<Rightarrow> js_error + params" where
  "match_params keys [] ps = Inr ps"
| "match_params keys (m # ms) ps =
     (case (case m of None \<Rightarrow> Inr [] | Some s \<Rightarrow> decodeURIComponent s) of
        Inl e \<Rightarrow> Inl e
      | Inr val \<Rightarrow> match_params (tl keys) ms
          (case keys of [] \<Rightarrow> ps | key # others \<Rightarrow> if val = [] then ps else AList.update (fst key) val ps))"

definition switchRouteMatcher :: "string \<Rightarrow> ng_route \<Rightarrow> js_error + params option" where
  "switchRouteMatcher on r =
     (case nr_regexp r of
        None \<Rightarrow> Inr None
      | Some pat \<Rightarrow>
          (case rx_exec pat on of
             None \<Rightarrow> Inr None
           | Some m \<Rightarrow> map_sum (\<lambda>e. e) Some (match_params (nr_keys r) m [])))"

fun first_route :: "ng_routes \<Rightarrow> string \<Rightarrow> js_error + (ng_route \<times> params) option" where
  "first_route [] on = Inr None"
| "first_route ((path, r) # rs) on =
     (case switchRouteMatcher on r of
        Inl e \<Rightarrow> Inl e
      | Inr None \<Rightarrow> first_route rs on
      | Inr (Some ps) \<Rightarrow> Inr (Some (r, ps)))"

text \<open>The route of a location, with its \<open>params\<close> and \<open>pathParams\<close>.\<close>

record next_route =
  nx_route :: ng_route
  nx_params :: params
  nx_pathParams :: params

definition merge_params :: "params \<Rightarrow> params \<Rightarrow> params" where
  "merge_params search ps = fold (\<lambda>(k, v) d. AList.update k v d) ps search"

definition parseRoute :: "ng_routes \<Rightarrow> string \<Rightarrow> params \<Rightarrow> js_error + next_route option" where
  "parseRoute rs path search =
     (case first_route rs path of
        Inl e \<Rightarrow> Inl e
      | Inr (Some (r, ps)) \<Rightarrow>
          Inr (Some \<lparr>nx_route = r, nx_params = merge_params search ps, nx_pathParams = ps\<rparr>)
      | Inr None \<Rightarrow>
          Inr (map_option (\<lambda>r. \<lparr>nx_route = r, nx_params = [], nx_pathParams = []\<rparr>) (map_of rs ''null'')))"

text \<open>
  \<open>interpolate\<close>: the path of a redirection; it deletes the parameters it puts there from \<open>params\<close>, and so
  leaves the others for the search.
\<close>

fun interpolate_segments :: "string list \<Rightarrow> params \<Rightarrow> (js_error + string) \<times> params" where
  "interpolate_segments [] ps = (Inr [], ps)"
| "interpolate_segments (segment # others) ps =
     (let s = dropWhile (\<lambda>c. \<not> word_char c) segment; key = takeWhile word_char s
      in if s = [] then (Inl TypeError, ps)
         else let (t, ps') = interpolate_segments others (AList.delete key ps)
              in (map_sum (\<lambda>e. e) (\<lambda>t. (case map_of ps key of None \<Rightarrow> [] | Some v \<Rightarrow> v)
                    @ takeWhile (\<lambda>c. \<not> newline c) (dropWhile word_char s) @ t) t, ps'))"

definition interpolate :: "string \<Rightarrow> params \<Rightarrow> (js_error + string) \<times> params" where
  "interpolate string ps =
     (case js_split (CHR '':'') string of
        [] \<Rightarrow> (Inr [], ps)
      | s # others \<Rightarrow>
          (case interpolate_segments others ps of (t, ps') \<Rightarrow> (map_sum (\<lambda>e. e) ((@) s) t, ps')))"

section \<open>Paths made of segments\<close>

lemma full_matches_Nil: "full_matches [] s = (if s = [] then [[]] else [])"
  by (simp add: full_matches_def)

lemma full_matches_Chr:
  "full_matches (Chr c # pat) s = (case s of [] \<Rightarrow> [] | d # r \<Rightarrow> if d = c then full_matches pat r else [])"
  by (cases s) (simp_all add: full_matches_def comp_def case_prod_beta)

lemma full_matches_Capture:
  "full_matches (Capture False # pat) s =
     concat (map (\<lambda>k. map (Cons (Some (take k s))) (full_matches pat (drop k s)))
       (rev [1..<Suc (length (takeWhile (\<lambda>c. c \<noteq> CHR ''/'') s))]))"
proof -
  have "map fst (filter (\<lambda>(caps, t). t = []) (concat (map (\<lambda>(caps, t). map (\<lambda>(caps', t'). (caps @ caps', t')) (f t)) (cuts ks s))))
      = concat (map (\<lambda>k. map (Cons (Some (take k s))) (map fst (filter (\<lambda>(caps, t). t = []) (f (drop k s))))) ks)"
    for f :: "string \<Rightarrow> (string option list \<times> string) list" and ks
    by (induction ks) (simp_all add: cuts_def filter_map comp_def case_prod_beta)
  then show ?thesis unfolding full_matches_def match_rxs.simps match_rx.simps if_False by blast
qed

definition slash_next :: "rx list \<Rightarrow> bool" where
  "slash_next pat \<longleftrightarrow> pat = [] \<or> hd pat = Chr (CHR ''/'')"

lemma slash_next_matches: "slash_next pat \<Longrightarrow> c \<noteq> CHR ''/'' \<Longrightarrow> full_matches pat (c # s) = []"
  by (cases pat) (auto simp: slash_next_def full_matches_Nil full_matches_Chr)

lemma full_matches_segment:
  assumes "slash_next pat"
  shows "full_matches (Capture False # pat) s =
    (let w = takeWhile (\<lambda>c. c \<noteq> CHR ''/'') s
     in if w = [] then [] else map (Cons (Some w)) (full_matches pat (drop (length w) s)))"
proof -
  let ?w = "takeWhile (\<lambda>c. c \<noteq> CHR ''/'') s"
  have short: "full_matches pat (drop k s) = []" if "k < length ?w" for k
  proof -
    have k: "k < length s" using that length_takeWhile_le [of "\<lambda>c. c \<noteq> CHR ''/''" s] by linarith
    have "s ! k = ?w ! k" using that by (simp add: takeWhile_nth)
    then have "s ! k \<noteq> CHR ''/''" using that nth_mem [OF that] set_takeWhileD by metis
    then show ?thesis using slash_next_matches [OF assms] k by (metis Cons_nth_drop_Suc)
  qed
  show ?thesis
  proof (cases "?w = []")
    case True
    then show ?thesis by (simp add: full_matches_Capture Let_def)
  next
    case False
    then have "[1..<Suc (length ?w)] = [1..<length ?w] @ [length ?w]" by (simp add: Suc_leI)
    moreover have "concat (map (\<lambda>k. map (Cons (Some (take k s))) (full_matches pat (drop k s))) (rev [1..<length ?w])) = []"
      using short by simp
    moreover have "take (length ?w) s = ?w" by (metis append_eq_conv_conj takeWhile_dropWhile_id)
    ultimately show ?thesis using False by (simp add: full_matches_Capture Let_def del: upt_Suc)
  qed
qed

text \<open>The expression of a list of segments.\<close>

definition seg_rx :: "seg list \<Rightarrow> rx list" where
  "seg_rx segs = concat (map (\<lambda>s. Chr (CHR ''/'') # (case s of Lit t \<Rightarrow> map Chr t | Par p \<Rightarrow> [Capture False])) segs)"

definition path_piece :: "seg \<Rightarrow> bool" where
  "path_piece s = (case s of Lit t \<Rightarrow> CHR '':'' \<notin> set t \<and> CHR ''/'' \<notin> set t | Par p \<Rightarrow> word p)"

lemma seg_rx_simps [simp]: "seg_rx [] = []"
  "seg_rx (Lit t # r) = Chr (CHR ''/'') # map Chr t @ seg_rx r"
  "seg_rx (Par p # r) = Chr (CHR ''/'') # Capture False # seg_rx r"
  by (simp_all add: seg_rx_def)

lemma slash_next_seg_rx: "slash_next (seg_rx segs)"
  by (cases segs) (auto simp: slash_next_def seg_rx_def)

lemma full_matches_text:
  "full_matches (map Chr t @ pat) s = (if take (length t) s = t then full_matches pat (drop (length t) s) else [])"
proof (induction t arbitrary: s)
  case (Cons c t)
  then show ?case by (cases s) (auto simp: full_matches_Chr)
qed simp

text \<open>What follows each slash of a string that is empty or starts with one.\<close>

definition pieces :: "string \<Rightarrow> string list option" where
  "pieces s = (case s of [] \<Rightarrow> Some [] | c # s' \<Rightarrow> if c = CHR ''/'' then Some (js_split (CHR ''/'') s') else None)"

lemma split_pieces:
  "\<exists>ws. js_split (CHR ''/'') s = takeWhile (\<lambda>c. c \<noteq> CHR ''/'') s # ws
     \<and> pieces (drop (length (takeWhile (\<lambda>c. c \<noteq> CHR ''/'') s)) s) = Some ws"
  by (induction s) (auto simp: pieces_def)

lemma full_matches_segs:
  "list_all path_piece segs \<Longrightarrow> full_matches (seg_rx segs) s =
     (case pieces s of None \<Rightarrow> []
      | Some ws \<Rightarrow> (case match_segs segs ws of None \<Rightarrow> [] | Some ps \<Rightarrow> [map (\<lambda>x. Some (snd x)) ps]))"
proof (induction segs arbitrary: s)
  case Nil
  have "match_segs [] (js_split (CHR ''/'') r) = None" for r
    by (cases "js_split (CHR ''/'') r") simp_all
  then show ?case by (cases s) (auto simp: full_matches_Nil pieces_def)
next
  case (Cons x segs)
  show ?case
  proof (cases "\<exists>s'. s = CHR ''/'' # s'")
    case False
    then have "full_matches (seg_rx (x # segs)) s = []"
      by (cases x; cases s) (auto simp: full_matches_Chr)
    moreover have "match_segs (x # segs) [] = None" by (cases x) simp_all
    ultimately show ?thesis using False by (cases s) (auto simp: pieces_def)
  next
    case True
    then obtain s' where s: "s = CHR ''/'' # s'" by blast
    let ?w = "takeWhile (\<lambda>c. c \<noteq> CHR ''/'') s'"
    obtain ws where ws: "js_split (CHR ''/'') s' = ?w # ws" "pieces (drop (length ?w) s') = Some ws"
      using split_pieces by blast
    have wtake: "take (length ?w) s' = ?w" by (metis append_eq_conv_conj takeWhile_dropWhile_id)
    show ?thesis
    proof (cases x)
      case (Par p)
      then show ?thesis
        using Cons s ws by (simp add: full_matches_Chr full_matches_segment [OF slash_next_seg_rx] Let_def pieces_def [of "CHR ''/'' # s'"] split: option.split)
    next
      case (Lit t)
      have t: "CHR ''/'' \<notin> set t" using Cons.prems Lit by (simp add: path_piece_def)
      show ?thesis
      proof (cases "?w = t")
        case True
        then show ?thesis using Cons Lit s ws wtake by (simp add: full_matches_Chr full_matches_text pieces_def [of "CHR ''/'' # s'"])
      next
        case False
        have "full_matches (seg_rx segs) (drop (length t) s') = []" if tk: "take (length t) s' = t"
        proof -
          define u where "u = drop (length t) s'"
          have u: "s' = t @ u" unfolding u_def using tk by (metis append_take_drop_id)
          have "takeWhile (\<lambda>c. c \<noteq> CHR ''/'') (t @ u) = t @ takeWhile (\<lambda>c. c \<noteq> CHR ''/'') u"
            using t by (intro takeWhile_append2) auto
          then have "?w = t @ takeWhile (\<lambda>c. c \<noteq> CHR ''/'') (drop (length t) s')" unfolding u by simp
          then have "takeWhile (\<lambda>c. c \<noteq> CHR ''/'') (drop (length t) s') \<noteq> []" using False by auto
          then show ?thesis using slash_next_matches [OF slash_next_seg_rx] by (cases "drop (length t) s'") (auto split: if_splits)
        qed
        then show ?thesis using Lit s ws False by (simp add: full_matches_Chr full_matches_text pieces_def)
      qed
    qed
  qed
qed

section \<open>The expression of a path of the table\<close>

lemma pathRegExp_plain: "placeholder (c # s) = None \<Longrightarrow>
    pathRegExp (c # s) = (Chr c # fst (pathRegExp s), snd (pathRegExp s))"
  by (simp add: case_prod_beta Let_def)

lemma placeholder_none: "c \<noteq> CHR '':'' \<Longrightarrow> c = CHR ''/'' \<longrightarrow> take 1 s \<noteq> '':'' \<Longrightarrow> placeholder (c # s) = None"
  by (auto simp: placeholder_def Let_def)

lemma pathRegExp_text:
  "CHR '':'' \<notin> set t \<Longrightarrow> CHR ''/'' \<notin> set t \<Longrightarrow>
     pathRegExp (t @ s) = (map Chr t @ fst (pathRegExp s), snd (pathRegExp s))"
proof (induction t)
  case (Cons c t)
  then have "placeholder (c # t @ s) = None" by (intro placeholder_none) auto
  then show ?case using Cons by (simp add: pathRegExp_plain del: pathRegExp.simps(2))
qed simp

lemma pathRegExp_render:
  "list_all path_piece segs \<Longrightarrow>
     pathRegExp (render (\<lambda>_. None) segs) = (seg_rx segs, map (\<lambda>p. (p, False)) (params_of segs))"
proof (induction segs)
  case (Cons x segs)
  let ?r = "render (\<lambda>_. None) segs"
  note start = render_start [of "\<lambda>_. None" segs]
  show ?case
  proof (cases x)
    case (Lit t)
    then have t: "CHR '':'' \<notin> set t" "CHR ''/'' \<notin> set t" using Cons.prems by (simp_all add: path_piece_def)
    have "take 1 (t @ ?r) \<noteq> '':''" using t start by (cases t) auto
    then have "placeholder (CHR ''/'' # t @ ?r) = None" by (intro placeholder_none) auto
    then show ?thesis using Lit Cons pathRegExp_text [OF t] by (simp add: pathRegExp_plain del: pathRegExp.simps(2))
  next
    case (Par p)
    then have p: "list_all word_char p" "p \<noteq> []" using Cons.prems by (auto simp: path_piece_def word_def)
    have "takeWhile word_char (p @ ?r) = p" "dropWhile word_char (p @ ?r) = ?r"
      using p(1) start takeWhile_word_chars [of p ?r] by (auto simp: list_all_iff dropWhile_append2)
    moreover have "take 1 ?r \<notin> {''?'', ''*''}" using start by auto
    ultimately have "placeholder (CHR ''/'' # CHR '':'' # p @ ?r) = Some (True, p, None, ?r)"
      using p(2) by (simp add: placeholder_def Let_def)
    then show ?thesis using Par Cons by (simp add: placeholder_rx_def Let_def)
  qed
qed simp

section \<open>The route table of the console\<close>

lemma update_new: "k \<notin> set (map fst ps) \<Longrightarrow> AList.update k v ps = ps @ [(k, v)]"
  by (induction ps) auto

lemma match_params_decode:
  "distinct (map fst acc @ map fst ps) \<Longrightarrow> \<forall>(p, w) \<in> set ps. w \<noteq> [] \<Longrightarrow>
     match_params (map (\<lambda>p. (p, False)) (map fst ps)) (map (\<lambda>x. Some (snd x)) ps) acc
       = (case decode_params ps of Inl e \<Rightarrow> Inl e | Inr ps' \<Rightarrow> Inr (acc @ ps'))"
proof (induction ps arbitrary: acc)
  case (Cons x ps)
  obtain p w where x: "x = (p, w)" by (cases x)
  show ?case
  proof (cases "decodeURIComponent w")
    case (Inl e)
    then show ?thesis using x by simp
  next
    case (Inr v)
    then have "v \<noteq> []" using Cons.prems(2) x pct_decode_Nil [of w]
      by (auto simp: decodeURIComponent_def split: option.splits if_splits)
    moreover have "AList.update p v acc = acc @ [(p, v)]" using Cons.prems(1) x by (intro update_new) auto
    ultimately show ?thesis
      using Cons.IH [of "acc @ [(p, v)]"] Cons.prems x Inr by (auto split: sum.split)
  qed
qed simp

definition path_ok :: "string \<Rightarrow> bool" where
  "path_ok p \<longleftrightarrow> (let segs = tl (path_segs p) in path_segs p = Lit [] # segs \<and> p = render (\<lambda>_. None) segs
     \<and> list_all path_piece segs \<and> distinct (params_of segs))"

lemma match_root:
  "match_segs (Lit [] # segs) (js_split (CHR ''/'') on) = (case pieces on of None \<Rightarrow> None | Some ws \<Rightarrow> match_segs segs ws)"
proof (cases on)
  case (Cons c s)
  then show ?thesis by (cases "js_split (CHR ''/'') s") (auto simp: pieces_def)
qed (simp add: pieces_def)

lemma switch_route_with:
  assumes "path_ok p"
  shows "switchRouteMatcher on (route_with p t b) =
    (case match_segs (path_segs p) (js_split (CHR ''/'') on) of
       None \<Rightarrow> Inr None | Some ps \<Rightarrow> map_sum (\<lambda>e. e) Some (decode_params ps))"
proof -
  let ?segs = "tl (path_segs p)"
  have p: "path_segs p = Lit [] # ?segs" "p = render (\<lambda>_. None) ?segs" "list_all path_piece ?segs" "distinct (params_of ?segs)"
    using assms unfolding path_ok_def Let_def by blast+
  have pat: "pathRegExp p = (seg_rx ?segs, map (\<lambda>q. (q, False)) (params_of ?segs))"
    using pathRegExp_render [OF p(3)] p(2) by simp
  have root: "match_segs (path_segs p) (js_split (CHR ''/'') on) = (case pieces on of None \<Rightarrow> None | Some ws \<Rightarrow> match_segs ?segs ws)"
    using match_root [of ?segs on] p(1) by simp
  show ?thesis
  proof (cases "match_segs (path_segs p) (js_split (CHR ''/'') on)")
    case None
    then have "full_matches (seg_rx ?segs) on = []"
      using root full_matches_segs [OF p(3), of on] by (auto split: option.splits)
    then show ?thesis using None by (simp add: switchRouteMatcher_def route_with_def pat rx_exec_def)
  next
    case (Some ps)
    then obtain ws where ws: "pieces on = Some ws" "match_segs ?segs ws = Some ps"
      using root by (auto split: option.splits)
    have "full_matches (seg_rx ?segs) on = [map (\<lambda>x. Some (snd x)) ps]"
      using full_matches_segs [OF p(3), of on] ws by simp
    moreover have "match_params (map (\<lambda>q. (q, False)) (params_of ?segs)) (map (\<lambda>x. Some (snd x)) ps) [] = decode_params ps"
      using match_params_decode [of "[]" ps] match_segs_fst [OF ws(2)] match_segs_nonempty [OF ws(2)] p(4)
      by (force split: sum.split)
    ultimately show ?thesis using Some by (simp add: switchRouteMatcher_def route_with_def pat rx_exec_def)
  qed
qed

text \<open>
  Checked by evaluation: every path of the table is made of segments, without a colon in the fixed ones.
\<close>

definition path_names :: "string list" where
  "path_names = known_names @ [''event'']"

lemma path_names_word: "list_all word path_names"
  by code_simp

lemma routes_pieces:
  "list_all (\<lambda>r. take 1 (rt_path r) = ''/''
     \<and> list_all (\<lambda>s. case s of Lit t \<Rightarrow> CHR '':'' \<notin> set t | Par p \<Rightarrow> p \<in> set path_names) (path_segs (rt_path r))) routes"
  by code_simp

lemma routes_params: "list_all (\<lambda>r. distinct (route_params r)) routes"
  by code_simp

lemma render_split: "render (\<lambda>_. None) (map seg_of (js_split (CHR ''/'') s)) = CHR ''/'' # s"
proof -
  have "render (\<lambda>_. None) (map seg_of ws) = concat (map (Cons (CHR ''/'')) ws)" for ws
    by (induction ws) (auto simp: seg_of_def split: list.split)
  moreover have "concat (map (Cons c) ws) = c # js_join [c] ws" if "ws \<noteq> []" for c :: char and ws
    using that by (induction "[c]" ws rule: js_join.induct) simp_all
  ultimately show ?thesis by (simp add: js_join_split)
qed

lemma path_ok_pieces:
  assumes "take 1 p = ''/''" and "distinct (params_of (path_segs p))"
    and "\<forall>s \<in> set (path_segs p). case s of Lit t \<Rightarrow> CHR '':'' \<notin> set t | Par q \<Rightarrow> word q"
  shows "path_ok p"
proof -
  obtain s where p: "p = CHR ''/'' # s" using assms(1) by (cases p) auto
  then have segs: "path_segs p = Lit [] # map seg_of (js_split (CHR ''/'') s)" by (simp add: path_segs_def seg_of_def)
  have "path_piece x" if x: "x \<in> set (tl (path_segs p))" for x
  proof -
    obtain w where w: "w \<in> set (js_split (CHR ''/'') s)" "x = seg_of w" using x segs by auto
    have "x \<in> set (path_segs p)" using x segs by simp
    from bspec [OF assms(3) this] show ?thesis
      using js_split_pieces [OF w(1)] w(2) seg_of_no_slash [of w]
      by (auto simp: path_piece_def split: seg.split)
  qed
  then show ?thesis using assms(2) segs p render_split [of s] by (simp add: path_ok_def list_all_iff)
qed

lemma route_path_ok:
  assumes "r \<in> set routes"
  shows "path_ok (rt_path r)" and "rt_path r \<noteq> ''/'' \<Longrightarrow> redirect_path (rt_path r) = rt_path r @ ''/''"
    and "redirect_path (rt_path r) \<noteq> [] \<Longrightarrow> path_ok (redirect_path (rt_path r))"
proof -
  let ?p = "rt_path r"
  have start: "take 1 ?p = ''/''" and pieces: "\<forall>s \<in> set (path_segs ?p). case s of Lit t \<Rightarrow> CHR '':'' \<notin> set t | Par p \<Rightarrow> word p"
    using routes_pieces path_names_word assms by (force simp: list_all_iff split: seg.split)+
  have dist: "distinct (params_of (path_segs ?p))"
    using routes_params assms by (simp add: list_all_iff route_params_def)
  show ok: "path_ok ?p" by (rule path_ok_pieces [OF start dist pieces])
  have last: "?p = ''/'' \<or> last (path_segs ?p) \<noteq> Lit []" using route_paths assms by (auto simp: list_all_iff)
  show red: "redirect_path ?p = ?p @ ''/''" if "?p \<noteq> ''/''"
  proof -
    have "path_segs (redirect_path ?p) = path_segs ?p @ [Lit []]" using redirect_segs last that by blast
    then have "length (path_segs (redirect_path ?p)) = Suc (length (path_segs ?p))" by simp
    moreover have "length (path_segs (butlast ?p)) \<le> length (path_segs ?p)"
    proof (cases ?p rule: rev_cases)
      case (snoc q c)
      have "length (js_split (CHR ''/'') q) \<le> length (js_split (CHR ''/'') (q @ [c]))"
        by (cases "c = CHR ''/''") (auto simp: js_split_append_sep, induction q, auto split: list.split)
      then show ?thesis using snoc by (simp add: path_segs_def)
    qed (simp add: path_segs_def)
    ultimately show ?thesis by (auto simp: redirect_path_def split: if_splits)
  qed
  show "path_ok (redirect_path ?p)" if "redirect_path ?p \<noteq> []"
  proof -
    have ne: "?p \<noteq> ''/''" using that by (auto simp: redirect_path_def)
    then have segs: "path_segs (redirect_path ?p) = path_segs ?p @ [Lit []]" using redirect_segs last by blast
    show ?thesis
      using start dist pieces red [OF ne] segs by (intro path_ok_pieces) (cases ?p, auto simp: params_of_append)
  qed
qed

lemma routes_paths_distinct: "distinct (map rt_path routes)"
proof -
  let ?xs = "map (\<lambda>r. (path_segs (rt_path r), rt_path r)) routes"
  have "rt_path (routes ! i) \<noteq> rt_path (routes ! j)" if ij: "i < j" "j < length routes" for i j
  proof
    assume eq: "rt_path (routes ! i) = rt_path (routes ! j)"
    have "compatible s s" for s by (cases s) simp_all
    then have "list_all2 compatible (fst (?xs ! i)) (fst (?xs ! j))"
      using eq ij by (simp add: list_all2_refl)
    then have "(rt_path (routes ! i), rt_path (routes ! j)) \<in> set (clashes ?xs)"
      using clashes_in [of i j ?xs] ij by simp
    then show False using eq unfolding route_clashes by auto
  qed
  then show ?thesis
    unfolding distinct_conv_nth by (metis length_map linorder_neqE_nat nth_map)
qed

text \<open>The entries of the object \<open>routes\<close>.\<close>

definition route_entries :: "route \<Rightarrow> ng_routes" where
  "route_entries r = [(rt_path r, route_with (rt_path r) (Page r) True),
     (redirect_path (rt_path r), route_with (redirect_path (rt_path r)) (Redirect (rt_path r)) False)]"

lemma distinct_pairs:
  "distinct (map f xs) \<Longrightarrow> distinct (map g xs) \<Longrightarrow> f ` set xs \<inter> g ` set xs = {} \<Longrightarrow>
     distinct (concat (map (\<lambda>x. [f x, g x]) xs))"
  by (induction xs) auto

lemma redirect_slash: "r \<in> set routes \<Longrightarrow> redirect_path (rt_path r) = (if rt_path r = ''/'' then [] else rt_path r @ ''/'')"
  using route_path_ok(2) by (simp add: redirect_path_def)

lemma route_last: "r \<in> set routes \<Longrightarrow> rt_path r = ''/'' \<or> last (rt_path r) \<noteq> CHR ''/''"
proof (rule ccontr)
  assume "r \<in> set routes" and n: "\<not> (rt_path r = ''/'' \<or> last (rt_path r) \<noteq> CHR ''/'')"
  then have "butlast (rt_path r) = rt_path r @ ''/''" using redirect_slash [of r] by (simp add: redirect_path_def)
  then have "length (butlast (rt_path r)) = length (rt_path r @ ''/'')" by simp
  then show False by simp
qed

lemma redirect_inj: "inj_on redirect_path (rt_path ` set routes)"
proof (rule inj_onI)
  fix p q assume "p \<in> rt_path ` set routes" "q \<in> rt_path ` set routes" "redirect_path p = redirect_path q"
  then show "p = q" by (auto simp: redirect_slash split: if_splits)
qed

lemma keys_distinct: "distinct (map fst (concat (map route_entries routes)))"
proof -
  have "distinct (map (\<lambda>r. redirect_path (rt_path r)) routes)"
    using routes_paths_distinct redirect_inj by (simp add: distinct_map inj_on_def)
  moreover have "rt_path ` set routes \<inter> (\<lambda>r. redirect_path (rt_path r)) ` set routes = {}"
  proof (intro equals0I)
    fix p assume "p \<in> rt_path ` set routes \<inter> (\<lambda>r. redirect_path (rt_path r)) ` set routes"
    then obtain r q where r: "r \<in> set routes" "p = rt_path r" and q: "q \<in> set routes" "p = redirect_path (rt_path q)" by auto
    have "p \<noteq> []" "rt_path q \<noteq> []" using r q routes_pieces by (auto simp: list_all_iff)
    then have "p = rt_path q @ ''/''" using redirect_slash [OF q(1)] q(2) by (simp split: if_splits)
    then have "last p = CHR ''/''" "p \<noteq> ''/''" using \<open>rt_path q \<noteq> []\<close> by auto
    then show False using route_last [OF r(1)] r(2) by simp
  qed
  moreover have "map fst (concat (map route_entries rs)) = concat (map (\<lambda>r. [rt_path r, redirect_path (rt_path r)]) rs)" for rs
    by (induction rs) (simp_all add: route_entries_def)
  ultimately show ?thesis using distinct_pairs [OF routes_paths_distinct] by simp
qed

lemma fold_when_route:
  "distinct (map fst (acc @ concat (map route_entries rs))) \<Longrightarrow> \<forall>r \<in> set rs. rt_path r \<noteq> [] \<Longrightarrow>
     fold (\<lambda>r. when_route (rt_path r) (Page r)) rs acc = acc @ concat (map route_entries rs)"
proof (induction rs arbitrary: acc)
  case (Cons r rs)
  have "when_route (rt_path r) (Page r) acc = acc @ route_entries r"
    using Cons.prems by (auto simp: when_route_def route_entries_def update_new)
  then show ?case using Cons.IH [of "acc @ route_entries r"] Cons.prems by simp
qed simp

lemma console_routes_table:
  "console_routes = concat (map route_entries routes) @ [(''null'', plain_route Otherwise)]"
proof -
  have start: "\<forall>r \<in> set routes. take 1 (rt_path r) = ''/'' \<and> rt_path r \<noteq> []"
    using routes_pieces by (fastforce simp: list_all_iff)
  have "take 1 k \<noteq> ''n''" if k: "k \<in> set (map fst (concat (map route_entries routes)))" for k
  proof -
    obtain r where r: "r \<in> set routes" "k = rt_path r \<or> k = redirect_path (rt_path r)"
      using k unfolding route_entries_def by auto
    then show ?thesis using start by (cases "rt_path r") (fastforce simp: redirect_path_def split: if_splits)+
  qed
  then have "''null'' \<notin> set (map fst (concat (map route_entries routes)))" by fastforce
  then show ?thesis
    using fold_when_route [of "[]" routes] keys_distinct start
    by (simp add: console_routes_def otherwise_route_def update_new)
qed

text \<open>What the library makes of a hit of \<open>find_route\<close>.\<close>

fun ng_hit :: "hit \<Rightarrow> (ng_route \<times> params) option" where
  "ng_hit (Show r ps) = Some (route_with (rt_path r) (Page r) True, ps)"
| "ng_hit (RedirectTo r ps) = Some (route_with (redirect_path (rt_path r)) (Redirect (rt_path r)) False, ps)"
| "ng_hit NotFound = None"

lemma first_route_find:
  "\<forall>r \<in> set rs. r \<in> set routes \<Longrightarrow>
     first_route (concat (map route_entries rs) @ [(''null'', plain_route t)]) on
       = map_sum (\<lambda>e. e) ng_hit (find_in (concat (map (\<lambda>r. [(path_segs (rt_path r), Show r),
           (path_segs (redirect_path (rt_path r)), RedirectTo r)]) rs)) (js_split (CHR ''/'') on))"
proof (induction rs)
  case Nil
  then show ?case by (simp add: switchRouteMatcher_def plain_route_def)
next
  case (Cons r rs)
  then have r: "r \<in> set routes" by simp
  have red: "switchRouteMatcher on (route_with (redirect_path (rt_path r)) t b) =
      (case match_segs (path_segs (redirect_path (rt_path r))) (js_split (CHR ''/'') on) of
         None \<Rightarrow> Inr None | Some ps \<Rightarrow> map_sum (\<lambda>e. e) Some (decode_params ps))" for t b
  proof (cases "redirect_path (rt_path r) = []")
    case True
    then have "path_ok (redirect_path (rt_path r))" by (simp add: path_ok_def path_segs_def seg_of_def)
    then show ?thesis by (rule switch_route_with)
  next
    case False
    then show ?thesis by (intro switch_route_with route_path_ok(3) [OF r])
  qed
  show ?case
    using Cons.IH Cons.prems
    by (auto simp: route_entries_def switch_route_with [OF route_path_ok(1) [OF r]] red split: option.split sum.split)
qed

text \<open>The answer of \<open>parseRoute\<close> for a hit.\<close>

definition next_of :: "params \<Rightarrow> hit \<Rightarrow> next_route" where
  "next_of search h =
     (case ng_hit h of
        None \<Rightarrow> \<lparr>nx_route = plain_route Otherwise, nx_params = [], nx_pathParams = []\<rparr>
      | Some (r, ps) \<Rightarrow> \<lparr>nx_route = r, nx_params = merge_params search ps, nx_pathParams = ps\<rparr>)"

lemma first_console: "first_route console_routes path = map_sum (\<lambda>e. e) ng_hit (find_route path)"
  using first_route_find [of routes Otherwise path]
  by (simp add: console_routes_table find_route_def route_table_def)

lemma null_console: "map_of console_routes ''null'' = Some (plain_route Otherwise)"
proof -
  have "map_of console_routes ''null'' = map_of (otherwise_route Otherwise rs) ''null''"
    if "console_routes = otherwise_route Otherwise rs" for rs using that by simp
  then show ?thesis unfolding console_routes_def by (simp add: otherwise_route_def update_conv')
qed

text \<open>C15. The library finds for every path the route of the table that \<open>find_route\<close> finds, with the same
  parameters, the same redirections and the same errors, and the page for unknown paths otherwise.\<close>

theorem parse_route_equiv:
  "parseRoute console_routes path search = map_sum (\<lambda>e. e) (\<lambda>h. Some (next_of search h)) (find_route path)"
  by (cases "find_route path") (auto simp: parseRoute_def next_of_def first_console null_console split: option.split)

end
