(* ===== verification/Ng_Router.thy ===== *)
theory Ng_Router
  imports Ng_Route
begin

text \<open>
  \<open>updateRoute\<close> of \<open>angular-route.js\<close> as a transition system: the location changes, the route of the new
  location becomes the current one, its loaders run, and when they have answered the page is shown,
  unless another route has become current in the meantime.
\<close>

section \<open>The state\<close>

text \<open>
  \<open>ro_current\<close> is \<open>$route.current\<close> with the number of its change, which stands for the identity of the
  object; \<open>ro_pending\<close>: changes whose loaders have still to run, or (\<open>True\<close>) are running; \<open>ro_moved\<close>: the
  location was set and the next digest announces it; \<open>ro_evals\<close>: calls of \<open>updateRoute\<close> that \<open>reload\<close> has put
  off to the next digest.
\<close>

datatype rlog =
    RouteUpdate nat
  | ChangeStart nat
  | Relocate string params
  | Resolve nat params      \<comment> \<open>the loaders run, and read these as \<open>$route.current.params\<close>\<close>
  | ChangeSuccess nat
  | ChangeError nat
  | RouteException js_error

record router =
  ro_path :: string
  ro_search :: params
  ro_moved :: bool
  ro_current :: "(nat \<times> next_route) option"
  ro_count :: nat
  ro_pending :: "(nat \<times> bool) list"
  ro_forceReload :: bool
  ro_evals :: nat
  ro_routeParams :: params
  ro_log :: "rlog list"

definition new_router :: router where
  "new_router = \<lparr>ro_path = [], ro_search = [], ro_moved = False, ro_current = None, ro_count = 0, ro_pending = [],
     ro_forceReload = False, ro_evals = 0, ro_routeParams = [], ro_log = []\<rparr>"

definition rlog_entry :: "rlog \<Rightarrow> router \<Rightarrow> router" where
  "rlog_entry x s = s\<lparr>ro_log := ro_log s @ [x]\<rparr>"

section \<open>A change of the route\<close>

definition same_route :: "next_route \<Rightarrow> next_route \<Rightarrow> bool" where
  "same_route a b \<longleftrightarrow> nx_route a = nx_route b \<and> set (nx_pathParams a) = set (nx_pathParams b)"

text \<open>\<open>$location.path(p).search(ps).replace()\<close>; the next digest announces a location that differs.\<close>

definition relocate :: "string \<Rightarrow> params \<Rightarrow> router \<Rightarrow> router" where
  "relocate p ps s =
     (let path = (if take 1 p = ''/'' then p else CHR ''/'' # p)
      in rlog_entry (Relocate path ps)
           (s\<lparr>ro_path := path, ro_search := ps,
              ro_moved := (ro_moved s \<or> path \<noteq> ro_path s \<or> ps \<noteq> ro_search s)\<rparr>))"

definition start_change :: "next_route \<Rightarrow> router \<Rightarrow> router" where
  "start_change nx s =
     (let i = ro_count s;
          s1 = (rlog_entry (ChangeStart i) s)\<lparr>ro_forceReload := False, ro_current := Some (i, nx), ro_count := Suc i\<rparr>
      in case nr_target (nx_route nx) of
           Redirect to \<Rightarrow>
             (case interpolate to (nx_params nx) of
                (Inl e, ps) \<Rightarrow> rlog_entry (RouteException e) (s1\<lparr>ro_current := Some (i, nx\<lparr>nx_params := ps\<rparr>)\<rparr>)
              | (Inr p, ps) \<Rightarrow>
                  (relocate p ps s1)\<lparr>ro_current := Some (i, nx\<lparr>nx_params := ps\<rparr>), ro_pending := ro_pending s @ [(i, False)]\<rparr>)
         | t \<Rightarrow> s1\<lparr>ro_pending := ro_pending s @ [(i, False)]\<rparr>)"

text \<open>
  The console gives a route for all other paths, so that there always is one (\<open>null_console\<close>); the branch without
  is not reached.
\<close>

definition updateRoute :: "ng_routes \<Rightarrow> router \<Rightarrow> router" where
  "updateRoute rs s =
     (case parseRoute rs (ro_path s) (ro_search s) of
        Inl e \<Rightarrow> rlog_entry (RouteException e) s
      | Inr None \<Rightarrow> s
      | Inr (Some nx) \<Rightarrow>
          (case ro_current s of
             None \<Rightarrow> start_change nx s
           | Some (j, cur) \<Rightarrow>
               if same_route nx cur \<and> \<not> nr_reloadOnSearch (nx_route nx) \<and> \<not> ro_forceReload s
               then rlog_entry (RouteUpdate j)
                 (s\<lparr>ro_current := Some (j, cur\<lparr>nx_params := nx_params nx\<rparr>), ro_routeParams := nx_params nx\<rparr>)
               else start_change nx s))"

text \<open>The loaders of a change run, and their answers: all of them, or the first that failed.\<close>

definition run_loaders :: "nat \<Rightarrow> router \<Rightarrow> router" where
  "run_loaders i s =
     (if (i, False) \<in> set (ro_pending s)
      then rlog_entry (Resolve i (case ro_current s of None \<Rightarrow> [] | Some (j, nx) \<Rightarrow> nx_params nx))
             (s\<lparr>ro_pending := map (\<lambda>x. if x = (i, False) then (i, True) else x) (ro_pending s)\<rparr>)
      else s)"

definition settle_change :: "nat \<Rightarrow> bool \<Rightarrow> router \<Rightarrow> router" where
  "settle_change i ok s =
     (if (i, True) \<in> set (ro_pending s)
      then let s1 = s\<lparr>ro_pending := removeAll (i, True) (ro_pending s)\<rparr>
           in case ro_current s of
                None \<Rightarrow> s1
              | Some (j, nx) \<Rightarrow>
                  if j \<noteq> i then s1
                  else if ok then rlog_entry (ChangeSuccess i) (s1\<lparr>ro_routeParams := nx_params nx\<rparr>)
                  else rlog_entry (ChangeError i) s1
      else s)"

section \<open>Runs\<close>

datatype revent =
    RLocation string params
  | RMoved
  | RReload
  | REval
  | RLoad nat
  | RSettled nat bool

fun rstep :: "ng_routes \<Rightarrow> revent \<Rightarrow> router \<Rightarrow> router" where
  "rstep rs (RLocation p ps) s = updateRoute rs (s\<lparr>ro_path := p, ro_search := ps, ro_moved := False\<rparr>)"
| "rstep rs RMoved s = (if ro_moved s then updateRoute rs (s\<lparr>ro_moved := False\<rparr>) else s)"
| "rstep rs RReload s = s\<lparr>ro_forceReload := True, ro_evals := Suc (ro_evals s)\<rparr>"
| "rstep rs REval s = (if 0 < ro_evals s then updateRoute rs (s\<lparr>ro_evals := ro_evals s - 1\<rparr>) else s)"
| "rstep rs (RLoad i) s = run_loaders i s"
| "rstep rs (RSettled i ok) s = settle_change i ok s"

fun rrun :: "ng_routes \<Rightarrow> revent list \<Rightarrow> router \<Rightarrow> router" where
  "rrun rs [] s = s"
| "rrun rs (e # es) s = rrun rs es (rstep rs e s)"

section \<open>Only the last change is shown\<close>

fun last_start :: "rlog list \<Rightarrow> nat option" where
  "last_start [] = None"
| "last_start (x # xs) =
     (case last_start xs of Some i \<Rightarrow> Some i | None \<Rightarrow> (case x of ChangeStart i \<Rightarrow> Some i | _ \<Rightarrow> None))"

text \<open>The loaders of change \<open>i\<close> have run, and if it is the last change of \<open>xs\<close> they ran after its start.\<close>

definition loaded_for :: "nat \<Rightarrow> rlog list \<Rightarrow> bool" where
  "loaded_for i xs \<longleftrightarrow> (\<exists>a ps b. xs = a @ Resolve i ps # b \<and> (last_start xs = Some i \<longrightarrow> last_start a = Some i))"

definition shown_last :: "rlog list \<Rightarrow> bool" where
  "shown_last xs \<longleftrightarrow> (\<forall>a i b. xs = a @ ChangeSuccess i # b \<longrightarrow> last_start a = Some i \<and> loaded_for i a)"

lemma last_start_snoc [simp]:
  "last_start (xs @ [x]) = (case x of ChangeStart i \<Rightarrow> Some i | _ \<Rightarrow> last_start xs)"
  by (induction xs) (auto split: rlog.split option.split)

lemma loaded_for_snoc:
  assumes "loaded_for i xs" and "x \<noteq> ChangeStart i"
  shows "loaded_for i (xs @ [x])"
proof -
  obtain a ps b where a: "xs = a @ Resolve i ps # b" "last_start xs = Some i \<longrightarrow> last_start a = Some i"
    using assms(1) unfolding loaded_for_def by blast
  then have "xs @ [x] = a @ Resolve i ps # (b @ [x])" by simp
  moreover have "last_start (xs @ [x]) = Some i \<longrightarrow> last_start xs = Some i"
    using assms(2) by (cases x) auto
  ultimately show ?thesis using a(2) unfolding loaded_for_def by blast
qed

lemma loaded_for_now: "loaded_for i (xs @ [Resolve i ps])"
  unfolding loaded_for_def by (intro exI [of _ xs] exI [of _ ps] exI [of _ "[]"]) simp

lemma shown_lastD:
  "shown_last xs \<Longrightarrow> xs = a @ ChangeSuccess i # b \<Longrightarrow> last_start a = Some i \<and> loaded_for i a"
  unfolding shown_last_def by blast

lemma shown_last_snoc:
  assumes "shown_last xs" and "\<And>i. x = ChangeSuccess i \<Longrightarrow> last_start xs = Some i \<and> loaded_for i xs"
  shows "shown_last (xs @ [x])"
  unfolding shown_last_def
proof (intro allI impI)
  fix a i b assume eq: "xs @ [x] = a @ ChangeSuccess i # b"
  show "last_start a = Some i \<and> loaded_for i a"
  proof (cases b rule: rev_cases)
    case Nil
    then show ?thesis using eq assms(2) by simp
  next
    case (snoc b' y)
    then have "xs = a @ ChangeSuccess i # b'" using eq by simp
    then show ?thesis by (rule shown_lastD [OF assms(1)])
  qed
qed

text \<open>The current change is the last that was started, and the changes that run their loaders are in the log.\<close>

definition pending_ok :: "router \<Rightarrow> bool" where
  "pending_ok s \<longleftrightarrow> (\<forall>(i, run) \<in> set (ro_pending s). i < ro_count s \<and> (run \<longrightarrow> loaded_for i (ro_log s)))"

definition router_inv :: "router \<Rightarrow> bool" where
  "router_inv s \<longleftrightarrow> last_start (ro_log s) = map_option fst (ro_current s) \<and> shown_last (ro_log s) \<and> pending_ok s"

lemma router_inv_entry:
  assumes "router_inv s" and "\<And>j. x \<noteq> ChangeStart j"
    and "\<And>i. x = ChangeSuccess i \<Longrightarrow> last_start (ro_log s) = Some i \<and> loaded_for i (ro_log s)"
  shows "router_inv (rlog_entry x s)"
proof -
  have "shown_last (ro_log s @ [x])"
    using assms(1,3) by (intro shown_last_snoc) (simp_all add: router_inv_def)
  moreover have "last_start (ro_log s @ [x]) = last_start (ro_log s)" using assms(2) by (cases x) auto
  moreover have "pending_ok (rlog_entry x s)"
    using assms(1,2) loaded_for_snoc by (fastforce simp: router_inv_def pending_ok_def rlog_entry_def)
  ultimately show ?thesis using assms(1) by (simp add: router_inv_def rlog_entry_def)
qed

lemma router_inv_started:
  assumes "router_inv s"
  shows "router_inv ((rlog_entry (ChangeStart (ro_count s)) s)
    \<lparr>ro_forceReload := f, ro_current := Some (ro_count s, nx), ro_count := Suc (ro_count s)\<rparr>)"
proof -
  have "shown_last (ro_log s @ [ChangeStart (ro_count s)])"
    using assms by (intro shown_last_snoc) (simp_all add: router_inv_def)
  moreover have "i < Suc (ro_count s) \<and> (run \<longrightarrow> loaded_for i (ro_log s @ [ChangeStart (ro_count s)]))"
    if "(i, run) \<in> set (ro_pending s)" for i run
    using assms that loaded_for_snoc [of i "ro_log s" "ChangeStart (ro_count s)"]
    by (auto simp: router_inv_def pending_ok_def)
  ultimately show ?thesis by (auto simp: router_inv_def pending_ok_def rlog_entry_def)
qed

text \<open>Changes of the fields that the invariant does not read, or reads only in part.\<close>

lemma router_inv_fields:
  "router_inv s \<Longrightarrow> ro_log t = ro_log s \<Longrightarrow> map_option fst (ro_current t) = map_option fst (ro_current s) \<Longrightarrow>
     ro_count t = ro_count s \<Longrightarrow> set (ro_pending t) \<subseteq> set (ro_pending s) \<union> {(i, False) |i. i < ro_count s} \<Longrightarrow> router_inv t"
  unfolding router_inv_def pending_ok_def by fastforce

lemma start_change_inv:
  assumes "router_inv s"
  shows "router_inv (start_change nx s)"
proof -
  let ?s1 = "(rlog_entry (ChangeStart (ro_count s)) s)
    \<lparr>ro_forceReload := False, ro_current := Some (ro_count s, nx), ro_count := Suc (ro_count s)\<rparr>"
  have s1: "router_inv ?s1" by (rule router_inv_started [OF assms])
  have quiet: "router_inv (rlog_entry x t)"
    if "ro_log t = ro_log ?s1" "map_option fst (ro_current t) = Some (ro_count s)" "ro_count t = Suc (ro_count s)"
      "set (ro_pending t) \<subseteq> insert (ro_count s, False) (set (ro_pending s))"
      "x = RouteException e \<or> x = Relocate p ps" for x t e p ps
    using that by (intro router_inv_entry router_inv_fields [OF s1]) (auto simp: rlog_entry_def)
  show ?thesis
  proof (cases "nr_target (nx_route nx)")
    case (Redirect to)
    obtain t ps where t: "interpolate to (nx_params nx) = (t, ps)" by (cases "interpolate to (nx_params nx)")
    show ?thesis
    proof (cases t)
      case (Inl e)
      then show ?thesis using Redirect t by (auto simp: start_change_def Let_def rlog_entry_def [of "ChangeStart i" for i] intro!: quiet)
    next
      case (Inr p)
      let ?path = "if take 1 p = ''/'' then p else CHR ''/'' # p"
      have "router_inv (relocate p ps ?s1)"
        unfolding relocate_def Let_def by (intro quiet [of _ _ _ ?path ps]) (auto simp: rlog_entry_def)
      then show ?thesis
        using Redirect t Inr by (auto simp: start_change_def Let_def relocate_def rlog_entry_def elim!: router_inv_fields)
    qed
  qed (use router_inv_fields [OF s1] in \<open>auto simp: start_change_def Let_def rlog_entry_def\<close>)
qed

lemma run_loaders_inv:
  assumes "router_inv s"
  shows "router_inv (run_loaders i s)"
proof (cases "(i, False) \<in> set (ro_pending s)")
  case True
  let ?ps = "case ro_current s of None \<Rightarrow> [] | Some (j, nx) \<Rightarrow> nx_params nx"
  have i: "router_inv (rlog_entry (Resolve i ?ps) s)" by (intro router_inv_entry [OF assms]) simp_all
  have "loaded_for i (ro_log s @ [Resolve i ?ps])" "i < ro_count s"
    using loaded_for_now True assms by (auto simp: router_inv_def pending_ok_def)
  then show ?thesis
    using i True unfolding run_loaders_def router_inv_def pending_ok_def rlog_entry_def by (auto split: if_splits)
qed (simp add: run_loaders_def assms)

lemma settle_change_inv:
  assumes "router_inv s"
  shows "router_inv (settle_change i ok s)"
proof (cases "(i, True) \<in> set (ro_pending s)")
  case True
  let ?s1 = "s\<lparr>ro_pending := removeAll (i, True) (ro_pending s)\<rparr>"
  have s1: "router_inv ?s1" by (rule router_inv_fields [OF assms]) auto
  have l: "loaded_for i (ro_log s)" using True assms by (auto simp: router_inv_def pending_ok_def)
  show ?thesis
  proof (cases "ro_current s")
    case (Some c)
    obtain j nx where c: "c = (j, nx)" by (cases c)
    have "router_inv (?s1\<lparr>ro_routeParams := nx_params nx\<rparr>)" by (rule router_inv_fields [OF s1]) simp_all
    then show ?thesis
      using True s1 l Some c assms by (auto simp: settle_change_def Let_def router_inv_def [of s] intro!: router_inv_entry)
  qed (use True s1 in \<open>simp add: settle_change_def Let_def\<close>)
qed (simp add: settle_change_def assms)

lemma updateRoute_inv:
  assumes "router_inv s"
  shows "router_inv (updateRoute rs s)"
proof -
  have "router_inv (rlog_entry (RouteUpdate j)
      (s\<lparr>ro_current := Some (j, cur\<lparr>nx_params := ps\<rparr>), ro_routeParams := ps\<rparr>))" if "ro_current s = Some (j, cur)" for j cur ps
    using that by (intro router_inv_entry router_inv_fields [OF assms]) simp_all
  then show ?thesis
    using start_change_inv [OF assms] router_inv_entry [OF assms, of "RouteException e" for e]
    by (auto simp: updateRoute_def assms split: sum.split option.split)
qed

lemma rstep_inv: "router_inv s \<Longrightarrow> router_inv (rstep rs e s)"
  by (cases e) (auto intro!: updateRoute_inv run_loaders_inv settle_change_inv elim: router_inv_fields)

lemma rrun_inv: "router_inv s \<Longrightarrow> router_inv (rrun rs es s)"
  by (induction es arbitrary: s) (simp_all add: rstep_inv)

lemma router_inv_new: "router_inv new_router"
  by (simp add: router_inv_def new_router_def shown_last_def pending_ok_def)

text \<open>C12. A page is shown only for the change of the route that was started last, and its own loaders ran after
  that start: when the loaders of an earlier change answer late, their page is not shown.\<close>

theorem stale_route_ignored:
  assumes "ro_log (rrun rs es new_router) = a @ ChangeSuccess i # b"
  shows "\<exists>a1 ps a2. a = a1 @ Resolve i ps # a2 \<and> last_start a1 = Some i \<and> last_start a = Some i"
proof -
  have "shown_last (ro_log (rrun rs es new_router))"
    using rrun_inv [OF router_inv_new] unfolding router_inv_def by blast
  then have "last_start a = Some i" "loaded_for i a" using shown_lastD [OF _ assms] by blast+
  then show ?thesis unfolding loaded_for_def by blast
qed

section \<open>A path with a slash at its end\<close>







lemma merge_params_snoc [simp]:
  "merge_params search [] = search"
  "merge_params search (xs @ [x]) = AList.update (fst x) (snd x) (merge_params search xs)"
  by (simp_all add: merge_params_def case_prod_beta)




section \<open>On concrete runs\<close>

text \<open>The loaders of the first page answer after the second location.\<close>

definition two_locations :: "revent list" where
  "two_locations = [RLocation ''/realms/demo/users/bob'' [], RLoad 0, RLocation ''/realms/demo/users/eve'' [],
     RLoad 1, RSettled 0 True, RSettled 1 True]"

definition user_routes :: ng_routes where
  "user_routes = otherwise_route Otherwise (when_route (rt_path user_route) (Page user_route) [])"

lemma two_locations_log:
  "ro_log (rrun user_routes two_locations new_router) =
     [ChangeStart 0, Resolve 0 [(''realm'', ''demo''), (''user'', ''bob'')],
      ChangeStart 1, Resolve 1 [(''realm'', ''demo''), (''user'', ''eve'')]] @ ChangeSuccess 1 # []"
  by code_simp

theorem stale_route_ignored_witness:
  "\<exists>a1 ps a2. [ChangeStart 0, Resolve 0 [(''realm'', ''demo''), (''user'', ''bob'')],
      ChangeStart 1, Resolve 1 [(''realm'', ''demo''), (''user'', ''eve'')]] = a1 @ Resolve 1 ps # a2
    \<and> last_start a1 = Some 1"
  using stale_route_ignored [OF two_locations_log] by blast


end
