(* ===== verification/Ng_Promise.thy ===== *)
theory Ng_Promise
  imports Prelude "HOL-Library.Multiset"
begin

text \<open>
  The promises of angular, \<open>$q\<close> of \<open>angular.js\<close> as the repository keeps it, which the interceptors, loaders and
  routes of the console are built on: \<open>defer\<close>, \<open>then\<close>, \<open>resolve\<close>, \<open>reject\<close> and \<open>all\<close>, and the queue of functions that
  the next digest runs.  What is registered on a promise is called at most once, a digest ends, and after it only
  promises that are not settled have callbacks waiting.
\<close>

section \<open>The state\<close>

text \<open>
  What a callback returns: a value without a function \<open>then\<close>, or a promise by its number; \<open>qref\<close>: what a settled
  deferred object keeps in \<open>value\<close>, an object of \<open>ref\<close>, a promise, or one of \<open>createInternalRejectedPromise\<close>.
\<close>

datatype qval = QVal jsval | QProm nat

datatype qref = RefVal jsval | RefProm nat | RefRejected jsval

text \<open>A callback: not a function, one of the application, or one of the two that \<open>all\<close> registers.\<close>

datatype handler = NoFun | User nat | AllOk nat string | AllErr nat string

text \<open>What \<open>then\<close> registers: its result, and the two callbacks it wraps; the log keeps what it is registered on.\<close>

type_synonym wrapped = "nat \<times> handler \<times> handler"

datatype deferred = Pending "wrapped list" | Settled qref

datatype qtick =
    Deliver qref "wrapped list"
  | Call bool wrapped jsval

datatype qlog =
    QRegister wrapped qref
  | QCall nat bool jsval
  | QUser nat jsval
  | QException jsval
  | QOverflow nat
  | QAll nat "(string \<times> jsval) list"

record qall =
  qa_deferred :: nat
  qa_args :: "(string \<times> qval) list"
  qa_counter :: nat
  qa_results :: "(string \<times> jsval) list"

record qstate =
  q_deferreds :: "deferred list"
  q_ticks :: "qtick list"
  q_alls :: "qall list"
  q_log :: "qlog list"

abbreviation qa_keys :: "qall \<Rightarrow> string list" where
  "qa_keys q \<equiv> map fst (qa_args q)"

definition new_q :: qstate where
  "new_q = \<lparr>q_deferreds = [], q_ticks = [], q_alls = [], q_log = []\<rparr>"

definition q_say :: "qlog \<Rightarrow> qstate \<Rightarrow> qstate" where
  "q_say x s = s\<lparr>q_log := q_log s @ [x]\<rparr>"

definition nextTick :: "qtick \<Rightarrow> qstate \<Rightarrow> qstate" where
  "nextTick t s = s\<lparr>q_ticks := q_ticks s @ [t]\<rparr>"

definition set_deferred :: "nat \<Rightarrow> deferred \<Rightarrow> qstate \<Rightarrow> qstate" where
  "set_deferred i d s = s\<lparr>q_deferreds := (q_deferreds s)[i := d]\<rparr>"

section \<open>Operations\<close>

definition q_defer :: "qstate \<Rightarrow> nat \<times> qstate" where
  "q_defer s = (length (q_deferreds s), s\<lparr>q_deferreds := q_deferreds s @ [Pending []]\<rparr>)"

definition settle_deferred :: "nat \<Rightarrow> qref \<Rightarrow> qstate \<Rightarrow> qstate" where
  "settle_deferred i r s =
     (if i < length (q_deferreds s) then
        case q_deferreds s ! i of
          Settled r' \<Rightarrow> s
        | Pending callbacks \<Rightarrow>
            (let s1 = set_deferred i (Settled r) s
             in if callbacks = [] then s1 else nextTick (Deliver r callbacks) s1)
      else s)"

fun qref_of :: "qval \<Rightarrow> qref" where
  "qref_of (QVal v) = RefVal v"
| "qref_of (QProm j) = RefProm j"

definition resolve :: "nat \<Rightarrow> qval \<Rightarrow> qstate \<Rightarrow> qstate" where
  "resolve i val s = settle_deferred i (qref_of val) s"

definition reject :: "nat \<Rightarrow> jsval \<Rightarrow> qstate \<Rightarrow> qstate" where
  "reject i reason s = settle_deferred i (RefRejected reason) s"

text \<open>
  \<open>value.then\<close> of a settled promise calls \<open>then\<close> of what it was settled with, and so on: at the end is a promise
  that is pending, a value or a reason.  Promises settled with each other in a circle overflow the stack.
\<close>

fun chase :: "nat \<Rightarrow> deferred list \<Rightarrow> qref \<Rightarrow> qref option" where
  "chase n ds (RefProm j) =
     (if j < length ds then
        case ds ! j of
          Pending ws \<Rightarrow> Some (RefProm j)
        | Settled r \<Rightarrow> (case n of 0 \<Rightarrow> None | Suc m \<Rightarrow> chase m ds r)
      else None)"
| "chase n ds r = Some r"

text \<open>
  \<open>then\<close> with the result already created; the promises that the inner calls of \<open>then\<close> create and nobody gets are
  left out.
\<close>

definition attach :: "qref \<Rightarrow> wrapped \<Rightarrow> qstate \<Rightarrow> qstate" where
  "attach r w s =
     (case chase (length (q_deferreds s)) (q_deferreds s) r of
        None \<Rightarrow> q_say (QOverflow (fst w)) s
      | Some (RefVal v) \<Rightarrow> nextTick (Call True w v) s
      | Some (RefRejected v) \<Rightarrow> nextTick (Call False w v) s
      | Some (RefProm j) \<Rightarrow>
          (case q_deferreds s ! j of
             Pending ws \<Rightarrow> set_deferred j (Pending (ws @ [w])) s
           | Settled r' \<Rightarrow> s))"

definition q_then :: "qref \<Rightarrow> handler \<Rightarrow> handler \<Rightarrow> qstate \<Rightarrow> nat \<times> qstate" where
  "q_then r cb eb s = (let (i, s1) = q_defer s in (i, attach r (i, cb, eb) (q_say (QRegister (i, cb, eb) r) s1)))"

definition rejected :: "jsval \<Rightarrow> qstate \<Rightarrow> nat \<times> qstate" where
  "rejected reason s = (let (i, s1) = q_defer s in (i, reject i reason s1))"

text \<open>\<open>all\<close>: the promises by their keys.\<close>

fun all_then :: "nat \<Rightarrow> (string \<times> qval) list \<Rightarrow> qstate \<Rightarrow> qstate" where
  "all_then a [] s = s"
| "all_then a ((key, p) # ps) s = all_then a ps (snd (q_then (qref_of p) (AllOk a key) (AllErr a key) s))"

definition q_all :: "(string \<times> qval) list \<Rightarrow> qstate \<Rightarrow> nat \<times> qstate" where
  "q_all ps s =
     (let (d, s1) = q_defer s; a = length (q_alls s1);
          s2 = s1\<lparr>q_alls := q_alls s1 @ [\<lparr>qa_deferred = d, qa_args = ps, qa_counter = length ps, qa_results = []\<rparr>]\<rparr>;
          s3 = all_then a ps s2
      in (d, if ps = [] then resolve d (QVal (Obj [])) (q_say (QAll a []) s3) else s3))"

section \<open>Callbacks\<close>

text \<open>
  What a program does with promises; it uses those it has got, and a number that is no promise is a value like any
  other.  The argument of \<open>all\<close> is an object, as in \<open>updateRoute\<close>, so that its keys are distinct.
\<close>

fun given :: "qstate \<Rightarrow> qval \<Rightarrow> qval" where
  "given s (QVal v) = QVal v"
| "given s (QProm j) = (if j < length (q_deferreds s) then QProm j else QVal Undefined)"

datatype quse =
    UDefer
  | UThen nat "nat option" "nat option"
  | UResolve nat qval
  | UReject nat jsval
  | UAll "(string \<times> qval) list"

definition handler_of :: "nat option \<Rightarrow> handler" where
  "handler_of f = (case f of None \<Rightarrow> NoFun | Some n \<Rightarrow> User n)"

fun q_use :: "quse \<Rightarrow> qstate \<Rightarrow> qstate" where
  "q_use UDefer s = snd (q_defer s)"
| "q_use (UThen i f g) s =
     (if i < length (q_deferreds s) then snd (q_then (RefProm i) (handler_of f) (handler_of g) s) else s)"
| "q_use (UResolve i v) s = resolve i (given s v) s"
| "q_use (UReject i v) s = reject i v s"
| "q_use (UAll ps) s =
     (if distinct (map fst ps) then snd (q_all (map (\<lambda>(key, p). (key, given s p)) ps) s) else s)"

text \<open>What a function of the application does: it uses promises, and then throws or returns.\<close>

type_synonym q_env = "nat \<Rightarrow> jsval \<Rightarrow> quse list \<times> (jsval + qval)"

definition all_ok :: "nat \<Rightarrow> string \<Rightarrow> jsval \<Rightarrow> qstate \<Rightarrow> qstate" where
  "all_ok a key v s =
     (if a < length (q_alls s) then
        let q = q_alls s ! a
        in if map_of (qa_results q) key \<noteq> None then s
           else let results = qa_results q @ [(key, v)]; counter = qa_counter q - 1;
                    s1 = s\<lparr>q_alls := (q_alls s)[a := q\<lparr>qa_counter := counter, qa_results := results\<rparr>]\<rparr>
                in if counter = 0 then resolve (qa_deferred q) (QVal (Obj results)) (q_say (QAll a results) s1) else s1
      else s)"

definition all_err :: "nat \<Rightarrow> string \<Rightarrow> jsval \<Rightarrow> qstate \<Rightarrow> qstate" where
  "all_err a key reason s =
     (if a < length (q_alls s) then
        let q = q_alls s ! a
        in if map_of (qa_results q) key \<noteq> None then s else reject (qa_deferred q) reason s
      else s)"

definition run_handler :: "q_env \<Rightarrow> bool \<Rightarrow> handler \<Rightarrow> jsval \<Rightarrow> qstate \<Rightarrow> (jsval + qval) \<times> qstate" where
  "run_handler env ok h v s =
     (case h of
        NoFun \<Rightarrow> if ok then (Inr (QVal v), s) else (let (i, s1) = rejected v s in (Inr (QProm i), s1))
      | User n \<Rightarrow>
          (case env n v of (us, x) \<Rightarrow>
             let s1 = fold q_use us (q_say (QUser n v) s) in (map_sum id (given s1) x, s1))
      | AllOk a key \<Rightarrow> (Inr (QVal Undefined), all_ok a key v s)
      | AllErr a key \<Rightarrow> (Inr (QVal Undefined), all_err a key v s))"

text \<open>The wrapped callbacks: the result takes over what the callback returns, or is rejected.\<close>

definition call_wrapped :: "q_env \<Rightarrow> bool \<Rightarrow> wrapped \<Rightarrow> jsval \<Rightarrow> qstate \<Rightarrow> qstate" where
  "call_wrapped env ok w v s =
     (case w of (r, cb, eb) \<Rightarrow>
        (case run_handler env ok (if ok then cb else eb) v (q_say (QCall r ok v) s) of
           (Inl e, s1) \<Rightarrow> q_say (QException e) (reject r e s1)
         | (Inr x, s1) \<Rightarrow> resolve r x s1))"

fun run_tick :: "q_env \<Rightarrow> qtick \<Rightarrow> qstate \<Rightarrow> qstate" where
  "run_tick env (Deliver r ws) s = fold (attach r) ws s"
| "run_tick env (Call ok w v) s = call_wrapped env ok w v s"

definition next_tick :: "q_env \<Rightarrow> qstate \<Rightarrow> qstate" where
  "next_tick env s =
     (case q_ticks s of [] \<Rightarrow> s | t # ts \<Rightarrow> run_tick env t (s\<lparr>q_ticks := ts\<rparr>))"

section \<open>Runs\<close>

text \<open>Uses of promises by the program, and the functions that the digest runs.\<close>

datatype qevent = EUse quse | ETick

fun q_step :: "q_env \<Rightarrow> qevent \<Rightarrow> qstate \<Rightarrow> qstate" where
  "q_step env (EUse u) s = q_use u s"
| "q_step env ETick s = next_tick env s"

definition q_run :: "q_env \<Rightarrow> qevent list \<Rightarrow> qstate \<Rightarrow> qstate" where
  "q_run env es s = fold (q_step env) es s"

section \<open>What is registered and what is called\<close>

text \<open>The results of the callbacks that wait, in a promise or in a tick.\<close>

definition pending_of :: "deferred \<Rightarrow> nat multiset" where
  "pending_of d = (case d of Pending ws \<Rightarrow> mset (map fst ws) | Settled r \<Rightarrow> {#})"

definition tick_of :: "qtick \<Rightarrow> nat multiset" where
  "tick_of t = (case t of Deliver r ws \<Rightarrow> mset (map fst ws) | Call ok w v \<Rightarrow> {#fst w#})"

definition q_waiting :: "qstate \<Rightarrow> nat multiset" where
  "q_waiting s = (\<Sum>d \<leftarrow> q_deferreds s. pending_of d) + (\<Sum>t \<leftarrow> q_ticks s. tick_of t)"

definition log_registered :: "qlog list \<Rightarrow> nat list" where
  "log_registered xs = concat (map (\<lambda>x. case x of QRegister w r \<Rightarrow> [fst w] | _ \<Rightarrow> []) xs)"

definition log_called :: "qlog list \<Rightarrow> nat list" where
  "log_called xs = concat (map (\<lambda>x. case x of QCall r ok v \<Rightarrow> [r] | _ \<Rightarrow> []) xs)"

definition log_lost :: "qlog list \<Rightarrow> nat list" where
  "log_lost xs = concat (map (\<lambda>x. case x of QOverflow r \<Rightarrow> [r] | _ \<Rightarrow> []) xs)"

lemmas log_defs = log_registered_def log_called_def log_lost_def

text \<open>
  Every registered callback waits, has been called, or was lost; \<open>X\<close>: those under way in the operation.
\<close>

definition balanced :: "nat multiset \<Rightarrow> qstate \<Rightarrow> bool" where
  "balanced X s \<longleftrightarrow> mset (log_registered (q_log s))
     = q_waiting s + mset (log_called (q_log s)) + mset (log_lost (q_log s)) + X"

lemma sum_list_set: "i < length ds \<Longrightarrow>
    (\<Sum>d \<leftarrow> ds[i := d']. f d) + f (ds ! i) = (\<Sum>d \<leftarrow> ds. f d) + (f d' :: 'a multiset)"
  by (induction ds arbitrary: i) (auto simp: nth_Cons' split: nat.split simp: ac_simps dest!: Suc_leI simp flip: less_Suc_eq_le)

lemma waiting_set:
  "i < length (q_deferreds s) \<Longrightarrow>
     q_waiting (set_deferred i d s) + pending_of (q_deferreds s ! i) = q_waiting s + pending_of d"
  using sum_list_set [of i "q_deferreds s" pending_of d]
  by (simp add: q_waiting_def set_deferred_def ac_simps)

lemma waiting_tick [simp]: "q_waiting (nextTick t s) = q_waiting s + tick_of t"
  by (simp add: q_waiting_def nextTick_def)

lemma waiting_say [simp]: "q_waiting (q_say x s) = q_waiting s"
  by (simp add: q_waiting_def q_say_def)

lemma log_kept [simp]:
  "q_log (nextTick t s) = q_log s" "q_log (set_deferred i d s) = q_log s" "q_log (q_say x s) = q_log s @ [x]"
  by (simp_all add: nextTick_def set_deferred_def q_say_def)

lemma log_snoc [simp]:
  "log_registered (xs @ ys) = log_registered xs @ log_registered ys"
  "log_called (xs @ ys) = log_called xs @ log_called ys" "log_lost (xs @ ys) = log_lost xs @ log_lost ys"
  by (simp_all add: log_defs)

lemma balanced_settle: "balanced X s \<Longrightarrow> balanced X (settle_deferred i r s)"
proof (cases "i < length (q_deferreds s)")
  case True
  assume b: "balanced X s"
  show ?thesis
  proof (cases "q_deferreds s ! i")
    case (Pending ws)
    then have "q_waiting (set_deferred i (Settled r) s) + mset (map fst ws) = q_waiting s"
      using waiting_set [OF True, of "Settled r"] by (simp add: pending_of_def)
    then show ?thesis
      using b Pending True
      by (auto simp: settle_deferred_def balanced_def Let_def tick_of_def ac_simps)
  qed (use b True in \<open>simp add: settle_deferred_def\<close>)
qed (simp add: settle_deferred_def)

lemma chase_prom: "chase n ds r = Some (RefProm j) \<Longrightarrow> j < length ds \<and> (\<exists>ws. ds ! j = Pending ws)"
  by (induction n ds r rule: chase.induct) (auto split: if_splits deferred.splits nat.splits)

lemma balanced_attach:
  assumes "balanced (add_mset (fst w) X) s"
  shows "balanced X (attach r w s)"
proof (cases "chase (length (q_deferreds s)) (q_deferreds s) r")
  case None
  then show ?thesis using assms by (simp add: attach_def balanced_def log_defs)
next
  case (Some r')
  show ?thesis
  proof (cases r')
    case (RefProm j)
    then obtain ws where j: "j < length (q_deferreds s)" "q_deferreds s ! j = Pending ws"
      using chase_prom Some by blast
    have "q_waiting (set_deferred j (Pending (ws @ [w])) s) + mset (map fst ws)
        = q_waiting s + mset (map fst ws) + {#fst w#}"
      using waiting_set [OF j(1), of "Pending (ws @ [w])"] j(2) by (simp add: pending_of_def ac_simps)
    then have "q_waiting (set_deferred j (Pending (ws @ [w])) s) = q_waiting s + {#fst w#}" by simp
    then show ?thesis using assms Some RefProm j by (simp add: attach_def balanced_def)
  qed (use assms Some in \<open>simp_all add: attach_def balanced_def tick_of_def\<close>)
qed

lemma balanced_deliver: "balanced (mset (map fst ws) + X) s \<Longrightarrow> balanced X (fold (attach r) ws s)"
proof (induction ws arbitrary: s)
  case (Cons w ws)
  then have "balanced (mset (map fst ws) + X) (attach r w s)" by (intro balanced_attach) simp
  then show ?case using Cons.IH by simp
qed simp

text \<open>The results are new deferred objects, each used by one call of \<open>then\<close>.\<close>

definition registered_ok :: "qstate \<Rightarrow> bool" where
  "registered_ok s \<longleftrightarrow> distinct (log_registered (q_log s))
     \<and> (\<forall>r \<in> set (log_registered (q_log s)). r < length (q_deferreds s))"

lemma length_kept [simp]:
  "length (q_deferreds (nextTick t s)) = length (q_deferreds s)" "length (q_deferreds (set_deferred i d s)) = length (q_deferreds s)"
  "length (q_deferreds (q_say x s)) = length (q_deferreds s)"
  by (simp_all add: nextTick_def set_deferred_def q_say_def)

lemma settle_kept [simp]:
  "length (q_deferreds (settle_deferred i r s)) = length (q_deferreds s)" "q_log (settle_deferred i r s) = q_log s"
  "q_alls (settle_deferred i r s) = q_alls s"
  by (auto simp: settle_deferred_def Let_def nextTick_def set_deferred_def split: deferred.split)

lemma attach_kept [simp]:
  "length (q_deferreds (attach r w s)) = length (q_deferreds s)" "log_registered (q_log (attach r w s)) = log_registered (q_log s)"
  "q_alls (attach r w s) = q_alls s"
  by (auto simp: attach_def log_defs nextTick_def set_deferred_def q_say_def split: option.split qref.split deferred.split)

definition q_inv :: "nat multiset \<Rightarrow> qstate \<Rightarrow> bool" where
  "q_inv X s \<longleftrightarrow> balanced X s \<and> registered_ok s"

lemma q_inv_settle: "q_inv X s \<Longrightarrow> q_inv X (settle_deferred i r s)"
  by (simp add: q_inv_def balanced_settle registered_ok_def)

lemma q_inv_attach: "q_inv (add_mset (fst w) X) s \<Longrightarrow> q_inv X (attach r w s)"
  by (simp add: q_inv_def balanced_attach registered_ok_def)

lemma q_inv_deliver: "q_inv (mset (map fst ws) + X) s \<Longrightarrow> q_inv X (fold (attach r) ws s)"
proof (induction ws arbitrary: s)
  case (Cons w ws)
  then have "q_inv (mset (map fst ws) + X) (attach r w s)" by (intro q_inv_attach) simp
  then show ?case using Cons.IH by simp
qed simp

lemma q_inv_defer: "q_inv X s \<Longrightarrow> q_inv X (snd (q_defer s))"
  by (auto simp: q_inv_def q_defer_def balanced_def registered_ok_def q_waiting_def pending_of_def less_Suc_eq)

lemma q_inv_then: "q_inv X s \<Longrightarrow> q_inv X (snd (q_then r cb eb s))"
proof -
  assume s: "q_inv X s"
  let ?i = "length (q_deferreds s)" and ?s1 = "snd (q_defer s)"
  have "?i \<notin> set (log_registered (q_log s))" using s by (auto simp: q_inv_def registered_ok_def)
  then have "q_inv (add_mset ?i X) (q_say (QRegister (?i, cb, eb) r) ?s1)"
    using s by (auto simp: q_inv_def q_defer_def balanced_def registered_ok_def q_waiting_def q_say_def pending_of_def log_defs less_Suc_eq)
  then have "q_inv X (attach r (?i, cb, eb) (q_say (QRegister (?i, cb, eb) r) ?s1))" by (intro q_inv_attach) simp
  then show ?thesis by (simp add: q_then_def q_defer_def)
qed

lemma q_inv_alls [simp]: "q_inv X (s\<lparr>q_alls := qs\<rparr>) = q_inv X s"
  by (simp add: q_inv_def balanced_def registered_ok_def q_waiting_def)

definition quiet :: "qlog \<Rightarrow> bool" where
  "quiet x \<longleftrightarrow> (case x of QRegister w r \<Rightarrow> False | QCall r ok v \<Rightarrow> False | QOverflow r \<Rightarrow> False | _ \<Rightarrow> True)"

lemma q_inv_say: "quiet x \<Longrightarrow> q_inv X (q_say x s) = q_inv X s"
  by (cases x) (simp_all add: quiet_def q_inv_def balanced_def registered_ok_def log_defs)

lemma q_inv_all_then: "q_inv X s \<Longrightarrow> q_inv X (all_then a ps s)"
  by (induction a ps s rule: all_then.induct) (simp_all add: q_inv_then)

lemma q_inv_all: "q_inv X s \<Longrightarrow> q_inv X (snd (q_all ps s))"
  using q_inv_defer [of X s]
  by (auto simp: q_all_def Let_def q_defer_def resolve_def q_inv_say quiet_def intro!: q_inv_all_then q_inv_settle)

lemma q_inv_rejected: "q_inv X s \<Longrightarrow> q_inv X (snd (rejected v s))"
  using q_inv_defer [of X s] by (simp add: rejected_def q_defer_def reject_def q_inv_settle)

lemma q_inv_use: "q_inv X s \<Longrightarrow> q_inv X (q_use u s)"
  by (cases u) (simp_all add: q_inv_defer q_inv_then q_inv_settle resolve_def reject_def q_inv_all)

lemma q_inv_uses: "q_inv X s \<Longrightarrow> q_inv X (fold q_use us s)"
  by (induction us arbitrary: s) (simp_all add: q_inv_use)

lemma q_inv_handler: "q_inv X s \<Longrightarrow> q_inv X (snd (run_handler env ok h v s))"
  using q_inv_rejected [of X s v]
  by (auto simp: run_handler_def all_ok_def all_err_def Let_def resolve_def reject_def q_inv_say quiet_def split_beta
      intro!: q_inv_settle q_inv_uses split: handler.split)

lemma q_inv_call: "q_inv (add_mset (fst w) X) s \<Longrightarrow> q_inv X (call_wrapped env ok w v s)"
proof -
  assume s: "q_inv (add_mset (fst w) X) s"
  obtain r cb eb where w: "w = (r, cb, eb)" by (cases w)
  have "q_inv X (q_say (QCall r ok v) s)"
    using s w by (simp add: q_inv_def balanced_def registered_ok_def log_defs)
  from q_inv_handler [OF this, of env ok "if ok then cb else eb" v] show ?thesis
    by (auto simp: call_wrapped_def w reject_def resolve_def q_inv_say quiet_def split: prod.split sum.split intro!: q_inv_settle)
qed

lemma q_inv_tick: "q_inv X s \<Longrightarrow> q_inv X (next_tick env s)"
proof (cases "q_ticks s")
  case (Cons t ts)
  assume s: "q_inv X s"
  have "q_inv (tick_of t + X) (s\<lparr>q_ticks := ts\<rparr>)"
    using s Cons by (simp add: q_inv_def balanced_def registered_ok_def q_waiting_def ac_simps)
  then show ?thesis
    using Cons q_inv_deliver q_inv_call by (cases t) (auto simp: next_tick_def tick_of_def)
qed (simp add: next_tick_def)

lemma q_inv_step: "q_inv X s \<Longrightarrow> q_inv X (q_step env e s)"
  by (cases e) (simp_all add: q_inv_use q_inv_tick)

lemma q_inv_run: "q_inv X s \<Longrightarrow> q_inv X (q_run env es s)"
  unfolding q_run_def by (induction es arbitrary: s) (simp_all add: q_inv_step)

lemma q_inv_new: "q_inv {#} new_q"
  by (simp add: q_inv_def balanced_def registered_ok_def new_q_def q_waiting_def log_defs)

text \<open>C13. Of the two callbacks given to one \<open>then\<close> at most one is ever called, and only once, whatever a program
  does with the promises and whenever the digest runs.\<close>

theorem callbacks_called_once:
  "distinct (log_called (q_log (q_run env es new_q)))
    \<and> set (log_called (q_log (q_run env es new_q))) \<subseteq> set (log_registered (q_log (q_run env es new_q)))"
proof -
  let ?s = "q_run env es new_q"
  have inv: "q_inv {#} ?s" by (rule q_inv_run [OF q_inv_new])
  moreover obtain ys where "mset ys = q_waiting ?s + mset (log_lost (q_log ?s))" using ex_mset by blast
  ultimately have eq: "mset (log_registered (q_log ?s)) = mset (log_called (q_log ?s) @ ys)"
    by (simp add: q_inv_def balanced_def ac_simps)
  have "distinct (log_registered (q_log ?s))" using inv by (simp add: q_inv_def registered_ok_def)
  then have "distinct (log_called (q_log ?s))" using mset_eq_imp_distinct_iff [OF eq] by simp
  then show ?thesis using mset_eq_setD [OF eq] by simp
qed

section \<open>The digest\<close>

lemma waiting_settle [simp]: "q_waiting (settle_deferred i r s) = q_waiting s"
proof (cases "i < length (q_deferreds s)")
  case True
  then show ?thesis
    using waiting_set [OF True, of "Settled r"]
    by (cases "q_deferreds s ! i") (auto simp: settle_deferred_def Let_def pending_of_def tick_of_def)
qed (simp add: settle_deferred_def)

lemma waiting_alls [simp]: "q_waiting (s\<lparr>q_alls := qs\<rparr>) = q_waiting s"
  by (simp add: q_waiting_def)

lemma waiting_defer [simp]: "q_waiting (snd (q_defer s)) = q_waiting s"
  by (simp add: q_waiting_def q_defer_def pending_of_def)

lemma waiting_rejected [simp]: "q_waiting (snd (rejected v s)) = q_waiting s"
  by (simp add: rejected_def reject_def split_beta)

text \<open>Callbacks that settle promises, as those of the loaders do, and register nothing.\<close>

definition settles_only :: "quse \<Rightarrow> bool" where
  "settles_only u = (case u of UThen i f g \<Rightarrow> False | UAll ps \<Rightarrow> False | _ \<Rightarrow> True)"

definition q_calm :: "q_env \<Rightarrow> bool" where
  "q_calm env \<longleftrightarrow> (\<forall>n v. list_all settles_only (fst (env n v)))"

lemma waiting_uses: "list_all settles_only us \<Longrightarrow> q_waiting (fold q_use us s) = q_waiting s"
proof (induction us arbitrary: s)
  case (Cons u us)
  then have "q_waiting (q_use u s) = q_waiting s" by (cases u) (simp_all add: settles_only_def resolve_def reject_def)
  then show ?case using Cons by simp
qed simp

lemma waiting_handler: "q_calm env \<Longrightarrow> q_waiting (snd (run_handler env ok h v s)) = q_waiting s"
  by (auto simp: run_handler_def all_ok_def all_err_def Let_def resolve_def reject_def split_beta q_calm_def waiting_uses split: handler.split)

lemma waiting_call: "q_calm env \<Longrightarrow> q_waiting (call_wrapped env ok w v s) = q_waiting s"
proof -
  assume c: "q_calm env"
  obtain r cb eb where w: "w = (r, cb, eb)" by (cases w)
  have "q_waiting s1 = q_waiting s" if "run_handler env ok h v (q_say (QCall r ok v) s) = (x, s1)" for h x s1
    using waiting_handler [OF c, of ok h v "q_say (QCall r ok v) s"] that by simp
  then show ?thesis
    by (auto simp: call_wrapped_def w reject_def resolve_def split: prod.split sum.split)
qed

definition delivers :: "qstate \<Rightarrow> nat" where
  "delivers s = length (filter (\<lambda>t. case t of Deliver r ws \<Rightarrow> True | _ \<Rightarrow> False) (q_ticks s))"

lemma attach_measure:
  "size (q_waiting (attach r w s)) \<le> Suc (size (q_waiting s)) \<and> delivers (attach r w s) = delivers s"
proof (cases "chase (length (q_deferreds s)) (q_deferreds s) r")
  case None
  then show ?thesis by (simp add: attach_def delivers_def q_say_def q_waiting_def)
next
  case (Some r')
  show ?thesis
  proof (cases r')
    case (RefProm j)
    then obtain ws where j: "j < length (q_deferreds s)" "q_deferreds s ! j = Pending ws"
      using chase_prom Some by blast
    have "size (q_waiting (set_deferred j (Pending (ws @ [w])) s) + mset (map fst ws)) = size (q_waiting s + mset (map fst (ws @ [w])))"
      using waiting_set [OF j(1), of "Pending (ws @ [w])"] j(2) by (simp add: pending_of_def)
    then show ?thesis using Some RefProm j by (simp add: attach_def delivers_def set_deferred_def)
  qed (use Some in \<open>simp_all add: attach_def tick_of_def delivers_def nextTick_def\<close>, simp_all add: q_waiting_def tick_of_def)
qed

lemma deliver_measure:
  "size (q_waiting (fold (attach r) ws s)) \<le> length ws + size (q_waiting s) \<and> delivers (fold (attach r) ws s) = delivers s"
proof (induction ws arbitrary: s)
  case (Cons w ws)
  show ?case using Cons [of "attach r w s"] attach_measure [of r w s] by simp
qed simp

text \<open>All functions that are queued, and those they queue.\<close>

partial_function (option) digest :: "q_env \<Rightarrow> qstate \<Rightarrow> qstate option" where
  "digest env s = (if q_ticks s = [] then Some s else digest env (next_tick env s))"

lemma next_tick_measure:
  assumes "q_calm env" and "q_ticks s \<noteq> []"
  shows "(next_tick env s, s) \<in> measures [\<lambda>s. size (q_waiting s), delivers]"
proof -
  obtain t ts where t: "q_ticks s = t # ts" using assms(2) by (cases "q_ticks s") auto
  let ?s = "s\<lparr>q_ticks := ts\<rparr>"
  have w: "q_waiting s = q_waiting ?s + tick_of t" using t by (simp add: q_waiting_def ac_simps)
  show ?thesis
  proof (cases t)
    case (Deliver r ws)
    then have "next_tick env s = fold (attach r) ws ?s" by (simp add: next_tick_def t)
    moreover have "delivers s = Suc (delivers ?s)" using t Deliver by (simp add: delivers_def)
    moreover have "size (q_waiting s) = length ws + size (q_waiting ?s)" using w Deliver by (simp add: tick_of_def)
    ultimately show ?thesis using deliver_measure [of r ws ?s] by auto
  next
    case (Call ok w' v)
    then show ?thesis using w by (simp add: next_tick_def t tick_of_def waiting_call [OF assms(1)])
  qed
qed

lemma digest_ends:
  assumes "q_calm env" and "q_inv X s"
  shows "\<exists>s'. digest env s = Some s' \<and> q_ticks s' = [] \<and> q_inv X s'"
  using assms(2)
proof (induction s rule: wf_induct [OF wf_measures [of "[\<lambda>s. size (q_waiting s), delivers]"]])
  case (1 s)
  show ?case
  proof (cases "q_ticks s = []")
    case True
    then show ?thesis using 1(2) by (simp add: digest.simps)
  next
    case False
    then have "\<exists>s'. digest env (next_tick env s) = Some s' \<and> q_ticks s' = [] \<and> q_inv X s'"
      using 1 next_tick_measure [OF assms(1)] q_inv_tick by blast
    then show ?thesis using False by (simp add: digest.simps [of env s])
  qed
qed

section \<open>The fuel of \<open>chase\<close>\<close>

text \<open>A chain that ends passes through each promise at most once, so that their number is enough.\<close>

definition exactly :: "deferred list \<Rightarrow> qref \<Rightarrow> nat \<Rightarrow> qref \<Rightarrow> bool" where
  "exactly ds x k r \<longleftrightarrow> chase k ds r = Some x \<and> (\<forall>i < k. chase i ds r = None)"

lemma exactly_Suc:
  assumes "exactly ds x (Suc m) r"
  shows "\<exists>j r'. r = RefProm j \<and> j < length ds \<and> ds ! j = Settled r' \<and> exactly ds x m r'"
proof -
  have s: "chase (Suc m) ds r = Some x" "\<And>i. i < Suc m \<Longrightarrow> chase i ds r = None"
    using assms by (auto simp: exactly_def)
  have "chase 0 ds r = None" using s(2) by blast
  then obtain j r' where j: "r = RefProm j" "j < length ds" "ds ! j = Settled r'"
    using s(1) by (cases r) (auto split: if_splits deferred.splits)
  moreover have "chase i ds r' = None" if "i < m" for i using s(2) [of "Suc i"] that j by simp
  moreover have "chase m ds r' = Some x" using s(1) j by simp
  ultimately show ?thesis by (auto simp: exactly_def)
qed

lemma exactly_unique: "exactly ds x a r \<Longrightarrow> exactly ds x b r \<Longrightarrow> a = b"
  unfolding exactly_def by (cases a b rule: linorder_cases) auto

lemma exactly_promises:
  "exactly ds x m r \<Longrightarrow> 1 \<le> k \<Longrightarrow> k \<le> m \<Longrightarrow> \<exists>j < length ds. exactly ds x k (RefProm j)"
proof (induction m arbitrary: r)
  case (Suc m)
  obtain j r' where j: "r = RefProm j" "j < length ds" "exactly ds x m r'"
    using exactly_Suc [OF Suc.prems(1)] by blast
  show ?case
  proof (cases "k = Suc m")
    case True
    then show ?thesis using Suc.prems(1) j by blast
  next
    case False
    then show ?thesis using Suc.IH [OF j(3) Suc.prems(2)] Suc.prems(3) by simp
  qed
qed simp

lemma chase_more: "chase n ds r = Some x \<Longrightarrow> chase (n + k) ds r = Some x"
proof (induction n arbitrary: r)
  case 0
  then show ?case by (cases r) (auto split: if_splits deferred.splits)
next
  case (Suc n)
  then show ?case by (cases r) (auto split: if_splits deferred.splits)
qed

lemma chase_enough:
  assumes "chase n ds r = Some x"
  shows "chase (length ds) ds r = Some x"
proof -
  obtain m where m: "chase m ds r = Some x" "\<forall>i < m. chase i ds r \<noteq> Some x"
    using exists_least_iff [of "\<lambda>n. chase n ds r = Some x"] assms by blast
  have "chase i ds r = None" if i: "i < m" for i
  proof (cases "chase i ds r")
    case (Some y)
    obtain k where k: "m = i + k" using less_imp_add_positive [OF i] by blast
    have "chase m ds r = Some y" using chase_more [OF Some, of k] k by simp
    then show ?thesis using m Some i by simp
  qed
  then have ex: "exactly ds x m r" using m by (simp add: exactly_def)
  define js where "js k = (SOME j. j < length ds \<and> exactly ds x k (RefProm j))" for k
  have js: "js k < length ds \<and> exactly ds x k (RefProm (js k))" if "k \<in> {1..m}" for k
    using someI_ex [OF exactly_promises [OF ex]] that unfolding js_def by auto
  have "inj_on js {1..m}"
  proof (rule inj_onI)
    fix a b assume ab: "a \<in> {1..m}" "b \<in> {1..m}" "js a = js b"
    have "exactly ds x a (RefProm (js a))" "exactly ds x b (RefProm (js a))" using js [OF ab(1)] js [OF ab(2)] ab(3) by simp_all
    then show "a = b" by (rule exactly_unique)
  qed
  moreover have "js ` {1..m} \<subseteq> {..<length ds}"
  proof
    fix j assume "j \<in> js ` {1..m}"
    then obtain k where "k \<in> {1..m}" "j = js k" by blast
    then show "j \<in> {..<length ds}" using js by blast
  qed
  ultimately have "card {1..m} \<le> card {..<length ds}" by (rule card_inj_on_le) simp
  then have "m \<le> length ds" by simp
  then have "length ds = m + (length ds - m)" by simp
  then show ?thesis using chase_more [OF m(1), of "length ds - m"] by argo
qed

section \<open>What is called with what\<close>

text \<open>What a promise was settled with, and what that was settled with, and so on.\<close>

inductive leads :: "deferred list \<Rightarrow> qref \<Rightarrow> qref \<Rightarrow> bool" for ds where
  here: "leads ds r r"
| step: "j < length ds \<Longrightarrow> ds ! j = Settled r \<Longrightarrow> leads ds r x \<Longrightarrow> leads ds (RefProm j) x"

text \<open>Promises settled with each other in a circle: whatever one comes to is one more promise that is settled.\<close>

definition circular :: "deferred list \<Rightarrow> qref \<Rightarrow> bool" where
  "circular ds r \<longleftrightarrow> (\<forall>x. leads ds r x \<longrightarrow> (\<exists>j r'. x = RefProm j \<and> j < length ds \<and> ds ! j = Settled r'))"

definition in_range :: "deferred list \<Rightarrow> qref \<Rightarrow> bool" where
  "in_range ds r \<longleftrightarrow> (\<forall>j. r = RefProm j \<longrightarrow> j < length ds)"

definition ranged :: "deferred list \<Rightarrow> bool" where
  "ranged ds \<longleftrightarrow> (\<forall>j < length ds. \<forall>r. ds ! j = Settled r \<longrightarrow> in_range ds r)"

definition later :: "deferred list \<Rightarrow> deferred list \<Rightarrow> bool" where
  "later ds ds' \<longleftrightarrow> length ds \<le> length ds' \<and> (\<forall>j < length ds. \<forall>r. ds ! j = Settled r \<longrightarrow> ds' ! j = Settled r)"

definition q_outcome :: "bool \<Rightarrow> jsval \<Rightarrow> qref" where
  "q_outcome ok v = (if ok then RefVal v else RefRejected v)"

text \<open>A callback may be called with \<open>x\<close>: what it was registered on has come to \<open>x\<close>.\<close>

definition q_owed :: "deferred list \<Rightarrow> qlog list \<Rightarrow> wrapped \<Rightarrow> qref \<Rightarrow> bool" where
  "q_owed ds xs w x \<longleftrightarrow> (\<exists>r. QRegister w r \<in> set xs \<and> leads ds r x)"

definition deferred_ok :: "deferred list \<Rightarrow> qlog list \<Rightarrow> nat \<Rightarrow> bool" where
  "deferred_ok ds xs j = (case ds ! j of
     Pending ws \<Rightarrow> \<forall>w \<in> set ws. q_owed ds xs w (RefProm j) | Settled r \<Rightarrow> in_range ds r)"

fun tick_ok :: "deferred list \<Rightarrow> qlog list \<Rightarrow> qtick \<Rightarrow> bool" where
  "tick_ok ds xs (Deliver r ws) \<longleftrightarrow> in_range ds r \<and> (\<forall>w \<in> set ws. q_owed ds xs w r)"
| "tick_ok ds xs (Call ok w v) \<longleftrightarrow> q_owed ds xs w (q_outcome ok v)"

fun q_entry_ok :: "deferred list \<Rightarrow> qlog list \<Rightarrow> qlog \<Rightarrow> bool" where
  "q_entry_ok ds xs (QRegister w r) \<longleftrightarrow> in_range ds r"
| "q_entry_ok ds xs (QCall i ok v) \<longleftrightarrow> (\<exists>cb eb. q_owed ds xs (i, cb, eb) (q_outcome ok v))"
| "q_entry_ok ds xs (QOverflow i) \<longleftrightarrow> (\<exists>cb eb r. QRegister (i, cb, eb) r \<in> set xs \<and> circular ds r)"
| "q_entry_ok ds xs x \<longleftrightarrow> True"

definition tracked :: "qstate \<Rightarrow> bool" where
  "tracked s \<longleftrightarrow> (\<forall>j < length (q_deferreds s). deferred_ok (q_deferreds s) (q_log s) j)
     \<and> (\<forall>t \<in> set (q_ticks s). tick_ok (q_deferreds s) (q_log s) t)
     \<and> (\<forall>x \<in> set (q_log s). q_entry_ok (q_deferreds s) (q_log s) x)"

lemma leads_trans: "leads ds r x \<Longrightarrow> leads ds x y \<Longrightarrow> leads ds r y"
  by (induction rule: leads.induct) (auto intro: leads.step)

lemma leads_later: "leads ds r x \<Longrightarrow> later ds ds' \<Longrightarrow> leads ds' r x"
  by (induction rule: leads.induct) (auto simp: later_def intro: leads.here leads.step)

lemma leads_range: "leads ds r x \<Longrightarrow> in_range ds r \<Longrightarrow> ranged ds \<Longrightarrow> in_range ds x"
  by (induction rule: leads.induct) (auto simp: ranged_def)

lemma chase_leads: "chase n ds r = Some x \<Longrightarrow> leads ds r x"
  by (induction n ds r rule: chase.induct)
    (auto split: if_splits deferred.splits nat.splits intro: leads.here leads.step)

lemma leads_chase: "leads ds r x \<Longrightarrow> chase n ds x = Some y \<Longrightarrow> \<exists>m. chase m ds r = Some y"
proof (induction rule: leads.induct)
  case (step j r x)
  then obtain m where "chase m ds r = Some y" by blast
  then show ?case using step by (intro exI [of _ "Suc m"]) simp
qed blast

lemma circular_later:
  assumes "circular ds r" and "later ds ds'"
  shows "circular ds' r"
proof -
  have "leads ds r x" if "leads ds' r x" "circular ds r" for r x
    using that
  proof (induction rule: leads.induct)
    case (step j r x)
    obtain r' where r': "j < length ds" "ds ! j = Settled r'"
      using step.prems leads.here [of ds "RefProm j"] unfolding circular_def by blast
    then have "r' = r" using step.hyps(2) assms(2) by (simp add: later_def)
    moreover have "circular ds r'" using step.prems r' unfolding circular_def by (blast intro: leads.step)
    ultimately show ?case using step.IH r' by (blast intro: leads.step)
  qed (rule leads.here)
  then show ?thesis using assms unfolding circular_def later_def by (metis order.strict_trans2)
qed

lemma circular_leads: "leads ds r x \<Longrightarrow> circular ds x \<Longrightarrow> circular ds r"
proof (induction rule: leads.induct)
  case (step j r x)
  have "\<exists>i r'. y = RefProm i \<and> i < length ds \<and> ds ! i = Settled r'" if "leads ds (RefProm j) y" for y
    using that step unfolding circular_def by (cases rule: leads.cases) auto
  then show ?case unfolding circular_def by blast
qed

text \<open>Where the fuel of \<open>chase\<close> ends there is a circle.\<close>

lemma chase_circular:
  assumes "chase (length ds) ds r = None" and "in_range ds r" and "ranged ds"
  shows "circular ds r"
  unfolding circular_def
proof (intro allI impI)
  fix x assume x: "leads ds r x"
  have "chase 0 ds x = None"
    using leads_chase [OF x, of 0] chase_enough [of _ ds r] assms(1) by (cases "chase 0 ds x") fastforce+
  moreover have "in_range ds x" by (rule leads_range [OF x assms(2,3)])
  ultimately show "\<exists>j r'. x = RefProm j \<and> j < length ds \<and> ds ! j = Settled r'"
    by (cases x) (auto simp: in_range_def split: deferred.splits)
qed

lemma later_refl [simp]: "later ds ds"
  by (simp add: later_def)

lemma later_trans: "later a b \<Longrightarrow> later b c \<Longrightarrow> later a c"
  by (auto simp: later_def)

lemma range_later: "in_range ds r \<Longrightarrow> later ds ds' \<Longrightarrow> in_range ds' r"
  by (auto simp: in_range_def later_def)

lemma owed_later: "q_owed ds xs w x \<Longrightarrow> later ds ds' \<Longrightarrow> set xs \<subseteq> set ys \<Longrightarrow> q_owed ds' ys w x"
  using leads_later by (fastforce simp: q_owed_def)

lemma tick_ok_later: "tick_ok ds xs t \<Longrightarrow> later ds ds' \<Longrightarrow> set xs \<subseteq> set ys \<Longrightarrow> tick_ok ds' ys t"
  by (cases t) (auto intro: owed_later range_later)

lemma entry_ok_later: "q_entry_ok ds xs x \<Longrightarrow> later ds ds' \<Longrightarrow> set xs \<subseteq> set ys \<Longrightarrow> q_entry_ok ds' ys x"
  by (cases x) (auto intro: range_later circular_later owed_later)

lemma deferred_ok_later:
  "deferred_ok ds xs j \<Longrightarrow> later ds ds' \<Longrightarrow> set xs \<subseteq> set ys \<Longrightarrow> ds' ! j = ds ! j \<Longrightarrow> deferred_ok ds' ys j"
  by (auto simp: deferred_ok_def split: deferred.splits intro: owed_later range_later)

text \<open>Promises are only added and settled, and the log only grows.\<close>

definition grows :: "qstate \<Rightarrow> qstate \<Rightarrow> bool" where
  "grows s t \<longleftrightarrow> later (q_deferreds s) (q_deferreds t) \<and> set (q_log s) \<subseteq> set (q_log t)"

lemma grows_refl [simp]: "grows s s"
  by (simp add: grows_def)

lemma grows_trans: "grows a b \<Longrightarrow> grows b c \<Longrightarrow> grows a c"
  by (auto simp: grows_def intro: later_trans)

lemma tracked_grows:
  assumes "tracked s" and "grows s t"
    and "\<And>j. j < length (q_deferreds t) \<Longrightarrow> j < length (q_deferreds s) \<and> q_deferreds t ! j = q_deferreds s ! j
           \<or> deferred_ok (q_deferreds t) (q_log t) j"
    and "\<And>x. x \<in> set (q_ticks t) \<Longrightarrow> x \<in> set (q_ticks s) \<or> tick_ok (q_deferreds t) (q_log t) x"
    and "\<And>x. x \<in> set (q_log t) \<Longrightarrow> x \<in> set (q_log s) \<or> q_entry_ok (q_deferreds t) (q_log t) x"
  shows "tracked t"
  using assms unfolding tracked_def grows_def
  by (blast intro: deferred_ok_later tick_ok_later entry_ok_later)

lemma state_kept [simp]:
  "q_deferreds (nextTick t s) = q_deferreds s" "q_ticks (nextTick t s) = q_ticks s @ [t]"
  "q_deferreds (q_say x s) = q_deferreds s" "q_ticks (q_say x s) = q_ticks s"
  "q_deferreds (set_deferred i d s) = (q_deferreds s)[i := d]" "q_ticks (set_deferred i d s) = q_ticks s"
  by (simp_all add: nextTick_def q_say_def set_deferred_def)

lemma grows_say [simp]: "grows s (q_say x s)"
  by (auto simp: grows_def)

lemma grows_tick [simp]: "grows s (nextTick t s)"
  by (simp add: grows_def)

lemma grows_defer [simp]: "grows s (snd (q_defer s))"
  by (simp add: grows_def q_defer_def later_def nth_append)

lemma grows_alls [simp]: "grows s (s\<lparr>q_alls := qs\<rparr>)"
  by (simp add: grows_def)

lemma later_set: "i < length ds \<Longrightarrow> ds ! i = Pending ws \<Longrightarrow> later ds (ds[i := d])"
  by (auto simp: later_def nth_list_update)

lemma grows_settle [simp]: "grows s (settle_deferred i r s)"
  by (auto simp: settle_deferred_def Let_def grows_def later_set split: deferred.split)

lemma grows_attach [simp]: "grows s (attach r w s)"
  by (auto simp: attach_def grows_def later_set dest: chase_prom split: option.split qref.split deferred.split)

lemma tracked_say: "tracked s \<Longrightarrow> q_entry_ok (q_deferreds s) (q_log s @ [x]) x \<Longrightarrow> tracked (q_say x s)"
  by (rule tracked_grows [of s]) auto

lemma tracked_tick: "tracked s \<Longrightarrow> tick_ok (q_deferreds s) (q_log s) t \<Longrightarrow> tracked (nextTick t s)"
  by (rule tracked_grows [of s]) auto

lemma tracked_defer: "tracked s \<Longrightarrow> tracked (snd (q_defer s))"
  by (rule tracked_grows [OF _ grows_defer]) (auto simp: q_defer_def deferred_ok_def nth_append)

lemma tracked_alls [simp]: "tracked (s\<lparr>q_alls := qs\<rparr>) = tracked s"
  by (simp add: tracked_def)

lemma tracked_pending:
  "tracked s \<Longrightarrow> j < length (q_deferreds s) \<Longrightarrow> q_deferreds s ! j = Pending ws \<Longrightarrow> w \<in> set ws \<Longrightarrow>
     q_owed (q_deferreds s) (q_log s) w (RefProm j)"
  unfolding tracked_def deferred_ok_def by fastforce

lemma tracked_ranged: "tracked s \<Longrightarrow> ranged (q_deferreds s)"
  unfolding tracked_def deferred_ok_def ranged_def by fastforce

lemma tracked_settle:
  assumes "tracked s" and "in_range (q_deferreds s) r"
  shows "tracked (settle_deferred i r s)"
proof (cases "i < length (q_deferreds s)")
  case True
  show ?thesis
  proof (cases "q_deferreds s ! i")
    case (Pending ws)
    let ?ds = "(q_deferreds s)[i := Settled r]"
    have l: "later (q_deferreds s) ?ds" using True Pending by (rule later_set)
    have "q_owed ?ds (q_log s) w r" if "w \<in> set ws" for w
    proof -
      have "q_owed ?ds (q_log s) w (RefProm i)"
        using owed_later [OF tracked_pending [OF assms(1) True Pending that] l] by simp
      moreover have "leads ?ds (RefProm i) r" using True by (auto intro: leads.intros)
      ultimately show ?thesis unfolding q_owed_def by (blast intro: leads_trans)
    qed
    moreover have "in_range ?ds r" using assms(2) l by (rule range_later)
    ultimately show ?thesis
      using True Pending
      by (intro tracked_grows [OF assms(1) grows_settle])
        (auto simp: settle_deferred_def Let_def deferred_ok_def nth_list_update split: if_splits)
  qed (use assms True in \<open>simp add: settle_deferred_def\<close>)
qed (use assms in \<open>simp add: settle_deferred_def\<close>)

lemma tracked_attach:
  assumes "tracked s" and "in_range (q_deferreds s) r" and "q_owed (q_deferreds s) (q_log s) w r"
  shows "tracked (attach r w s)"
proof -
  let ?ds = "q_deferreds s"
  obtain r0 where reg: "QRegister w r0 \<in> set (q_log s)" "leads ?ds r0 r" using assms(3) by (auto simp: q_owed_def)
  show ?thesis
  proof (cases "chase (length ?ds) ?ds r")
    case None
    then have "circular ?ds r0"
      using chase_circular [OF _ assms(2) tracked_ranged [OF assms(1)]] circular_leads [OF reg(2)] by blast
    then have "q_entry_ok ?ds (q_log s @ [QOverflow (fst w)]) (QOverflow (fst w))"
      using reg(1) by (cases w) auto
    then show ?thesis using None by (simp add: attach_def tracked_say [OF assms(1)])
  next
    case (Some x)
    then have "leads ?ds r x" by (rule chase_leads)
    then have o: "q_owed ?ds (q_log s) w x" using assms(3) unfolding q_owed_def by (blast intro: leads_trans)
    show ?thesis
    proof (cases x)
      case (RefProm j)
      then obtain ws where j: "j < length ?ds" "?ds ! j = Pending ws" using chase_prom Some by blast
      let ?ds' = "?ds[j := Pending (ws @ [w])]"
      have l: "later ?ds ?ds'" using j by (rule later_set)
      have "q_owed ?ds' (q_log s) w' (RefProm j)" if "w' \<in> set (ws @ [w])" for w'
      proof (cases "w' = w")
        case True
        then show ?thesis using owed_later [OF o l subset_refl] RefProm by simp
      next
        case False
        then show ?thesis using that owed_later [OF tracked_pending [OF assms(1) j] l subset_refl] by simp
      qed
      then have "deferred_ok ?ds' (q_log s) j" using j by (simp add: deferred_ok_def)
      then show ?thesis
        using Some RefProm j
        by (intro tracked_grows [OF assms(1) grows_attach]) (auto simp: attach_def nth_list_update split: if_splits)
    qed (use Some o in \<open>simp_all add: attach_def tracked_tick [OF assms(1)] q_outcome_def\<close>)
  qed
qed

lemma deliver_tracked:
  "tracked s \<Longrightarrow> tick_ok (q_deferreds s) (q_log s) (Deliver r ws) \<Longrightarrow>
     tracked (fold (attach r) ws s) \<and> grows s (fold (attach r) ws s)"
proof (induction ws arbitrary: s)
  case (Cons w ws)
  have "tracked (attach r w s)" using Cons.prems by (intro tracked_attach) simp_all
  moreover have "tick_ok (q_deferreds (attach r w s)) (q_log (attach r w s)) (Deliver r ws)"
  proof (rule tick_ok_later)
    show "tick_ok (q_deferreds s) (q_log s) (Deliver r ws)" using Cons.prems(2) by simp
  qed (use grows_attach [of s r w] in \<open>simp_all only: grows_def\<close>)
  ultimately have "tracked (fold (attach r) ws (attach r w s)) \<and> grows (attach r w s) (fold (attach r) ws (attach r w s))"
    by (rule Cons.IH)
  then show ?case unfolding fold_simps by (auto intro: grows_trans [OF grows_attach [of s r w]])
qed simp

section \<open>What \<open>all\<close> answers\<close>

text \<open>
  What \<open>all\<close> registers is registered on the promise of its argument under the same key, and the results it collects
  are what these promises have come to.
\<close>

definition reg_ok :: "qall list \<Rightarrow> wrapped \<Rightarrow> qref \<Rightarrow> bool" where
  "reg_ok qs w r = (case w of (i, cb, eb) \<Rightarrow>
     (case cb of
        AllOk a key \<Rightarrow> a < length qs \<and> (\<exists>p. map_of (qa_args (qs ! a)) key = Some p \<and> r = qref_of p)
      | _ \<Rightarrow> True)
     \<and> (case eb of AllOk a key \<Rightarrow> False | _ \<Rightarrow> True))"

definition comes_to :: "deferred list \<Rightarrow> (string \<times> qval) list \<Rightarrow> string \<Rightarrow> jsval \<Rightarrow> bool" where
  "comes_to ds ps key v \<longleftrightarrow> (\<exists>p. map_of ps key = Some p \<and> leads ds (qref_of p) (RefVal v))"

definition q_answered :: "deferred list \<Rightarrow> (string \<times> qval) list \<Rightarrow> (string \<times> jsval) list \<Rightarrow> bool" where
  "q_answered ds ps fs \<longleftrightarrow> distinct (map fst fs) \<and> (\<forall>(key, v) \<in> set fs. comes_to ds ps key v)"

definition all_entry_ok :: "deferred list \<Rightarrow> qall \<Rightarrow> bool" where
  "all_entry_ok ds q \<longleftrightarrow> distinct (qa_keys q) \<and> q_answered ds (qa_args q) (qa_results q)
     \<and> qa_counter q + length (qa_results q) = length (qa_args q)"

fun all_log_ok :: "qstate \<Rightarrow> qlog \<Rightarrow> bool" where
  "all_log_ok s (QRegister w r) \<longleftrightarrow> reg_ok (q_alls s) w r"
| "all_log_ok s (QAll a fs) \<longleftrightarrow> a < length (q_alls s) \<and> fst ` set fs = set (qa_keys (q_alls s ! a))
     \<and> q_answered (q_deferreds s) (qa_args (q_alls s ! a)) fs"
| "all_log_ok s x \<longleftrightarrow> True"

definition sound :: "qstate \<Rightarrow> bool" where
  "sound s \<longleftrightarrow> tracked s \<and> list_all (all_entry_ok (q_deferreds s)) (q_alls s) \<and> list_all (all_log_ok s) (q_log s)"

lemma comes_to_later: "comes_to ds ps key v \<Longrightarrow> later ds ds' \<Longrightarrow> comes_to ds' ps key v"
  by (auto simp: comes_to_def intro: leads_later)

lemma comes_to_key: "comes_to ds ps key v \<Longrightarrow> key \<in> fst ` set ps"
  by (force simp: comes_to_def dest: map_of_SomeD)

lemma answered_later: "q_answered ds ps fs \<Longrightarrow> later ds ds' \<Longrightarrow> q_answered ds' ps fs"
  by (fastforce simp: q_answered_def intro: comes_to_later)

lemma answered_keys: "q_answered ds ps fs \<Longrightarrow> fst ` set fs \<subseteq> fst ` set ps"
  by (fastforce simp: q_answered_def dest: comes_to_key)

lemma all_log_ok_later: "all_log_ok s x \<Longrightarrow> grows s t \<Longrightarrow> q_alls t = q_alls s \<Longrightarrow> all_log_ok t x"
  by (cases x) (auto simp: grows_def intro: answered_later)

lemma sound_grows:
  assumes "sound s" and "grows s t" and "tracked t" and "q_alls t = q_alls s"
    and "\<And>x. x \<in> set (q_log t) \<Longrightarrow> x \<in> set (q_log s) \<or> all_log_ok t x"
  shows "sound t"
proof -
  have "all_entry_ok (q_deferreds t) q" if "q \<in> set (q_alls t)" for q
    using assms(1,2,4) that by (auto simp: sound_def list_all_iff all_entry_ok_def grows_def intro: answered_later)
  moreover have "all_log_ok t x" if "x \<in> set (q_log t)" for x
    using assms(1) assms(5) [OF that] all_log_ok_later [OF _ assms(2,4)] by (auto simp: sound_def list_all_iff)
  ultimately show ?thesis using assms(3) by (simp add: sound_def list_all_iff)
qed

lemma sound_tracked: "sound s \<Longrightarrow> tracked s"
  by (simp add: sound_def)

lemma alls_kept [simp]:
  "q_alls (nextTick t s) = q_alls s" "q_alls (set_deferred i d s) = q_alls s" "q_alls (q_say x s) = q_alls s"
  by (simp_all add: nextTick_def set_deferred_def q_say_def)

lemma attach_log: "q_log (attach r w s) = q_log s \<or> q_log (attach r w s) = q_log s @ [QOverflow (fst w)]"
  by (auto simp: attach_def split: option.split qref.split deferred.split)

lemma defer_kept [simp]: "q_alls (snd (q_defer s)) = q_alls s" "q_log (snd (q_defer s)) = q_log s"
  by (simp_all add: q_defer_def)

lemma sound_settle: "sound s \<Longrightarrow> in_range (q_deferreds s) r \<Longrightarrow> sound (settle_deferred i r s)"
  by (rule sound_grows [of s]) (auto intro: tracked_settle sound_tracked)

lemma sound_defer: "sound s \<Longrightarrow> sound (snd (q_defer s))"
  by (rule sound_grows [of s]) (auto intro: tracked_defer sound_tracked)

lemma sound_say:
  "sound s \<Longrightarrow> q_entry_ok (q_deferreds s) (q_log s @ [x]) x \<Longrightarrow> all_log_ok (q_say x s) x \<Longrightarrow> sound (q_say x s)"
  by (rule sound_grows [of s]) (auto intro: tracked_say sound_tracked)

lemma sound_attach:
  assumes "sound s" and "in_range (q_deferreds s) r" and "q_owed (q_deferreds s) (q_log s) w r"
  shows "sound (attach r w s)"
proof (rule sound_grows [OF assms(1) grows_attach])
  show "tracked (attach r w s)" by (rule tracked_attach [OF sound_tracked [OF assms(1)] assms(2,3)])
  show "\<And>x. x \<in> set (q_log (attach r w s)) \<Longrightarrow> x \<in> set (q_log s) \<or> all_log_ok (attach r w s) x"
    using attach_log [of r w s] by auto
qed simp

lemma deliver_sound:
  assumes "sound s" and "tick_ok (q_deferreds s) (q_log s) (Deliver r ws)"
  shows "sound (fold (attach r) ws s)"
proof -
  have "q_alls (fold (attach r) ws s) = q_alls s
      \<and> (\<forall>x \<in> set (q_log (fold (attach r) ws s)). x \<in> set (q_log s) \<or> (\<exists>i. x = QOverflow i))" for s
  proof (induction ws arbitrary: s)
    case (Cons w ws)
    show ?case using Cons [of "attach r w s"] attach_log [of r w s] by auto
  qed simp
  then show ?thesis
    using deliver_tracked [OF sound_tracked [OF assms(1)] assms(2)]
    by (intro sound_grows [OF assms(1)]) fastforce+
qed

lemma then_alls [simp]: "q_alls (snd (q_then r cb eb s)) = q_alls s"
  by (simp add: q_then_def split_beta)

lemma grows_then: "grows s (snd (q_then r cb eb s))"
  by (simp add: q_then_def split_beta) (rule grows_trans [OF grows_defer grows_trans [OF grows_say grows_attach]])

lemma sound_then:
  assumes "sound s" and "in_range (q_deferreds s) r" and "\<And>i. reg_ok (q_alls s) (i, cb, eb) r"
  shows "sound (snd (q_then r cb eb s))"
proof -
  let ?i = "length (q_deferreds s)" and ?s1 = "snd (q_defer s)"
  have r: "in_range (q_deferreds ?s1) r"
    using assms(2) grows_defer [of s] range_later unfolding grows_def by blast
  have "sound (q_say (QRegister (?i, cb, eb) r) ?s1)"
    by (rule sound_say [OF sound_defer [OF assms(1)]]) (use assms(3) r in simp_all)
  then have "sound (attach r (?i, cb, eb) (q_say (QRegister (?i, cb, eb) r) ?s1))"
    by (rule sound_attach) (use r in \<open>auto simp: q_owed_def intro: leads.here\<close>)
  then show ?thesis by (simp add: q_then_def q_defer_def)
qed

lemma all_then_kept [simp]: "q_alls (all_then a ps s) = q_alls s"
  by (induction a ps s rule: all_then.induct) simp_all

lemma sound_all_then:
  "sound s \<Longrightarrow> a < length (q_alls s) \<Longrightarrow>
     \<forall>(key, p) \<in> set ps. map_of (qa_args (q_alls s ! a)) key = Some p \<and> in_range (q_deferreds s) (qref_of p) \<Longrightarrow>
     sound (all_then a ps s)"
proof (induction a ps s rule: all_then.induct)
  case (2 a key p ps s)
  let ?s = "snd (q_then (qref_of p) (AllOk a key) (AllErr a key) s)"
  have "sound ?s" by (rule sound_then) (use 2(2-) in \<open>simp_all add: reg_ok_def\<close>)
  moreover have "in_range (q_deferreds ?s) (qref_of p')" if "(k', p') \<in> set ps" for k' p'
    using 2(4) that grows_then [of s "qref_of p" "AllOk a key" "AllErr a key"] range_later unfolding grows_def by fastforce
  ultimately show ?case using 2 by fastforce
qed simp

lemma sound_new_all:
  assumes "sound s" and "distinct (map fst ps)"
  shows "sound (s\<lparr>q_alls := q_alls s @ [\<lparr>qa_deferred = d, qa_args = ps, qa_counter = length ps, qa_results = []\<rparr>]\<rparr>)"
proof -
  let ?q = "\<lparr>qa_deferred = d, qa_args = ps, qa_counter = length ps, qa_results = []\<rparr>"
  have "all_log_ok (s\<lparr>q_alls := q_alls s @ [?q]\<rparr>) x" if "x \<in> set (q_log s)" for x
    using assms(1) that
    by (cases x) (force simp: sound_def list_all_iff reg_ok_def nth_append split: prod.split handler.split)+
  then show ?thesis
    using assms by (auto simp: sound_def list_all_iff all_entry_ok_def q_answered_def)
qed

lemma in_range_val [simp]: "in_range ds (RefVal v)" "in_range ds (RefRejected v)"
  by (simp_all add: in_range_def)

lemma sound_all:
  assumes "sound s" and "distinct (map fst ps)" and "\<forall>(key, p) \<in> set ps. in_range (q_deferreds s) (qref_of p)"
  shows "sound (snd (q_all ps s))"
proof -
  let ?s1 = "snd (q_defer s)" and ?d = "fst (q_defer s)"
  let ?s2 = "?s1\<lparr>q_alls := q_alls ?s1 @ [\<lparr>qa_deferred = ?d, qa_args = ps, qa_counter = length ps, qa_results = []\<rparr>]\<rparr>"
  have s2: "sound ?s2" by (rule sound_new_all [OF sound_defer [OF assms(1)] assms(2)])
  have "in_range (q_deferreds ?s1) (qref_of p)" if "(key, p) \<in> set ps" for key p
    using assms(3) that grows_defer [of s] range_later unfolding grows_def by fastforce
  then have s3: "sound (all_then (length (q_alls s)) ps ?s2)"
    using assms(2) by (intro sound_all_then [OF s2]) auto
  show ?thesis
  proof (cases "ps = []")
    case True
    have "sound (q_say (QAll (length (q_alls s)) []) ?s2)"
      by (rule sound_say [OF s2]) (simp_all add: q_answered_def True)
    then show ?thesis using True by (simp add: q_all_def Let_def split_beta resolve_def sound_settle)
  next
    case False
    then show ?thesis using s3 by (simp add: q_all_def Let_def split_beta)
  qed
qed

lemma given_range [simp]: "in_range (q_deferreds s) (qref_of (given s v))"
  by (cases v) (simp_all add: in_range_def)

lemma given_result: "map_sum id (given s) x = Inr y \<Longrightarrow> in_range (q_deferreds s) (qref_of y)"
  by (cases x) auto

lemma sound_use: "sound s \<Longrightarrow> sound (q_use u s)"
proof (cases u)
  case (UAll ps)
  then show "sound s \<Longrightarrow> sound (q_use u s)"
    by (auto simp: split_beta comp_def intro!: sound_all)
qed (simp_all add: sound_defer sound_settle resolve_def reject_def,
  simp add: sound_then in_range_def reg_ok_def handler_of_def split: option.split)

lemma sound_uses: "sound s \<Longrightarrow> sound (fold q_use us s)"
  by (induction us arbitrary: s) (simp_all add: sound_use)

lemma sound_rejected:
  "sound s \<Longrightarrow> sound (snd (rejected v s)) \<and> in_range (q_deferreds (snd (rejected v s))) (RefProm (fst (rejected v s)))"
  using sound_defer [of s]
  by (simp add: rejected_def reject_def split_beta sound_settle) (simp add: in_range_def q_defer_def)

lemma sound_result:
  assumes "sound s" and "a < length (q_alls s)" and "map_of (qa_args (q_alls s ! a)) key = Some p"
    and "map_of (qa_results (q_alls s ! a)) key = None" and "leads (q_deferreds s) (qref_of p) (RefVal v)"
  defines "q \<equiv> (q_alls s ! a)\<lparr>qa_counter := qa_counter (q_alls s ! a) - 1, qa_results := qa_results (q_alls s ! a) @ [(key, v)]\<rparr>"
  shows "sound (s\<lparr>q_alls := (q_alls s)[a := q]\<rparr>)" and "all_entry_ok (q_deferreds s) q"
proof -
  have old: "all_entry_ok (q_deferreds s) (q_alls s ! a)" using assms(1,2) by (simp add: sound_def list_all_length)
  have new: "key \<notin> fst ` set (qa_results (q_alls s ! a))" using assms(4) by (simp add: map_of_eq_None_iff)
  have "comes_to (q_deferreds s) (qa_args (q_alls s ! a)) key v" using assms(3,5) by (auto simp: comes_to_def)
  then have ans: "q_answered (q_deferreds s) (qa_args q) (qa_results q)"
    using old new by (auto simp: q_def all_entry_ok_def q_answered_def)
  moreover have "length (qa_results (q_alls s ! a)) < length (qa_args (q_alls s ! a))"
  proof -
    have "fst ` set (qa_results q) \<subseteq> set (qa_keys (q_alls s ! a))"
      using answered_keys [OF ans] by (simp add: q_def)
    then have "card (fst ` set (qa_results q)) \<le> card (set (qa_keys (q_alls s ! a)))" by (intro card_mono) simp_all
    moreover have "card (fst ` set (qa_results q)) = length (qa_results q)"
      using ans distinct_card [of "map fst (qa_results q)"] by (simp add: q_answered_def)
    moreover have "card (set (qa_keys (q_alls s ! a))) = length (qa_args (q_alls s ! a))"
      using old distinct_card [of "qa_keys (q_alls s ! a)"] by (simp add: all_entry_ok_def)
    ultimately show ?thesis by (simp add: q_def)
  qed
  ultimately show q: "all_entry_ok (q_deferreds s) q" using old by (simp add: all_entry_ok_def q_def)
  have args: "qa_args ((q_alls s)[a := q] ! b) = qa_args (q_alls s ! b)" if "b < length (q_alls s)" for b
    using assms(2) that by (simp add: nth_list_update q_def)
  have "all_log_ok (s\<lparr>q_alls := (q_alls s)[a := q]\<rparr>) x" if "x \<in> set (q_log s)" for x
  proof -
    have "all_log_ok s x" using assms(1) that unfolding sound_def list_all_iff by blast
    then show ?thesis using args by (cases x) (auto simp: reg_ok_def split: prod.split handler.split)
  qed
  moreover have "list_all (all_entry_ok (q_deferreds s)) ((q_alls s)[a := q])"
  proof -
    have "r = q \<or> r \<in> set (q_alls s)" if "r \<in> set ((q_alls s)[a := q])" for r
      using that set_update_subset_insert by fastforce
    then show ?thesis using assms(1) q unfolding sound_def list_all_iff by blast
  qed
  ultimately show "sound (s\<lparr>q_alls := (q_alls s)[a := q]\<rparr>)"
    using assms(1) by (simp add: sound_def list_all_iff)
qed

lemma all_keys:
  assumes "all_entry_ok ds q" and "qa_counter q = 0"
  shows "fst ` set (qa_results q) = set (qa_keys q)"
proof (rule card_subset_eq)
  show "fst ` set (qa_results q) \<subseteq> set (qa_keys q)"
    using assms(1) answered_keys [of ds "qa_args q" "qa_results q"] by (simp add: all_entry_ok_def)
  show "card (fst ` set (qa_results q)) = card (set (qa_keys q))"
    using assms distinct_card [of "map fst (qa_results q)"] distinct_card [of "qa_keys q"]
    by (simp add: all_entry_ok_def q_answered_def)
qed simp

lemma sound_all_ok:
  assumes "sound s" and "a < length (q_alls s)" and "map_of (qa_args (q_alls s ! a)) key = Some p"
    and "leads (q_deferreds s) (qref_of p) (RefVal v)"
  shows "sound (all_ok a key v s)"
proof (cases "map_of (qa_results (q_alls s ! a)) key")
  case None
  let ?q = "(q_alls s ! a)\<lparr>qa_counter := qa_counter (q_alls s ! a) - 1, qa_results := qa_results (q_alls s ! a) @ [(key, v)]\<rparr>"
  let ?s = "s\<lparr>q_alls := (q_alls s)[a := ?q]\<rparr>"
  note inv = sound_result [OF assms(1-3) None assms(4)]
  have "sound (q_say (QAll a (qa_results ?q)) ?s)" if "qa_counter ?q = 0"
    by (rule sound_say [OF inv(1)])
      (use assms(2) all_keys [OF inv(2) that] inv(2) in \<open>simp_all add: all_entry_ok_def\<close>)
  then show ?thesis
    using None inv(1) assms(2) by (simp add: all_ok_def Let_def resolve_def sound_settle)
qed (use assms in \<open>simp add: all_ok_def\<close>)

lemma sound_handler:
  assumes "sound s" and "q_owed (q_deferreds s) (q_log s) (i, cb, eb) (q_outcome ok v)"
    and "run_handler env ok (if ok then cb else eb) v s = (x, s1)"
  shows "sound s1 \<and> (\<forall>y. x = Inr y \<longrightarrow> in_range (q_deferreds s1) (qref_of y))"
proof -
  obtain r where r: "QRegister (i, cb, eb) r \<in> set (q_log s)" "leads (q_deferreds s) r (q_outcome ok v)"
    using assms(2) by (auto simp: q_owed_def)
  have reg: "reg_ok (q_alls s) (i, cb, eb) r" using assms(1) r(1) by (fastforce simp: sound_def list_all_iff)
  show ?thesis
  proof (cases "if ok then cb else eb")
    case NoFun
    then show ?thesis using assms(1,3) sound_rejected [OF assms(1), of v]
      by (auto simp: run_handler_def split: if_splits prod.splits)
  next
    case (User n)
    have "sound (q_say (QUser n v) s)" by (rule sound_say [OF assms(1)]) simp_all
    then have "sound (fold q_use us (q_say (QUser n v) s))" for us by (rule sound_uses)
    then show ?thesis using assms(3) User by (auto simp: run_handler_def Let_def given_result split: prod.splits)
  next
    case (AllOk a key)
    then have ok: "ok" "cb = AllOk a key" using reg by (auto simp: reg_ok_def split: if_splits)
    obtain p where "a < length (q_alls s)" "map_of (qa_args (q_alls s ! a)) key = Some p" "r = qref_of p"
      using reg ok by (auto simp: reg_ok_def)
    then have "sound (all_ok a key v s)"
      using sound_all_ok [OF assms(1)] r(2) ok by (simp add: q_outcome_def)
    then show ?thesis using assms(3) AllOk by (auto simp: run_handler_def)
  next
    case (AllErr a key)
    then show ?thesis using assms(1,3)
      by (auto simp: run_handler_def all_err_def Let_def reject_def intro!: sound_settle)
  qed
qed

lemma sound_call:
  assumes "sound s" and "q_owed (q_deferreds s) (q_log s) w (q_outcome ok v)"
  shows "sound (call_wrapped env ok w v s)"
proof -
  obtain i cb eb where w: "w = (i, cb, eb)" by (cases w)
  let ?s = "q_say (QCall i ok v) s"
  have o: "q_owed (q_deferreds ?s) (q_log ?s) (i, cb, eb) (q_outcome ok v)"
    using assms(2) w by (auto simp: q_owed_def)
  have "sound ?s" by (rule sound_say [OF assms(1)]) (use o in auto)
  from sound_handler [OF this o, of env] show ?thesis
    by (auto simp: call_wrapped_def w reject_def resolve_def split: prod.split sum.split
      intro!: sound_settle sound_say)
qed

lemma sound_tick: "sound s \<Longrightarrow> sound (next_tick env s)"
proof (cases "q_ticks s")
  case (Cons t ts)
  assume s: "sound s"
  have "sound (s\<lparr>q_ticks := ts\<rparr>)"
    by (rule sound_grows [OF s]) (use s Cons in \<open>auto simp: sound_def tracked_def grows_def\<close>)
  moreover have "tick_ok (q_deferreds s) (q_log s) t" using s Cons by (simp add: sound_def tracked_def)
  ultimately show ?thesis
    using Cons by (cases t) (auto simp: next_tick_def intro!: deliver_sound sound_call)
qed (simp add: next_tick_def)

lemma sound_run: "sound s \<Longrightarrow> sound (q_run env es s)"
proof -
  have "sound (q_step env e s)" if "sound s" for e s
    using that by (cases e) (simp_all add: sound_use sound_tick)
  then show "sound s \<Longrightarrow> sound (q_run env es s)"
    unfolding q_run_def by (induction es arbitrary: s) simp_all
qed

lemma sound_new: "sound new_q"
  by (simp add: sound_def tracked_def new_q_def)

lemma sound_digest: "digest env s = Some s' \<Longrightarrow> sound s \<longrightarrow> sound s'"
  by (erule digest.raw_induct [rotated, where P = "\<lambda>env s s'. sound s \<longrightarrow> sound s'"])
    (auto split: if_splits intro: sound_tick)

text \<open>C14. When the callbacks of the application settle promises but register nothing, a digest comes to an end.
  Then every callback that was ever registered has been called exactly once, waits at a promise that is not settled,
  or was registered on a promise that is settled with others in a circle, where \<open>then\<close> overflows the stack.  One that
  was called was called with the value or the reason that what it was registered on has come to, and one that waits
  waits at the promise that what it was registered on has come to.\<close>

theorem digest_answers:
  assumes "q_calm env"
  shows "\<exists>s. digest env (q_run env es new_q) = Some s \<and> q_ticks s = []
    \<and> mset (log_registered (q_log s))
        = mset (log_called (q_log s)) + (\<Sum>d \<leftarrow> q_deferreds s. pending_of d) + mset (log_lost (q_log s))
    \<and> (\<forall>i ok v. QCall i ok v \<in> set (q_log s) \<longrightarrow> (\<exists>cb eb r. QRegister (i, cb, eb) r \<in> set (q_log s)
          \<and> leads (q_deferreds s) r (if ok then RefVal v else RefRejected v)))
    \<and> (\<forall>j ws w. j < length (q_deferreds s) \<longrightarrow> q_deferreds s ! j = Pending ws \<longrightarrow> w \<in> set ws \<longrightarrow>
          (\<exists>r. QRegister w r \<in> set (q_log s) \<and> leads (q_deferreds s) r (RefProm j)))
    \<and> (\<forall>i. QOverflow i \<in> set (q_log s) \<longrightarrow> (\<exists>cb eb r. QRegister (i, cb, eb) r \<in> set (q_log s)
          \<and> circular (q_deferreds s) r))"
proof -
  obtain s where s: "digest env (q_run env es new_q) = Some s" "q_ticks s = []" "q_inv {#} s"
    using digest_ends [OF assms q_inv_run [OF q_inv_new]] by blast
  have t: "tracked s" by (rule sound_tracked) (use sound_digest [OF s(1)] sound_run [OF sound_new] in blast)
  have entry: "q_entry_ok (q_deferreds s) (q_log s) x" if "x \<in> set (q_log s)" for x
    using t that unfolding tracked_def by blast
  have "mset (log_registered (q_log s))
      = mset (log_called (q_log s)) + (\<Sum>d \<leftarrow> q_deferreds s. pending_of d) + mset (log_lost (q_log s))"
    using s(2,3) by (simp add: q_inv_def balanced_def q_waiting_def ac_simps)
  then show ?thesis
    using s(1,2) tracked_pending [OF t] entry [of "QCall i ok v" for i ok v] entry [of "QOverflow i" for i]
    unfolding q_owed_def q_outcome_def q_entry_ok.simps by blast
qed

text \<open>C18. \<open>all\<close> answers with success only when every promise of its argument has come to a value, and then with the
  value of each of them under its key.\<close>

theorem all_complete:
  assumes "QAll a fs \<in> set (q_log (q_run env es new_q))"
  shows "a < length (q_alls (q_run env es new_q))
    \<and> set (map fst fs) = set (qa_keys (q_alls (q_run env es new_q) ! a)) \<and> distinct (map fst fs)
    \<and> (\<forall>(key, v) \<in> set fs. \<exists>p. map_of (qa_args (q_alls (q_run env es new_q) ! a)) key = Some p
          \<and> leads (q_deferreds (q_run env es new_q)) (qref_of p) (RefVal v))"
proof -
  have "sound (q_run env es new_q)" by (rule sound_run [OF sound_new])
  then have "all_log_ok (q_run env es new_q) (QAll a fs)" using assms unfolding sound_def list_all_iff by blast
  then show ?thesis by (simp add: q_answered_def comes_to_def)
qed

section \<open>The loaders of a page\<close>

text \<open>
  Two loaders: each resolves its own promise when the resource has answered, and rejects it otherwise; the route
  waits for both.  The second resource fails in the second run.
\<close>

definition loader_env :: q_env where
  "loader_env n v =
     (if n = 0 then ([UResolve 2 (QVal v)], Inr (QVal v)) else if n = 1 then ([UReject 2 (Str ''Unable to fetch'')], Inr (QVal v))
      else if n = 2 then ([UResolve 3 (QVal v)], Inr (QVal v)) else ([UReject 3 (Str ''Unable to fetch'')], Inr (QVal v)))"

definition two_loaders :: "qevent list" where
  "two_loaders = map EUse [UDefer, UDefer, UDefer, UDefer, UThen 0 (Some 0) (Some 1), UThen 1 (Some 2) (Some 3),
     UAll [(''realm'', QProm 2), (''user'', QProm 3)], UResolve 0 (QVal (Str ''demo'')), UResolve 1 (QVal (Str ''bob''))]
     @ replicate 8 ETick"

lemma two_loaders_answer:
  "QAll 0 [(''realm'', Str ''demo''), (''user'', Str ''bob'')] \<in> set (q_log (q_run loader_env two_loaders new_q))"
  by code_simp

theorem all_complete_witness:
  "set (qa_keys (q_alls (q_run loader_env two_loaders new_q) ! 0)) = {''realm'', ''user''}
    \<and> (\<exists>p. map_of (qa_args (q_alls (q_run loader_env two_loaders new_q) ! 0)) ''user'' = Some p
          \<and> leads (q_deferreds (q_run loader_env two_loaders new_q)) (qref_of p) (RefVal (Str ''bob'')))"
  using all_complete [OF two_loaders_answer] by auto

definition failing_loader :: "qevent list" where
  "failing_loader = take 7 two_loaders @ map EUse [UResolve 0 (QVal (Str ''demo'')), UReject 1 Null]"

theorem digest_answers_witness:
  "\<exists>s. digest loader_env (q_run loader_env failing_loader new_q) = Some s \<and> q_ticks s = []"
proof -
  have "q_calm loader_env" by (simp add: q_calm_def loader_env_def settles_only_def)
  from digest_answers [OF this, of failing_loader] show ?thesis by blast
qed

end
