(* ===== verification/Spec2Isabelle.thy ===== *)
theory Spec2Isabelle
  imports Kc_Client Admin_Console Admin_Typed Admin_Views Ng_Router Ng_Promise
begin

text \<open>
  The browser side of Keycloak: the adapter \<open>keycloak.js\<close>, which logs a web application in, and the
  administration console, an Angular application on top of it.

  \<^bold>\<open>The adapter\<close> (\<open>integration/js/src/main/resources/keycloak.js\<close>).  A client object keeps the tokens, a queue of
  refresh requests and the state of the hidden login frame; everything it starts is asynchronous and answers
  through promise objects on which an application registers callbacks.  The theories follow the file:
  \<^item> \<open>Prelude\<close>, \<open>Js_Uri\<close>: JavaScript values, exceptions, strings, computations that keep what was written before
    a throw; \<open>encodeURIComponent\<close> and its inverse.
  \<^item> \<open>Kc_Promise\<close>, \<open>Kc_Types\<close>: the promise objects, which live in a heap since several parts share them, and the
    state of the client, with the instructions that stand for callbacks (\<open>cont\<close>, \<open>instr\<close>).
  \<^item> \<open>Kc_Url\<close>: identifiers, login, logout and account addresses, the parsing of the address a login comes back to.
  \<^item> \<open>Kc_Token\<close>: decoding and storing tokens, roles, expiry.  \<open>Kc_Iframe\<close>: the login frame and its messages.
    \<open>Kc_Adapter\<close>: the page and the Cordova adapter.  \<open>Kc_Refresh\<close>: \<open>updateToken\<close> and its answer.
    \<open>Kc_Init\<close>: \<open>init\<close>, the configuration, the exchange of a code.
  \<^item> \<open>Kc_Machine\<close>: the client as a transition system.  An event (a call of the application, a response, a message,
    a timer) starts a turn, a list of instructions that run until none is left; \<open>step\<close> runs one of them.
  \<^item> \<open>Kc_Heap\<close>, \<open>Kc_Wf\<close>, \<open>Kc_Turns\<close>, \<open>Kc_Queue\<close>: what operations keep of the heap, the well-formedness invariant,
    the measure by which every turn ends, and the invariant of the refresh queue by rule induction over
    reachable states.  \<open>Kc_Client\<close>: what the operations do, end to end.  \<open>Kc_Demo\<close>: a concrete client for the witnesses.
    \<open>Kc_Private\<close>: a promise that nothing else holds changes only through its own callbacks.

  \<^bold>\<open>The console\<close> (\<open>forms/common-themes/src/main/resources/theme/admin/base/resources/js\<close>).  A path selects a route of
  \<open>app.js\<close>; its loaders (\<open>loaders.js\<close>) fetch what the page shows through the resource objects of \<open>services.js\<close>, and
  its controller (\<open>controllers/*.js\<close>) keeps the scope of the page.  A controller is a record, with one function for
  the opening of the page, one for each function of its scope, and one for each answer; a function returns the new
  scope and the list of its effects (\<open>ceffect\<close>: requests, notifications, dialogs, changes of the path).
  An exception is a value \<open>Inl\<close>.  The deep watches of Angular are functions that run after an edit.
  \<^item> \<open>Admin_Base\<close>: objects as lists of fields, arithmetic, \<open>angular.equals\<close>, the contract of an edit form.
  \<^item> \<open>Admin_Rest\<close>, \<open>Admin_Routes\<close>: the tables of the resource objects, loaders and routes, and what a call of a
    resource sends.  \<open>Admin_Tables\<close> evaluates them; \<open>Admin_Nav\<close>: the requests of each page, and the way from names to a
    path and back.
  \<^item> \<open>Admin_Http\<close>: notifications, the interceptors that add the token, handle errors and count requests.
  \<^item> \<open>Admin_Time\<close>, \<open>Admin_Policy\<close>, \<open>Admin_Pager\<close>, \<open>Admin_Access\<close>, \<open>Admin_Forms\<close>: durations, the password policy, the
    paged lists, the current realm and the rights of the user, and the forms of a realm.
  \<^item> \<open>Admin_Roles\<close>, \<open>Admin_Defaults\<close>, \<open>Admin_Mappings\<close>: composite roles, default roles, role and scope mappings.
  \<^item> \<open>Admin_Users\<close>, \<open>Admin_Clients\<close>: users and their federation (LDAP included), applications and OAuth clients.
  \<^item> \<open>Admin_Filters\<close>: filters, buttons, dialogs and read-only forms.  \<open>Admin_Typed\<close>: the requests of all controllers.
    \<open>Admin_Views\<close>: the controllers that only show what was loaded.

  \<^bold>\<open>Adapter and console together\<close>.  The console creates one client object, logs in with it, asks it for a token
  before each request and registers callbacks on the promise it gets.  A request that has to wait is held by such
  a callback (its phase is \<open>Waiting\<close>) until a refresh is answered.
  \<^item> \<open>Admin_Session\<close>: the two state machines in one, with the events of a session (\<open>sevent\<close>), and its invariant.
    \<open>Admin_Waiting\<close>: a waiting request and the promise that holds it.  \<open>Admin_Console\<close>: which token a request carries
    and what the answer to a refresh does to those that wait, on sessions from the first page on.
  In these properties the functions the console gives to the client neither call it nor throw (\<open>mute\<close>), a request
  let through is sent where the library calls its interceptor back, and Cordova windows do not occur.

  \<^bold>\<open>The libraries behind tables and routes\<close>
  (\<open>forms/common-themes/src/main/resources/theme/common/keycloak/resources/lib/angular\<close>).  The theories of the console
  describe what a call of a resource sends (\<open>rest_call\<close>) and which route a path selects (\<open>find_route\<close>).  These theories
  model the code that does it, and prove the descriptions right.
  \<^item> \<open>Ng_Resource\<close>: \<open>angular-resource.js\<close>, the arguments and parameters of a call, the filling of a template and the
    value of a response; \<open>extend\<close> and \<open>buildUrl\<close> of \<open>angular.js\<close>.  \<open>Ng_Rest\<close>: the filling of a template made of segments,
    and the equality with \<open>rest_call\<close> for all resource objects.
  \<^item> \<open>Ng_Route\<close>: \<open>angular-route.js\<close>, regular expressions of paths, their matches, and the equality with \<open>find_route\<close>.
    \<open>Ng_Router\<close>: \<open>updateRoute\<close> as a transition system, which page is shown when loaders answer late, and redirections.
  \<^item> \<open>Ng_Promise\<close>: \<open>$q\<close> of \<open>angular.js\<close>, on which loaders, routes and interceptors are built: what \<open>then\<close> registers is called
    at most once, a digest ends and calls what is registered on a promise (\<open>QRegister\<close>) with the outcome that promise
    leads to (\<open>leads\<close>) or leaves it waiting, and \<open>all\<close> answers with the outcomes of the promises under its keys.

  \<^bold>\<open>Interfaces\<close>.  The locales state what several components promise in the same way: \<open>edit_contract\<close> (an edit form
  loses no edit unnoticed), \<open>durations\<close> (a form that shows seconds in units), \<open>paged_list\<close> (moving through the
  pages), \<open>dual_list\<close> (moving roles between two lists) and those of the adapter; each is interpreted on the
  functions of the pages, and the properties rest on these interpretations.

  \<^bold>\<open>What the properties show\<close>.  For the adapter: promises deliver, at most one refresh is under way and all who wait are
  answered, a callback is accepted only with the stored state, messages of other origins change nothing, turns end,
  the tokens and what is read from them agree, and the cases in which a promise is never answered or an
  exception leaves a mixed state.  For the console: tables, routes and requests fit together (an evaluation of
  the tables, in which every call fills its placeholders from its arguments or from its body), requests carry the
  token, opening and saving a page unchanged sends back what was loaded, with the exceptions named there, the roles
  of a page are exactly those its answers and the clicks since leave, pages count, rights follow roles, and the
  copies of a page for applications and OAuth clients agree; and several defects, stated as what the code does.

  \<^bold>\<open>Bounds\<close>.  Loops are structural or have a measure, and a turn of the adapter ends by the measure of \<open>Kc_Turns\<close>.
  The only fuel is that of \<open>chase\<close> in \<open>Ng_Promise\<close>, the number of promises, and \<open>chase_enough\<close> shows that a chain which
  ends needs no more; \<open>digest\<close> there is a partial function, with a property that says when it has a result.  Numbers are
  rational, so that rounding and overflow of doubles are not modelled; the conversions between numbers and strings are
  the record \<open>conv\<close>, of which a property assumes at most how a natural number is written.  Strings are byte strings.

  \<^bold>\<open>Not modelled\<close>.  Of the libraries, all third-party, the resource and route modules, the promises and a few functions
  of Angular are modelled from their source, for the uses the console makes of them; its compiler, the watches of its
  scopes and its forms, jQuery, select2, the modal and upload services are not, and what the console relies on in them is
  modelled from their documented behaviour next to its use.  Expressions of paths are as \<open>pathRegExp\<close> builds them from
  paths without the characters it does not escape.  Of the console, the directives that style elements and the
  history of the browser are left out, as are cancel buttons that go back in it.
  The server is the other end of the requests.
\<close>

end
